(* ===== verification/Go_Prelude.thy ===== *)
theory Go_Prelude
  imports Main "HOL-Library.Signed_Division"
begin

text \<open>
  The layer every component theory stands on: Go's fixed-width signed integers as
  \<^typ>\<open>int\<close> with the two's-complement wrap-around written out, the API error values of
  \<^verbatim>\<open>internal/platform/apierr\<close> as a datatype, a result type \<^verbatim>\<open>apierr + 'a\<close> with its sequencing
  combinators, decimal rendering of integers (\<^verbatim>\<open>strconv\<close>), and the generic list lemmas that
  several components share.
\<close>

named_theorems go_int \<open>unfolding of the fixed-width operations\<close>
named_theorems res_simps \<open>inversion of results built with the sequencing combinators\<close>

subsection \<open>Fixed-width integers\<close>

text \<open>
  An \<^verbatim>\<open>int64\<close> or \<^verbatim>\<open>int32\<close> of the program is an \<^typ>\<open>int\<close>; \<open>in64\<close> and \<open>in32\<close> say that a
  value is representable, \<open>wrap64\<close> and \<open>wrap32\<close> reduce a mathematical result to the
  representable one that Go computes. Go's \<open>/\<close> and \<open>%\<close> truncate towards zero
  (\<open>sdiv\<close>, \<open>smod\<close>), and the one overflowing quotient, the least value divided by minus
  one, wraps to itself, which \<open>quot64\<close> gets from \<open>wrap64\<close>.
\<close>

definition min64 :: int where
  "min64 = - 9223372036854775808"

definition max64 :: int where
  "max64 = 9223372036854775807"

definition in64 :: "int \<Rightarrow> bool" where
  "in64 x \<longleftrightarrow> min64 \<le> x \<and> x \<le> max64"

definition in32 :: "int \<Rightarrow> bool" where
  "in32 x \<longleftrightarrow> - 2147483648 \<le> x \<and> x \<le> 2147483647"

definition wrap64 :: "int \<Rightarrow> int" where
  "wrap64 x = (x + 9223372036854775808) mod 18446744073709551616 - 9223372036854775808"

definition wrap32 :: "int \<Rightarrow> int" where
  "wrap32 x = (x + 2147483648) mod 4294967296 - 2147483648"

definition add64 :: "int \<Rightarrow> int \<Rightarrow> int" where
  "add64 a b = wrap64 (a + b)"

definition sub64 :: "int \<Rightarrow> int \<Rightarrow> int" where
  "sub64 a b = wrap64 (a - b)"

definition mul64 :: "int \<Rightarrow> int \<Rightarrow> int" where
  "mul64 a b = wrap64 (a * b)"

definition neg64 :: "int \<Rightarrow> int" where
  "neg64 a = wrap64 (- a)"

definition quot64 :: "int \<Rightarrow> int \<Rightarrow> int" where
  "quot64 a b = wrap64 (a sdiv b)"

definition rem64 :: "int \<Rightarrow> int \<Rightarrow> int" where
  "rem64 a b = a smod b"

definition sub32 :: "int \<Rightarrow> int \<Rightarrow> int" where
  "sub32 a b = wrap32 (a - b)"

lemmas width_defs = min64_def max64_def in64_def in32_def wrap64_def wrap32_def

declare add64_def [go_int] sub64_def [go_int] mul64_def [go_int] neg64_def [go_int]
  sub32_def [go_int]

lemma in64_wrap64 [simp, intro]: "in64 (wrap64 x)"
proof -
  have "0 \<le> (x + 9223372036854775808) mod 18446744073709551616"
    and "(x + 9223372036854775808) mod 18446744073709551616 < 18446744073709551616"
    by simp_all
  then show ?thesis by (simp add: width_defs)
qed

lemma wrap64_id [simp]: "in64 x \<Longrightarrow> wrap64 x = x"
  by (simp add: width_defs)

lemma wrap32_id [simp]: "in32 x \<Longrightarrow> wrap32 x = x"
  by (simp add: width_defs)

lemma in32_wrap32 [simp, intro]: "in32 (wrap32 x)"
proof -
  have "0 \<le> (x + 2147483648) mod 4294967296"
    and "(x + 2147483648) mod 4294967296 < 4294967296"
    by simp_all
  then show ?thesis by (simp add: width_defs)
qed

lemma in32_in64 [intro]: "in32 x \<Longrightarrow> in64 x"
  by (simp add: width_defs)

lemma in64_0 [simp]: "in64 0"
  by (simp add: width_defs)

lemma in64_fixed [simp]: "in64 (add64 a b)" "in64 (sub64 a b)" "in64 (mul64 a b)"
  "in64 (neg64 a)" "in64 (quot64 a b)"
  by (simp_all add: go_int quot64_def)

lemma wrap64_cong: "wrap64 x = wrap64 y \<longleftrightarrow> x mod 18446744073709551616 = y mod 18446744073709551616"
proof
  assume "wrap64 x = wrap64 y"
  then have "(x + 9223372036854775808) mod 18446744073709551616
           = (y + 9223372036854775808) mod 18446744073709551616"
    by (simp add: wrap64_def)
  then have "(x + 9223372036854775808 - 9223372036854775808) mod 18446744073709551616
           = (y + 9223372036854775808 - 9223372036854775808) mod 18446744073709551616"
    by (rule mod_diff_cong) simp
  then show "x mod 18446744073709551616 = y mod 18446744073709551616" by simp
next
  assume "x mod 18446744073709551616 = y mod 18446744073709551616"
  then have "(x + 9223372036854775808) mod 18446744073709551616
           = (y + 9223372036854775808) mod 18446744073709551616"
    by (rule mod_add_cong) simp
  then show "wrap64 x = wrap64 y" by (simp add: wrap64_def)
qed

lemma wrap64_mod: "wrap64 x mod 18446744073709551616 = x mod 18446744073709551616"
  using wrap64_cong [of "wrap64 x" x] by simp

text \<open>
  Wrapping commutes with the ring operations: an inner wrap under a sum, difference or
  product can be dropped. These rules turn a chain of \<^verbatim>\<open>+=\<close> on \<^verbatim>\<open>int64\<close> into one wrap of
  the mathematical sum.
\<close>

lemma wrap64_push [simp]:
  "wrap64 (wrap64 a + b) = wrap64 (a + b)" "wrap64 (a + wrap64 b) = wrap64 (a + b)"
  "wrap64 (wrap64 a - b) = wrap64 (a - b)" "wrap64 (a - wrap64 b) = wrap64 (a - b)"
  "wrap64 (- wrap64 a) = wrap64 (- a)"
  "wrap64 (wrap64 a * b) = wrap64 (a * b)" "wrap64 (a * wrap64 b) = wrap64 (a * b)"
  unfolding wrap64_cong
  by (rule mod_add_cong mod_diff_cong mod_mult_cong mod_minus_cong; simp add: wrap64_mod)+

lemma wrap64_multiple: "\<exists>k. wrap64 x = x - k * 18446744073709551616"
proof -
  have "x - (x + 9223372036854775808) div 18446744073709551616 * 18446744073709551616 = wrap64 x"
    unfolding wrap64_def
    using div_mult_mod_eq [of "x + 9223372036854775808" "18446744073709551616"]
    by linarith
  then show ?thesis by metis
qed

lemma wrap64_eq_iff: "wrap64 x = wrap64 y \<longleftrightarrow> (\<exists>k. x = y + k * 18446744073709551616)"
proof -
  have "x mod 18446744073709551616 = y mod 18446744073709551616 \<longleftrightarrow> 18446744073709551616 dvd x - y"
    by (rule mod_eq_dvd_iff)
  also have "\<dots> \<longleftrightarrow> (\<exists>k. x - y = 18446744073709551616 * k)" by (simp only: dvd_def)
  also have "\<dots> \<longleftrightarrow> (\<exists>k. x = y + k * 18446744073709551616)" by (simp add: algebra_simps)
  finally show ?thesis by (simp only: wrap64_cong)
qed

lemma quot64_eq: "in64 (a sdiv b) \<Longrightarrow> quot64 a b = a sdiv b"
  by (simp add: quot64_def)

lemma sdiv_nonneg: "0 \<le> a \<Longrightarrow> 0 < b \<Longrightarrow> a sdiv b = a div (b :: int)"
  by (cases "a = 0") (simp_all add: signed_divide_int_def)

lemma smod_nonneg: "0 \<le> a \<Longrightarrow> 0 < b \<Longrightarrow> a smod b = a mod (b :: int)"
  by (cases "a = 0") (simp_all add: signed_modulo_int_def)

lemma quot64_nonneg: "0 \<le> a \<Longrightarrow> 0 < b \<Longrightarrow> in64 a \<Longrightarrow> quot64 a b = a div b"
proof -
  assume a: "0 \<le> a" "0 < b" "in64 a"
  have "0 \<le> a div b" using a by (simp add: pos_imp_zdiv_nonneg_iff)
  moreover have "a div b \<le> a div 1" using a by (intro zdiv_mono2) simp_all
  ultimately have "in64 (a div b)" using a(3) by (simp add: in64_def min64_def)
  then show ?thesis using a by (simp add: quot64_def sdiv_nonneg)
qed

lemma rem64_nonneg: "0 \<le> a \<Longrightarrow> 0 < b \<Longrightarrow> rem64 a b = a mod b"
  by (simp add: rem64_def smod_nonneg)

subsection \<open>Errors and results\<close>

text \<open>
  The constructors of \<^verbatim>\<open>internal/platform/apierr\<close> the modelled code uses. A conflict carries
  its machine-readable code, the others the message (or the resource named in it); the
  structured details, the HTTP status and the formatted part of a message are presentation
  and are left out. \<open>Panic\<close> is a Go run-time panic, which the recovery middleware turns
  into a 500 and which rolls the enclosing transaction back.
\<close>

datatype apierr =
    Validation string
  | BadRequest string
  | Conflict string
  | Forbidden string
  | NotFound string
  | Internal
  | Panic string

type_synonym 'a result = "apierr + 'a"

definition bindE :: "'a result \<Rightarrow> ('a \<Rightarrow> 'b result) \<Rightarrow> 'b result" where
  "bindE m f = (case m of Inl e \<Rightarrow> Inl e | Inr x \<Rightarrow> f x)"

text \<open>\<open>ensure c e k\<close>: the early return \<^verbatim>\<open>if !c { return e }\<close> before the rest \<open>k\<close>.\<close>

definition ensure :: "bool \<Rightarrow> apierr \<Rightarrow> 'a result \<Rightarrow> 'a result" where
  "ensure c e k = (if c then k else Inl e)"

lemma bindE_simps [simp]: "bindE (Inl e) f = Inl e" "bindE (Inr x) f = f x"
  by (simp_all add: bindE_def)

lemma ensure_simps [simp]: "ensure True e k = k" "ensure False e k = Inl e"
  by (simp_all add: ensure_def)

lemma bindE_Inr [res_simps]: "bindE m f = Inr y \<longleftrightarrow> (\<exists>x. m = Inr x \<and> f x = Inr y)"
  by (cases m) simp_all

lemma bindE_Inl: "bindE m f = Inl e \<longleftrightarrow> m = Inl e \<or> (\<exists>x. m = Inr x \<and> f x = Inl e)"
  by (cases m) simp_all

lemma ensure_Inr [res_simps]: "ensure c e k = Inr y \<longleftrightarrow> c \<and> k = Inr y"
  by (simp add: ensure_def)

lemma ensure_Inl: "ensure c e k = Inl e' \<longleftrightarrow> (\<not> c \<and> e = e') \<or> (c \<and> k = Inl e')"
  by (auto simp: ensure_def)

lemma bindE_cong [fundef_cong]:
  "m = m' \<Longrightarrow> (\<And>x. m' = Inr x \<Longrightarrow> f x = f' x) \<Longrightarrow> bindE m f = bindE m' f'"
  by (cases m') simp_all

lemma ensure_cong [fundef_cong, cong]:
  "c = c' \<Longrightarrow> e = e' \<Longrightarrow> (c' \<Longrightarrow> k = k') \<Longrightarrow> ensure c e k = ensure c' e' k'"
  by (simp add: ensure_def)

definition opt_or :: "'a option \<Rightarrow> apierr \<Rightarrow> 'a result" where
  "opt_or m e = (case m of None \<Rightarrow> Inl e | Some x \<Rightarrow> Inr x)"

lemma opt_or_simps [simp]: "opt_or None e = Inl e" "opt_or (Some x) e = Inr x"
  by (simp_all add: opt_or_def)

lemma opt_or_Inr [res_simps]: "opt_or m e = Inr x \<longleftrightarrow> m = Some x"
  by (cases m) simp_all

lemma opt_or_Inl: "opt_or m e = Inl e' \<longleftrightarrow> m = None \<and> e = e'"
  by (cases m) auto

text \<open>A Go \<^verbatim>\<open>for\<close> loop with an early error return, threading a state.\<close>

fun foldE :: "('a \<Rightarrow> 's \<Rightarrow> 's result) \<Rightarrow> 'a list \<Rightarrow> 's \<Rightarrow> 's result" where
  "foldE f [] s = Inr s"
| "foldE f (x # xs) s = bindE (f x s) (foldE f xs)"

lemma foldE_append: "foldE f (xs @ ys) s = bindE (foldE f xs s) (foldE f ys)"
  by (induction xs arbitrary: s) (auto simp: bindE_def split: sum.splits)

lemma foldE_inv:
  assumes "foldE f xs s = Inr t" and "P s"
    and "\<And>x s s'. x \<in> set xs \<Longrightarrow> P s \<Longrightarrow> f x s = Inr s' \<Longrightarrow> P s'"
  shows "P t"
  using assms
proof (induction xs arbitrary: s)
  case Nil
  then show ?case by simp
next
  case (Cons x xs)
  from Cons.prems(1) obtain u where u: "f x s = Inr u" and t: "foldE f xs u = Inr t"
    by (auto simp: res_simps)
  have "P u" using Cons.prems u by force
  with t show ?case
  proof (rule Cons.IH)
    fix y a b
    assume "y \<in> set xs" "P a" "f y a = Inr b"
    then show "P b" using Cons.prems(3) [of y a b] by simp
  qed
qed

subsection \<open>Decimal text\<close>

text \<open>\<^verbatim>\<open>strconv.FormatInt(v, 10)\<close> and the value of a run of decimal digits.\<close>

definition digit :: "nat \<Rightarrow> char" where
  "digit d = char_of (48 + d)"

fun dec :: "nat \<Rightarrow> string" where
  "dec n = (if n < 10 then [digit n] else dec (n div 10) @ [digit (n mod 10)])"

declare dec.simps [simp del]

definition FormatInt :: "int \<Rightarrow> string" where
  "FormatInt v = (if v < 0 then CHR ''-'' # dec (nat (- v)) else dec (nat v))"

definition is_digit :: "char \<Rightarrow> bool" where
  "is_digit c \<longleftrightarrow> 48 \<le> (of_char c :: nat) \<and> (of_char c :: nat) \<le> 57"

definition undec :: "string \<Rightarrow> nat" where
  "undec s = foldl (\<lambda>a c. 10 * a + (of_char c - 48)) 0 s"

lemma of_char_digit [simp]: "d < 10 \<Longrightarrow> (of_char (digit d) :: nat) = 48 + d"
  by (simp add: digit_def)

lemma digit_simps [simp]:
  "digit 0 = CHR ''0''" "digit (Suc 0) = CHR ''1''" "digit 1 = CHR ''1''" "digit 2 = CHR ''2''" "digit 3 = CHR ''3''"
  "digit 4 = CHR ''4''" "digit 5 = CHR ''5''" "digit 6 = CHR ''6''" "digit 7 = CHR ''7''"
  "digit 8 = CHR ''8''" "digit 9 = CHR ''9''"
  by code_simp+

lemma replicate_num: "replicate (numeral k) x = x # replicate (pred_numeral k) x"
  by (simp add: numeral_eq_Suc)

lemma is_digit_digit [simp]: "d < 10 \<Longrightarrow> is_digit (digit d)"
  by (simp add: is_digit_def)

lemma dec_digits: "\<forall>c \<in> set (dec n). is_digit c"
proof (induction n rule: dec.induct)
  case (1 n)
  then show ?case by (cases "n < 10") (auto simp: dec.simps [of n])
qed

lemma dec_nonempty [simp]: "dec n \<noteq> []"
  by (subst dec.simps) simp

lemma undec_snoc: "undec (s @ [c]) = 10 * undec s + (of_char c - 48)"
  by (simp add: undec_def)

lemma undec_append: "undec (s @ t) = undec s * 10 ^ length t + undec t"
proof (induction t rule: rev_induct)
  case Nil
  then show ?case by (simp add: undec_def)
next
  case (snoc c t)
  then show ?case
    by (simp add: undec_snoc append_assoc [symmetric] algebra_simps del: append_assoc)
qed

lemma undec_dec [simp]: "undec (dec n) = n"
proof (induction n rule: dec.induct)
  case (1 n)
  then show ?case
    by (cases "n < 10") (simp_all add: dec.simps [of n] undec_snoc, simp_all add: undec_def)
qed

lemma undec_replicate_0 [simp]: "undec (replicate k (CHR ''0'') @ s) = undec s"
  by (induction k) (simp_all add: undec_def)

lemma dec_length: "n < 10 ^ k \<Longrightarrow> 0 < k \<Longrightarrow> length (dec n) \<le> k"
proof (induction n arbitrary: k rule: dec.induct)
  case (1 n)
  show ?case
  proof (cases "n < 10")
    case True
    then show ?thesis using 1 by (simp add: dec.simps [of n])
  next
    case False
    then have "k \<noteq> Suc 0" using 1(2) by auto
    with 1(3) obtain j where k: "k = Suc j" and "0 < j"
      by (cases k) auto
    have "n div 10 < 10 ^ j" using 1(2) k by (simp add: less_mult_imp_div_less mult.commute)
    then have "length (dec (n div 10)) \<le> j" using 1(1) False \<open>0 < j\<close> by blast
    then show ?thesis using False k by (simp add: dec.simps [of n])
  qed
qed

text \<open>\<open>%0wd\<close> of \<^verbatim>\<open>fmt\<close> on a non-negative number: zero-padded to at least \<open>w\<close> digits.\<close>

definition pad_dec :: "nat \<Rightarrow> nat \<Rightarrow> string" where
  "pad_dec w n = replicate (w - length (dec n)) (CHR ''0'') @ dec n"

text \<open>\<open>%0wd\<close> on any integer: the sign counts in the width.\<close>

definition format_0d :: "nat \<Rightarrow> int \<Rightarrow> string" where
  "format_0d w v = (if v < 0 then CHR ''-'' # pad_dec (w - 1) (nat (- v)) else pad_dec w (nat v))"

lemma undec_pad_dec [simp]: "undec (pad_dec w n) = n"
  by (simp add: pad_dec_def)

lemma pad_dec_inject: "pad_dec w m = pad_dec w n \<longleftrightarrow> m = n"
  by (metis undec_pad_dec)

lemma length_pad_dec: "n < 10 ^ w \<Longrightarrow> 0 < w \<Longrightarrow> length (pad_dec w n) = w"
  using dec_length [of n w] by (simp add: pad_dec_def)

lemma pad_dec_digits: "\<forall>c \<in> set (pad_dec w n). is_digit c"
  using dec_digits [of n] by (auto simp: pad_dec_def is_digit_def)

subsection \<open>Lists\<close>

text \<open>An accumulating \<^verbatim>\<open>int64\<close> sum, and what it is: the wrapped mathematical sum.\<close>

fun sum64 :: "int \<Rightarrow> int list \<Rightarrow> int" where
  "sum64 acc [] = acc"
| "sum64 acc (x # xs) = sum64 (add64 acc x) xs"

lemma sum64_wrap: "in64 acc \<Longrightarrow> sum64 acc xs = wrap64 (acc + sum_list xs)"
proof (induction xs arbitrary: acc)
  case Nil
  then show ?case by simp
next
  case (Cons x xs)
  then show ?case by (simp add: add64_def add.assoc)
qed

lemma sum64_exact: "in64 (sum_list xs) \<Longrightarrow> sum64 0 xs = sum_list xs"
  by (simp add: sum64_wrap)

lemma find_SomeD: "find P xs = Some x \<Longrightarrow> x \<in> set xs \<and> P x"
  by (induction xs) (auto split: if_splits)

text \<open>Sums over a list split by a key: grouping loses nothing and counts nothing twice.\<close>

lemma sum_list_filter_disjoint:
  fixes f :: "'a \<Rightarrow> 'b :: comm_monoid_add"
  assumes "\<And>x. x \<in> set xs \<Longrightarrow> \<not> (P x \<and> Q x)"
  shows "sum_list (map f (filter P xs)) + sum_list (map f (filter Q xs))
       = sum_list (map f (filter (\<lambda>x. P x \<or> Q x) xs))"
  using assms by (induction xs) (auto simp: ac_simps)

lemma sum_list_group:
  fixes f :: "'a \<Rightarrow> 'b :: comm_monoid_add"
  assumes "distinct (map g as)"
  shows "sum_list (map (\<lambda>a. sum_list (map f (filter (\<lambda>e. k e = g a \<and> P e) es))) as)
       = sum_list (map f (filter (\<lambda>e. k e \<in> g ` set as \<and> P e) es))"
  using assms
proof (induction as)
  case (Cons a as)
  have "sum_list (map f (filter (\<lambda>e. k e = g a \<and> P e) es))
      + sum_list (map f (filter (\<lambda>e. k e \<in> g ` set as \<and> P e) es))
      = sum_list (map f (filter (\<lambda>e. (k e = g a \<and> P e) \<or> (k e \<in> g ` set as \<and> P e)) es))"
    by (rule sum_list_filter_disjoint) (use Cons.prems in auto)
  moreover have "filter (\<lambda>e. (k e = g a \<and> P e) \<or> (k e \<in> g ` set as \<and> P e)) es
      = filter (\<lambda>e. k e \<in> g ` set (a # as) \<and> P e) es"
    by (rule filter_cong) auto
  ultimately show ?case using Cons by simp
qed simp

lemma in64_sum64: "in64 acc \<Longrightarrow> in64 (sum64 acc xs)"
  by (simp add: sum64_wrap)

text \<open>\<^verbatim>\<open>len([]rune(s))\<close> of UTF-8 text: the bytes that are not continuation bytes.\<close>

definition rune_count :: "string \<Rightarrow> nat" where
  "rune_count s = length (filter (\<lambda>c. \<not> (128 \<le> (of_char c :: nat) \<and> (of_char c :: nat) < 192)) s)"

text \<open>
  \<^verbatim>\<open>ORDER BY a, b\<close> is a stable sort by the last column first: sorting by \<open>f\<close> what \<open>R\<close> already orders is
  lexicographic.
\<close>

lemma insort_key_lex:
  assumes "sorted_wrt (\<lambda>a b. f a < f b \<or> f a = f b \<and> R a b) ys" and "\<forall>y\<in>set ys. R x y"
  shows "sorted_wrt (\<lambda>a b. f a < f b \<or> f a = f b \<and> R a b) (insort_key f x ys)"
  using assms by (induction ys) (fastforce simp: set_insort_key)+

lemma sort_key_lex:
  "sorted_wrt R xs \<Longrightarrow> sorted_wrt (\<lambda>a b. f a < f b \<or> f a = f b \<and> R a b) (sort_key f xs)"
  by (induction xs) (simp_all add: insort_key_lex)

subsection \<open>Rows of a table\<close>

text \<open>An \<^verbatim>\<open>UPDATE\<close> of the one row with a key, and sums over the rows after it.\<close>

lemma keyed_update:
  assumes "find g xs = Some x" "distinct (map k xs)" "\<And>u. g u \<Longrightarrow> k u = i" "\<And>u. k (f u) = k u"
  shows "x \<in> set xs" "g x" "k x = i" "map (\<lambda>u. if g u then f u else u) xs = map (\<lambda>u. if k u = i then f x else u) xs"
    and "map k (map (\<lambda>u. if g u then f u else u) xs) = map k xs"
proof -
  show x: "x \<in> set xs" and g: "g x" using find_SomeD [OF assms(1)] by auto
  show i: "k x = i" using assms(3) [OF g] .
  have "u = x" if "u \<in> set xs" "k u = i" for u using that x i assms(2) by (metis distinct_map inj_onD)
  then show "map (\<lambda>u. if g u then f u else u) xs = map (\<lambda>u. if k u = i then f x else u) xs" using g assms(3) by (intro map_cong) auto
  show "map k (map (\<lambda>u. if g u then f u else u) xs) = map k xs" using assms(4) by (simp add: comp_def)
qed

lemma sum_list_update_one:
  fixes h :: "'a \<Rightarrow> int"
  assumes "distinct (map k xs)" "x \<in> set xs"
  shows "sum_list (map h (map (\<lambda>u. if k u = k x then y else u) xs)) = sum_list (map h xs) - h x + h y"
  using assms
proof (induction xs)
  case (Cons u xs)
  show ?case
  proof (cases "u = x")
    case True
    then have "map (\<lambda>u. if k u = k x then y else u) xs = xs" using Cons.prems(1) by (intro map_idI) (auto simp: image_iff)
    then show ?thesis using True by (simp add: comp_def)
  next
    case False
    then have "x \<in> set xs" "k u \<noteq> k x" using Cons.prems by auto
    then show ?thesis using Cons by simp
  qed
qed simp

lemma key_update_keys: "k r = i \<Longrightarrow> map k (map (\<lambda>u. if k u = i then r else u) xs) = map k xs"
  by simp

lemma wrap64_sum_list: "wrap64 (sum_list (map (\<lambda>x. wrap64 (f x)) xs)) = wrap64 (sum_list (map f xs))"
proof (induction xs)
  case (Cons x xs)
  have "wrap64 (f x + sum_list (map (\<lambda>x. wrap64 (f x)) xs)) = wrap64 (f x + wrap64 (sum_list (map (\<lambda>x. wrap64 (f x)) xs)))" by simp
  then show ?case using Cons by simp
qed simp

lemma update_row_ex:
  assumes "\<exists>j\<in>set xs. k j = m \<and> P j" "P r" "k r = k i"
  shows "\<exists>j\<in>set (map (\<lambda>u. if k u = k i then r else u) xs). k j = m \<and> P j"
proof -
  obtain j where j: "j \<in> set xs" "k j = m" "P j" using assms(1) by blast
  then show ?thesis using assms(2,3) by (intro bexI [of _ "if k j = k i then r else j"]) auto
qed

lemma sum_list_filter_if: "sum_list (map f (filter P xs)) = sum_list (map (\<lambda>x. if P x then f x else (0::int)) xs)"
  by (induction xs) auto

end
