(* ===== verification/Lifecycle.thy ===== *)
theory Lifecycle
  imports Main
begin

text \<open>
  The contract of a status machine with final states, shared by every component whose rows
  carry a status column: an edge relation, the states that are final, and a rank that some
  edge lowers from every state that is not final. A machine with these laws never leaves a
  final state and can always reach one.
\<close>

text \<open>A set of states no edge leaves: whoever is inside stays inside.\<close>

lemma rtranclp_trapped:
  assumes "\<And>s t. s \<in> S \<Longrightarrow> R s t \<Longrightarrow> t \<in> S"
  shows "R\<^sup>*\<^sup>* s t \<Longrightarrow> s \<in> S \<Longrightarrow> t \<in> S"
  by (induction rule: rtranclp_induct) (auto intro: assms)

locale lifecycle =
  fixes edge :: "'s \<Rightarrow> 's \<Rightarrow> bool"
    and final :: "'s \<Rightarrow> bool"
    and rank :: "'s \<Rightarrow> nat"
  assumes final_stuck: "final s \<Longrightarrow> \<not> edge s t"
    and escape: "\<not> final s \<Longrightarrow> \<exists>t. edge s t \<and> rank t < rank s"
begin

lemma final_absorbing: "edge\<^sup>*\<^sup>* s t \<Longrightarrow> final s \<Longrightarrow> t = s"
  by (induction rule: rtranclp_induct) (auto simp: final_stuck)

lemma final_iff_stuck: "final s \<longleftrightarrow> (\<forall>t. \<not> edge s t)"
  using final_stuck escape by blast

lemma can_finish: "\<exists>t. final t \<and> edge\<^sup>*\<^sup>* s t"
proof (induction "rank s" arbitrary: s rule: less_induct)
  case less
  show ?case
  proof (cases "final s")
    case True
    then show ?thesis by blast
  next
    case False
    with escape obtain u where "edge s u" "rank u < rank s" by blast
    with less obtain t where "final t" "edge\<^sup>*\<^sup>* u t" by blast
    with \<open>edge s u\<close> show ?thesis by (meson converse_rtranclp_into_rtranclp)
  qed
qed

end

end
