(* ===== verification/Money.thy ===== *)
theory Money
  imports Go_Prelude
begin

text \<open>
  \<^verbatim>\<open>internal/platform/money/money.go\<close>: monetary arithmetic in integer minor units. Currencies
  and amounts, the half-up rounding rule, checked multiplication, basis points, clamping,
  and the decimal rendering and parsing of minor units. Functions that can panic return a
  result; the errors of this package that are not API errors have a datatype of their own.
\<close>

subsection \<open>Currencies and amounts\<close>

type_synonym Currency = string

definition INR :: Currency where "INR = ''INR''"
definition NGN :: Currency where "NGN = ''NGN''"
definition USD :: Currency where "USD = ''USD''"

definition Exponent :: "Currency \<Rightarrow> int" where
  "Exponent c = (if c = INR \<or> c = NGN \<or> c = USD then 2 else 2)"

definition supported :: "Currency list" where
  "supported = [INR, NGN, USD]"

definition Valid :: "Currency \<Rightarrow> bool" where
  "Valid c \<longleftrightarrow> length c = 3 \<and> (\<forall>x \<in> set c. 65 \<le> (of_char x :: nat) \<and> (of_char x :: nat) \<le> 90)"

definition Supported :: "Currency \<Rightarrow> bool" where
  "Supported c \<longleftrightarrow> c \<in> set supported"

definition SupportedCodes :: "string list" where
  "SupportedCodes = map (\<lambda>c. c) supported"

datatype money_error =
    ErrCurrencyMismatch
  | EmptyAmount
  | InvalidAmount
  | TooManyDecimals
  | AmountOutOfRange

record Amount =
  Minor :: int
  AmtCurrency :: Currency

definition Amount_New :: "int \<Rightarrow> Currency \<Rightarrow> Amount" where
  "Amount_New minor c = \<lparr>Minor = minor, AmtCurrency = c\<rparr>"

definition Amount_Zero :: "Currency \<Rightarrow> Amount" where
  "Amount_Zero c = \<lparr>Minor = 0, AmtCurrency = c\<rparr>"

definition Amount_Add :: "Amount \<Rightarrow> Amount \<Rightarrow> money_error + Amount" where
  "Amount_Add a b =
     (if AmtCurrency a \<noteq> AmtCurrency b then Inl ErrCurrencyMismatch
      else Inr \<lparr>Minor = add64 (Minor a) (Minor b), AmtCurrency = AmtCurrency a\<rparr>)"

definition Amount_Sub :: "Amount \<Rightarrow> Amount \<Rightarrow> money_error + Amount" where
  "Amount_Sub a b =
     (if AmtCurrency a \<noteq> AmtCurrency b then Inl ErrCurrencyMismatch
      else Inr \<lparr>Minor = sub64 (Minor a) (Minor b), AmtCurrency = AmtCurrency a\<rparr>)"

subsection \<open>Rounding and checked multiplication\<close>

definition abs64 :: "int \<Rightarrow> int" where
  "abs64 v = (if v < 0 then neg64 v else v)"

definition divRoundHalfUp :: "int \<Rightarrow> int \<Rightarrow> int result" where
  "divRoundHalfUp n d =
     (if d = 0 then Inl (Panic ''money: division by zero'')
      else
        let neg = ((n < 0) \<noteq> (d < 0));
            an = abs64 n; ad = abs64 d;
            q = quot64 an ad;
            r = rem64 an ad;
            q' = (if mul64 r 2 \<ge> ad then add64 q 1 else q)
        in Inr (if neg then neg64 q' else q'))"

definition DivRoundHalfUp :: "int \<Rightarrow> int \<Rightarrow> int result" where
  "DivRoundHalfUp numerator denominator = divRoundHalfUp numerator denominator"

definition mulSaturating :: "int \<Rightarrow> int \<Rightarrow> int result" where
  "mulSaturating a b =
     (if a = 0 \<or> b = 0 then Inr 0
      else
        let p = mul64 a b
        in if quot64 p b \<noteq> a then Inl (Panic ''money: multiplication overflow'')
           else Inr p)"

definition Percent :: "int \<Rightarrow> int" where
  "Percent p = wrap32 (mul64 p 100)"

definition ApplyBP :: "int \<Rightarrow> int \<Rightarrow> int result" where
  "ApplyBP base bp = bindE (mulSaturating base bp) (\<lambda>m. divRoundHalfUp m 10000)"

definition ApplyPerUnit :: "int \<Rightarrow> int \<Rightarrow> int result" where
  "ApplyPerUnit ratePerUnit units = mulSaturating ratePerUnit units"

definition Clamp :: "int \<Rightarrow> int option \<Rightarrow> int option \<Rightarrow> int" where
  "Clamp v mn mx =
     (let v1 = (case mn of Some m \<Rightarrow> if v < m then m else v | None \<Rightarrow> v)
      in case mx of Some m \<Rightarrow> if v1 > m then m else v1 | None \<Rightarrow> v1)"

subsection \<open>Decimal rendering and parsing\<close>

text \<open>The loop \<^verbatim>\<open>for i := 0; i < exponent; i++ { div *= 10 }\<close>.\<close>

fun pow10_64 :: "nat \<Rightarrow> int" where
  "pow10_64 0 = 1"
| "pow10_64 (Suc n) = mul64 (pow10_64 n) 10"

definition FormatMinor :: "int \<Rightarrow> int \<Rightarrow> string result" where
  "FormatMinor minor exponent =
     (if exponent \<le> 0 then Inr (FormatInt minor)
      else
        let neg = (minor < 0);
            v = abs64 minor;
            dv = pow10_64 (nat exponent)
        in if dv = 0 then Inl (Panic ''runtime error: integer divide by zero'')
           else
             let major = quot64 v dv;
                 frac = rem64 v dv;
                 fs = FormatInt frac
             in Inr ((if neg then ''-'' else '''') @ FormatInt major @ ''.''
                     @ replicate (nat exponent - length fs) (CHR ''0'') @ fs))"

definition Amount_String :: "Amount \<Rightarrow> string result" where
  "Amount_String a =
     bindE (FormatMinor (Minor a) (Exponent (AmtCurrency a)))
       (\<lambda>s. Inr (AmtCurrency a @ '' '' @ s))"

text \<open>
  \<^verbatim>\<open>strings.TrimSpace\<close> removes Unicode white space at both ends. The strings are byte
  strings; a white-space code point is one of the following UTF-8 sequences.
\<close>

definition space_seqs :: "nat list list" where
  "space_seqs =
     [[9], [10], [11], [12], [13], [32], [0xC2, 0x85], [0xC2, 0xA0], [0xE1, 0x9A, 0x80]]
     @ map (\<lambda>b. [0xE2, 0x80, b]) [0x80 ..< 0x8B]
     @ [[0xE2, 0x80, 0xA8], [0xE2, 0x80, 0xA9], [0xE2, 0x80, 0xAF], [0xE2, 0x81, 0x9F],
        [0xE3, 0x80, 0x80]]"

definition is_prefix :: "'a list \<Rightarrow> 'a list \<Rightarrow> bool" where
  "is_prefix p s \<longleftrightarrow> take (length p) s = p"

fun trim_front :: "nat \<Rightarrow> string list \<Rightarrow> string \<Rightarrow> string" where
  "trim_front 0 seqs s = s"
| "trim_front (Suc n) seqs s =
     (case find (\<lambda>p. is_prefix p s) seqs of
        Some p \<Rightarrow> trim_front n seqs (drop (length p) s)
      | None \<Rightarrow> s)"

definition TrimSpace :: "string \<Rightarrow> string" where
  "TrimSpace s =
     (let seqs = map (map char_of) space_seqs;
          l = trim_front (length s) seqs s
      in rev (trim_front (length l) (map rev seqs) (rev l)))"

text \<open>\<^verbatim>\<open>strings.Cut(s, ".")\<close>: the text before and after the first dot, and whether there is one.\<close>

definition Cut_dot :: "string \<Rightarrow> string \<times> string \<times> bool" where
  "Cut_dot s =
     (let before = takeWhile (\<lambda>c. c \<noteq> CHR ''.'') s
      in if length before = length s then (s, '''', False)
         else (before, drop (Suc (length before)) s, True))"

definition ParseMinor :: "string \<Rightarrow> int \<Rightarrow> money_error + int" where
  "ParseMinor s0 exponent =
     (let s1 = TrimSpace s0
      in if s1 = '''' then Inl EmptyAmount
         else
           let neg = (hd s1 = CHR ''-'');
               s = (if hd s1 = CHR ''-'' \<or> hd s1 = CHR ''+'' then tl s1 else s1);
               (intPart0, fracPart0, hasFrac) = Cut_dot s
           in if intPart0 = '''' \<and> \<not> hasFrac then Inl InvalidAmount
              else
                let intPart = (if intPart0 = '''' then ''0'' else intPart0)
                in if int (length fracPart0) > exponent then Inl TooManyDecimals
                   else
                     let fracPart = fracPart0 @ replicate (nat exponent - length fracPart0) (CHR ''0'');
                         digits = intPart @ fracPart
                     in if \<not> list_all is_digit digits then Inl InvalidAmount
                        else if int (undec digits) > max64 then Inl AmountOutOfRange
                        else Inr (if neg then neg64 (int (undec digits)) else int (undec digits)))"

subsection \<open>The rounding rule\<close>

text \<open>
  The reference definition of the platform's rounding: the quotient rounded to the nearest
  integer, ties away from zero.
\<close>

definition round_half_away :: "int \<Rightarrow> int \<Rightarrow> int" where
  "round_half_away n d = sgn n * sgn d * ((2 * \<bar>n\<bar> + \<bar>d\<bar>) div (2 * \<bar>d\<bar>))"

lemma abs64_eq: "in64 v \<Longrightarrow> v \<noteq> min64 \<Longrightarrow> abs64 v = \<bar>v\<bar>"
  by (simp add: abs64_def neg64_def width_defs)

lemma half_up_step:
  fixes an ad :: int
  assumes "0 \<le> an" "0 < ad"
  shows "(if 2 * (an mod ad) \<ge> ad then an div ad + 1 else an div ad) = (2 * an + ad) div (2 * ad)"
proof -
  have an: "an = an div ad * ad + an mod ad" by simp
  have r: "0 \<le> an mod ad" "an mod ad < ad" using assms by simp_all
  have "(2 * an + ad) div (2 * ad) = (2 * (an mod ad) + ad + an div ad * (2 * ad)) div (2 * ad)"
    using an by (metis (no_types, opaque_lifting) add.commute add.left_commute distrib_left
        mult.left_commute)
  also have "\<dots> = an div ad + (2 * (an mod ad) + ad) div (2 * ad)"
    using assms by (subst div_mult_self1) simp_all
  also have "(2 * (an mod ad) + ad) div (2 * ad) = (if 2 * (an mod ad) \<ge> ad then 1 else 0)"
  proof (cases "2 * (an mod ad) \<ge> ad")
    case True
    then have "(2 * (an mod ad) + ad) div (2 * ad) = 1"
      using r by (intro int_div_pos_eq [where r = "2 * (an mod ad) - ad"]) auto
    with True show ?thesis by simp
  next
    case False
    then show ?thesis using r by (simp add: div_pos_pos_trivial)
  qed
  finally show ?thesis by simp
qed

lemma half_up_bound:
  fixes an ad :: int
  assumes "0 \<le> an" "0 < ad"
  shows "0 \<le> (2 * an + ad) div (2 * ad)" and "(2 * an + ad) div (2 * ad) \<le> max 1 an"
proof -
  show "0 \<le> (2 * an + ad) div (2 * ad)" using assms by (simp add: pos_imp_zdiv_nonneg_iff)
  show "(2 * an + ad) div (2 * ad) \<le> max 1 an"
  proof (cases "ad = 1")
    case True
    then show ?thesis by simp
  next
    case False
    then have "an div ad \<le> an div 2" using assms by (intro zdiv_mono2) auto
    then have "(if 2 * (an mod ad) \<ge> ad then an div ad + 1 else an div ad) \<le> an div 2 + 1"
      by simp
    then show ?thesis
      unfolding half_up_step [OF assms] using assms(1) by linarith
  qed
qed

lemma sgn_xor: "n \<noteq> 0 \<Longrightarrow> d \<noteq> 0 \<Longrightarrow>
    sgn n * sgn d = (if (n < 0) \<noteq> (d < 0) then - 1 else (1 :: int))"
  by (auto simp: sgn_if)

lemma divRoundHalfUp_eq:
  assumes "in64 n" "n \<noteq> min64" "d \<noteq> 0" "\<bar>d\<bar> \<le> 4611686018427387904"
  shows "divRoundHalfUp n d = Inr (round_half_away n d)"
proof -
  let ?an = "\<bar>n\<bar>" and ?ad = "\<bar>d\<bar>"
  let ?h = "(2 * ?an + ?ad) div (2 * ?ad)"
  have ad: "0 < ?ad" and an: "0 \<le> ?an" using assms by simp_all
  have abs: "abs64 n = ?an" "abs64 d = ?ad"
    using assms by (auto intro!: abs64_eq simp: width_defs)
  have n64: "in64 ?an" using assms(1,2) by (simp add: width_defs abs_if)
  have m: "mul64 (?an mod ?ad) 2 = 2 * (?an mod ?ad)"
    using pos_mod_bound [OF ad, of ?an] pos_mod_sign [OF ad, of ?an] assms(4)
    by (simp add: mul64_def width_defs)
  have h: "in64 ?h" "in64 (- ?h)"
    using half_up_bound [OF an ad] n64 by (simp_all add: width_defs max_def split: if_splits)
  have step: "(if mul64 (rem64 (abs64 n) (abs64 d)) 2 \<ge> abs64 d
        then add64 (quot64 (abs64 n) (abs64 d)) 1 else quot64 (abs64 n) (abs64 d)) = ?h"
    using h(1) half_up_step [OF an ad]
    by (auto simp: abs quot64_nonneg [OF an ad n64] rem64_nonneg [OF an ad] m add64_def
        split: if_splits)
  have "?h = 0" if "n = 0" using that assms(3) by simp
  then show ?thesis
    unfolding divRoundHalfUp_def Let_def step
    using assms(3) h
    by (cases "n = 0") (simp_all add: neg64_def round_half_away_def sgn_xor)
qed

text \<open>
  What the reference definition means: the rounded quotient is at most half a divisor away
  from the exact one, and in a tie its magnitude is the larger of the two candidates.
\<close>

lemma round_half_away_nearest:
  assumes "d \<noteq> 0"
  shows "2 * \<bar>n - round_half_away n d * d\<bar> \<le> \<bar>d\<bar>"
    and "2 * \<bar>n - round_half_away n d * d\<bar> = \<bar>d\<bar> \<Longrightarrow> \<bar>n\<bar> < \<bar>round_half_away n d * d\<bar>"
proof -
  define an ad where "an = \<bar>n\<bar>" and "ad = \<bar>d\<bar>"
  define h r where "h = (2 * an + ad) div (2 * ad)" and "r = (2 * an + ad) mod (2 * ad)"
  have ad: "0 < ad" and an: "0 \<le> an" using assms by (simp_all add: ad_def an_def)
  have h0: "0 \<le> h" using half_up_bound(1) [OF an ad] by (simp add: h_def)
  have split: "2 * an + ad = h * (2 * ad) + r"
    unfolding h_def r_def by (rule div_mult_mod_eq [symmetric])
  have r: "0 \<le> r" "r < 2 * ad" using ad by (simp_all add: r_def)
  have eq: "round_half_away n d * d = sgn n * (h * ad)"
    by (simp add: round_half_away_def h_def an_def ad_def sgn_if)
  have n: "n = sgn n * an" by (simp add: an_def sgn_mult_abs)
  have e: "2 * (an - h * ad) = r - ad" using split by (simp add: algebra_simps)
  have diff: "2 * \<bar>n - round_half_away n d * d\<bar> = \<bar>sgn n\<bar> * \<bar>r - ad\<bar>"
  proof -
    have "n - round_half_away n d * d = sgn n * (an - h * ad)"
      unfolding eq by (subst (1) n) (simp add: algebra_simps)
    then have "2 * (n - round_half_away n d * d) = sgn n * (r - ad)"
      using e by (metis mult.left_commute)
    then show ?thesis by (metis abs_mult abs_numeral)
  qed
  have rb: "\<bar>r - ad\<bar> \<le> ad" using r by linarith
  show "2 * \<bar>n - round_half_away n d * d\<bar> \<le> \<bar>d\<bar>"
    unfolding diff ad_def [symmetric] using rb ad by (cases "n = 0") simp_all
  assume "2 * \<bar>n - round_half_away n d * d\<bar> = \<bar>d\<bar>"
  then have tie: "\<bar>sgn n\<bar> * \<bar>r - ad\<bar> = ad" unfolding diff ad_def [symmetric] .
  then have n0: "n \<noteq> 0" using ad by auto
  then have "\<bar>r - ad\<bar> = ad" using tie by simp
  then have "r = 0" using r by linarith
  then have "2 * (h * ad) = 2 * an + ad" using e by (simp add: algebra_simps)
  then have "an < h * ad" using ad by linarith
  moreover have "\<bar>round_half_away n d * d\<bar> = h * ad"
    unfolding eq using n0 h0 ad by (simp add: abs_mult)
  ultimately show "\<bar>n\<bar> < \<bar>round_half_away n d * d\<bar>" by (simp add: an_def)
qed

subsection \<open>Checked multiplication\<close>

lemma sdiv_mult_near: "b \<noteq> 0 \<Longrightarrow> \<bar>p - p sdiv b * b\<bar> < \<bar>b\<bar>" for p b :: int
proof -
  assume b: "b \<noteq> 0"
  have "p - p sdiv b * b = p smod b" by (rule minus_sdiv_mult_eq_smod)
  moreover have m: "0 \<le> \<bar>p\<bar> mod \<bar>b\<bar>" "\<bar>p\<bar> mod \<bar>b\<bar> < \<bar>b\<bar>" using b by simp_all
  moreover have "\<bar>p smod b\<bar> = \<bar>sgn p\<bar> * (\<bar>p\<bar> mod \<bar>b\<bar>)"
    using m(1) by (simp add: signed_modulo_int_def abs_mult)
  ultimately show ?thesis using b by (cases "p = 0") simp_all
qed

lemma sdiv_mult_cancel: "b \<noteq> 0 \<Longrightarrow> (a * b) sdiv b = a" for a b :: int
  by (simp add: signed_divide_int_def abs_mult sgn_mult) (simp add: sgn_if abs_if)

lemma sdiv_in64:
  assumes "in64 p" "b \<noteq> 0" "\<not> (p = min64 \<and> b = - 1)"
  shows "in64 (p sdiv b)"
proof (cases "b = - 1")
  case True
  then show ?thesis using assms by (simp add: width_defs)
next
  case False
  have "0 \<le> \<bar>p\<bar> div \<bar>b\<bar>" using assms(2) by (simp add: pos_imp_zdiv_nonneg_iff)
  then have "\<bar>p sdiv b\<bar> \<le> \<bar>p\<bar> div \<bar>b\<bar>"
    by (simp add: signed_divide_int_def abs_mult abs_sgn_eq)
  show ?thesis
  proof (cases "b = 1")
    case True
    then show ?thesis using assms by simp
  next
    case False
    with \<open>b \<noteq> - 1\<close> assms(2) have "2 \<le> \<bar>b\<bar>" by linarith
    then have "\<bar>p\<bar> div \<bar>b\<bar> \<le> \<bar>p\<bar> div 2" by (intro zdiv_mono2) simp_all
    moreover have "\<bar>p\<bar> \<le> 9223372036854775808" using assms(1) by (simp add: width_defs abs_if)
    ultimately have "\<bar>p sdiv b\<bar> \<le> 4611686018427387904"
      using \<open>\<bar>p sdiv b\<bar> \<le> \<bar>p\<bar> div \<bar>b\<bar>\<close> by linarith
    then show ?thesis by (simp add: width_defs abs_le_iff)
  qed
qed

text \<open>
  The overflow test of \<open>mulSaturating\<close> compares the wrapped product divided by one factor
  with the other factor. It is exact with one exception, the least \<^verbatim>\<open>int64\<close> times minus one,
  where Go's quotient wraps as the product did and the test passes.
\<close>

lemma mulSaturating_eq:
  assumes "in64 a" "in64 b"
  shows "mulSaturating a b =
    (if in64 (a * b) then Inr (a * b)
     else if a = min64 \<and> b = - 1 then Inr min64
     else Inl (Panic ''money: multiplication overflow''))"
proof (cases "a = 0 \<or> b = 0")
  case True
  then show ?thesis by (auto simp: mulSaturating_def)
next
  case False
  let ?p = "wrap64 (a * b)"
  have exact: "quot64 ?p b = a" if "in64 (a * b)"
    using that assms(1) False by (simp add: quot64_def sdiv_mult_cancel)
  have special: "quot64 ?p b = a \<and> ?p = min64" if "a = min64" "b = - 1"
    using that by (simp add: quot64_def width_defs)
  have out: "quot64 ?p b \<noteq> a" if "\<not> in64 (a * b)" "\<not> (a = min64 \<and> b = - 1)"
  proof
    assume q: "quot64 ?p b = a"
    show False
    proof (cases "?p = min64 \<and> b = - 1")
      case True
      then have "quot64 ?p b = quot64 min64 (- 1)" by metis
      also have "\<dots> = min64" by (simp add: quot64_def width_defs)
      finally have "quot64 ?p b = min64" .
      then show False using q True that(2) by simp
    next
      case neither: False
      then have "quot64 ?p b = ?p sdiv b"
        using False by (intro quot64_eq sdiv_in64) auto
      then have "\<bar>?p - a * b\<bar> < \<bar>b\<bar>" using q sdiv_mult_near [of b ?p] False by simp
      moreover obtain k where k: "?p = a * b - k * 18446744073709551616"
        using wrap64_multiple [of "a * b"] by blast
      moreover have "\<bar>b\<bar> \<le> 9223372036854775808" using assms(2) by (simp add: width_defs abs_if)
      ultimately have "\<bar>k\<bar> < 1" by (simp add: abs_mult)
      then have "?p = a * b" using k by simp
      then show False using that(1) in64_wrap64 [of "a * b"] by simp
    qed
  qed
  show ?thesis
    using False exact special out
    by (auto simp: mulSaturating_def Let_def mul64_def)
qed

subsection \<open>Basis points\<close>

text \<open>The exact amount a percentage stands for, in minor units, under the rounding rule.\<close>

definition bp_value :: "int \<Rightarrow> int \<Rightarrow> int" where
  "bp_value base bp = round_half_away (base * bp) 10000"

lemma ApplyBP_eq:
  assumes "in64 base" "in32 bp" "in64 (base * bp)" "base * bp \<noteq> min64"
  shows "ApplyBP base bp = Inr (bp_value base bp)"
proof -
  have "mulSaturating base bp = Inr (base * bp)"
    using assms mulSaturating_eq [of base bp] in32_in64 [OF assms(2)] by auto
  moreover have "divRoundHalfUp (base * bp) 10000 = Inr (round_half_away (base * bp) 10000)"
    using assms by (intro divRoundHalfUp_eq) simp_all
  ultimately show ?thesis by (simp add: ApplyBP_def bp_value_def)
qed

lemma ApplyBP_overflow:
  assumes "in64 base" "in32 bp" "\<not> in64 (base * bp)" "\<not> (base = min64 \<and> bp = - 1)"
  shows "ApplyBP base bp = Inl (Panic ''money: multiplication overflow'')"
  using assms mulSaturating_eq [of base bp] in32_in64 [OF assms(2)] by (auto simp: ApplyBP_def)

lemma round_half_away_nonneg: "0 \<le> n \<Longrightarrow> 0 < d \<Longrightarrow> round_half_away n d = (2 * n + d) div (2 * d)"
  by (cases "n = 0") (simp_all add: round_half_away_def)

lemma bp_value_nonneg: "0 \<le> base \<Longrightarrow> 0 \<le> bp \<Longrightarrow> 0 \<le> bp_value base bp"
  by (simp add: bp_value_def round_half_away_nonneg pos_imp_zdiv_nonneg_iff)

lemma bp_value_mono: "0 \<le> a \<Longrightarrow> a \<le> b \<Longrightarrow> 0 \<le> bp \<Longrightarrow> bp_value a bp \<le> bp_value b bp"
  by (simp add: bp_value_def round_half_away_nonneg mult_right_mono zdiv_mono1)

lemma bp_value_le: "0 \<le> base \<Longrightarrow> 0 \<le> bp \<Longrightarrow> bp \<le> 10000 \<Longrightarrow> bp_value base bp \<le> base"
proof -
  assume a: "0 \<le> base" "0 \<le> bp" "bp \<le> 10000"
  then have "base * bp \<le> base * 10000" by (simp add: mult_left_mono)
  then have "(2 * (base * bp) + 10000) div 20000 \<le> (2 * (base * 10000) + 10000) div 20000"
    by (intro zdiv_mono1) simp_all
  then show ?thesis using a by (simp add: bp_value_def round_half_away_nonneg)
qed

lemma bp_value_0 [simp]: "bp_value 0 bp = 0" "bp_value base 0 = 0"
  by (simp_all add: bp_value_def round_half_away_def)

text \<open>
  The contract the pricing and commission engines rely on: a percentage of a non-negative
  amount is non-negative, grows with the amount, and does not exceed it up to 100%.
\<close>

locale bp_rounding =
  fixes val :: "int \<Rightarrow> int \<Rightarrow> int"
  assumes val_nonneg: "0 \<le> base \<Longrightarrow> 0 \<le> bp \<Longrightarrow> 0 \<le> val base bp"
    and val_mono: "0 \<le> a \<Longrightarrow> a \<le> b \<Longrightarrow> 0 \<le> bp \<Longrightarrow> val a bp \<le> val b bp"
    and val_le: "0 \<le> base \<Longrightarrow> 0 \<le> bp \<Longrightarrow> bp \<le> 10000 \<Longrightarrow> val base bp \<le> base"
begin

lemma total_nonneg:
  "0 \<le> base \<Longrightarrow> \<forall>bp \<in> set bps. 0 \<le> bp \<Longrightarrow> 0 \<le> sum_list (map (val base) bps)"
  by (auto intro!: sum_list_nonneg val_nonneg)

lemma total_mono:
  "0 \<le> a \<Longrightarrow> a \<le> b \<Longrightarrow> \<forall>bp \<in> set bps. 0 \<le> bp \<Longrightarrow>
   sum_list (map (val a) bps) \<le> sum_list (map (val b) bps)"
  by (auto intro!: sum_list_mono val_mono)

lemma total_le:
  "0 \<le> base \<Longrightarrow> \<forall>bp \<in> set bps. 0 \<le> bp \<and> bp \<le> 10000 \<Longrightarrow>
   sum_list (map (val base) bps) \<le> int (length bps) * base"
proof (induction bps)
  case (Cons bp bps)
  then have "val base bp \<le> base" by (intro val_le) auto
  with Cons show ?case by (simp add: algebra_simps)
qed simp

end

interpretation bpv: bp_rounding bp_value
  by unfold_locales (rule bp_value_nonneg bp_value_mono bp_value_le; assumption)+

subsection \<open>Rendering and parsing\<close>

lemma pow10_64_eq: "n \<le> 18 \<Longrightarrow> pow10_64 n = 10 ^ n"
proof (induction n)
  case (Suc n)
  have up: "(10 :: int) ^ Suc n \<le> 1000000000000000000"
    using power_increasing [of "Suc n" 18 "10 :: int"] Suc.prems by simp
  have lo: "(0 :: int) \<le> 10 ^ Suc n" by simp
  have "in64 (10 ^ Suc n)" using up lo unfolding in64_def min64_def max64_def by linarith
  then show ?case using Suc by (simp add: mul64_def mult.commute)
qed simp

lemma FormatInt_nat: "0 \<le> v \<Longrightarrow> FormatInt v = dec (nat v)"
  by (simp add: FormatInt_def)

lemma FormatMinor_eq:
  assumes "in64 v" "v \<noteq> min64" "0 < e" "e \<le> 18"
  shows "FormatMinor v e = Inr ((if v < 0 then ''-'' else '''') @ dec (nat \<bar>v\<bar> div 10 ^ nat e) @ ''.''
           @ pad_dec (nat e) (nat \<bar>v\<bar> mod 10 ^ nat e))"
proof -
  let ?d = "(10 :: int) ^ nat e"
  have d: "0 < ?d" by simp
  have p: "pow10_64 (nat e) = ?d" using assms by (intro pow10_64_eq) simp
  have av: "abs64 v = \<bar>v\<bar>" using assms by (intro abs64_eq)
  have v64: "in64 \<bar>v\<bar>" using assms by (simp add: width_defs abs_if)
  have q: "quot64 \<bar>v\<bar> ?d = \<bar>v\<bar> div ?d" by (rule quot64_nonneg) (simp_all add: v64)
  have r: "rem64 \<bar>v\<bar> ?d = \<bar>v\<bar> mod ?d" by (rule rem64_nonneg) simp_all
  have nd: "nat (\<bar>v\<bar> div ?d) = nat \<bar>v\<bar> div 10 ^ nat e"
    and nm: "nat (\<bar>v\<bar> mod ?d) = nat \<bar>v\<bar> mod 10 ^ nat e"
    by (simp_all add: nat_div_distrib nat_mod_distrib nat_power_eq)
  have "0 \<le> \<bar>v\<bar> div ?d" "0 \<le> \<bar>v\<bar> mod ?d" using d by (simp_all add: pos_imp_zdiv_nonneg_iff)
  then show ?thesis
    using assms(3) d
    by (simp add: FormatMinor_def Let_def p av q r FormatInt_nat nd nm pad_dec_def)
qed

lemma space_seqs_bytes: "\<forall>p \<in> set space_seqs. p \<noteq> [] \<and> (\<forall>b \<in> set p. b < 33 \<or> (128 \<le> b \<and> b < 256))"
  by (simp add: space_seqs_def)

lemma trim_front_id:
  assumes "\<forall>p \<in> set seqs. p \<noteq> [] \<and> c \<notin> set p"
  shows "trim_front n seqs (c # s) = c # s"
proof (cases n)
  case (Suc m)
  have "\<not> is_prefix p (c # s)" if "p \<in> set seqs" for p
    using assms that by (cases p) (auto simp: is_prefix_def)
  then have "find (\<lambda>p. is_prefix p (c # s)) seqs = None" by (simp add: find_None_iff)
  then show ?thesis by (simp add: Suc)
qed simp

definition visible :: "char \<Rightarrow> bool" where
  "visible c \<longleftrightarrow> 33 \<le> (of_char c :: nat) \<and> (of_char c :: nat) < 128"

lemma space_seqs_visible: "visible c \<Longrightarrow> p \<in> set space_seqs \<Longrightarrow> c \<notin> set (map char_of p)"
  using space_seqs_bytes by (fastforce simp: visible_def)

lemma TrimSpace_id:
  assumes "visible a" "visible z"
  shows "TrimSpace (a # s @ [z]) = a # s @ [z]" and "TrimSpace [a] = [a]"
proof -
  have f: "\<forall>p \<in> set (map (map char_of) space_seqs). p \<noteq> [] \<and> c \<notin> set p" if "visible c" for c
    using space_seqs_bytes space_seqs_visible [OF that] by auto
  then have b: "\<forall>p \<in> set (map rev (map (map char_of) space_seqs)). p \<noteq> [] \<and> c \<notin> set p"
    if "visible c" for c using that by auto
  have "rev (a # s @ [z]) = z # rev s @ [a]" "rev (z # rev s @ [a]) = a # s @ [z]" by simp_all
  then show "TrimSpace (a # s @ [z]) = a # s @ [z]"
    by (simp only: TrimSpace_def Let_def trim_front_id [OF f [OF assms(1)]]
        trim_front_id [OF b [OF assms(2)]])
  show "TrimSpace [a] = [a]"
    by (simp only: TrimSpace_def Let_def trim_front_id [OF f [OF assms(1)]] rev.simps
        append.simps trim_front_id [OF b [OF assms(1)]])
qed

lemma Cut_dot_eq: "CHR ''.'' \<notin> set ip \<Longrightarrow> Cut_dot (ip @ CHR ''.'' # fp) = (ip, fp, True)"
  by (simp add: Cut_dot_def takeWhile_append)

lemma Cut_dot_none: "CHR ''.'' \<notin> set ip \<Longrightarrow> Cut_dot ip = (ip, '''', False)"
proof -
  assume "CHR ''.'' \<notin> set ip"
  then have "takeWhile (\<lambda>c. c \<noteq> CHR ''.'') ip = ip" by (auto simp: takeWhile_eq_all_conv)
  then show ?thesis unfolding Cut_dot_def Let_def by (simp only: if_True refl)
qed

lemma digit_facts: "is_digit c \<Longrightarrow> c \<noteq> CHR ''.'' \<and> c \<noteq> CHR ''-'' \<and> c \<noteq> CHR ''+'' \<and> visible c"
  by (auto simp: is_digit_def visible_def)

text \<open>Parsing a signed decimal with a fraction of exactly the expected width.\<close>

lemma ParseMinor_decimal:
  assumes ip: "list_all is_digit ip" "ip \<noteq> []"
    and fp: "list_all is_digit fp" "length fp = nat e" "0 < e"
    and v: "int (undec (ip @ fp)) \<le> max64"
  shows "ParseMinor ((if neg then ''-'' else '''') @ ip @ ''.'' @ fp) e =
         Inr (if neg then - int (undec (ip @ fp)) else int (undec (ip @ fp)))"
proof -
  let ?b = "ip @ CHR ''.'' # fp" and ?s = "(if neg then ''-'' else '''') @ ip @ ''.'' @ fp"
  obtain c ip' where c: "ip = c # ip'" "is_digit c" using ip by (cases ip) auto
  obtain fp' z where z: "fp = fp' @ [z]" "is_digit z"
    using fp by (cases fp rule: rev_cases) auto
  have "TrimSpace ?s = ?s"
  proof (cases neg)
    case True
    then show ?thesis
      using TrimSpace_id(1) [of "CHR ''-''" z "ip @ ''.'' @ fp'"] digit_facts [OF z(2)]
      by (simp add: z(1) visible_def)
  next
    case False
    then show ?thesis
      using TrimSpace_id(1) [of c z "ip' @ ''.'' @ fp'"] digit_facts [OF z(2)] digit_facts [OF c(2)]
      by (simp add: z(1) c(1))
  qed
  moreover have "CHR ''.'' \<notin> set ip" using ip(1) digit_facts by (auto simp: list_all_iff)
  then have "Cut_dot ?b = (ip, fp, True)" by (rule Cut_dot_eq)
  moreover have "neg64 (int (undec (ip @ fp))) = - int (undec (ip @ fp))"
    using v by (simp add: neg64_def width_defs)
  moreover have "c \<noteq> CHR ''-''" "c \<noteq> CHR ''+''" using digit_facts [OF c(2)] by simp_all
  ultimately show ?thesis
    using ip fp v c(1)
    by (cases neg) (simp_all add: ParseMinor_def Let_def)
qed

text \<open>
  C25: \<^bold>\<open>Format/parse round trip.\<close> Rendering any amount other than the least \<^verbatim>\<open>int64\<close> with a
  positive exponent of up to 18 digits and parsing the text with the same exponent gives the
  amount back, sign and padding included.
\<close>

theorem ParseMinor_FormatMinor:
  assumes "in64 v" "v \<noteq> min64" "0 < e" "e \<le> 18"
  shows "\<exists>s. FormatMinor v e = Inr s \<and> ParseMinor s e = Inr v"
proof -
  let ?n = "nat \<bar>v\<bar>" and ?k = "nat e"
  let ?ip = "dec (?n div 10 ^ ?k)" and ?fp = "pad_dec ?k (?n mod 10 ^ ?k)"
  have k: "0 < ?k" using assms by simp
  have len: "length ?fp = ?k" using k by (simp add: length_pad_dec)
  have val: "undec (?ip @ ?fp) = ?n"
    unfolding undec_append len undec_dec undec_pad_dec by (rule div_mult_mod_eq)
  have "int ?n \<le> max64" using assms(1,2) by (simp add: width_defs abs_if)
  then have "ParseMinor ((if v < 0 then ''-'' else '''') @ ?ip @ ''.'' @ ?fp) e =
        Inr (if v < 0 then - int (undec (?ip @ ?fp)) else int (undec (?ip @ ?fp)))"
    using assms dec_digits pad_dec_digits len val
    by (intro ParseMinor_decimal) (auto simp: list_all_iff)
  also have "\<dots> = Inr v" unfolding val by simp
  finally show ?thesis using FormatMinor_eq [OF assms] by auto
qed

theorem ParseMinor_FormatMinor_witness:
  "FormatMinor (- 12505) 2 = Inr ''-125.05'' \<and> ParseMinor ''-125.05'' 2 = Inr (- 12505)"
proof -
  have h: "in64 (- 12505)" "- 12505 \<noteq> min64" "(0 :: int) < 2" "(2 :: int) \<le> 18"
    by (simp_all add: width_defs)
  have "FormatMinor (- 12505) 2 = Inr ''-125.05''"
    by code_simp
  then show ?thesis using ParseMinor_FormatMinor [OF h] by auto
qed

text \<open>
  \<^bold>\<open>Percentages are exact to the rounding rule.\<close> Applying basis points to an amount either
  panics, exactly when the product leaves \<^verbatim>\<open>int64\<close>, or returns the product divided by 10000
  rounded to the nearest minor unit with ties away from zero. The product that equals the
  least \<^verbatim>\<open>int64\<close> is outside the statement (see the next theorem).
\<close>

theorem ApplyBP_spec:
  assumes "in64 base" "in32 bp" "base * bp \<noteq> min64" "\<not> (base = min64 \<and> bp = - 1)"
  shows "if in64 (base * bp)
         then \<exists>q. ApplyBP base bp = Inr q \<and> 2 * \<bar>base * bp - q * 10000\<bar> \<le> 10000
              \<and> (2 * \<bar>base * bp - q * 10000\<bar> = 10000 \<longrightarrow> \<bar>base * bp\<bar> < \<bar>q * 10000\<bar>)
         else ApplyBP base bp = Inl (Panic ''money: multiplication overflow'')"
  using ApplyBP_eq [OF assms(1,2)] ApplyBP_overflow [OF assms(1,2)] assms(3,4)
    round_half_away_nearest [of 10000 "base * bp"]
  by (simp add: bp_value_def)

theorem ApplyBP_spec_witness:
  "\<exists>q. ApplyBP 333 1850 = Inr q \<and> 2 * \<bar>333 * 1850 - q * 10000\<bar> \<le> 10000"
proof -
  have h: "in64 333" "in32 1850" "(333 :: int) * 1850 \<noteq> min64" "\<not> ((333 :: int) = min64 \<and> (1850 :: int) = - 1)"
    "in64 (333 * 1850)"
    by (simp_all add: width_defs)
  show ?thesis using ApplyBP_spec [OF h(1-4)] h(5) by auto
qed

text \<open>
  \<^bold>\<open>The overflow test has one blind spot.\<close> \<open>mulSaturating\<close> panics on every product outside
  \<^verbatim>\<open>int64\<close> except the least value times minus one, which it returns wrapped to itself; and a
  product equal to the least value makes the rounding step return a result of the wrong
  sign, because its magnitude is not representable.
\<close>

theorem mulSaturating_blind_spot:
  "(\<forall>a b. in64 a \<longrightarrow> in64 b \<longrightarrow> \<not> in64 (a * b) \<longrightarrow>
      ((\<exists>p. mulSaturating a b = Inr p) \<longleftrightarrow> a = min64 \<and> b = - 1))
   \<and> mulSaturating min64 (- 1) = Inr min64
   \<and> ApplyBP (- 4611686018427387904) 2 = Inr 922337203685477"
proof (intro conjI allI impI)
  fix a b assume "in64 a" "in64 b" "\<not> in64 (a * b)"
  then show "(\<exists>p. mulSaturating a b = Inr p) \<longleftrightarrow> a = min64 \<and> b = - 1"
    by (auto simp: mulSaturating_eq)
next
  show "mulSaturating min64 (- 1) = Inr min64" by code_simp
  show "ApplyBP (- 4611686018427387904) 2 = Inr 922337203685477" by code_simp
qed

theorem mulSaturating_blind_spot_witness:
  "\<not> in64 (max64 * 2) \<and> mulSaturating max64 2 = Inl (Panic ''money: multiplication overflow'')"
proof -
  have h: "in64 max64" "in64 2" "\<not> in64 (max64 * 2)" by (simp_all add: width_defs)
  have "max64 \<noteq> min64" by (simp add: width_defs)
  then have "\<not> (\<exists>p. mulSaturating max64 2 = Inr p)"
    using mulSaturating_blind_spot h by blast
  then show ?thesis using h by (auto simp: mulSaturating_eq)
qed

end
