(* ===== verification/Shipment_State.thy ===== *)
theory Shipment_State
  imports Go_Prelude Lifecycle "HOL-Library.List_Lexorder" "HOL-Library.Char_ord"
begin

text \<open>
  \<^verbatim>\<open>internal/shipment/state.go\<close>: the shipment lifecycle. The statuses, the custody rules, the
  table of legal transitions (entry by entry, in the order of the source), the index built
  from it at start-up, and the lookups that every operational module goes through. The
  second half states what the table guarantees, through a locale for lifecycles given by a
  step relation and a set of terminal states.
\<close>

subsection \<open>Statuses, directions, custody rules\<close>

datatype Status =
    StatusBooked
  | StatusPickupScheduled
  | StatusPickupAssigned
  | StatusPickedUp
  | StatusOriginBranchReceived
  | StatusOriginBagged
  | StatusOriginDispatched
  | StatusInTransit
  | StatusTransitHubReceived
  | StatusTransitHubDispatched
  | StatusDestinationHubReceived
  | StatusDestinationBranchReceived
  | StatusOutForDelivery
  | StatusDelivered
  | StatusDeliveryFailed
  | StatusNDR
  | StatusRTOInitiated
  | StatusRTOInTransit
  | StatusRTODelivered
  | StatusCancelled
  | StatusLost
  | StatusDamaged

fun status_string :: "Status \<Rightarrow> string" where
  "status_string StatusBooked = ''BOOKED''"
| "status_string StatusPickupScheduled = ''PICKUP_SCHEDULED''"
| "status_string StatusPickupAssigned = ''PICKUP_ASSIGNED''"
| "status_string StatusPickedUp = ''PICKED_UP''"
| "status_string StatusOriginBranchReceived = ''ORIGIN_BRANCH_RECEIVED''"
| "status_string StatusOriginBagged = ''ORIGIN_BAGGED''"
| "status_string StatusOriginDispatched = ''ORIGIN_DISPATCHED''"
| "status_string StatusInTransit = ''IN_TRANSIT''"
| "status_string StatusTransitHubReceived = ''TRANSIT_HUB_RECEIVED''"
| "status_string StatusTransitHubDispatched = ''TRANSIT_HUB_DISPATCHED''"
| "status_string StatusDestinationHubReceived = ''DESTINATION_HUB_RECEIVED''"
| "status_string StatusDestinationBranchReceived = ''DESTINATION_BRANCH_RECEIVED''"
| "status_string StatusOutForDelivery = ''OUT_FOR_DELIVERY''"
| "status_string StatusDelivered = ''DELIVERED''"
| "status_string StatusDeliveryFailed = ''DELIVERY_FAILED''"
| "status_string StatusNDR = ''NDR''"
| "status_string StatusRTOInitiated = ''RTO_INITIATED''"
| "status_string StatusRTOInTransit = ''RTO_IN_TRANSIT''"
| "status_string StatusRTODelivered = ''RTO_DELIVERED''"
| "status_string StatusCancelled = ''CANCELLED''"
| "status_string StatusLost = ''LOST''"
| "status_string StatusDamaged = ''DAMAGED''"

definition AllStatuses :: "Status list" where
  "AllStatuses =
     [StatusBooked, StatusPickupScheduled, StatusPickupAssigned,
      StatusPickedUp, StatusOriginBranchReceived, StatusOriginBagged,
      StatusOriginDispatched, StatusInTransit, StatusTransitHubReceived,
      StatusTransitHubDispatched, StatusDestinationHubReceived, StatusDestinationBranchReceived,
      StatusOutForDelivery, StatusDelivered, StatusDeliveryFailed,
      StatusNDR, StatusRTOInitiated, StatusRTOInTransit,
      StatusRTODelivered, StatusCancelled, StatusLost,
      StatusDamaged]"

definition StatusStrings :: "string list" where
  "StatusStrings = map status_string AllStatuses"

definition terminalStatuses :: "Status list" where
  "terminalStatuses = [StatusDelivered, StatusRTODelivered, StatusCancelled, StatusLost]"

definition IsTerminal :: "Status \<Rightarrow> bool" where
  "IsTerminal s \<longleftrightarrow> s \<in> set terminalStatuses"

datatype Direction = DirectionForward | DirectionReverse

datatype CustodyRule =
    CustodyNone
  | CustodyHolder
  | CustodyOriginBranch
  | CustodyDestinationBranch
  | CustodyAgent
  | CustodyAnyFacility

text \<open>The empty direction of the source (legal in either direction) is \<open>None\<close>.\<close>

record Transition =
  From :: Status
  To :: Status
  Permission :: string
  Release :: int
  RequiresReason :: bool
  Custody :: CustodyRule
  TDirection :: "Direction option"
  EventType :: string
  Description :: string
  BlockedByHold :: bool

abbreviation mkT where
  "mkT f t p r rr c d e ds b \<equiv>
     \<lparr>From = f, To = t, Permission = p, Release = r, RequiresReason = rr, Custody = c,
      TDirection = d, EventType = e, Description = ds, BlockedByHold = b\<rparr>"

subsection \<open>The transition table\<close>

definition transitions :: "Transition list" where
  "transitions = [
     mkT StatusBooked StatusCancelled ''shipment.cancel'' 1 True CustodyNone None ''CANCELLED''
       ''Shipment cancelled'' False,
     mkT StatusBooked StatusPickupScheduled ''pickup.schedule'' 2 False CustodyNone None ''PICKUP''
       ''Pickup scheduled'' False,
     mkT StatusPickupScheduled StatusPickupAssigned ''pickup.assign'' 2 False CustodyNone None ''PICKUP''
       ''Pickup assigned to an agent'' False,
     mkT StatusPickupAssigned StatusPickupScheduled ''pickup.assign'' 2 False CustodyNone None ''PICKUP''
       ''Pickup reassigned'' False,
     mkT StatusPickupAssigned StatusPickedUp ''pickup.complete'' 2 False CustodyNone None ''PICKUP''
       ''Shipment picked up'' False,
     mkT StatusPickupAssigned StatusBooked ''pickup.complete'' 2 True CustodyNone None ''PICKUP''
       ''Pickup attempt failed'' False,
     mkT StatusPickupScheduled StatusCancelled ''shipment.cancel'' 2 True CustodyNone None ''CANCELLED''
       ''Shipment cancelled'' False,
     mkT StatusPickupAssigned StatusCancelled ''shipment.cancel'' 2 True CustodyNone None ''CANCELLED''
       ''Shipment cancelled'' False,
     mkT StatusPickedUp StatusOriginBranchReceived ''scan.inbound'' 2 False CustodyAnyFacility None ''SCAN''
       ''Received at origin facility'' False,
     mkT StatusBooked StatusOriginBranchReceived ''scan.inbound'' 2 False CustodyAnyFacility None ''SCAN''
       ''Received at origin facility'' False,
     mkT StatusPickupScheduled StatusOriginBranchReceived ''scan.inbound'' 2 False CustodyAnyFacility None ''SCAN''
       ''Received at origin facility'' False,
     mkT StatusPickupAssigned StatusOriginBranchReceived ''scan.inbound'' 2 False CustodyAnyFacility None ''SCAN''
       ''Received at origin facility'' False,
     mkT StatusOriginBranchReceived StatusOriginBagged ''bag.manage'' 2 False CustodyHolder (Some DirectionForward) ''BAG''
       ''Added to a dispatch bag'' True,
     mkT StatusOriginBagged StatusOriginBranchReceived ''bag.manage'' 2 False CustodyHolder None ''BAG''
       ''Removed from the dispatch bag'' False,
     mkT StatusOriginBagged StatusOriginDispatched ''manifest.dispatch'' 2 False CustodyHolder (Some DirectionForward) ''MANIFEST''
       ''Dispatched from origin facility'' True,
     mkT StatusOriginBranchReceived StatusOriginDispatched ''manifest.dispatch'' 2 False CustodyHolder (Some DirectionForward) ''MANIFEST''
       ''Dispatched from origin facility'' True,
     mkT StatusOriginDispatched StatusInTransit ''linehaul.depart'' 2 False CustodyNone None ''TRIP''
       ''In transit'' False,
     mkT StatusInTransit StatusTransitHubReceived ''scan.inbound'' 2 False CustodyAnyFacility None ''SCAN''
       ''Received at transit facility'' False,
     mkT StatusTransitHubReceived StatusTransitHubDispatched ''manifest.dispatch'' 2 False CustodyHolder None ''MANIFEST''
       ''Dispatched from transit facility'' True,
     mkT StatusTransitHubDispatched StatusInTransit ''linehaul.depart'' 2 False CustodyNone None ''TRIP''
       ''In transit'' False,
     mkT StatusInTransit StatusDestinationHubReceived ''scan.inbound'' 2 False CustodyAnyFacility None ''SCAN''
       ''Arrived at destination city'' False,
     mkT StatusDestinationHubReceived StatusDestinationBranchReceived ''scan.inbound'' 2 False CustodyAnyFacility None ''SCAN''
       ''Received at delivery facility'' False,
     mkT StatusInTransit StatusDestinationBranchReceived ''scan.inbound'' 2 False CustodyAnyFacility None ''SCAN''
       ''Received at delivery facility'' False,
     mkT StatusDestinationHubReceived StatusTransitHubDispatched ''manifest.dispatch'' 2 True CustodyHolder None ''MANIFEST''
       ''Redirected to the correct facility'' False,
     mkT StatusDestinationBranchReceived StatusTransitHubDispatched ''manifest.dispatch'' 2 True CustodyHolder None ''MANIFEST''
       ''Redirected to the correct facility'' False,
     mkT StatusOriginBranchReceived StatusDestinationBranchReceived ''scan.sort'' 2 False CustodyHolder (Some DirectionForward) ''SCAN''
       ''Ready for local delivery'' False,
     mkT StatusDestinationBranchReceived StatusOutForDelivery ''delivery.dispatch'' 2 False CustodyDestinationBranch None ''DELIVERY''
       ''Out for delivery'' True,
     mkT StatusOutForDelivery StatusDelivered ''delivery.complete'' 2 False CustodyAgent (Some DirectionForward) ''DELIVERY''
       ''Delivered'' False,
     mkT StatusOutForDelivery StatusDeliveryFailed ''delivery.complete'' 2 True CustodyAgent None ''DELIVERY''
       ''Delivery attempted but not completed'' False,
     mkT StatusDeliveryFailed StatusDestinationBranchReceived ''scan.inbound'' 2 False CustodyAnyFacility None ''SCAN''
       ''Returned to the delivery facility'' False,
     mkT StatusOutForDelivery StatusDestinationBranchReceived ''scan.inbound'' 2 True CustodyAnyFacility None ''SCAN''
       ''Returned to the delivery facility'' False,
     mkT StatusDeliveryFailed StatusNDR ''ndr.manage'' 2 False CustodyNone None ''NDR''
       ''Delivery exception raised'' False,
     mkT StatusDestinationBranchReceived StatusNDR ''ndr.manage'' 2 True CustodyDestinationBranch None ''NDR''
       ''Delivery exception raised'' False,
     mkT StatusNDR StatusDestinationBranchReceived ''ndr.manage'' 2 False CustodyNone None ''NDR''
       ''Scheduled for another delivery attempt'' False,
     mkT StatusNDR StatusOutForDelivery ''delivery.dispatch'' 2 False CustodyDestinationBranch None ''DELIVERY''
       ''Out for delivery'' True,
     mkT StatusNDR StatusDelivered ''delivery.complete'' 2 False CustodyDestinationBranch None ''DELIVERY''
       ''Collected by the customer'' False,
     mkT StatusDestinationBranchReceived StatusDelivered ''delivery.complete'' 2 False CustodyDestinationBranch (Some DirectionForward) ''DELIVERY''
       ''Collected by the customer'' True,
     mkT StatusNDR StatusRTOInitiated ''rto.manage'' 2 True CustodyNone None ''RTO''
       ''Return to sender started'' False,
     mkT StatusDeliveryFailed StatusRTOInitiated ''rto.manage'' 2 True CustodyNone None ''RTO''
       ''Return to sender started'' False,
     mkT StatusDestinationBranchReceived StatusRTOInitiated ''rto.manage'' 2 True CustodyNone None ''RTO''
       ''Return to sender started'' False,
     mkT StatusRTOInitiated StatusRTOInTransit ''rto.manage'' 2 False CustodyNone (Some DirectionReverse) ''RTO''
       ''Return in transit'' False,
     mkT StatusRTOInTransit StatusRTODelivered ''rto.manage'' 2 False CustodyAnyFacility (Some DirectionReverse) ''RTO''
       ''Returned to sender'' False,
     mkT StatusDamaged StatusRTOInitiated ''rto.manage'' 2 True CustodyNone None ''RTO''
       ''Return to sender started'' False,
     mkT StatusPickedUp StatusLost ''shipment.declare_exception'' 2 True CustodyNone None ''EXCEPTION''
       ''Under investigation'' False,
     mkT StatusOriginBranchReceived StatusLost ''shipment.declare_exception'' 2 True CustodyNone None ''EXCEPTION''
       ''Under investigation'' False,
     mkT StatusOriginBagged StatusLost ''shipment.declare_exception'' 2 True CustodyNone None ''EXCEPTION''
       ''Under investigation'' False,
     mkT StatusOriginDispatched StatusLost ''shipment.declare_exception'' 2 True CustodyNone None ''EXCEPTION''
       ''Under investigation'' False,
     mkT StatusInTransit StatusLost ''shipment.declare_exception'' 2 True CustodyNone None ''EXCEPTION''
       ''Under investigation'' False,
     mkT StatusTransitHubReceived StatusLost ''shipment.declare_exception'' 2 True CustodyNone None ''EXCEPTION''
       ''Under investigation'' False,
     mkT StatusTransitHubDispatched StatusLost ''shipment.declare_exception'' 2 True CustodyNone None ''EXCEPTION''
       ''Under investigation'' False,
     mkT StatusDestinationHubReceived StatusLost ''shipment.declare_exception'' 2 True CustodyNone None ''EXCEPTION''
       ''Under investigation'' False,
     mkT StatusDestinationBranchReceived StatusLost ''shipment.declare_exception'' 2 True CustodyNone None ''EXCEPTION''
       ''Under investigation'' False,
     mkT StatusOutForDelivery StatusLost ''shipment.declare_exception'' 2 True CustodyNone None ''EXCEPTION''
       ''Under investigation'' False,
     mkT StatusRTOInTransit StatusLost ''shipment.declare_exception'' 2 True CustodyNone None ''EXCEPTION''
       ''Under investigation'' False,
     mkT StatusOriginBranchReceived StatusDamaged ''shipment.declare_exception'' 2 True CustodyHolder None ''EXCEPTION''
       ''Under investigation'' False,
     mkT StatusOriginBagged StatusDamaged ''shipment.declare_exception'' 2 True CustodyHolder None ''EXCEPTION''
       ''Under investigation'' False,
     mkT StatusInTransit StatusDamaged ''shipment.declare_exception'' 2 True CustodyNone None ''EXCEPTION''
       ''Under investigation'' False,
     mkT StatusTransitHubReceived StatusDamaged ''shipment.declare_exception'' 2 True CustodyHolder None ''EXCEPTION''
       ''Under investigation'' False,
     mkT StatusDestinationHubReceived StatusDamaged ''shipment.declare_exception'' 2 True CustodyHolder None ''EXCEPTION''
       ''Under investigation'' False,
     mkT StatusDestinationBranchReceived StatusDamaged ''shipment.declare_exception'' 2 True CustodyHolder None ''EXCEPTION''
       ''Under investigation'' False,
     mkT StatusOutForDelivery StatusDamaged ''shipment.declare_exception'' 2 True CustodyNone None ''EXCEPTION''
       ''Under investigation'' False,
     mkT StatusDamaged StatusDelivered ''delivery.complete'' 2 True CustodyAgent None ''DELIVERY''
       ''Delivered'' False,
     mkT StatusDamaged StatusDestinationBranchReceived ''scan.inbound'' 2 False CustodyAnyFacility None ''SCAN''
       ''Received at delivery facility'' False]"

definition CurrentRelease :: int where
  "CurrentRelease = 2"

text \<open>
  \<^verbatim>\<open>transitionIndex\<close>: built once at start-up, and a repeated pair of states is a panic there.
\<close>

fun build_index :: "Transition list \<Rightarrow> (Status \<times> Status \<rightharpoonup> Transition) \<Rightarrow>
    (Status \<times> Status \<rightharpoonup> Transition) result" where
  "build_index [] m = Inr m"
| "build_index (t # ts) m =
     (if m (From t, To t) \<noteq> None then Inl (Panic ''shipment: duplicate transition'')
      else build_index ts (m((From t, To t) \<mapsto> t)))"

definition transitionIndex :: "(Status \<times> Status \<rightharpoonup> Transition) result" where
  "transitionIndex = build_index transitions Map.empty"

subsection \<open>Lookups\<close>

definition newIllegalTransition :: "Status \<Rightarrow> Status \<Rightarrow> apierr" where
  "newIllegalTransition from to = Conflict ''SHIPMENT_INVALID_STATE''"

definition Find :: "Status \<Rightarrow> Status \<Rightarrow> Transition result" where
  "Find from to =
     bindE transitionIndex
       (\<lambda>idx. case idx (from, to) of
                Some t \<Rightarrow> Inr t
              | None \<Rightarrow> Inl (newIllegalTransition from to))"

definition Validate :: "Status \<Rightarrow> Status \<Rightarrow> Transition result" where
  "Validate from to =
     bindE (Find from to)
       (\<lambda>t. ensure (Release t \<le> CurrentRelease) (Conflict ''CONFLICT'') (Inr t))"

definition ValidateDirection :: "Status \<Rightarrow> Status \<Rightarrow> Direction option \<Rightarrow> Transition result" where
  "ValidateDirection from to dir =
     bindE (Validate from to)
       (\<lambda>t. ensure (\<not> (TDirection t \<noteq> None \<and> dir \<noteq> None \<and> TDirection t \<noteq> dir))
              (Conflict ''SHIPMENT_INVALID_STATE'') (Inr t))"

text \<open>\<^verbatim>\<open>slices.Compact\<close> drops repeated neighbours; \<^verbatim>\<open>slices.Sort\<close> sorts by the status text.\<close>

definition AllowedFrom :: "Status \<Rightarrow> Status list" where
  "AllowedFrom from =
     remdups_adj (sort_key status_string
       (map To (filter (\<lambda>t. From t = from \<and> Release t \<le> CurrentRelease) transitions)))"

definition TransitionsFor :: "Status \<Rightarrow> Transition list" where
  "TransitionsFor from = filter (\<lambda>t. From t = from \<and> Release t \<le> CurrentRelease) transitions"

definition AllTransitions :: "Transition list" where
  "AllTransitions = transitions"

definition lowerDirection :: "Direction \<Rightarrow> string" where
  "lowerDirection d = (if d = DirectionReverse then ''in reverse (RTO)'' else ''forward'')"

subsection \<open>The index and the lookups read the table\<close>

abbreviation key :: "Transition \<Rightarrow> Status \<times> Status" where
  "key t \<equiv> (From t, To t)"

lemma build_index_ok:
  "distinct (map key ts) \<Longrightarrow> \<forall>t \<in> set ts. m (key t) = None \<Longrightarrow>
   build_index ts m = Inr (m ++ map_of (map (\<lambda>t. (key t, t)) ts))"
proof (induction ts arbitrary: m)
  case Nil
  then show ?case by simp
next
  case (Cons t ts)
  have "\<forall>u \<in> set ts. (m(key t \<mapsto> t)) (key u) = None"
    using Cons.prems by (auto simp: image_iff)
  with Cons.prems(1) have "build_index ts (m(key t \<mapsto> t))
      = Inr (m(key t \<mapsto> t) ++ map_of (map (\<lambda>t. (key t, t)) ts))"
    by (intro Cons.IH) simp_all
  moreover have "m(key t \<mapsto> t) ++ map_of (map (\<lambda>t. (key t, t)) ts)
      = m ++ map_of (map (\<lambda>t. (key t, t)) (t # ts))"
  proof (rule ext)
    fix k
    have "map_of (map (\<lambda>t. (key t, t)) ts) (key t) = None"
      using Cons.prems(1) by (auto simp: map_of_eq_None_iff)
    then show "(m(key t \<mapsto> t) ++ map_of (map (\<lambda>t. (key t, t)) ts)) k
        = (m ++ map_of (map (\<lambda>t. (key t, t)) (t # ts))) k"
      by (auto simp: map_add_def split: option.splits)
  qed
  moreover have "build_index (t # ts) m = build_index ts (m(key t \<mapsto> t))"
    using Cons.prems(2) by simp
  ultimately show ?case by (simp only:)
qed

lemma transitions_distinct: "distinct (map key transitions)"
  by code_simp

lemma transitions_released: "\<forall>t \<in> set transitions. Release t \<le> CurrentRelease"
  by code_simp

lemma transitionIndex_eq: "transitionIndex = Inr (map_of (map (\<lambda>t. (key t, t)) transitions))"
  using build_index_ok [OF transitions_distinct, of Map.empty] by (simp add: transitionIndex_def)

lemma Find_iff: "Find from to = Inr t \<longleftrightarrow> t \<in> set transitions \<and> From t = from \<and> To t = to"
proof -
  have d: "distinct (map fst (map (\<lambda>t. (key t, t)) transitions))"
    using transitions_distinct by (simp add: comp_def)
  have "Find from to = Inr t \<longleftrightarrow> map_of (map (\<lambda>t. (key t, t)) transitions) (from, to) = Some t"
    by (auto simp: Find_def transitionIndex_eq split: option.splits)
  also have "\<dots> \<longleftrightarrow> ((from, to), t) \<in> set (map (\<lambda>t. (key t, t)) transitions)"
    using d by (rule map_of_eq_Some_iff)
  finally show ?thesis by auto
qed

lemma Find_error: "Find from to = Inl e \<Longrightarrow> e = Conflict ''SHIPMENT_INVALID_STATE''"
  by (auto simp: Find_def transitionIndex_eq newIllegalTransition_def split: option.splits)

lemma Validate_eq: "Validate from to = Find from to"
proof (cases "Find from to")
  case (Inr t)
  then have "Release t \<le> CurrentRelease"
    using transitions_released by (simp add: Find_iff)
  then show ?thesis by (simp add: Validate_def Inr)
qed (simp add: Validate_def)

lemma Validate_iff:
  "Validate from to = Inr t \<longleftrightarrow> t \<in> set transitions \<and> From t = from \<and> To t = to"
  by (simp add: Validate_eq Find_iff)

lemma ValidateDirection_iff:
  "ValidateDirection from to dir = Inr t \<longleftrightarrow>
     t \<in> set transitions \<and> From t = from \<and> To t = to
     \<and> (TDirection t = None \<or> dir = None \<or> TDirection t = dir)"
  by (auto simp: ValidateDirection_def Validate_iff res_simps)

text \<open>
  \<^bold>\<open>The lookup is the table.\<close> The index is built without a panic (no pair of states occurs
  twice), looking a change up succeeds exactly for the rows of the table and returns that
  row, and every other change is refused as an invalid state, never as a panic.
\<close>

theorem Validate_spec:
  "(Validate from to = Inr t \<longleftrightarrow> t \<in> set transitions \<and> From t = from \<and> To t = to)
   \<and> ((\<forall>t \<in> set transitions. (From t, To t) \<noteq> (from, to)) \<longleftrightarrow>
        Validate from to = Inl (Conflict ''SHIPMENT_INVALID_STATE''))"
proof (intro conjI)
  show "Validate from to = Inr t \<longleftrightarrow> t \<in> set transitions \<and> From t = from \<and> To t = to"
    by (rule Validate_iff)
  show "(\<forall>t \<in> set transitions. (From t, To t) \<noteq> (from, to)) \<longleftrightarrow>
      Validate from to = Inl (Conflict ''SHIPMENT_INVALID_STATE'')"
  proof (cases "Validate from to")
    case (Inl e)
    then have "e = Conflict ''SHIPMENT_INVALID_STATE''" by (simp add: Validate_eq Find_error)
    moreover have "\<forall>t \<in> set transitions. (From t, To t) \<noteq> (from, to)"
      using Inl Validate_iff [of "from" to] by auto
    ultimately show ?thesis using Inl by simp
  next
    case (Inr t)
    then have "t \<in> set transitions" "(From t, To t) = (from, to)" by (simp_all add: Validate_iff)
    then show ?thesis using Inr by auto
  qed
qed

theorem Validate_spec_witness:
  "Validate StatusDelivered StatusNDR = Inl (Conflict ''SHIPMENT_INVALID_STATE'')"
proof -
  have "\<forall>t \<in> set transitions. (From t, To t) \<noteq> (StatusDelivered, StatusNDR)"
    by (simp add: transitions_def)
  then show ?thesis using Validate_spec [of StatusDelivered StatusNDR] by blast
qed

lemma set_AllowedFrom: "set (AllowedFrom from) = {to. \<exists>t. Validate from to = Inr t}"
  using transitions_released by (auto simp: AllowedFrom_def Validate_iff)

lemma status_string_inject: "status_string a = status_string b \<longleftrightarrow> a = b"
  by (cases a; cases b) simp_all

text \<open>
  \<^bold>\<open>The published next states.\<close> The list the console offers for a state holds exactly the
  states the engine would accept, each once, in alphabetical order of the status text.
\<close>

theorem AllowedFrom_spec:
  "set (AllowedFrom from) = {to. \<exists>t. Validate from to = Inr t}
   \<and> sorted_wrt (\<lambda>a b. status_string a < status_string b) (AllowedFrom from)"
proof
  show "set (AllowedFrom from) = {to. \<exists>t. Validate from to = Inr t}" by (rule set_AllowedFrom)
  let ?l = "map To (filter (\<lambda>t. From t = from \<and> Release t \<le> CurrentRelease) transitions)"
  have "distinct ?l"
  proof -
    have "distinct (filter (\<lambda>t. From t = from \<and> Release t \<le> CurrentRelease) transitions)"
      using transitions_distinct by (simp add: distinct_map)
    moreover have "inj_on To (set (filter (\<lambda>t. From t = from \<and> Release t \<le> CurrentRelease) transitions))"
      using transitions_distinct by (auto intro!: inj_onI simp: distinct_map inj_on_def)
    ultimately show ?thesis by (simp only: distinct_map)
  qed
  then have d: "distinct (sort_key status_string ?l)" by simp
  have "sorted (map status_string (sort_key status_string ?l))" by simp
  moreover have "distinct (map status_string (sort_key status_string ?l))"
    using d by (simp add: distinct_map inj_on_def status_string_inject)
  ultimately have "sorted_wrt (<) (map status_string (sort_key status_string ?l))"
    by (simp add: strict_sorted_iff)
  moreover have "AllowedFrom from = sort_key status_string ?l"
    unfolding AllowedFrom_def using d by (simp add: remdups_adj_distinct)
  ultimately show "sorted_wrt (\<lambda>a b. status_string a < status_string b) (AllowedFrom from)"
    by (simp add: sorted_wrt_map)
qed

subsection \<open>The lifecycle as a step relation\<close>

text \<open>
  \<open>moves\<close> is what \<^verbatim>\<open>Validate\<close> admits; \<open>steps_to_end\<close> is the length of the shortest way to a
  terminal status. The lifecycle contract holds of them.
\<close>

inductive moves :: "Status \<Rightarrow> Status \<Rightarrow> bool" where
  row: "Validate from to = Inr t \<Longrightarrow> moves from to"

inductive_simps moves_iff: "moves from to"

lemma moves_row: "moves from to \<longleftrightarrow> (\<exists>t \<in> set transitions. From t = from \<and> To t = to)"
  by (auto simp: moves_iff Validate_iff)

definition successors :: "Status \<Rightarrow> Status list" where
  "successors s = map To (filter (\<lambda>t. From t = s) transitions)"

text \<open>The table read by source status.\<close>

lemma successors_simps:
  "successors StatusBooked = [StatusCancelled, StatusPickupScheduled, StatusOriginBranchReceived]"
  "successors StatusPickupScheduled = [StatusPickupAssigned, StatusCancelled, StatusOriginBranchReceived]"
  "successors StatusPickupAssigned = [StatusPickupScheduled, StatusPickedUp, StatusBooked, StatusCancelled,
     StatusOriginBranchReceived]"
  "successors StatusPickedUp = [StatusOriginBranchReceived, StatusLost]"
  "successors StatusOriginBranchReceived = [StatusOriginBagged, StatusOriginDispatched, StatusDestinationBranchReceived,
     StatusLost, StatusDamaged]"
  "successors StatusOriginBagged = [StatusOriginBranchReceived, StatusOriginDispatched, StatusLost, StatusDamaged]"
  "successors StatusOriginDispatched = [StatusInTransit, StatusLost]"
  "successors StatusInTransit = [StatusTransitHubReceived, StatusDestinationHubReceived,
     StatusDestinationBranchReceived, StatusLost, StatusDamaged]"
  "successors StatusTransitHubReceived = [StatusTransitHubDispatched, StatusLost, StatusDamaged]"
  "successors StatusTransitHubDispatched = [StatusInTransit, StatusLost]"
  "successors StatusDestinationHubReceived = [StatusDestinationBranchReceived, StatusTransitHubDispatched, StatusLost,
     StatusDamaged]"
  "successors StatusDestinationBranchReceived = [StatusTransitHubDispatched, StatusOutForDelivery, StatusNDR, StatusDelivered,
     StatusRTOInitiated, StatusLost, StatusDamaged]"
  "successors StatusOutForDelivery = [StatusDelivered, StatusDeliveryFailed, StatusDestinationBranchReceived,
     StatusLost, StatusDamaged]"
  "successors StatusDelivered = []"
  "successors StatusDeliveryFailed = [StatusDestinationBranchReceived, StatusNDR, StatusRTOInitiated]"
  "successors StatusNDR = [StatusDestinationBranchReceived, StatusOutForDelivery, StatusDelivered,
     StatusRTOInitiated]"
  "successors StatusRTOInitiated = [StatusRTOInTransit]"
  "successors StatusRTOInTransit = [StatusRTODelivered, StatusLost]"
  "successors StatusRTODelivered = []"
  "successors StatusCancelled = []"
  "successors StatusLost = []"
  "successors StatusDamaged = [StatusRTOInitiated, StatusDelivered, StatusDestinationBranchReceived]"
  by code_simp+

lemma IsTerminal_simps: "IsTerminal s \<longleftrightarrow> s = StatusDelivered \<or> s = StatusRTODelivered \<or> s = StatusCancelled \<or> s = StatusLost"
  by (simp add: IsTerminal_def terminalStatuses_def)

lemma moves_successors: "moves s t \<longleftrightarrow> t \<in> set (successors s)"
  by (auto simp: moves_row successors_def)

definition steps_to_end :: "Status \<Rightarrow> nat" where
  "steps_to_end s =
     (if IsTerminal s then 0 else if s \<in> {StatusDeliveryFailed, StatusRTOInitiated} then 2 else 1)"

lemma IsTerminal_iff_successors: "IsTerminal s \<longleftrightarrow> successors s = []"
  by (cases s) (simp_all add: IsTerminal_simps successors_simps)

lemma successors_lower:
  "\<not> IsTerminal s \<Longrightarrow> \<exists>t \<in> set (successors s). steps_to_end t < steps_to_end s"
  by (cases s)
    (simp_all add: IsTerminal_simps successors_simps steps_to_end_def)

interpretation shipment: lifecycle moves IsTerminal steps_to_end
proof
  show "\<not> moves s t" if "IsTerminal s" for s t
    using that by (simp add: moves_successors IsTerminal_iff_successors)
  show "\<exists>t. moves s t \<and> steps_to_end t < steps_to_end s" if "\<not> IsTerminal s" for s
    using successors_lower [OF that] by (auto simp: moves_successors)
qed

text \<open>
  C23: \<^bold>\<open>Terminal statuses.\<close> A status is terminal exactly when no row of the table leaves it, so a
  shipment in a terminal status never changes status again; and from every status some
  sequence of legal changes ends in a terminal one, so no shipment can be stranded.
\<close>

theorem lifecycle_terminal:
  "(IsTerminal s \<longleftrightarrow> (\<forall>to. \<not> moves s to))
   \<and> (IsTerminal s \<longrightarrow> (\<forall>t. moves\<^sup>*\<^sup>* s t \<longrightarrow> t = s))
   \<and> (\<exists>t. IsTerminal t \<and> moves\<^sup>*\<^sup>* s t)"
  using shipment.final_iff_stuck [of s] shipment.final_absorbing [of s] shipment.can_finish [of s]
  by blast

theorem lifecycle_terminal_witness:
  "IsTerminal StatusLost \<and> \<not> moves StatusLost StatusDamaged
   \<and> (\<exists>t. IsTerminal t \<and> moves\<^sup>*\<^sup>* StatusBooked t)"
proof -
  have "IsTerminal StatusLost" by (simp add: IsTerminal_def terminalStatuses_def)
  then show ?thesis
    using lifecycle_terminal [of StatusLost] lifecycle_terminal [of StatusBooked] by blast
qed

text \<open>
  \<^bold>\<open>A return is one-way.\<close> Once a return to sender has been initiated the shipment can only
  go through the return, be returned, or be lost: it is never delivered to the consignee,
  never dispatched forward and never enters a delivery attempt again.
\<close>

theorem rto_one_way:
  "moves\<^sup>*\<^sup>* StatusRTOInitiated s \<longleftrightarrow>
     s \<in> {StatusRTOInitiated, StatusRTOInTransit, StatusRTODelivered, StatusLost}"
proof
  assume "moves\<^sup>*\<^sup>* StatusRTOInitiated s"
  then show "s \<in> {StatusRTOInitiated, StatusRTOInTransit, StatusRTODelivered, StatusLost}"
    by (rule rtranclp_trapped [rotated])
      (auto simp: moves_successors successors_simps)
next
  have a: "moves StatusRTOInitiated StatusRTOInTransit" "moves StatusRTOInTransit StatusRTODelivered"
    "moves StatusRTOInTransit StatusLost"
    by (simp_all add: moves_successors successors_simps)
  assume "s \<in> {StatusRTOInitiated, StatusRTOInTransit, StatusRTODelivered, StatusLost}"
  then show "moves\<^sup>*\<^sup>* StatusRTOInitiated s"
    using a by (auto intro: rtranclp.rtrancl_into_rtrancl)
qed

text \<open>The receipts at the two branches are gates of the table.\<close>

lemma origin_gate:
  assumes "(\<lambda>a b. moves a b \<and> b \<noteq> StatusOriginBranchReceived)\<^sup>*\<^sup>* StatusBooked b"
  shows "b \<in> {StatusBooked, StatusPickupScheduled, StatusPickupAssigned, StatusPickedUp, StatusCancelled, StatusLost}"
  using assms
  by (rule rtranclp_trapped [rotated]) (auto simp: moves_successors successors_simps)

lemma destination_gate:
  assumes "(\<lambda>a b. moves a b \<and> b \<noteq> StatusDestinationBranchReceived)\<^sup>*\<^sup>* StatusBooked b"
  shows "b \<notin> {StatusOutForDelivery, StatusDeliveryFailed, StatusNDR, StatusDestinationBranchReceived}"
proof -
  let ?D = "- {StatusOutForDelivery, StatusDeliveryFailed, StatusNDR, StatusDestinationBranchReceived}"
  have closed: "set (successors a) \<subseteq> insert StatusDestinationBranchReceived ?D" if "a \<in> ?D" for a
    using that by (cases a) (simp_all add: successors_simps)
  from assms have "b \<in> ?D"
  proof (rule rtranclp_trapped [rotated])
    show "t \<in> ?D" if "s \<in> ?D" and "moves s t \<and> t \<noteq> StatusDestinationBranchReceived" for s t
      using closed [OF that(1)] that(2) by (auto simp: moves_successors)
  qed simp
  then show ?thesis by simp
qed

lemma transitions_irreflexive: "\<forall>t \<in> set transitions. From t \<noteq> To t"
  by code_simp

text \<open>
  \<^bold>\<open>No shortcut to delivery.\<close> From booking, no sequence of legal changes that avoids the
  origin branch's receipt reaches delivery, and none that avoids the destination branch's
  receipt reaches an attempt (out for delivery, delivery failed, NDR).
\<close>

theorem delivery_needs_receipts:
  "\<not> (\<lambda>a b. moves a b \<and> b \<noteq> StatusOriginBranchReceived)\<^sup>*\<^sup>* StatusBooked StatusDelivered
   \<and> \<not> (\<lambda>a b. moves a b \<and> b \<noteq> StatusDestinationBranchReceived)\<^sup>*\<^sup>* StatusBooked StatusOutForDelivery
   \<and> \<not> (\<lambda>a b. moves a b \<and> b \<noteq> StatusDestinationBranchReceived)\<^sup>*\<^sup>* StatusBooked StatusNDR"
  using origin_gate [of StatusDelivered] destination_gate [of StatusOutForDelivery] destination_gate [of StatusNDR]
  by blast

end
