(* ===== verification/Commission_Calc.thy ===== *)
theory Commission_Calc
  imports Money "HOL-Library.Multiset"
begin

text \<open>
  \<^verbatim>\<open>internal/commission/calculator.go\<close>: the arithmetic half of a commission rule. A rule pays a
  fixed amount, a rate on a named basis, or the band of a slab table the basis falls in; the
  result is clamped and carries a trace of its steps. \<open>ValidateSlabs\<close> is the check a slab
  table passes when it is configured, \<open>selectSlab\<close> the lookup when it has to pay; the locale
  \<open>band_table\<close> states what the first promises the second.
\<close>

subsection \<open>Data\<close>

definition MethodFixed :: string where "MethodFixed = ''FIXED''"
definition MethodPercentage :: string where "MethodPercentage = ''PERCENTAGE''"
definition MethodSlab :: string where "MethodSlab = ''SLAB''"

lemmas method_defs = MethodFixed_def MethodPercentage_def MethodSlab_def

definition CodeInvalidSlabs :: string where "CodeInvalidSlabs = ''COMMISSION_INVALID_SLABS''"

record Basis =
  FreightMinor :: int
  SurchargeMinor :: int
  DiscountMinor :: int
  TaxableMinor :: int
  TaxMinor :: int
  TotalMinor :: int
  CODAmountMinor :: int
  ChargeableWeightG :: int
  ShipmentCount :: int

definition valueFor :: "Basis \<Rightarrow> string \<Rightarrow> int result" where
  "valueFor b basis =
     (if basis = ''FREIGHT'' then Inr (FreightMinor b)
      else if basis = ''SURCHARGE'' then Inr (SurchargeMinor b)
      else if basis = ''FREIGHT_PLUS_SURCHARGE'' then Inr (add64 (FreightMinor b) (SurchargeMinor b))
      else if basis = ''TOTAL_BEFORE_TAX'' then Inr (TaxableMinor b)
      else if basis = ''TOTAL'' then Inr (TotalMinor b)
      else if basis = ''COD_AMOUNT'' then Inr (CODAmountMinor b)
      else if basis = ''CHARGEABLE_WEIGHT'' then Inr (ChargeableWeightG b)
      else if basis = ''SHIPMENT_COUNT'' then Inr (ShipmentCount b)
      else Inl (Validation ''Unknown commission basis.''))"

record Slab =
  sl_FromMinor :: int
  sl_ToMinor :: "int option"
  sl_AmountMinor :: int
  sl_RateBp :: "int option"
  sl_Label :: string

record Rule =
  ru_Method :: string
  ru_Currency :: string
  ru_FixedAmountMinor :: "int option"
  ru_RateBp :: "int option"
  ru_BasisName :: string
  ru_Slabs :: "Slab list"
  ru_MinAmountMinor :: "int option"
  ru_MaxAmountMinor :: "int option"

record Step =
  st_Description :: string
  st_Value :: int
  st_Detail :: string

record Outcome =
  out_Method :: string
  out_BasisName :: string
  out_BasisValue :: int
  out_RateBp :: "int option"
  out_GrossMinor :: int
  out_AmountMinor :: int
  out_Currency :: string
  out_Clamped :: bool
  out_Steps :: "Step list"

subsection \<open>Slab tables\<close>

text \<open>
  \<^verbatim>\<open>sort.SliceStable\<close> by lower bound is \<^const>\<open>sort_key\<close>. \<open>first_band\<close> is the loop of
  \<^verbatim>\<open>selectSlab\<close>, with the running index.
\<close>

fun first_band :: "nat \<Rightarrow> Slab list \<Rightarrow> int \<Rightarrow> (Slab \<times> nat) option" where
  "first_band i [] value = None"
| "first_band i (s # rest) value =
     (if value < sl_FromMinor s then first_band (Suc i) rest value
      else case sl_ToMinor s of
             None \<Rightarrow> Some (s, i)
           | Some hi \<Rightarrow> if value < hi then Some (s, i) else first_band (Suc i) rest value)"

definition selectSlab :: "Slab list \<Rightarrow> int \<Rightarrow> (Slab \<times> nat) result" where
  "selectSlab slabs value =
     (if slabs = [] then Inl (Conflict CodeInvalidSlabs)
      else opt_or (first_band 0 (sort_key sl_FromMinor slabs) value) (Conflict CodeInvalidSlabs))"

text \<open>The loop body of \<^verbatim>\<open>ValidateSlabs\<close>, on the band and the ones after it in sorted order.\<close>

fun check_bands :: "Slab list \<Rightarrow> unit result" where
  "check_bands [] = Inr ()"
| "check_bands (s # rest) =
     ensure (\<not> sl_AmountMinor s < 0) (Conflict CodeInvalidSlabs)
     (ensure (case sl_RateBp s of None \<Rightarrow> True | Some r \<Rightarrow> \<not> (r < 0 \<or> r > 1000000)) (Conflict CodeInvalidSlabs)
     (ensure (case sl_ToMinor s of None \<Rightarrow> True | Some hi \<Rightarrow> \<not> hi \<le> sl_FromMinor s) (Conflict CodeInvalidSlabs)
     (case rest of
        [] \<Rightarrow> ensure (sl_ToMinor s = None) (Conflict CodeInvalidSlabs) (check_bands rest)
      | nxt # _ \<Rightarrow>
          (case sl_ToMinor s of
             None \<Rightarrow> Inl (Conflict CodeInvalidSlabs)
           | Some hi \<Rightarrow> ensure (hi = sl_FromMinor nxt) (Conflict CodeInvalidSlabs) (check_bands rest)))))"

definition ValidateSlabs :: "Slab list \<Rightarrow> unit result" where
  "ValidateSlabs slabs =
     (case sort_key sl_FromMinor slabs of
        [] \<Rightarrow> Inl (Conflict CodeInvalidSlabs)
      | s # rest \<Rightarrow> ensure (sl_FromMinor s = 0) (Conflict CodeInvalidSlabs) (check_bands (s # rest)))"

definition describeSlab :: "Slab \<Rightarrow> string" where
  "describeSlab s =
     (if sl_Label s \<noteq> '''' then sl_Label s
      else case sl_ToMinor s of
             None \<Rightarrow> FormatInt (sl_FromMinor s) @ '' and above''
           | Some hi \<Rightarrow> FormatInt (sl_FromMinor s) @ '' to '' @ FormatInt hi)"



definition formatBP :: "int \<Rightarrow> string" where
  "formatBP bp =
     (let whole = bp sdiv 100; frac = bp smod 100
      in if frac = 0 then FormatInt whole
         else if frac smod 10 = 0 then FormatInt whole @ ''.'' @ FormatInt (frac sdiv 10)
         else FormatInt whole @ ''.'' @ format_0d 2 frac)"

subsection \<open>The calculation\<close>

definition times_sign :: string where
  "times_sign = [CHR 0xC3, CHR 0x97]"

abbreviation mkStep :: "string \<Rightarrow> int \<Rightarrow> string \<Rightarrow> Step" where
  "mkStep d v x \<equiv> \<lparr>st_Description = d, st_Value = v, st_Detail = x\<rparr>"

text \<open>The \<^verbatim>\<open>switch\<close> of \<^verbatim>\<open>Calculate\<close>: the outcome before the clamp.\<close>

definition calculate_gross :: "Rule \<Rightarrow> Basis \<Rightarrow> Outcome result" where
  "calculate_gross r b =
     (let out = \<lparr>out_Method = ru_Method r, out_BasisName = '''', out_BasisValue = 0, out_RateBp = None,
                 out_GrossMinor = 0, out_AmountMinor = 0, out_Currency = ru_Currency r,
                 out_Clamped = False, out_Steps = []\<rparr>
      in if ru_Method r = MethodFixed then
           bindE (opt_or (ru_FixedAmountMinor r) (Validation ''A fixed rule needs an amount.''))
             (\<lambda>a. Inr (out\<lparr>out_GrossMinor := a,
                out_Steps := [mkStep ''Fixed amount per qualifying event'' a '''']\<rparr>))
         else if ru_Method r = MethodPercentage then
           bindE (opt_or (ru_RateBp r) (Validation ''A percentage rule needs a rate.''))
             (\<lambda>bp. bindE (valueFor b (ru_BasisName r))
               (\<lambda>value. bindE (ApplyBP value bp)
                 (\<lambda>gross. Inr (out\<lparr>out_BasisName := ru_BasisName r, out_BasisValue := value,
                    out_RateBp := Some bp, out_GrossMinor := gross,
                    out_Steps := [mkStep (''Basis '' @ ru_BasisName r) value '''',
                      mkStep (''Apply '' @ formatBP bp @ ''% of basis'') gross
                        (FormatInt value @ '' '' @ times_sign @ '' '' @ FormatInt bp @ '' bp, rounded half-up'')]\<rparr>))))
         else if ru_Method r = MethodSlab then
           bindE (valueFor b (ru_BasisName r))
             (\<lambda>value. bindE (selectSlab (ru_Slabs r) value)
               (\<lambda>(slab, idx). bindE
                 (case sl_RateBp slab of
                    None \<Rightarrow> Inr (sl_AmountMinor slab, ''flat '' @ FormatInt (sl_AmountMinor slab))
                  | Some bp \<Rightarrow> bindE (ApplyBP value bp)
                      (\<lambda>rated. Inr (add64 (sl_AmountMinor slab) rated,
                         ''flat '' @ FormatInt (sl_AmountMinor slab) @ '' plus '' @ FormatInt bp @ '' bp of ''
                         @ FormatInt value @ '' = '' @ FormatInt rated)))
                 (\<lambda>(amount, detail). Inr (out\<lparr>out_BasisName := ru_BasisName r, out_BasisValue := value,
                    out_RateBp := sl_RateBp slab, out_GrossMinor := amount,
                    out_Steps := [mkStep (''Basis '' @ ru_BasisName r) value '''',
                      mkStep (''Matched slab '' @ FormatInt (int idx + 1) @ '' ('' @ describeSlab slab @ '')'')
                        amount detail]\<rparr>))))
         else Inl (Validation ''Unknown calculation method.''))"

text \<open>The clamp, which records itself in the trace.\<close>

definition clamp_outcome :: "Rule \<Rightarrow> Outcome \<Rightarrow> Outcome" where
  "clamp_outcome r g =
     (let amount = Clamp (out_GrossMinor g) (ru_MinAmountMinor r) (ru_MaxAmountMinor r);
          g1 = g\<lparr>out_AmountMinor := amount\<rparr>
      in if amount \<noteq> out_GrossMinor g
         then g1\<lparr>out_Clamped := True,
                out_Steps := out_Steps g1 @
                  [mkStep (''Applied '' @ (if amount < out_GrossMinor g then ''maximum'' else ''minimum'')
                            @ '' bound'') amount
                     (''gross '' @ FormatInt (out_GrossMinor g) @ '' adjusted to '' @ FormatInt amount)]\<rparr>
         else g1)"

definition Calculate :: "Rule \<Rightarrow> Basis \<Rightarrow> Outcome result" where
  "Calculate r b =
     bindE (calculate_gross r b)
       (\<lambda>g. let out = clamp_outcome r g
           in ensure (\<not> out_AmountMinor out < 0) (Validation ''A commission cannot be negative.'') (Inr out))"

subsection \<open>What a slab table promises\<close>

text \<open>
  The interface between the check at configuration time and the lookup at payment time: an
  accepted table covers every non-negative value, no two of its bands overlap, and the lookup
  returns a band of the table that covers the value.
\<close>

locale band_table =
  fixes valid :: "'b list \<Rightarrow> bool"
    and covers :: "'b \<Rightarrow> int \<Rightarrow> bool"
    and pick :: "'b list \<Rightarrow> int \<Rightarrow> 'b option"
  assumes pick_sound: "pick bs v = Some b \<Longrightarrow> b \<in> set bs \<and> covers b v"
    and pick_total: "valid bs \<Longrightarrow> 0 \<le> v \<Longrightarrow> pick bs v \<noteq> None"
    and disjoint: "valid bs \<Longrightarrow> b \<in> set bs \<Longrightarrow> c \<in> set bs \<Longrightarrow> covers b v \<Longrightarrow> covers c v \<Longrightarrow> b = c"
begin

lemma pick_iff: "valid bs \<Longrightarrow> 0 \<le> v \<Longrightarrow> pick bs v = Some b \<longleftrightarrow> b \<in> set bs \<and> covers b v"
  by (metis disjoint not_None_eq pick_sound pick_total)

lemma ex1_band: "valid bs \<Longrightarrow> 0 \<le> v \<Longrightarrow> \<exists>!b. b \<in> set bs \<and> covers b v"
  by (metis disjoint not_None_eq pick_sound pick_total)

lemma pick_set_cong:
  "valid bs \<Longrightarrow> valid cs \<Longrightarrow> set bs = set cs \<Longrightarrow> 0 \<le> v \<Longrightarrow> pick cs v = pick bs v"
  by (metis pick_iff option.exhaust pick_total)

end

definition covers :: "Slab \<Rightarrow> int \<Rightarrow> bool" where
  "covers s v \<longleftrightarrow> sl_FromMinor s \<le> v \<and> (case sl_ToMinor s of None \<Rightarrow> True | Some hi \<Rightarrow> v < hi)"

definition pick_slab :: "Slab list \<Rightarrow> int \<Rightarrow> Slab option" where
  "pick_slab slabs v = (case selectSlab slabs v of Inl _ \<Rightarrow> None | Inr (s, i) \<Rightarrow> Some s)"

lemma first_band_Some:
  "first_band i bs v = Some (s, k) \<Longrightarrow> s \<in> set bs \<and> covers s v"
  by (induction i bs v rule: first_band.induct)
    (auto simp: covers_def split: if_splits option.splits)

lemma first_band_None: "first_band i bs v = None \<longleftrightarrow> (\<forall>s \<in> set bs. \<not> covers s v)"
  by (induction i bs v rule: first_band.induct) (auto simp: covers_def split: option.splits)

lemma selectSlab_Inr: "selectSlab bs v = Inr (s, k) \<Longrightarrow> s \<in> set bs \<and> covers s v"
  by (auto simp: selectSlab_def res_simps split: if_splits dest: first_band_Some)

declare check_bands.simps(2) [simp del]

lemma check_bands_Cons:
  "check_bands (s # rest) = Inr () \<Longrightarrow>
     0 \<le> sl_AmountMinor s \<and> (\<forall>r. sl_RateBp s = Some r \<longrightarrow> 0 \<le> r \<and> r \<le> 1000000) \<and>
     (rest = [] \<and> sl_ToMinor s = None \<or>
      (\<exists>nxt more hi. rest = nxt # more \<and> sl_ToMinor s = Some hi \<and> sl_FromMinor s < hi
         \<and> hi = sl_FromMinor nxt \<and> check_bands rest = Inr ()))"
  unfolding check_bands.simps(2) [of s rest] ensure_Inr
  by (cases rest; cases "sl_ToMinor s"; cases "sl_RateBp s") (simp_all add: res_simps not_less)

lemma check_bands_above:
  "check_bands (s # rest) = Inr () \<Longrightarrow> t \<in> set rest \<Longrightarrow> sl_FromMinor s < sl_FromMinor t"
proof (induction rest arbitrary: s)
  case (Cons u rest)
  from check_bands_Cons [OF Cons.prems(1)]
  have "sl_FromMinor s < sl_FromMinor u" and "check_bands (u # rest) = Inr ()" by auto
  with Cons show ?case by force
qed simp

lemma check_bands_rest:
  "check_bands (s # rest) = Inr () \<Longrightarrow> check_bands rest = Inr ()"
  by (cases rest) (use check_bands_Cons in auto)

lemma check_bands_distinct: "check_bands bs = Inr () \<Longrightarrow> distinct (map sl_FromMinor bs)"
proof (induction bs)
  case (Cons s rest)
  then show ?case using check_bands_above [of s rest] check_bands_rest [of s rest] by force
qed simp

lemma check_bands_cover:
  "check_bands (s # rest) = Inr () \<Longrightarrow> sl_FromMinor s \<le> v \<Longrightarrow> \<exists>t \<in> set (s # rest). covers t v"
proof (induction rest arbitrary: s)
  case Nil
  then show ?case using check_bands_Cons [OF Nil(1)] by (auto simp: covers_def)
next
  case (Cons u rest)
  from check_bands_Cons [OF Cons.prems(1)] obtain hi where
    hi: "sl_ToMinor s = Some hi" "hi = sl_FromMinor u" "check_bands (u # rest) = Inr ()" by auto
  show ?case
  proof (cases "v < hi")
    case True
    then show ?thesis using Cons.prems hi by (auto simp: covers_def)
  next
    case False
    then show ?thesis using Cons.IH [of u] hi by auto
  qed
qed

lemma check_bands_disjoint:
  "check_bands bs = Inr () \<Longrightarrow> s \<in> set bs \<Longrightarrow> t \<in> set bs \<Longrightarrow> covers s v \<Longrightarrow> covers t v \<Longrightarrow> s = t"
proof (induction bs)
  case (Cons u rest)
  have no: False if "t \<in> set rest" "covers u v" "covers t v" for t
  proof -
    from check_bands_Cons [OF Cons.prems(1)] that(1) obtain nxt more hi where
      c: "rest = nxt # more" "sl_ToMinor u = Some hi" "hi = sl_FromMinor nxt"
         "check_bands (nxt # more) = Inr ()" by auto
    have "sl_FromMinor nxt \<le> sl_FromMinor t"
      using check_bands_above [OF c(4)] that(1) c(1) by force
    then show False using that(2,3) c by (auto simp: covers_def)
  qed
  show ?case
    using Cons.prems Cons.IH check_bands_rest [OF Cons.prems(1)] no by auto
qed simp

lemma ValidateSlabs_iff:
  "ValidateSlabs bs = Inr () \<longleftrightarrow>
     (\<exists>s rest. sort_key sl_FromMinor bs = s # rest \<and> sl_FromMinor s = 0 \<and> check_bands (s # rest) = Inr ())"
  by (auto simp: ValidateSlabs_def res_simps split: list.splits)

lemma sorted_band: "s \<in> set (sort_key sl_FromMinor bs) \<longleftrightarrow> s \<in> set bs"
  by simp

interpretation slabs: band_table "\<lambda>bs. ValidateSlabs bs = Inr ()" covers pick_slab
proof
  fix bs v b
  show "b \<in> set bs \<and> covers b v" if "pick_slab bs v = Some b"
    using that selectSlab_Inr [of bs v b] by (auto simp: pick_slab_def split: sum.splits)
next
  fix bs and v :: int
  assume a: "ValidateSlabs bs = Inr ()" "0 \<le> v"
  then obtain s rest where s: "sort_key sl_FromMinor bs = s # rest" "sl_FromMinor s = 0"
    "check_bands (s # rest) = Inr ()" by (auto simp: ValidateSlabs_iff)
  then have "bs \<noteq> []" by auto
  moreover have "first_band 0 (s # rest) v \<noteq> None"
    using check_bands_cover [OF s(3)] s(2) a(2) unfolding first_band_None by auto
  ultimately show "pick_slab bs v \<noteq> None"
    using s(1) by (auto simp: pick_slab_def selectSlab_def)
next
  fix bs v b c
  assume "ValidateSlabs bs = Inr ()" "b \<in> set bs" "c \<in> set bs" "covers b v" "covers c v"
  then show "b = c"
    using check_bands_disjoint [of "sort_key sl_FromMinor bs" b c v]
    by (auto simp: ValidateSlabs_iff)
qed

text \<open>Reordering an accepted table changes nothing: its sorted form is the same list.\<close>

lemma valid_sort_unique:
  assumes "ValidateSlabs bs = Inr ()" "mset cs = mset bs"
  shows "sort_key sl_FromMinor cs = sort_key sl_FromMinor bs"
proof (rule map_sorted_distinct_set_unique)
  have d: "distinct (map sl_FromMinor (sort_key sl_FromMinor bs))"
    using assms(1) check_bands_distinct unfolding ValidateSlabs_iff by metis
  then show "distinct (map sl_FromMinor (sort_key sl_FromMinor bs))" .
  have "mset (map sl_FromMinor (sort_key sl_FromMinor cs)) = mset (map sl_FromMinor (sort_key sl_FromMinor bs))"
    using assms(2) by (simp add: mset_map)
  then show "distinct (map sl_FromMinor (sort_key sl_FromMinor cs))"
    using d by (metis distinct_count_atmost_1 set_mset_mset)
  show e: "set (sort_key sl_FromMinor cs) = set (sort_key sl_FromMinor bs)"
    using assms(2) mset_eq_setD [of cs bs] by simp
  have "inj_on sl_FromMinor (set (sort_key sl_FromMinor bs))"
    using d by (simp add: distinct_map)
  then show "inj_on sl_FromMinor (set (sort_key sl_FromMinor cs) \<union> set (sort_key sl_FromMinor bs))"
    using e by simp
qed simp_all

lemma check_bands_rates:
  "check_bands bs = Inr () \<Longrightarrow> s \<in> set bs \<Longrightarrow>
     0 \<le> sl_AmountMinor s \<and> (\<forall>r. sl_RateBp s = Some r \<longrightarrow> 0 \<le> r \<and> r \<le> 1000000)"
proof (induction bs)
  case (Cons u rest)
  then show ?case using check_bands_Cons [OF Cons.prems(1)] check_bands_rest [OF Cons.prems(1)] by auto
qed simp

lemma ValidateSlabs_rates:
  "ValidateSlabs bs = Inr () \<Longrightarrow> s \<in> set bs \<Longrightarrow>
     0 \<le> sl_AmountMinor s \<and> (\<forall>r. sl_RateBp s = Some r \<longrightarrow> 0 \<le> r \<and> r \<le> 1000000)"
  using check_bands_rates [of "sort_key sl_FromMinor bs" s] by (auto simp: ValidateSlabs_iff)

lemma pick_selectSlab:
  "pick_slab bs v = Some s \<longleftrightarrow> (\<exists>i. selectSlab bs v = Inr (s, i))"
  by (auto simp: pick_slab_def split: sum.splits)

text \<open>
  C24: \<^bold>\<open>An accepted slab table always pays one band.\<close> Once \<^verbatim>\<open>ValidateSlabs\<close> has accepted a
  table, the lookup succeeds for every non-negative basis value, whatever order the bands are
  stored in, and returns the one band of the table that covers the value.
\<close>

theorem slab_table_sound:
  assumes "ValidateSlabs bs = Inr ()" "mset cs = mset bs" "0 \<le> v"
  shows "\<exists>s i. selectSlab cs v = Inr (s, i) \<and> selectSlab bs v = Inr (s, i)
    \<and> (\<forall>t. t \<in> set bs \<and> covers t v \<longleftrightarrow> t = s)"
proof -
  obtain s where p: "pick_slab bs v = Some s" using slabs.pick_total [OF assms(1,3)] by blast
  then obtain i where i: "selectSlab bs v = Inr (s, i)" by (auto simp: pick_selectSlab)
  have "bs = [] \<longleftrightarrow> cs = []" using assms(2) by auto
  then have "selectSlab cs v = selectSlab bs v"
    by (simp add: selectSlab_def valid_sort_unique [OF assms(1,2)])
  moreover have "t \<in> set bs \<and> covers t v \<longleftrightarrow> t = s" for t
    using slabs.pick_iff [OF assms(1,3)] p by (metis option.inject)
  ultimately show ?thesis using i by auto
qed

definition demo_slabs :: "Slab list" where
  "demo_slabs =
     [\<lparr>sl_FromMinor = 100000, sl_ToMinor = None, sl_AmountMinor = 500, sl_RateBp = Some 250, sl_Label = ''''\<rparr>,
      \<lparr>sl_FromMinor = 0, sl_ToMinor = Some 100000, sl_AmountMinor = 500, sl_RateBp = None, sl_Label = ''small''\<rparr>]"

lemma demo_slabs_valid: "ValidateSlabs demo_slabs = Inr ()"
  by (simp add: ValidateSlabs_def demo_slabs_def check_bands.simps)

theorem slab_table_sound_witness:
  "\<exists>s i. selectSlab demo_slabs 100000 = Inr (s, i) \<and> selectSlab (rev demo_slabs) 100000 = Inr (s, i)
     \<and> (\<forall>t. t \<in> set demo_slabs \<and> covers t 100000 \<longleftrightarrow> t = s)"
  using slab_table_sound [OF demo_slabs_valid, of "rev demo_slabs" 100000] by fastforce

subsection \<open>What a calculation pays\<close>

lemma Clamp_bounds:
  "(\<forall>m. mx = Some m \<longrightarrow> Clamp v mn mx \<le> m)"
  "(\<forall>m. mn = Some m \<longrightarrow> (\<forall>k. mx = Some k \<longrightarrow> m \<le> k) \<longrightarrow> m \<le> Clamp v mn mx)"
  by (auto simp: Clamp_def Let_def split: option.splits)

lemma Clamp_none [simp]: "Clamp v None None = v"
  by (simp add: Clamp_def)

lemma calculate_gross_steps:
  "calculate_gross r b = Inr g \<Longrightarrow>
     out_Steps g \<noteq> [] \<and> st_Value (last (out_Steps g)) = out_GrossMinor g \<and> \<not> out_Clamped g
     \<and> out_Method g = ru_Method r \<and> out_Currency g = ru_Currency r"
  by (auto simp: calculate_gross_def Let_def res_simps split: if_splits prod.splits)

lemma clamp_outcome_facts:
  "out_AmountMinor (clamp_outcome r g) = Clamp (out_GrossMinor g) (ru_MinAmountMinor r) (ru_MaxAmountMinor r)"
  "out_GrossMinor (clamp_outcome r g) = out_GrossMinor g"
  "out_Currency (clamp_outcome r g) = out_Currency g"
  "out_Clamped (clamp_outcome r g) \<longleftrightarrow> out_AmountMinor (clamp_outcome r g) \<noteq> out_GrossMinor g \<or> out_Clamped g"
  "out_Steps g \<noteq> [] \<Longrightarrow> out_Steps (clamp_outcome r g) \<noteq> []"
  "st_Value (last (out_Steps g)) = out_GrossMinor g \<Longrightarrow>
     st_Value (last (out_Steps (clamp_outcome r g))) = out_AmountMinor (clamp_outcome r g)"
  by (simp_all add: clamp_outcome_def Let_def)

text \<open>
  \<^bold>\<open>A commission stays in its bounds and explains itself.\<close> Whatever rule is applied, a
  commission that is paid is not negative, never above the rule's maximum, never below its
  minimum (unless the two contradict each other), in the rule's currency; the \<^verbatim>\<open>Clamped\<close> flag
  is set exactly when a bound changed the number, and the last step of the trace carries the
  amount paid.
\<close>

theorem Calculate_bounds:
  assumes "Calculate r b = Inr out"
  shows "0 \<le> out_AmountMinor out
    \<and> (\<forall>m. ru_MaxAmountMinor r = Some m \<longrightarrow> out_AmountMinor out \<le> m)
    \<and> (\<forall>m. ru_MinAmountMinor r = Some m \<longrightarrow> (\<forall>k. ru_MaxAmountMinor r = Some k \<longrightarrow> m \<le> k) \<longrightarrow>
         m \<le> out_AmountMinor out)
    \<and> out_Currency out = ru_Currency r
    \<and> (out_Clamped out \<longleftrightarrow> out_AmountMinor out \<noteq> out_GrossMinor out)
    \<and> out_Steps out \<noteq> [] \<and> st_Value (last (out_Steps out)) = out_AmountMinor out"
proof -
  from assms obtain g where g: "calculate_gross r b = Inr g" and o: "out = clamp_outcome r g"
    and n: "0 \<le> out_AmountMinor out"
    by (auto simp: Calculate_def Let_def res_simps)
  note gs = calculate_gross_steps [OF g] and co = clamp_outcome_facts [where r = r and g = g, folded o]
  have "\<forall>m. ru_MaxAmountMinor r = Some m \<longrightarrow> out_AmountMinor out \<le> m"
    "\<forall>m. ru_MinAmountMinor r = Some m \<longrightarrow> (\<forall>k. ru_MaxAmountMinor r = Some k \<longrightarrow> m \<le> k) \<longrightarrow>
       m \<le> out_AmountMinor out"
    using Clamp_bounds unfolding co(1) by blast+
  then show ?thesis using n gs co by simp
qed

definition demo_rule :: Rule where
  "demo_rule = \<lparr>ru_Method = ''SLAB'', ru_Currency = ''INR'', ru_FixedAmountMinor = None, ru_RateBp = None,
     ru_BasisName = ''TOTAL'', ru_Slabs = demo_slabs, ru_MinAmountMinor = Some 100, ru_MaxAmountMinor = Some 4000\<rparr>"

definition demo_basis :: "int \<Rightarrow> Basis" where
  "demo_basis v = \<lparr>FreightMinor = v, SurchargeMinor = 0, DiscountMinor = 0, TaxableMinor = v, TaxMinor = 0,
     TotalMinor = v, CODAmountMinor = 0, ChargeableWeightG = 500, ShipmentCount = 1\<rparr>"

theorem Calculate_bounds_witness:
  "\<exists>out. Calculate (demo_rule\<lparr>ru_Method := ''FIXED'', ru_FixedAmountMinor := Some 5500\<rparr>) (demo_basis 200000) = Inr out
     \<and> 100 \<le> out_AmountMinor out \<and> out_AmountMinor out \<le> 4000 \<and> out_Clamped out"
proof -
  let ?r = "demo_rule\<lparr>ru_Method := ''FIXED'', ru_FixedAmountMinor := Some 5500\<rparr>"
  obtain g where "calculate_gross ?r (demo_basis 200000) = Inr g" "out_GrossMinor g = 5500"
    by (simp add: calculate_gross_def Let_def method_defs)
  moreover from this have "out_AmountMinor (clamp_outcome ?r g) = 4000"
    by (simp add: clamp_outcome_facts demo_rule_def Clamp_def)
  ultimately obtain out where o: "Calculate ?r (demo_basis 200000) = Inr out"
    "out_GrossMinor out = 5500" "out_AmountMinor out = 4000"
    by (simp add: Calculate_def Let_def clamp_outcome_facts)
  show ?thesis using Calculate_bounds [OF o(1)] o by (auto simp: demo_rule_def)
qed

lemma bp_value_million: "0 \<le> v \<Longrightarrow> 0 \<le> bp \<Longrightarrow> bp \<le> 1000000 \<Longrightarrow> bp_value v bp \<le> v * 100"
proof -
  assume a: "0 \<le> v" "0 \<le> bp" "bp \<le> 1000000"
  then have "v * bp \<le> v * 1000000" by (simp add: mult_left_mono)
  then have "2 * (v * bp) + 10000 \<le> v * 2000000 + 10000" by linarith
  then have "(2 * (v * bp) + 10000) div 20000 \<le> (v * 2000000 + 10000) div 20000"
    by (intro zdiv_mono1) simp_all
  also have "\<dots> = v * 100" by (simp add: div_add1_eq [of "v * 2000000"])
  finally show ?thesis using a by (simp add: bp_value_def round_half_away_nonneg)
qed

lemma ApplyBP_band:
  assumes "0 \<le> v" "v \<le> 9000000000000" "0 \<le> bp" "bp \<le> 1000000"
  shows "ApplyBP v bp = Inr (bp_value v bp)"
proof (rule ApplyBP_eq)
  have "v * bp \<le> 9000000000000 * 1000000" using assms by (intro mult_mono) simp_all
  moreover have "0 \<le> v * bp" using assms by simp
  ultimately show "in64 (v * bp)" "v * bp \<noteq> min64" by (simp_all add: width_defs)
qed (use assms in \<open>simp_all add: width_defs\<close>)

text \<open>
  \<^bold>\<open>A slab rule pays its band.\<close> For a configured table, a known basis with a value up to
  nine trillion minor units, and band amounts up to four quintillion, the calculation does not
  fail: it pays, before the clamp, the flat amount of the band that covers the value plus the
  band's rate on it, rounded half up.
\<close>

theorem Calculate_slab:
  assumes "ru_Method r = MethodSlab" "ValidateSlabs (ru_Slabs r) = Inr ()"
    and "valueFor b (ru_BasisName r) = Inr v" "0 \<le> v" "v \<le> 9000000000000"
    and "\<forall>s \<in> set (ru_Slabs r). sl_AmountMinor s \<le> 4000000000000000000"
    and "\<forall>m. ru_MaxAmountMinor r = Some m \<longrightarrow> 0 \<le> m"
  shows "\<exists>out s. Calculate r b = Inr out \<and> s \<in> set (ru_Slabs r) \<and> covers s v
    \<and> out_GrossMinor out =
        sl_AmountMinor s + (case sl_RateBp s of None \<Rightarrow> 0 | Some bp \<Rightarrow> bp_value v bp)
    \<and> out_AmountMinor out = Clamp (out_GrossMinor out) (ru_MinAmountMinor r) (ru_MaxAmountMinor r)"
proof -
  let ?rated = "\<lambda>s. case sl_RateBp s of None \<Rightarrow> 0 | Some bp \<Rightarrow> bp_value v bp"
  obtain s where "pick_slab (ru_Slabs r) v = Some s"
    using slabs.pick_total [OF assms(2,4)] by blast
  then obtain i where i: "selectSlab (ru_Slabs r) v = Inr (s, i)" by (auto simp: pick_selectSlab)
  note s = selectSlab_Inr [OF i] and rates = ValidateSlabs_rates [OF assms(2)]
  have rated: "0 \<le> ?rated s \<and> ?rated s \<le> 900000000000000"
    using rates [of s] s assms(4,5) bp_value_nonneg [of v] bp_value_million [of v]
    by (cases "sl_RateBp s") fastforce+
  then have "in64 (sl_AmountMinor s + ?rated s)"
    using rates [of s] s bspec [OF assms(6), of s] unfolding in64_def min64_def max64_def by linarith
  then have sum: "add64 (sl_AmountMinor s) (?rated s) = sl_AmountMinor s + ?rated s"
    by (simp add: add64_def)
  obtain g where g: "calculate_gross r b = Inr g" "out_GrossMinor g = sl_AmountMinor s + ?rated s"
    using assms(1,3,4,5) i sum rates [of s] s
    by (cases "sl_RateBp s") (auto simp: calculate_gross_def Let_def method_defs ApplyBP_band)
  have "0 \<le> out_GrossMinor g" using g rated rates [of s] s by simp
  then have "0 \<le> out_AmountMinor (clamp_outcome r g)"
    using assms(7) by (auto simp: clamp_outcome_facts Clamp_def Let_def split: option.splits)
  then have "Calculate r b = Inr (clamp_outcome r g)" by (simp add: Calculate_def g Let_def)
  then show ?thesis using s g by (auto simp: clamp_outcome_facts)
qed

theorem Calculate_slab_witness:
  "\<exists>out s. Calculate demo_rule (demo_basis 99999) = Inr out \<and> s \<in> set demo_slabs \<and> covers s 99999
     \<and> out_AmountMinor out = Clamp (out_GrossMinor out) (Some 100) (Some 4000)"
  using Calculate_slab [of demo_rule "demo_basis 99999" 99999] demo_slabs_valid
  by (auto simp: demo_rule_def demo_basis_def method_defs valueFor_def demo_slabs_def)

end
