(* ===== verification/Sequences.thy ===== *)
theory Sequences
  imports Go_Prelude "HOL-Library.Sublist"
begin

text \<open>
  The counters behind every human-readable number: \<^verbatim>\<open>awb_sequences\<close> for air waybills
  (\<^verbatim>\<open>internal/shipment/awb.go\<close>) and \<^verbatim>\<open>operational_sequences\<close> for bags, manifests, trips, runs and
  journals (\<^verbatim>\<open>internal/ops/ops.go\<close>). Each is advanced by one atomic upsert, so concurrent callers
  are some sequence of allocations; the locale \<open>sequence_allocator\<close> is the contract of such an
  upsert and shows that no value is issued twice.

  A calendar date is an \<^typ>\<open>int\<close> written \<open>yyyymmdd\<close>, which orders like the date and from which
  \<^verbatim>\<open>Format("060102")\<close> and \<^verbatim>\<open>Format("200601")\<close> read digits.
\<close>

subsection \<open>The contract of a counter\<close>

text \<open>
  \<open>issue\<close> serves a sequence of requests and collects what was issued, skipping refusals.
\<close>

fun issue :: "('k \<Rightarrow> 's \<Rightarrow> (int \<times> 's) option) \<Rightarrow> 'k list \<Rightarrow> 's \<Rightarrow> ('k \<times> int) list" where
  "issue a [] s = []"
| "issue a (k # ks) s =
     (case a k s of None \<Rightarrow> issue a ks s | Some (n, s') \<Rightarrow> (k, n) # issue a ks s')"

locale sequence_allocator =
  fixes alloc :: "'k \<Rightarrow> 's \<Rightarrow> (int \<times> 's) option"
    and cur :: "'s \<Rightarrow> 'k \<Rightarrow> int"
  assumes alloc_next: "alloc k s = Some (n, s') \<Longrightarrow> n = cur s k + 1"
    and alloc_advances: "alloc k s = Some (n, s') \<Longrightarrow> cur s' = (cur s)(k := n)"
begin

lemma issue_above: "(k, n) \<in> set (issue alloc ks s) \<Longrightarrow> cur s k < n"
proof (induction ks arbitrary: s)
  case (Cons j ks)
  show ?case
  proof (cases "alloc j s")
    case None
    then show ?thesis using Cons by simp
  next
    case (Some ms)
    then obtain m s' where a: "alloc j s = Some (m, s')" by (cases ms) simp
    note step = alloc_next [OF a] alloc_advances [OF a]
    show ?thesis
    proof (cases "(k, n) = (j, m)")
      case True
      then show ?thesis using step by simp
    next
      case False
      then have "cur s' k < n" using Cons a by auto
      then show ?thesis using step by (auto split: if_splits)
    qed
  qed
qed simp

theorem issue_distinct: "distinct (issue alloc ks s)"
proof (induction ks arbitrary: s)
  case (Cons j ks)
  show ?case
  proof (cases "alloc j s")
    case (Some ms)
    then obtain m s' where a: "alloc j s = Some (m, s')" by (cases ms) simp
    have "(j, m) \<notin> set (issue alloc ks s')"
      using issue_above [of j m ks s'] alloc_advances [OF a] by auto
    then show ?thesis using a Cons by simp
  qed (use Cons in simp)
qed simp

end

subsection \<open>The two tables\<close>

text \<open>
  A row is its \<^verbatim>\<open>current_value\<close> and \<^verbatim>\<open>max_value\<close>. The operational upsert refuses (returns no
  row) at the maximum; the waybill upsert advances past it and leaves the refusal to its
  caller. The CHECK constraints on the key columns are part of the insert: a key that
  violates them is a database error.
\<close>

type_synonym 'k seq_table = "'k \<rightharpoonup> int \<times> int"

definition seq_current :: "'k seq_table \<Rightarrow> 'k \<Rightarrow> int" where
  "seq_current t k = (case t k of None \<Rightarrow> 0 | Some (c, m) \<Rightarrow> c)"

type_synonym op_key = "int \<times> string \<times> string"

definition AllocateOperationalSequence :: "op_key \<Rightarrow> op_key seq_table \<Rightarrow> (int \<times> op_key seq_table) option" where
  "AllocateOperationalSequence k t =
     (case t k of
        None \<Rightarrow> Some (1, t(k \<mapsto> (1, 999999)))
      | Some (c, m) \<Rightarrow> if c < m then Some (c + 1, t(k \<mapsto> (c + 1, m))) else None)"

type_synonym awb_key = "int \<times> string \<times> string"

definition is_upper :: "char \<Rightarrow> bool" where
  "is_upper c \<longleftrightarrow> 65 \<le> (of_char c :: nat) \<and> (of_char c :: nat) \<le> 90"

definition awb_prefix_ok :: "string \<Rightarrow> bool" where
  "awb_prefix_ok p \<longleftrightarrow> 2 \<le> length p \<and> length p \<le> 4 \<and> list_all is_upper p"

definition AllocateAWBNumber :: "awb_key \<Rightarrow> int \<Rightarrow> awb_key seq_table \<Rightarrow> ((int \<times> int) \<times> awb_key seq_table) option" where
  "AllocateAWBNumber k maxv t =
     (if \<not> awb_prefix_ok (fst (snd k)) then None
      else case t k of
             None \<Rightarrow> Some ((1, maxv), t(k \<mapsto> (1, maxv)))
           | Some (c, m) \<Rightarrow> Some ((c + 1, m), t(k \<mapsto> (c + 1, m))))"

lemma seq_current_upd [simp]: "seq_current (t(k \<mapsto> (c, m))) = (seq_current t)(k := c)"
  by (rule ext) (simp add: seq_current_def)

lemma seq_current_row: "t k = None \<Longrightarrow> seq_current t k = 0" "t k = Some (c, m) \<Longrightarrow> seq_current t k = c"
  by (simp_all add: seq_current_def)

interpretation op_seq: sequence_allocator AllocateOperationalSequence seq_current
  by unfold_locales
    (auto simp: AllocateOperationalSequence_def seq_current_row split: option.splits if_splits)

definition awb_counter :: "awb_key \<Rightarrow> awb_key seq_table \<Rightarrow> (int \<times> awb_key seq_table) option" where
  "awb_counter k t = map_option (\<lambda>((c, m), t'). (c, t')) (AllocateAWBNumber k 999999 t)"

interpretation awb_seq: sequence_allocator awb_counter seq_current
  by unfold_locales
    (auto simp: awb_counter_def AllocateAWBNumber_def seq_current_row split: option.splits if_splits)

subsection \<open>Air waybills\<close>

definition awbSequenceWidth :: nat where "awbSequenceWidth = 6"
definition awbMaxPerPeriod :: int where "awbMaxPerPeriod = 999999"

text \<open>\<^verbatim>\<open>Format("060102")\<close> of a date.\<close>

definition format_060102 :: "int \<Rightarrow> string" where
  "format_060102 d = pad_dec 6 (nat (d mod 1000000))"

text \<open>
  The two patterns, \<^verbatim>\<open>^[A-Z]{2,4}[0-9]{6}[0-9]{6}$\<close> and the one for paper waybills.
\<close>

definition ValidAWB :: "string \<Rightarrow> bool" where
  "ValidAWB s \<longleftrightarrow>
     (\<exists>k \<in> {2, 3, 4}. length s = k + 12 \<and> list_all is_upper (take k s) \<and> list_all is_digit (drop k s))"

definition alias_char :: "char \<Rightarrow> bool" where
  "alias_char c \<longleftrightarrow> is_upper c \<or> is_digit c \<or> c \<in> set ''._:/ -''"

definition ValidTrackingIdentifier :: "string \<Rightarrow> bool" where
  "ValidTrackingIdentifier s \<longleftrightarrow> ValidAWB s \<or>
     (s \<noteq> [] \<and> (is_upper (hd s) \<or> is_digit (hd s)) \<and> length s \<le> 64 \<and> list_all alias_char (tl s))"

text \<open>\<^verbatim>\<open>Allocator.Allocate\<close>; the date is the UTC date of the instant.\<close>

definition Allocator_Allocate :: "int \<Rightarrow> string \<Rightarrow> int \<Rightarrow> awb_key seq_table \<Rightarrow> string result \<times> awb_key seq_table" where
  "Allocator_Allocate orgID pfx at t =
     (let period = format_060102 at
      in case AllocateAWBNumber (orgID, pfx, period) awbMaxPerPeriod t of
           None \<Rightarrow> (Inl Internal, t)
         | Some ((current, maxv), t') \<Rightarrow>
             (if current > maxv then (Inl (Conflict ''CONFLICT''), t')
              else (Inr (pfx @ period @ format_0d awbSequenceWidth current), t')))"

definition PieceBarcode :: "string \<Rightarrow> int \<Rightarrow> string" where
  "PieceBarcode awb sequence = awb @ ''-'' @ format_0d 2 sequence"

subsection \<open>Operational codes\<close>

text \<open>
  \<^verbatim>\<open>sanitizeCode\<close> works on the upper-cased text. Of the runes outside ASCII only two have an
  upper case inside it, the dotless i and the long s (bytes C4 B1 and C5 BF in UTF-8); every
  other one is dropped, byte by byte, with the rest.
\<close>

fun upper_ascii :: "string \<Rightarrow> string" where
  "upper_ascii [] = []"
| "upper_ascii [c] =
     [if 97 \<le> (of_char c :: nat) \<and> (of_char c :: nat) \<le> 122 then char_of ((of_char c :: nat) - 32) else c]"
| "upper_ascii (c # d # s) =
     (if c = CHR 0xC4 \<and> d = CHR 0xB1 then CHR ''I'' # upper_ascii s
      else if c = CHR 0xC5 \<and> d = CHR 0xBF then CHR ''S'' # upper_ascii s
      else (if 97 \<le> (of_char c :: nat) \<and> (of_char c :: nat) \<le> 122 then char_of ((of_char c :: nat) - 32) else c)
           # upper_ascii (d # s))"

definition code_char :: "char \<Rightarrow> bool" where
  "code_char c \<longleftrightarrow> is_upper c \<or> is_digit c \<or> c = CHR ''_'' \<or> c = CHR ''-''"

definition sanitizeCode :: "string \<Rightarrow> string" where
  "sanitizeCode s =
     (let out = filter code_char (upper_ascii s)
      in if out = '''' then ''X'' else if length out > 16 then take 16 out else out)"

definition scopeKey :: "string \<Rightarrow> int \<Rightarrow> string" where
  "scopeKey facilityCode at =
     (let key = sanitizeCode facilityCode @ ''_'' @ format_060102 at
      in if length key > 32 then take 32 key else key)"

definition CodeAllocator_Allocate :: "int \<Rightarrow> string \<Rightarrow> string \<Rightarrow> int \<Rightarrow> op_key seq_table \<Rightarrow> (string \<times> op_key seq_table) result" where
  "CodeAllocator_Allocate orgID kind facilityCode at t =
     bindE (opt_or (AllocateOperationalSequence (orgID, kind, scopeKey facilityCode at) t) (Conflict ''CONFLICT''))
       (\<lambda>(n, t'). Inr (sanitizeCode facilityCode @ ''-'' @ kind @ ''-'' @ format_060102 at @ ''-'' @ format_0d 6 n, t'))"

definition Barcode :: "string \<Rightarrow> string" where
  "Barcode code = filter (\<lambda>c. c \<noteq> CHR ''-'') code"

subsection \<open>Issued numbers are distinct and well formed\<close>

text \<open>Serving a sequence of waybill requests of one organisation, keeping what was issued.\<close>

fun allocate_all :: "int \<Rightarrow> (string \<times> int) list \<Rightarrow> awb_key seq_table \<Rightarrow> string list" where
  "allocate_all org [] t = []"
| "allocate_all org ((pfx, at) # reqs) t =
     (case Allocator_Allocate org pfx at t of
        (Inl e, t') \<Rightarrow> allocate_all org reqs t'
      | (Inr awb, t') \<Rightarrow> awb # allocate_all org reqs t')"

abbreviation awb_text :: "awb_key \<times> int \<Rightarrow> string" where
  "awb_text x \<equiv> fst (snd (fst x)) @ snd (snd (fst x)) @ pad_dec 6 (nat (snd x))"

lemma length_format_060102 [simp]: "length (format_060102 d) = 6"
proof -
  have "nat (d mod 1000000) < 10 ^ 6" by (simp add: nat_less_iff)
  then show ?thesis unfolding format_060102_def by (rule length_pad_dec) simp
qed

lemma format_060102_digits: "list_all is_digit (format_060102 d)"
  using pad_dec_digits by (simp add: format_060102_def list_all_iff)

lemma upper_not_digit: "is_upper c \<Longrightarrow> \<not> is_digit c"
  by (simp add: is_upper_def is_digit_def)

text \<open>Letters followed by digits: the letters can be read off.\<close>

lemma letters_digits_inject:
  assumes "list_all is_upper p" "list_all is_upper q" "list_all is_digit a" "list_all is_digit b"
    and "p @ a = q @ b"
  shows "p = q \<and> a = b"
proof -
  have tw: "takeWhile is_upper (l @ d) = l" if "list_all is_upper l" "list_all is_digit d" for l d
  proof -
    have "takeWhile is_upper d = []"
      using that(2) upper_not_digit by (cases d) auto
    then show ?thesis using that(1) by (simp add: takeWhile_append2 list_all_iff)
  qed
  have "p = q" using tw [OF assms(1,3)] tw [OF assms(2,4)] assms(5) by simp
  then show ?thesis using assms(5) by simp
qed

lemma awb_text_inject:
  assumes "awb_prefix_ok p" "awb_prefix_ok q" "0 < m" "0 < n"
    and "awb_text ((org, p, format_060102 d), m) = awb_text ((org, q, format_060102 e), n)"
  shows "p = q \<and> format_060102 d = format_060102 e \<and> m = n"
proof -
  have "p = q \<and> format_060102 d @ pad_dec 6 (nat m) = format_060102 e @ pad_dec 6 (nat n)"
    using assms pad_dec_digits format_060102_digits
    by (intro letters_digits_inject) (auto simp: awb_prefix_ok_def list_all_iff)
  moreover from this have "format_060102 d = format_060102 e \<and> pad_dec 6 (nat m) = pad_dec 6 (nat n)"
    by (intro append_eq_append_conv [THEN iffD1]) simp_all
  ultimately show ?thesis using assms(3,4) by (simp add: pad_dec_inject nat_eq_iff2)
qed

text \<open>
  What the CHECK constraints and the allocator's constant keep true of the table: counters are
  not negative and no row allows more than six digits.
\<close>

definition awb_table_ok :: "awb_key seq_table \<Rightarrow> bool" where
  "awb_table_ok t \<longleftrightarrow> (\<forall>k c m. t k = Some (c, m) \<longrightarrow> 0 \<le> c \<and> m \<le> 999999)"

lemma awb_table_ok_step:
  "awb_table_ok t \<Longrightarrow> AllocateAWBNumber k awbMaxPerPeriod t = Some (cm, t') \<Longrightarrow> awb_table_ok t'"
  by (fastforce simp: awb_table_ok_def AllocateAWBNumber_def awbMaxPerPeriod_def
      split: if_splits option.splits prod.splits)

lemma awb_current_nonneg: "awb_table_ok t \<Longrightarrow> 0 \<le> seq_current t k"
  by (cases k) (auto simp: awb_table_ok_def seq_current_def split: option.splits)

lemma Allocate_Inr:
  assumes "Allocator_Allocate org p d t = (Inr awb, t')" "awb_table_ok t"
  shows "awb_counter (org, p, format_060102 d) t = Some (seq_current t (org, p, format_060102 d) + 1, t')
    \<and> awb_prefix_ok p
    \<and> awb = awb_text ((org, p, format_060102 d), seq_current t (org, p, format_060102 d) + 1)
    \<and> seq_current t (org, p, format_060102 d) + 1 \<le> 999999 \<and> awb_table_ok t'"
proof -
  from assms(1) obtain c m where c: "AllocateAWBNumber (org, p, format_060102 d) awbMaxPerPeriod t = Some ((c, m), t')"
    "c \<le> m" "awb = p @ format_060102 d @ format_0d awbSequenceWidth c"
    by (auto simp: Allocator_Allocate_def Let_def split: option.splits if_splits)
  have ok: "awb_prefix_ok p" using c(1) by (auto simp: AllocateAWBNumber_def split: if_splits)
  have k: "awb_counter (org, p, format_060102 d) t = Some (c, t')"
    using c(1) by (simp add: awb_counter_def awbMaxPerPeriod_def)
  note n = awb_seq.alloc_next [OF k]
  have "m \<le> 999999"
    using c(1) assms(2) by (auto simp: AllocateAWBNumber_def awb_table_ok_def awbMaxPerPeriod_def
        split: if_splits option.splits)
  moreover have "0 \<le> c" using n awb_current_nonneg [OF assms(2)] by (simp add: add_nonneg_nonneg)
  ultimately show ?thesis
    using c ok k n awb_table_ok_step [OF assms(2) c(1)] by (simp add: format_0d_def awbSequenceWidth_def)
qed

lemma subseq_distinct: "subseq xs ys \<Longrightarrow> distinct ys \<Longrightarrow> distinct xs"
  by (induction rule: list_emb.induct) (auto dest: list_emb_set)

lemma allocate_all_issue:
  "awb_table_ok t \<Longrightarrow> \<exists>xs. allocate_all org reqs t = map awb_text xs
     \<and> subseq xs (issue awb_counter (map (\<lambda>(p, d). (org, p, format_060102 d)) reqs) t)
     \<and> (\<forall>x \<in> set xs. \<exists>p d n. x = ((org, p, format_060102 d), n) \<and> awb_prefix_ok p \<and> 0 < n \<and> n \<le> 999999)"
proof (induction reqs arbitrary: t)
  case (Cons r reqs)
  obtain p d where r: "r = (p, d)" by (cases r)
  let ?k = "(org, p, format_060102 d)"
  let ?ks = "map (\<lambda>(p, d). (org, p, format_060102 d)) reqs"
  obtain res t' where a: "Allocator_Allocate org p d t = (res, t')" by fastforce
  have t': "awb_table_ok t' \<and> (awb_counter ?k t = None \<and> t' = t \<or> (\<exists>c. awb_counter ?k t = Some (c, t')))"
    using a Cons.prems awb_table_ok_step [OF Cons.prems]
    by (fastforce simp: Allocator_Allocate_def Let_def awb_counter_def awbMaxPerPeriod_def
        split: option.splits if_splits prod.splits)
  then obtain xs where xs: "allocate_all org reqs t' = map awb_text xs" "subseq xs (issue awb_counter ?ks t')"
    "\<forall>x \<in> set xs. \<exists>p d n. x = ((org, p, format_060102 d), n) \<and> awb_prefix_ok p \<and> 0 < n \<and> n \<le> 999999"
    using Cons.IH by blast
  show ?case
  proof (cases res)
    case (Inl e)
    then have "allocate_all org (r # reqs) t = map awb_text xs" using r a xs by simp
    moreover have "subseq xs (issue awb_counter (?k # ?ks) t)" using t' xs(2) by auto
    ultimately show ?thesis using xs(3) r by auto
  next
    case (Inr awb)
    note i = Allocate_Inr [OF a [unfolded Inr] Cons.prems]
    let ?x = "(?k, seq_current t ?k + 1)"
    have "allocate_all org (r # reqs) t = map awb_text (?x # xs)" using r a Inr i xs(1) by simp
    moreover have "subseq (?x # xs) (issue awb_counter (?k # ?ks) t)" using i xs(2) by simp
    moreover have "0 < seq_current t ?k + 1" using awb_current_nonneg [OF Cons.prems, of ?k] by simp
    ultimately show ?thesis using xs(3) i r
      by (intro exI [of _ "?x # xs"]) auto
  qed
qed simp

text \<open>
  C26: \<^bold>\<open>Waybill numbers are unique and well formed.\<close> Whatever sequence of waybill requests an
  organisation makes, for any prefixes and dates, the numbers issued are pairwise different and
  each has the published shape; when the day's range is used up the request is refused, it
  never wraps.
\<close>

theorem awb_unique:
  assumes "awb_table_ok t"
  shows "distinct (allocate_all org reqs t) \<and> (\<forall>awb \<in> set (allocate_all org reqs t). ValidAWB awb)"
proof -
  obtain xs where xs: "allocate_all org reqs t = map awb_text xs"
    "subseq xs (issue awb_counter (map (\<lambda>(p, d). (org, p, format_060102 d)) reqs) t)"
    "\<forall>x \<in> set xs. \<exists>p d n. x = ((org, p, format_060102 d), n) \<and> awb_prefix_ok p \<and> 0 < n \<and> n \<le> 999999"
    using allocate_all_issue [OF assms] by blast
  have "distinct xs" using xs(2) awb_seq.issue_distinct subseq_distinct by blast
  moreover have "inj_on awb_text (set xs)"
  proof (rule inj_onI)
    fix x y assume xy: "x \<in> set xs" "y \<in> set xs" "awb_text x = awb_text y"
    obtain p d m where x: "x = ((org, p, format_060102 d), m)" "awb_prefix_ok p" "0 < m"
      using xs(3) xy(1) by blast
    obtain q e n where y: "y = ((org, q, format_060102 e), n)" "awb_prefix_ok q" "0 < n"
      using xs(3) xy(2) by blast
    show "x = y" using awb_text_inject [OF x(2) y(2) x(3) y(3)] xy(3) x(1) y(1) by simp
  qed
  moreover have "ValidAWB (awb_text x)" if x: "x \<in> set xs" for x
  proof -
    obtain p d n where e: "x = ((org, p, format_060102 d), n)" and p: "awb_prefix_ok p"
      and n: "0 < n" "n \<le> 999999" using xs(3) x by blast
    have len: "length (pad_dec 6 (nat n)) = 6" using n by (intro length_pad_dec) (simp_all add: nat_less_iff)
    have "length p \<in> {2, 3, 4}" using p by (auto simp: awb_prefix_ok_def)
    then show ?thesis unfolding ValidAWB_def
      using e p len format_060102_digits [of d] pad_dec_digits [of 6 "nat n"]
      by (intro bexI [of _ "length p"]) (auto simp: awb_prefix_ok_def list_all_iff)
  qed
  ultimately show ?thesis using xs(1) by (auto simp: distinct_map)
qed

theorem awb_unique_witness:
  "distinct (allocate_all 7 [(''QYN'', 20260808), (''QYN'', 20260808), (''AB'', 20260808)] Map.empty)
   \<and> ValidAWB ''QYN260808000001''
   \<and> allocate_all 7 [(''QYN'', 20260808), (''QYN'', 20260808)] [(7, ''QYN'', ''260808'') \<mapsto> (999998, 999999)]
     = [''QYN260808999999'']"
proof -
  have a: "allocate_all 7 [(''QYN'', 20260808)] Map.empty = [''QYN260808000001'']"
    and b: "allocate_all 7 [(''QYN'', 20260808), (''QYN'', 20260808)] [(7, ''QYN'', ''260808'') \<mapsto> (999998, 999999)]
     = [''QYN260808999999'']"
    by (simp_all add: Allocator_Allocate_def AllocateAWBNumber_def awb_prefix_ok_def is_upper_def Let_def
        awbMaxPerPeriod_def awbSequenceWidth_def format_060102_def format_0d_def pad_dec_def dec.simps replicate_num)
  have "awb_table_ok Map.empty" by (simp add: awb_table_ok_def)
  from awb_unique [OF this] show ?thesis using a b by (metis list.set_intros(1))
qed

end
