(* ===== verification/Principal.thy ===== *)
theory Principal
  imports Go_Prelude "HOL-Library.List_Lexorder" "HOL-Library.Char_ord"
begin

text \<open>
  \<^verbatim>\<open>internal/tenant/principal.go\<close>: the authenticated actor of a request, its permissions and the
  units and customers it may see or act at. A \<^verbatim>\<open>*Principal\<close> is an option (nil is \<^const>\<open>None\<close>),
  and so is a slice whose nil is told apart from the empty one. The permission set is the list
  of its keys. Context plumbing and log attributes are left out.
\<close>

record Principal =
  UserID :: int
  UserPublicID :: string
  OrganizationID :: int
  OrganizationCurrency :: string
  OrganizationAWBPrefix :: string
  IsSuperAdmin :: bool
  ImpersonatedOrg :: bool
  Roles :: "string list"
  permissions :: "string list"
  ScopedUnitIDs :: "int list option"
  HasUnscopedRole :: bool
  CustomerIDs :: "int list option"
  IsPortalUser :: bool
  IsPartner :: bool
  PartnerKeyID :: int

definition ActorUserID :: "Principal option \<Rightarrow> int option" where
  "ActorUserID p = (case p of None \<Rightarrow> None | Some q \<Rightarrow> if UserID q = 0 then None else Some (UserID q))"

definition NewPrincipal :: "Principal \<Rightarrow> string list \<Rightarrow> Principal" where
  "NewPrincipal p permissionCodes = p\<lparr>permissions := remdups permissionCodes\<rparr>"

definition Permissions :: "Principal \<Rightarrow> string list" where
  "Permissions p = sort (permissions p)"

definition Can :: "Principal option \<Rightarrow> string \<Rightarrow> bool" where
  "Can p permission = (case p of None \<Rightarrow> False | Some q \<Rightarrow> permission \<in> set (permissions q))"

fun CanAny :: "Principal option \<Rightarrow> string list \<Rightarrow> bool" where
  "CanAny p [] = False"
| "CanAny p (perm # perms) = (if Can p perm then True else CanAny p perms)"

definition HasRole :: "Principal option \<Rightarrow> string \<Rightarrow> bool" where
  "HasRole p code = (case p of None \<Rightarrow> False | Some q \<Rightarrow> code \<in> set (Roles q))"

definition Require :: "Principal option \<Rightarrow> string \<Rightarrow> unit result" where
  "Require p permission =
     (if Can p permission then Inr ()
      else Inl (Forbidden ''You do not have permission to perform this action.''))"

definition UnitScope :: "Principal option \<Rightarrow> string list \<Rightarrow> int list option" where
  "UnitScope p overridePermissions =
     (case p of
        None \<Rightarrow> Some []
      | Some q \<Rightarrow>
          if HasUnscopedRole q then None
          else if CanAny p overridePermissions then None
          else case ScopedUnitIDs q of None \<Rightarrow> Some [] | Some ids \<Rightarrow> Some ids)"

definition IsUnitInScope :: "Principal option \<Rightarrow> int \<Rightarrow> bool" where
  "IsUnitInScope p unitID =
     (case p of
        None \<Rightarrow> False
      | Some q \<Rightarrow>
          if HasUnscopedRole q then True
          else case ScopedUnitIDs q of None \<Rightarrow> False | Some ids \<Rightarrow> unitID \<in> set ids)"

definition RequireUnitInScope :: "Principal option \<Rightarrow> int \<Rightarrow> unit result" where
  "RequireUnitInScope p unitID =
     (if IsUnitInScope p unitID then Inr ()
      else Inl (Forbidden ''You are not assigned to the selected operating unit.''))"

definition CustomerScope :: "Principal option \<Rightarrow> int list option" where
  "CustomerScope p =
     (case p of
        None \<Rightarrow> None
      | Some q \<Rightarrow>
          if \<not> IsPortalUser q then None
          else case CustomerIDs q of None \<Rightarrow> Some [] | Some ids \<Rightarrow> Some ids)"

definition IsCustomerInScope :: "Principal option \<Rightarrow> int \<Rightarrow> bool" where
  "IsCustomerInScope p customerID =
     (case p of
        None \<Rightarrow> False
      | Some q \<Rightarrow>
          if \<not> IsPortalUser q then True
          else case CustomerIDs q of None \<Rightarrow> False | Some ids \<Rightarrow> customerID \<in> set ids)"

text \<open>A listing filter: \<^const>\<open>None\<close> is the whole tenant.\<close>

definition visible_in :: "int list option \<Rightarrow> int \<Rightarrow> bool" where
  "visible_in scope x = (case scope of None \<Rightarrow> True | Some ids \<Rightarrow> x \<in> set ids)"

lemma CanAny_iff: "CanAny p perms \<longleftrightarrow> (\<exists>perm \<in> set perms. Can p perm)"
  by (induction perms) simp_all

lemma Require_Inr [res_simps]: "Require p perm = Inr u \<longleftrightarrow> Can p perm"
  by (simp add: Require_def)

lemma RequireUnitInScope_Inr [res_simps]: "RequireUnitInScope p u = Inr x \<longleftrightarrow> IsUnitInScope p u"
  by (simp add: RequireUnitInScope_def)

text \<open>
  \<^bold>\<open>The listing scope and the action scope are one scope.\<close> Without an override a request
  sees exactly the units it may act at, and with overrides it sees more only by holding one of
  them; a request without a principal sees no unit. A principal sees exactly the customers it
  may access. Holding one of several permissions is holding some of them.
\<close>

theorem scope_consistent:
  "(visible_in (UnitScope p []) u \<longleftrightarrow> IsUnitInScope p u)
   \<and> (visible_in (UnitScope p perms) u \<longleftrightarrow> IsUnitInScope p u \<or> (\<exists>perm \<in> set perms. Can p perm))
   \<and> (visible_in (CustomerScope (Some q)) c \<longleftrightarrow> IsCustomerInScope (Some q) c)
   \<and> \<not> visible_in (UnitScope None perms) u"
proof -
  have "\<not> Can None perm" for perm by (simp add: Can_def)
  then show ?thesis
    by (auto simp: visible_in_def UnitScope_def IsUnitInScope_def CustomerScope_def IsCustomerInScope_def
        CanAny_iff split: option.splits)
qed

end
