(* ===== verification/Ledger.thy ===== *)
theory Ledger
  imports Money Principal Sequences "HOL-Library.Multiset"
begin

text \<open>
  \<^verbatim>\<open>internal/ledger/ledger.go\<close> and the trial balance of \<^verbatim>\<open>reports.go\<close>, over the tables of
  \<^verbatim>\<open>db/migrations/0020_ledger_core.up.sql\<close>. The database is a record of tables in insertion
  order with the identity counters; a service call returns an error, which rolls its
  transaction back, or its result with the new database. \<open>commit_journals\<close> is the deferred
  constraint trigger that runs at COMMIT. Random public ids, timestamps, request ids and the
  free-form metadata are left out: nothing reads them back. A posting date is an option, where
  \<^const>\<open>None\<close> is Go's zero time.

  The calls run one at a time here. \<open>post_write\<close> is the part of \<^verbatim>\<open>Post\<close> after its idempotency
  probe, so that a posting that slips in between the probe and the insert can be stated.
\<close>

subsection \<open>Tables\<close>

record LedgerAccount =
  ac_ID :: int
  ac_OrganizationID :: int
  ac_Code :: string
  ac_Name :: string
  ac_AccountType :: string
  ac_NormalBalance :: string
  ac_Currency :: string
  ac_PartyType :: "string option"
  ac_PartyID :: "int option"
  ac_ParentID :: "int option"

record AccountingPeriod =
  pe_ID :: int
  pe_PublicID :: string
  pe_OrganizationID :: int
  pe_Code :: string
  pe_StartsOn :: int
  pe_EndsOn :: int
  pe_Status :: string
  pe_ClosedBy :: "int option"
  pe_CloseReason :: "string option"

record JournalTransaction =
  j_ID :: int
  j_OrganizationID :: int
  j_TransactionNumber :: string
  j_PeriodID :: int
  j_PostingDate :: int
  j_Status :: string
  j_Currency :: string
  j_SourceType :: string
  j_SourceID :: "int option"
  j_Purpose :: string
  j_Description :: string
  j_Reason :: "string option"
  j_ReversesID :: "int option"
  j_ReversedByID :: "int option"
  j_TotalMinor :: int
  j_EntryCount :: int

record JournalEntry =
  e_OrganizationID :: int
  e_TransactionID :: int
  e_AccountID :: int
  e_LineNo :: int
  e_DebitMinor :: int
  e_CreditMinor :: int
  e_Currency :: string
  e_FranchiseID :: "int option"
  e_OperatingUnitID :: "int option"
  e_CustomerID :: "int option"
  e_ShipmentID :: "int option"
  e_Memo :: "string option"

record LedgerDB =
  accounts :: "LedgerAccount list"
  periods :: "AccountingPeriod list"
  journals :: "JournalTransaction list"
  entries :: "JournalEntry list"
  op_sequences :: "op_key seq_table"
  next_account :: int
  next_journal :: int
  next_period :: int
  ledger_audit :: "(string \<times> int) list"

subsection \<open>Requests\<close>

record Leg =
  AccountCode :: string
  Debit :: int
  Credit :: int
  PartyType :: string
  PartyID :: int
  LegFranchiseID :: "int option"
  LegOperatingUnitID :: "int option"
  LegCustomerID :: "int option"
  LegShipmentID :: "int option"
  Memo :: string

record Posting =
  SourceType :: string
  SourceID :: "int option"
  Purpose :: string
  PDescription :: string
  Reason :: string
  PCurrency :: string
  PostingDate :: "int option"
  Legs :: "Leg list"

record PostResult =
  rs_Transaction :: JournalTransaction
  rs_Entries :: "JournalEntry list"
  rs_Replayed :: bool

definition Optional :: "string \<Rightarrow> string option" where
  "Optional s = (if s = '''' then None else Some s)"

text \<open>
  \<^verbatim>\<open>btrim\<close> of the database trims spaces only.
\<close>

definition btrim :: "string \<Rightarrow> string" where
  "btrim s = rev (dropWhile (\<lambda>c. c = CHR '' '') (rev (dropWhile (\<lambda>c. c = CHR '' '') s)))"

subsection \<open>Accounts of the chart\<close>

definition AcctCash :: string where "AcctCash = ''1000''"
definition AcctCODReceivableAgent :: string where "AcctCODReceivableAgent = ''1100''"
definition AcctCODReceivableBranch :: string where "AcctCODReceivableBranch = ''1110''"
definition AcctCODReceivableFranchise :: string where "AcctCODReceivableFranchise = ''1120''"
definition AcctTradeReceivable :: string where "AcctTradeReceivable = ''1200''"
definition AcctFranchiseReceivable :: string where "AcctFranchiseReceivable = ''1300''"
definition AcctCODShortageRecoverable :: string where "AcctCODShortageRecoverable = ''1400''"
definition AcctCODPayableConsignor :: string where "AcctCODPayableConsignor = ''2000''"
definition AcctCommissionPayable :: string where "AcctCommissionPayable = ''2100''"
definition AcctFranchisePayable :: string where "AcctFranchisePayable = ''2200''"
definition AcctTaxPayable :: string where "AcctTaxPayable = ''2300''"
definition AcctCustomerAdvances :: string where "AcctCustomerAdvances = ''2400''"
definition AcctCODExcessPayable :: string where "AcctCODExcessPayable = ''2500''"
definition AcctFreightRevenue :: string where "AcctFreightRevenue = ''4000''"
definition AcctSurchargeRevenue :: string where "AcctSurchargeRevenue = ''4100''"
definition AcctOtherRevenue :: string where "AcctOtherRevenue = ''4300''"
definition AcctCommissionExpense :: string where "AcctCommissionExpense = ''5000''"
definition AcctIncentiveExpense :: string where "AcctIncentiveExpense = ''5100''"
definition AcctCODShortageWrittenOff :: string where "AcctCODShortageWrittenOff = ''5200''"
definition AcctDiscountAllowed :: string where "AcctDiscountAllowed = ''5300''"

lemmas acct_defs = AcctCash_def AcctCODReceivableAgent_def AcctCODReceivableBranch_def AcctCODReceivableFranchise_def AcctTradeReceivable_def AcctFranchiseReceivable_def AcctCODShortageRecoverable_def AcctCODPayableConsignor_def AcctCommissionPayable_def AcctFranchisePayable_def AcctTaxPayable_def AcctCustomerAdvances_def AcctCODExcessPayable_def AcctFreightRevenue_def AcctSurchargeRevenue_def AcctOtherRevenue_def AcctCommissionExpense_def AcctIncentiveExpense_def AcctCODShortageWrittenOff_def AcctDiscountAllowed_def

subsection \<open>Checks before any write\<close>

definition reason_sources :: "string list" where
  "reason_sources = [''MANUAL'', ''ADJUSTMENT'', ''REVERSAL'']"

fun check_legs :: "Leg list \<Rightarrow> unit result" where
  "check_legs [] = Inr ()"
| "check_legs (leg # legs) =
     ensure (AccountCode leg \<noteq> '''') (Validation ''Every leg needs an account.'')
     (ensure (\<not> (Debit leg < 0 \<or> Credit leg < 0)) (Validation ''Amounts cannot be negative; use the other side instead.'')
     (ensure ((Debit leg = 0) \<noteq> (Credit leg = 0)) (Validation ''Every leg must be either a debit or a credit, not both and not neither.'')
     (ensure (\<not> (PartyType leg \<noteq> '''' \<and> PartyID leg = 0)) (Validation ''A party-scoped leg needs a party id.'')
     (check_legs legs))))"

text \<open>\<^verbatim>\<open>validate\<close> fills a missing posting date in.\<close>

definition validate :: "int \<Rightarrow> Posting \<Rightarrow> Posting result" where
  "validate now inp =
     ensure (\<not> (SourceType inp = '''' \<or> Purpose inp = '''')) (BadRequest ''A posting needs a source type and a purpose.'')
     (ensure (PDescription inp \<noteq> '''') (BadRequest ''A posting needs a description.'')
     (ensure (Supported (PCurrency inp)) (Validation ''Unsupported currency.'')
     (ensure (\<not> length (Legs inp) < 2) (Validation ''A journal transaction needs at least two legs.'')
     (ensure (SourceType inp \<in> set reason_sources \<longrightarrow> \<not> rune_count (Reason inp) < 3) (Validation ''This posting requires a reason.'')
     (bindE (check_legs (Legs inp))
       (\<lambda>_. Inr (inp\<lparr>PostingDate := Some (case PostingDate inp of None \<Rightarrow> now | Some d \<Rightarrow> d)\<rparr>)))))))"

definition totalOf :: "Leg list \<Rightarrow> int result" where
  "totalOf legs =
     (let debits = sum64 0 (map Debit legs); credits = sum64 0 (map Credit legs)
      in ensure (debits = credits) (Conflict ''LEDGER_UNBALANCED'')
         (ensure (debits \<noteq> 0) (Validation ''A transaction cannot be for zero.'') (Inr debits)))"

subsection \<open>Queries\<close>

definition GetPeriodForDate :: "LedgerDB \<Rightarrow> int \<Rightarrow> int \<Rightarrow> AccountingPeriod option" where
  "GetPeriodForDate db org d =
     find (\<lambda>p. pe_OrganizationID p = org \<and> pe_StartsOn p \<le> d \<and> d \<le> pe_EndsOn p) (periods db)"

definition GetAccountByCode :: "LedgerDB \<Rightarrow> int \<Rightarrow> string \<Rightarrow> LedgerAccount option" where
  "GetAccountByCode db org code = find (\<lambda>a. ac_OrganizationID a = org \<and> ac_Code a = code) (accounts db)"

definition FindPartyAccount :: "LedgerDB \<Rightarrow> int \<Rightarrow> int \<Rightarrow> string \<Rightarrow> int \<Rightarrow> LedgerAccount option" where
  "FindPartyAccount db org parent pt pid =
     find (\<lambda>a. ac_OrganizationID a = org \<and> ac_ParentID a = Some parent
               \<and> ac_PartyType a = Some pt \<and> ac_PartyID a = Some pid) (accounts db)"

definition live_source :: "int \<Rightarrow> string \<Rightarrow> int \<Rightarrow> string \<Rightarrow> JournalTransaction \<Rightarrow> bool" where
  "live_source org st sid purpose t \<longleftrightarrow>
     j_OrganizationID t = org \<and> j_SourceType t = st \<and> j_SourceID t = Some sid \<and> j_Purpose t = purpose
     \<and> j_Status t \<noteq> ''REVERSED''"

definition FindJournalBySource :: "LedgerDB \<Rightarrow> int \<Rightarrow> string \<Rightarrow> int \<Rightarrow> string \<Rightarrow> JournalTransaction option" where
  "FindJournalBySource db org st sid purpose = find (live_source org st sid purpose) (journals db)"

definition ListJournalEntries :: "LedgerDB \<Rightarrow> int \<Rightarrow> JournalEntry list" where
  "ListJournalEntries db tid = sort_key e_LineNo (filter (\<lambda>e. e_TransactionID e = tid) (entries db))"

definition LockJournalForReversal :: "LedgerDB \<Rightarrow> int \<Rightarrow> int \<Rightarrow> JournalTransaction option" where
  "LockJournalForReversal db org tid = find (\<lambda>t. j_OrganizationID t = org \<and> j_ID t = tid) (journals db)"

definition periodFor :: "LedgerDB \<Rightarrow> int \<Rightarrow> int \<Rightarrow> AccountingPeriod result" where
  "periodFor db org date =
     bindE (opt_or (GetPeriodForDate db org date) (Conflict ''PERIOD_CLOSED''))
       (\<lambda>p. ensure (pe_Status p \<noteq> ''CLOSED'') (Conflict ''PERIOD_CLOSED'') (Inr p))"

text \<open>\<^verbatim>\<open>Format("200601")\<close> of a date, and the journal number of the month.\<close>

definition format_200601 :: "int \<Rightarrow> string" where
  "format_200601 d = format_0d 6 (d div 100)"

definition allocateNumber :: "LedgerDB \<Rightarrow> int \<Rightarrow> int \<Rightarrow> (string \<times> LedgerDB) result" where
  "allocateNumber db org date =
     bindE (opt_or (AllocateOperationalSequence (org, ''JRN'', format_200601 date) (op_sequences db)) (Conflict ''CONFLICT''))
       (\<lambda>(n, t). Inr (''JV-'' @ format_200601 date @ ''-'' @ format_0d 6 n, db\<lparr>op_sequences := t\<rparr>))"

subsection \<open>Inserts with their constraints\<close>

text \<open>
  Every constraint of the table is checked by the insert, and a violation is an internal error
  for the caller: a violated unique index aborts the enclosing transaction, so that the
  re-read which follows it in \<^verbatim>\<open>Post\<close> and \<^verbatim>\<open>resolveAccount\<close> fails as well, and the period trigger
  raises with the SQLSTATE of a restrict violation, which \<^verbatim>\<open>TriggerMessage\<close> does not recognise.
\<close>

definition source_types :: "string list" where
  "source_types = [''COMMISSION'', ''COD'', ''SETTLEMENT'', ''INVOICE'', ''CREDIT_NOTE'', ''DEBIT_NOTE'',
     ''PAYMENT'', ''ADJUSTMENT'', ''REVERSAL'', ''OPENING_BALANCE'', ''MANUAL'']"

definition period_open :: "LedgerDB \<Rightarrow> int \<Rightarrow> bool" where
  "period_open db pid \<longleftrightarrow> \<not> list_ex (\<lambda>p. pe_ID p = pid \<and> pe_Status p = ''CLOSED'') (periods db)"

definition journal_constraints :: "LedgerDB \<Rightarrow> JournalTransaction \<Rightarrow> bool" where
  "journal_constraints db t \<longleftrightarrow>
     (j_Status t \<noteq> ''DRAFT'' \<longrightarrow> period_open db (j_PeriodID t))
     \<and> j_SourceType t \<in> set source_types
     \<and> 0 \<le> j_TotalMinor t \<and> 0 \<le> j_EntryCount t
     \<and> (j_Status t = ''POSTED'' \<longrightarrow> 2 \<le> j_EntryCount t)
     \<and> (j_SourceType t \<in> set reason_sources \<longrightarrow>
          (case j_Reason t of None \<Rightarrow> False | Some r \<Rightarrow> 3 \<le> rune_count (btrim r)))
     \<and> j_ReversesID t \<noteq> Some (next_journal db)
     \<and> \<not> list_ex (\<lambda>u. j_OrganizationID u = j_OrganizationID t \<and> j_TransactionNumber u = j_TransactionNumber t) (journals db)
     \<and> (case j_SourceID t of None \<Rightarrow> True
         | Some sid \<Rightarrow> j_Status t = ''REVERSED'' \<or>
             \<not> list_ex (live_source (j_OrganizationID t) (j_SourceType t) sid (j_Purpose t)) (journals db))"

definition CreateJournalTransaction :: "LedgerDB \<Rightarrow> JournalTransaction \<Rightarrow> (JournalTransaction \<times> LedgerDB) result" where
  "CreateJournalTransaction db t =
     ensure (journal_constraints db t) Internal
       (let t' = t\<lparr>j_ID := next_journal db\<rparr>
        in Inr (t', db\<lparr>journals := journals db @ [t'], next_journal := next_journal db + 1\<rparr>))"

definition account_constraints :: "LedgerDB \<Rightarrow> LedgerAccount \<Rightarrow> bool" where
  "account_constraints db a \<longleftrightarrow>
     (ac_AccountType a \<in> set [''ASSET'', ''EXPENSE''] \<and> ac_NormalBalance a = ''DEBIT''
      \<or> ac_AccountType a \<in> set [''LIABILITY'', ''EQUITY'', ''REVENUE''] \<and> ac_NormalBalance a = ''CREDIT'')
     \<and> (case ac_PartyType a of None \<Rightarrow> ac_PartyID a = None
         | Some pt \<Rightarrow> ac_PartyID a \<noteq> None
             \<and> pt \<in> set [''FRANCHISE'', ''CUSTOMER'', ''OPERATING_UNIT'', ''AGENT'', ''CARRIER''])
     \<and> \<not> list_ex (\<lambda>b. ac_OrganizationID b = ac_OrganizationID a \<and> ac_Code b = ac_Code a) (accounts db)
     \<and> (ac_PartyID a \<noteq> None \<longrightarrow>
          \<not> list_ex (\<lambda>b. ac_OrganizationID b = ac_OrganizationID a \<and> ac_ParentID b = ac_ParentID a \<and> ac_ParentID a \<noteq> None
               \<and> ac_PartyType b = ac_PartyType a \<and> ac_PartyID b = ac_PartyID a) (accounts db))"

definition CreateLedgerAccount :: "LedgerDB \<Rightarrow> LedgerAccount \<Rightarrow> (LedgerAccount \<times> LedgerDB) result" where
  "CreateLedgerAccount db a =
     ensure (account_constraints db a) Internal
       (let a' = a\<lparr>ac_ID := next_account db\<rparr>
        in Inr (a', db\<lparr>accounts := accounts db @ [a'], next_account := next_account db + 1\<rparr>))"

definition entry_constraints :: "LedgerDB \<Rightarrow> JournalEntry \<Rightarrow> bool" where
  "entry_constraints db e \<longleftrightarrow>
     0 < e_LineNo e
     \<and> (0 < e_DebitMinor e \<and> e_CreditMinor e = 0 \<or> 0 < e_CreditMinor e \<and> e_DebitMinor e = 0)
     \<and> \<not> list_ex (\<lambda>f. e_TransactionID f = e_TransactionID e \<and> e_LineNo f = e_LineNo e) (entries db)"

definition CreateJournalEntry :: "LedgerDB \<Rightarrow> JournalEntry \<Rightarrow> (JournalEntry \<times> LedgerDB) result" where
  "CreateJournalEntry db e =
     ensure (entry_constraints db e) Internal (Inr (e, db\<lparr>entries := entries db @ [e]\<rparr>))"

definition MarkJournalReversed :: "LedgerDB \<Rightarrow> int \<Rightarrow> int \<Rightarrow> int \<Rightarrow> LedgerDB result" where
  "MarkJournalReversed db org tid rid =
     (case find (\<lambda>t. j_OrganizationID t = org \<and> j_ID t = tid \<and> j_Status t = ''POSTED'') (journals db) of
        None \<Rightarrow> Inl Internal
      | Some u \<Rightarrow>
          ensure (period_open db (j_PeriodID u)) Internal
            (Inr (db\<lparr>journals := map (\<lambda>t. if j_OrganizationID t = org \<and> j_ID t = tid \<and> j_Status t = ''POSTED''
                                         then t\<lparr>j_Status := ''REVERSED'', j_ReversedByID := Some rid\<rparr> else t)
                                     (journals db)\<rparr>)))"

subsection \<open>Accounts\<close>

definition shortParty :: "string \<Rightarrow> string" where
  "shortParty t =
     (if t = ''FRANCHISE'' then ''FRN'' else if t = ''CUSTOMER'' then ''CUS''
      else if t = ''OPERATING_UNIT'' then ''OPU'' else if t = ''AGENT'' then ''AGT''
      else if t = ''CARRIER'' then ''CAR'' else ''OTH'')"

definition titleParty :: "string \<Rightarrow> string" where
  "titleParty t =
     (if t = ''FRANCHISE'' then ''franchise'' else if t = ''CUSTOMER'' then ''customer''
      else if t = ''OPERATING_UNIT'' then ''unit'' else if t = ''AGENT'' then ''agent''
      else if t = ''CARRIER'' then ''carrier'' else ''party'')"

definition em_dash :: string where
  "em_dash = [CHR 0xE2, CHR 0x80, CHR 0x94]"

definition resolveAccount :: "Principal \<Rightarrow> Leg \<Rightarrow> string \<Rightarrow> LedgerDB \<Rightarrow> (LedgerAccount \<times> LedgerDB) result" where
  "resolveAccount p leg currency db =
     bindE (opt_or (GetAccountByCode db (OrganizationID p) (AccountCode leg)) (Conflict ''LEDGER_ACCOUNT_MISSING''))
       (\<lambda>control.
          if PartyType leg = '''' then
            ensure (ac_Currency control = currency) (Conflict ''LEDGER_CURRENCY_MISMATCH'') (Inr (control, db))
          else case FindPartyAccount db (OrganizationID p) (ac_ID control) (PartyType leg) (PartyID leg) of
                 Some sub \<Rightarrow> Inr (sub, db)
               | None \<Rightarrow> CreateLedgerAccount db
                   \<lparr>ac_ID = 0, ac_OrganizationID = OrganizationID p,
                    ac_Code = ac_Code control @ ''.'' @ shortParty (PartyType leg) @ ''.'' @ FormatInt (PartyID leg),
                    ac_Name = ac_Name control @ '' '' @ em_dash @ '' '' @ titleParty (PartyType leg) @ '' '' @ FormatInt (PartyID leg),
                    ac_AccountType = ac_AccountType control, ac_NormalBalance = ac_NormalBalance control,
                    ac_Currency = currency, ac_PartyType = Some (PartyType leg), ac_PartyID = Some (PartyID leg),
                    ac_ParentID = Some (ac_ID control)\<rparr>)"

subsection \<open>Posting\<close>

text \<open>The rows \<^verbatim>\<open>Post\<close> inserts, before the database assigns their ids.\<close>

definition leg_entry :: "Principal \<Rightarrow> int \<Rightarrow> string \<Rightarrow> int \<Rightarrow> LedgerAccount \<Rightarrow> Leg \<Rightarrow> JournalEntry" where
  "leg_entry p tid currency i account leg =
     \<lparr>e_OrganizationID = OrganizationID p, e_TransactionID = tid, e_AccountID = ac_ID account,
      e_LineNo = wrap32 (i + 1), e_DebitMinor = Debit leg, e_CreditMinor = Credit leg, e_Currency = currency,
      e_FranchiseID = LegFranchiseID leg, e_OperatingUnitID = LegOperatingUnitID leg,
      e_CustomerID = LegCustomerID leg, e_ShipmentID = LegShipmentID leg, e_Memo = Optional (Memo leg)\<rparr>"

definition post_row :: "Principal \<Rightarrow> Posting \<Rightarrow> int \<Rightarrow> string \<Rightarrow> AccountingPeriod \<Rightarrow> int \<Rightarrow> JournalTransaction" where
  "post_row p inp date number period tot =
     \<lparr>j_ID = 0, j_OrganizationID = OrganizationID p, j_TransactionNumber = number, j_PeriodID = pe_ID period,
      j_PostingDate = date, j_Status = ''POSTED'', j_Currency = PCurrency inp,
      j_SourceType = SourceType inp, j_SourceID = SourceID inp, j_Purpose = Purpose inp,
      j_Description = PDescription inp, j_Reason = Optional (Reason inp), j_ReversesID = None,
      j_ReversedByID = None, j_TotalMinor = tot, j_EntryCount = wrap32 (int (length (Legs inp)))\<rparr>"

fun write_legs :: "Principal \<Rightarrow> int \<Rightarrow> string \<Rightarrow> int \<Rightarrow> Leg list \<Rightarrow> JournalEntry list \<Rightarrow> LedgerDB \<Rightarrow>
    (JournalEntry list \<times> LedgerDB) result" where
  "write_legs p tid currency i [] acc db = Inr (acc, db)"
| "write_legs p tid currency i (leg # legs) acc db =
     bindE (resolveAccount p leg currency db)
       (\<lambda>(account, db1). bindE (CreateJournalEntry db1 (leg_entry p tid currency i account leg))
          (\<lambda>(entry, db2). write_legs p tid currency (i + 1) legs (acc @ [entry]) db2))"

text \<open>The part of \<^verbatim>\<open>Post\<close> after the probe; the date has been filled in.\<close>

definition post_write :: "Principal \<Rightarrow> Posting \<Rightarrow> int \<Rightarrow> LedgerDB \<Rightarrow> (PostResult \<times> LedgerDB) result" where
  "post_write p inp date db =
     bindE (periodFor db (OrganizationID p) date)
       (\<lambda>period. bindE (totalOf (Legs inp))
         (\<lambda>tot. bindE (allocateNumber db (OrganizationID p) date)
           (\<lambda>(number, db1). bindE (CreateJournalTransaction db1 (post_row p inp date number period tot))
              (\<lambda>(txn, db2). bindE (write_legs p (j_ID txn) (PCurrency inp) 0 (Legs inp) [] db2)
                (\<lambda>(es, db3). Inr (\<lparr>rs_Transaction = txn, rs_Entries = es, rs_Replayed = False\<rparr>, db3))))))"

definition Post :: "Principal \<Rightarrow> int \<Rightarrow> Posting \<Rightarrow> LedgerDB \<Rightarrow> (PostResult \<times> LedgerDB) result" where
  "Post p now inp0 db =
     bindE (validate now inp0)
       (\<lambda>inp. let date = (case PostingDate inp of None \<Rightarrow> now | Some d \<Rightarrow> d) in
          case SourceID inp of
            None \<Rightarrow> post_write p inp date db
          | Some sid \<Rightarrow>
              (case FindJournalBySource db (OrganizationID p) (SourceType inp) sid (Purpose inp) of
                 Some existing \<Rightarrow>
                   Inr (\<lparr>rs_Transaction = existing, rs_Entries = ListJournalEntries db (j_ID existing), rs_Replayed = True\<rparr>, db)
               | None \<Rightarrow> post_write p inp date db))"

subsection \<open>Reversal\<close>

definition mirror_entry :: "int \<Rightarrow> int \<Rightarrow> int \<Rightarrow> JournalEntry \<Rightarrow> JournalEntry" where
  "mirror_entry org rid i oe =
     oe\<lparr>e_OrganizationID := org, e_TransactionID := rid, e_LineNo := wrap32 (i + 1),
        e_DebitMinor := e_CreditMinor oe, e_CreditMinor := e_DebitMinor oe,
        e_Memo := Optional (''Reversal of line '' @ FormatInt (e_LineNo oe))\<rparr>"

fun write_mirror :: "int \<Rightarrow> int \<Rightarrow> int \<Rightarrow> JournalEntry list \<Rightarrow> JournalEntry list \<Rightarrow> LedgerDB \<Rightarrow>
    (JournalEntry list \<times> LedgerDB) result" where
  "write_mirror org rid i [] acc db = Inr (acc, db)"
| "write_mirror org rid i (oe # oes) acc db =
     bindE (CreateJournalEntry db (mirror_entry org rid i oe))
       (\<lambda>(entry, db1). write_mirror org rid (i + 1) oes (acc @ [entry]) db1)"

definition reversal_row :: "Principal \<Rightarrow> JournalTransaction \<Rightarrow> string \<Rightarrow> int \<Rightarrow> string \<Rightarrow> AccountingPeriod \<Rightarrow> nat \<Rightarrow>
    JournalTransaction" where
  "reversal_row p original reason date number period n =
     \<lparr>j_ID = 0, j_OrganizationID = OrganizationID p, j_TransactionNumber = number,
      j_PeriodID = pe_ID period, j_PostingDate = date, j_Status = ''POSTED'',
      j_Currency = j_Currency original, j_SourceType = ''REVERSAL'', j_SourceID = Some (j_ID original),
      j_Purpose = ''REVERSAL:'' @ j_Purpose original,
      j_Description = ''Reversal of '' @ j_TransactionNumber original @ '': '' @ j_Description original,
      j_Reason = Some reason, j_ReversesID = Some (j_ID original), j_ReversedByID = None,
      j_TotalMinor = j_TotalMinor original, j_EntryCount = wrap32 (int n)\<rparr>"

definition Reverse :: "Principal \<Rightarrow> int \<Rightarrow> int \<Rightarrow> string \<Rightarrow> int option \<Rightarrow> LedgerDB \<Rightarrow> (PostResult \<times> LedgerDB) result" where
  "Reverse p now transactionID reason postingDate db =
     ensure (\<not> rune_count reason < 3) (Validation ''A reversal needs a reason.'')
     (bindE (opt_or (LockJournalForReversal db (OrganizationID p) transactionID) (NotFound ''Journal transaction''))
       (\<lambda>original.
          ensure (j_Status original \<noteq> ''REVERSED'') (Conflict ''LEDGER_ALREADY_REVERSED'')
          (ensure (j_Status original \<noteq> ''DRAFT'') (Conflict ''LEDGER_NOT_POSTED'')
          (let originalEntries = ListJournalEntries db (j_ID original);
               date = (case postingDate of None \<Rightarrow> now | Some d \<Rightarrow> d)
           in ensure (originalEntries \<noteq> []) Internal
              (bindE (periodFor db (OrganizationID p) date)
                (\<lambda>period. bindE (allocateNumber db (OrganizationID p) date)
                  (\<lambda>(number, db1). bindE (CreateJournalTransaction db1
                       (reversal_row p original reason date number period (length originalEntries)))
                     (\<lambda>(reversal, db2).
                        bindE (write_mirror (OrganizationID p) (j_ID reversal) 0 originalEntries [] db2)
                          (\<lambda>(es, db3). bindE (MarkJournalReversed db3 (OrganizationID p) (j_ID original) (j_ID reversal))
                            (\<lambda>db4. Inr (\<lparr>rs_Transaction = reversal, rs_Entries = es, rs_Replayed = False\<rparr>,
                               db4\<lparr>ledger_audit := ledger_audit db4 @ [(''ledger.journal.reversed'', j_ID original)]\<rparr>)))))))))))"

subsection \<open>The commit-time trigger and the trial balance\<close>

abbreviation txn_entries :: "LedgerDB \<Rightarrow> int \<Rightarrow> JournalEntry list" where
  "txn_entries db tid \<equiv> filter (\<lambda>e. e_TransactionID e = tid) (entries db)"

definition assert_journal_balanced :: "LedgerDB \<Rightarrow> JournalTransaction \<Rightarrow> bool" where
  "assert_journal_balanced db t \<longleftrightarrow>
     (j_Status t = ''DRAFT'' \<or>
      (let es = txn_entries db (j_ID t);
           sum_debit = sum_list (map e_DebitMinor es); sum_credit = sum_list (map e_CreditMinor es)
       in in64 sum_debit \<and> in64 sum_credit \<and> sum_debit = sum_credit \<and> 2 \<le> length es
          \<and> j_TotalMinor t = sum_debit \<and> j_EntryCount t = int (length es)
          \<and> list_all (\<lambda>e. e_Currency e = j_Currency t) es))"

definition commit_journals :: "LedgerDB \<Rightarrow> LedgerDB result" where
  "commit_journals db = ensure (list_all (assert_journal_balanced db) (journals db)) Internal (Inr db)"

definition counted :: "LedgerDB \<Rightarrow> int option \<Rightarrow> JournalEntry \<Rightarrow> bool" where
  "counted db asOf e \<longleftrightarrow>
     list_ex (\<lambda>t. j_ID t = e_TransactionID e \<and> j_Status t \<in> set [''POSTED'', ''REVERSED'']
                 \<and> (case asOf of None \<Rightarrow> True | Some d \<Rightarrow> j_PostingDate t \<le> d)) (journals db)"

definition account_entries :: "LedgerDB \<Rightarrow> int option \<Rightarrow> int \<Rightarrow> JournalEntry list" where
  "account_entries db asOf aid = filter (\<lambda>e. e_AccountID e = aid \<and> counted db asOf e) (entries db)"

text \<open>The joined and filtered accounts of the query, and the row of one of them.\<close>

definition trial_shown :: "LedgerDB \<Rightarrow> int \<Rightarrow> int option \<Rightarrow> bool \<Rightarrow> LedgerAccount list" where
  "trial_shown db org asOf includeZero =
     filter (\<lambda>a. ac_OrganizationID a = org \<and>
        (account_entries db asOf (ac_ID a) \<noteq> []
         \<or> includeZero \<and> \<not> list_ex (\<lambda>e. e_AccountID e = ac_ID a) (entries db))) (accounts db)"

definition trial_row :: "LedgerDB \<Rightarrow> int option \<Rightarrow> LedgerAccount \<Rightarrow> string \<times> int \<times> int \<times> int" where
  "trial_row db asOf a =
     (let es = account_entries db asOf (ac_ID a);
          d = sum_list (map e_DebitMinor es); c = sum_list (map e_CreditMinor es)
      in (ac_Code a, d, c, if ac_NormalBalance a = ''DEBIT'' then d - c else c - d))"

definition GetTrialBalance :: "LedgerDB \<Rightarrow> int \<Rightarrow> int option \<Rightarrow> bool \<Rightarrow> (string \<times> int \<times> int \<times> int) list result" where
  "GetTrialBalance db org asOf includeZero =
     (let shown = trial_shown db org asOf includeZero
      in ensure (list_all (\<lambda>a. case trial_row db asOf a of (_, d, c, b) \<Rightarrow> in64 d \<and> in64 c \<and> in64 b) shown) Internal
           (Inr (map (trial_row db asOf) (sort_key ac_Code shown))))"

record TrialBalanceReport =
  tb_Rows :: "(string \<times> int \<times> int \<times> int) list"
  tb_TotalDebit :: int
  tb_TotalCredit :: int
  tb_Balanced :: bool
  tb_DifferenceMinor :: int

definition TrialBalance :: "LedgerDB \<Rightarrow> Principal \<Rightarrow> int option \<Rightarrow> bool \<Rightarrow> TrialBalanceReport result" where
  "TrialBalance db p asOf includeZero =
     bindE (GetTrialBalance db (OrganizationID p) asOf includeZero)
       (\<lambda>rows. let td = sum64 0 (map (\<lambda>(_, d, _, _). d) rows); tc = sum64 0 (map (\<lambda>(_, _, c, _). c) rows);
                  diff = sub64 td tc
              in Inr \<lparr>tb_Rows = rows, tb_TotalDebit = td, tb_TotalCredit = tc, tb_Balanced = (diff = 0),
                      tb_DifferenceMinor = diff\<rparr>)"

section \<open>What the ledger guarantees\<close>

subsection \<open>The checks\<close>

lemma check_legs_Inr:
  "check_legs legs = Inr u \<longleftrightarrow>
     (\<forall>l \<in> set legs. AccountCode l \<noteq> '''' \<and> 0 \<le> Debit l \<and> 0 \<le> Credit l \<and> (Debit l = 0) \<noteq> (Credit l = 0)
        \<and> (PartyType l = '''' \<or> PartyID l \<noteq> 0))"
  by (induction legs) (auto simp: res_simps)

lemma validate_Inr:
  assumes "validate now inp0 = Inr inp"
  shows "Legs inp = Legs inp0 \<and> SourceType inp = SourceType inp0 \<and> SourceID inp = SourceID inp0
    \<and> Purpose inp = Purpose inp0 \<and> PCurrency inp = PCurrency inp0 \<and> PostingDate inp \<noteq> None
    \<and> 2 \<le> length (Legs inp) \<and> check_legs (Legs inp) = Inr ()"
  using assms by (auto simp: validate_def res_simps)

lemma totalOf_Inr:
  "totalOf legs = Inr tot \<longleftrightarrow>
     tot = wrap64 (sum_list (map Debit legs)) \<and> tot = wrap64 (sum_list (map Credit legs)) \<and> tot \<noteq> 0"
  by (auto simp: totalOf_def Let_def res_simps sum64_wrap)

lemma periodFor_Inr: "periodFor db org d = Inr p \<Longrightarrow> p \<in> set (periods db) \<and> pe_Status p \<noteq> ''CLOSED''"
  by (auto simp: periodFor_def res_simps GetPeriodForDate_def dest: find_SomeD)

lemma allocateNumber_Inr:
  "allocateNumber db org d = Inr (n, db') \<Longrightarrow> \<exists>t. db' = db\<lparr>op_sequences := t\<rparr>"
  by (auto simp: allocateNumber_def res_simps)

subsection \<open>What each write changes\<close>

lemma CreateJournalTransaction_Inr:
  "CreateJournalTransaction db t = Inr (t', db') \<longleftrightarrow>
     journal_constraints db t \<and> t' = t\<lparr>j_ID := next_journal db\<rparr>
     \<and> db' = db\<lparr>journals := journals db @ [t'], next_journal := next_journal db + 1\<rparr>"
  by (auto simp: CreateJournalTransaction_def res_simps Let_def)

lemma CreateJournalEntry_Inr:
  "CreateJournalEntry db e = Inr (e', db') \<longleftrightarrow>
     entry_constraints db e \<and> e' = e \<and> db' = db\<lparr>entries := entries db @ [e]\<rparr>"
  by (auto simp: CreateJournalEntry_def res_simps)

text \<open>Accounts are only added, with fresh ids; the rest of the database is as before.\<close>

definition accounts_ok :: "LedgerDB \<Rightarrow> bool" where
  "accounts_ok db \<longleftrightarrow> distinct (map ac_ID (accounts db)) \<and> (\<forall>a \<in> set (accounts db). ac_ID a < next_account db)"

definition has_account :: "LedgerDB \<Rightarrow> int \<Rightarrow> int \<Rightarrow> bool" where
  "has_account db org aid \<longleftrightarrow> (\<exists>a \<in> set (accounts db). ac_ID a = aid \<and> ac_OrganizationID a = org)"

lemma no_new_account: "\<exists>new n. db = db\<lparr>accounts := accounts db @ new, next_account := n\<rparr>"
proof -
  have "db = db\<lparr>accounts := accounts db @ [], next_account := next_account db\<rparr>" by simp
  then show ?thesis by blast
qed

lemma resolveAccount_Inr:
  assumes "resolveAccount p leg cur db = Inr (a, db')"
  shows "(\<exists>new n. db' = db\<lparr>accounts := accounts db @ new, next_account := n\<rparr>)
    \<and> has_account db' (OrganizationID p) (ac_ID a) \<and> (accounts_ok db \<longrightarrow> accounts_ok db')"
proof -
  obtain control where c: "GetAccountByCode db (OrganizationID p) (AccountCode leg) = Some control"
    using assms by (auto simp: resolveAccount_def res_simps)
  consider (direct) "a \<in> set (accounts db)" "ac_OrganizationID a = OrganizationID p" "db' = db"
    | (new) b where "CreateLedgerAccount db b = Inr (a, db')" "ac_OrganizationID b = OrganizationID p"
    using assms c
    by (fastforce simp: resolveAccount_def res_simps GetAccountByCode_def FindPartyAccount_def
        dest!: find_SomeD split: if_splits option.splits)
  then show ?thesis
  proof cases
    case direct
    then show ?thesis using no_new_account [of db] by (auto simp: has_account_def)
  next
    case new
    then have "a = b\<lparr>ac_ID := next_account db\<rparr>"
      "db' = db\<lparr>accounts := accounts db @ [a], next_account := next_account db + 1\<rparr>"
      by (auto simp: CreateLedgerAccount_def res_simps Let_def)
    then show ?thesis using new(2)
      by (auto simp: has_account_def accounts_ok_def)
  qed
qed

lemma has_account_mono:
  "has_account db org aid \<Longrightarrow> set (accounts db) \<subseteq> set (accounts db') \<Longrightarrow> has_account db' org aid"
  by (auto simp: has_account_def)

text \<open>
  The legs become entries, one for one and in order, against existing accounts of the
  organisation; besides them only accounts are added.
\<close>

definition leg_entries :: "int \<Rightarrow> int \<Rightarrow> string \<Rightarrow> Leg list \<Rightarrow> JournalEntry list \<Rightarrow> bool" where
  "leg_entries org tid cur legs es \<longleftrightarrow>
     list_all2 (\<lambda>l e. e_OrganizationID e = org \<and> e_TransactionID e = tid \<and> e_Currency e = cur
        \<and> e_DebitMinor e = Debit l \<and> e_CreditMinor e = Credit l) legs es"

lemma write_legs_Inr:
  "write_legs p tid cur i legs acc db = Inr (es, db') \<Longrightarrow>
   \<exists>new as n. es = acc @ new \<and> leg_entries (OrganizationID p) tid cur legs new
     \<and> db' = db\<lparr>accounts := accounts db @ as, next_account := n, entries := entries db @ new\<rparr>
     \<and> (\<forall>e \<in> set new. has_account db' (OrganizationID p) (e_AccountID e))
     \<and> (accounts_ok db \<longrightarrow> accounts_ok db')"
proof (induction legs arbitrary: i acc db)
  case Nil
  then show ?case
    using no_new_account [of db] by (auto simp: leg_entries_def)
next
  case (Cons leg legs)
  from Cons.prems obtain a db1 e db2 where
    a: "resolveAccount p leg cur db = Inr (a, db1)" and le: "e = leg_entry p tid cur i a leg"
    and d2: "db2 = db1\<lparr>entries := entries db1 @ [e]\<rparr>"
    and w: "write_legs p tid cur (i + 1) legs (acc @ [e]) db2 = Inr (es, db')"
    by (auto simp: res_simps CreateJournalEntry_Inr)
  note e = d2 le [unfolded leg_entry_def]
  from resolveAccount_Inr [OF a] obtain new1 n1 where
    d1: "db1 = db\<lparr>accounts := accounts db @ new1, next_account := n1\<rparr>"
    and h1: "has_account db1 (OrganizationID p) (ac_ID a)" and k1: "accounts_ok db \<longrightarrow> accounts_ok db1" by blast
  from Cons.IH [OF w] obtain new as n where
    r: "es = (acc @ [e]) @ new" "leg_entries (OrganizationID p) tid cur legs new"
      "db' = db2\<lparr>accounts := accounts db2 @ as, next_account := n, entries := entries db2 @ new\<rparr>"
      "\<forall>e \<in> set new. has_account db' (OrganizationID p) (e_AccountID e)"
      "accounts_ok db2 \<longrightarrow> accounts_ok db'" by blast
  have "has_account db' (OrganizationID p) (ac_ID a)"
    using h1 by (rule has_account_mono) (auto simp: r(3) e(1))
  moreover have "accounts_ok db2 = accounts_ok db1" by (simp add: e(1) accounts_ok_def)
  moreover have "db' = db\<lparr>accounts := accounts db @ (new1 @ as), next_account := n, entries := entries db @ (e # new)\<rparr>"
    by (simp add: r(3) e(1) d1)
  moreover have "leg_entries (OrganizationID p) tid cur (leg # legs) (e # new)"
    using r(2) le by (simp add: leg_entries_def leg_entry_def)
  ultimately show ?case
    using r le k1 by (intro exI [of _ "e # new"] exI [of _ "new1 @ as"] exI [of _ n]) (auto simp: leg_entry_def)
qed

lemma leg_entries_sums:
  assumes "leg_entries org tid cur legs es"
  shows "map e_DebitMinor es = map Debit legs" "map e_CreditMinor es = map Credit legs"
    "length es = length legs"
    "\<forall>e \<in> set es. e_OrganizationID e = org \<and> e_TransactionID e = tid \<and> e_Currency e = cur"
  using assms unfolding leg_entries_def by (induction legs es rule: list_all2_induct) simp_all

text \<open>A successful posting: one journal with a fresh id, its entries, and nothing else but accounts.\<close>

lemma post_write_Inr:
  assumes "post_write p inp date db = Inr (r, db')"
  obtains period number tot t new seqs as n where
    "period \<in> set (periods db)" "pe_Status period \<noteq> ''CLOSED''" "totalOf (Legs inp) = Inr tot"
    "t = (post_row p inp date number period tot)\<lparr>j_ID := next_journal db\<rparr>"
    "journal_constraints db (post_row p inp date number period tot)"
    "r = \<lparr>rs_Transaction = t, rs_Entries = new, rs_Replayed = False\<rparr>"
    "leg_entries (OrganizationID p) (next_journal db) (PCurrency inp) (Legs inp) new"
    "db' = db\<lparr>op_sequences := seqs, journals := journals db @ [t], next_journal := next_journal db + 1,
            accounts := accounts db @ as, next_account := n, entries := entries db @ new\<rparr>"
    "\<forall>e \<in> set new. has_account db' (OrganizationID p) (e_AccountID e)"
    "accounts_ok db \<longrightarrow> accounts_ok db'"
proof -
  from assms obtain period tot number db1 t db2 es where
    per: "periodFor db (OrganizationID p) date = Inr period" and tot: "totalOf (Legs inp) = Inr tot"
    and num: "allocateNumber db (OrganizationID p) date = Inr (number, db1)"
    and cr: "CreateJournalTransaction db1 (post_row p inp date number period tot) = Inr (t, db2)"
    and w: "write_legs p (j_ID t) (PCurrency inp) 0 (Legs inp) [] db2 = Inr (es, db')"
    and r: "r = \<lparr>rs_Transaction = t, rs_Entries = es, rs_Replayed = False\<rparr>"
    by (auto simp: post_write_def res_simps)
  obtain seqs where d1: "db1 = db\<lparr>op_sequences := seqs\<rparr>" using allocateNumber_Inr [OF num] by blast
  have jc: "journal_constraints db1 = journal_constraints db"
    by (rule ext) (simp add: d1 journal_constraints_def period_open_def split: option.split)
  have d2: "t = (post_row p inp date number period tot)\<lparr>j_ID := next_journal db\<rparr>"
    "db2 = db1\<lparr>journals := journals db @ [t], next_journal := next_journal db + 1\<rparr>"
    "journal_constraints db (post_row p inp date number period tot)"
    using cr jc by (auto simp: CreateJournalTransaction_Inr d1)
  from write_legs_Inr [OF w] obtain as n where
    w': "leg_entries (OrganizationID p) (j_ID t) (PCurrency inp) (Legs inp) es"
      "db' = db2\<lparr>accounts := accounts db2 @ as, next_account := n, entries := entries db2 @ es\<rparr>"
      "\<forall>e \<in> set es. has_account db' (OrganizationID p) (e_AccountID e)"
      "accounts_ok db2 \<longrightarrow> accounts_ok db'" by auto
  show ?thesis
  proof (rule that [OF _ _ tot d2(1) d2(3) r])
    show "period \<in> set (periods db)" "pe_Status period \<noteq> ''CLOSED''" using periodFor_Inr [OF per] by auto
    show "leg_entries (OrganizationID p) (next_journal db) (PCurrency inp) (Legs inp) es"
      using w'(1) d2(1) by simp
    show "db' = db\<lparr>op_sequences := seqs, journals := journals db @ [t], next_journal := next_journal db + 1,
            accounts := accounts db @ as, next_account := n, entries := entries db @ es\<rparr>"
      by (simp add: w'(2) d2(2) d1)
    show "accounts_ok db \<longrightarrow> accounts_ok db'" using w'(4) by (simp add: d2(2) d1 accounts_ok_def)
  qed (rule w'(3))
qed

lemma Post_cases:
  assumes "Post p now inp0 db = Inr (r, db')"
  obtains (replayed) inp sid t where "validate now inp0 = Inr inp" "SourceID inp0 = Some sid"
      "FindJournalBySource db (OrganizationID p) (SourceType inp0) sid (Purpose inp0) = Some t"
      "r = \<lparr>rs_Transaction = t, rs_Entries = ListJournalEntries db (j_ID t), rs_Replayed = True\<rparr>" "db' = db"
  | (written) inp date where "validate now inp0 = Inr inp" "post_write p inp date db = Inr (r, db')"
proof -
  from assms obtain inp where v: "validate now inp0 = Inr inp" by (auto simp: Post_def res_simps)
  note same = validate_Inr [OF v]
  show thesis
  proof (cases "SourceID inp0")
    case None
    then obtain date where "post_write p inp date db = Inr (r, db')"
      using assms v same by (auto simp: Post_def Let_def)
    with v show thesis by (rule written)
  next
    case (Some sid)
    show thesis
    proof (cases "FindJournalBySource db (OrganizationID p) (SourceType inp0) sid (Purpose inp0)")
      case None
      then obtain date where "post_write p inp date db = Inr (r, db')"
        using assms v same Some by (auto simp: Post_def Let_def)
      with v show thesis by (rule written)
    next
      case found: (Some t)
      then have "r = \<lparr>rs_Transaction = t, rs_Entries = ListJournalEntries db (j_ID t), rs_Replayed = True\<rparr>" "db' = db"
        using assms v same Some by (auto simp: Post_def Let_def)
      with v Some found show thesis by (rule replayed)
    qed
  qed
qed

subsection \<open>Posting\<close>

lemma wrap32_length: "int n \<le> 2147483647 \<Longrightarrow> wrap32 (int n) = int n"
  by (rule wrap32_id) (simp add: in32_def)

text \<open>The entries of a fresh journal are exactly the ones just written.\<close>

definition entries_ok :: "LedgerDB \<Rightarrow> bool" where
  "entries_ok db \<longleftrightarrow> (\<forall>e \<in> set (entries db).
     (\<exists>t \<in> set (journals db). j_ID t = e_TransactionID e \<and> j_OrganizationID t = e_OrganizationID e)
     \<and> has_account db (e_OrganizationID e) (e_AccountID e))"

definition journals_ok :: "LedgerDB \<Rightarrow> bool" where
  "journals_ok db \<longleftrightarrow> distinct (map j_ID (journals db)) \<and> (\<forall>t \<in> set (journals db). j_ID t < next_journal db)
     \<and> (\<forall>t \<in> set (journals db). j_Status t \<in> {''DRAFT'', ''POSTED'', ''REVERSED''})
     \<and> (\<forall>t \<in> set (journals db). \<forall>u \<in> set (journals db). \<forall>sid.
          live_source (j_OrganizationID t) (j_SourceType t) sid (j_Purpose t) t
          \<and> live_source (j_OrganizationID t) (j_SourceType t) sid (j_Purpose t) u \<longrightarrow> t = u)"

lemma fresh_entries:
  assumes "journals_ok db" "entries_ok db" "\<forall>e \<in> set new. e_TransactionID e = next_journal db"
  shows "filter (\<lambda>e. e_TransactionID e = next_journal db) (entries db @ new) = new"
proof -
  have "e_TransactionID e \<noteq> next_journal db" if e: "e \<in> set (entries db)" for e
  proof -
    obtain t where t: "t \<in> set (journals db)" "j_ID t = e_TransactionID e"
      using assms(2) e by (auto simp: entries_ok_def)
    then have "j_ID t < next_journal db" using assms(1) by (auto simp: journals_ok_def)
    then show ?thesis using t(2) by simp
  qed
  then show ?thesis using assms(3) by (auto simp: filter_empty_conv filter_id_conv)
qed

definition ledger_inv :: "LedgerDB \<Rightarrow> bool" where
  "ledger_inv db \<longleftrightarrow> accounts_ok db \<and> journals_ok db \<and> entries_ok db
     \<and> list_all (assert_journal_balanced db) (journals db)"

text \<open>The rows already in the books are never edited by a posting.\<close>

definition extends :: "LedgerDB \<Rightarrow> LedgerDB \<Rightarrow> bool" where
  "extends db db' \<longleftrightarrow> (\<exists>js es as. journals db' = journals db @ js \<and> entries db' = entries db @ es
     \<and> accounts db' = accounts db @ as) \<and> periods db' = periods db"

lemma Post_effect:
  assumes "Post p now inp db = Inr (r, db')" "\<not> rs_Replayed r" "journals_ok db" "entries_ok db"
  shows "extends db db' \<and> journals db' = journals db @ [rs_Transaction r] \<and> entries db' = entries db @ rs_Entries r
    \<and> list_ex (\<lambda>q. pe_ID q = j_PeriodID (rs_Transaction r) \<and> pe_Status q \<noteq> ''CLOSED'') (periods db)
    \<and> map e_DebitMinor (rs_Entries r) = map Debit (Legs inp) \<and> map e_CreditMinor (rs_Entries r) = map Credit (Legs inp)
    \<and> wrap64 (sum_list (map Debit (Legs inp))) = wrap64 (sum_list (map Credit (Legs inp)))
    \<and> (in64 (sum_list (map Debit (Legs inp))) \<longrightarrow> in64 (sum_list (map Credit (Legs inp)))
        \<longrightarrow> length (Legs inp) \<le> 2147483647 \<longrightarrow> assert_journal_balanced db' (rs_Transaction r))"
  using assms(1)
proof (cases rule: Post_cases)
  case replayed
  then show ?thesis using assms(2) by simp
next
  case (written inp' date)
  note v = validate_Inr [OF written(1)]
  from written(2) show ?thesis
  proof (rule post_write_Inr)
    fix period number tot t new seqs as n
    assume per: "period \<in> set (periods db)" "pe_Status period \<noteq> ''CLOSED''"
      and tot: "totalOf (Legs inp') = Inr tot"
      and t: "t = (post_row p inp' date number period tot)\<lparr>j_ID := next_journal db\<rparr>"
      and r: "r = \<lparr>rs_Transaction = t, rs_Entries = new, rs_Replayed = False\<rparr>"
      and le: "leg_entries (OrganizationID p) (next_journal db) (PCurrency inp') (Legs inp') new"
      and d: "db' = db\<lparr>op_sequences := seqs, journals := journals db @ [t], next_journal := next_journal db + 1,
            accounts := accounts db @ as, next_account := n, entries := entries db @ new\<rparr>"
    note sums = leg_entries_sums [OF le]
    have ids: "filter (\<lambda>e. e_TransactionID e = next_journal db) (entries db @ new) = new"
      using fresh_entries [OF assms(3,4)] sums(4) by blast
    have tots: "tot = wrap64 (sum_list (map Debit (Legs inp)))" "tot = wrap64 (sum_list (map Credit (Legs inp)))"
      using tot v by (auto simp: totalOf_Inr)
    have "assert_journal_balanced db' t"
      if b: "in64 (sum_list (map Debit (Legs inp)))" "in64 (sum_list (map Credit (Legs inp)))"
        "length (Legs inp) \<le> 2147483647"
    proof -
      have "tot = sum_list (map Debit (Legs inp))" "tot = sum_list (map Credit (Legs inp))"
        using tots b by simp_all
      moreover have "wrap32 (int (length (Legs inp))) = int (length (Legs inp))"
        using b(3) by (intro wrap32_length) simp
      moreover have "2 \<le> length (Legs inp)" using v by auto
      ultimately show ?thesis
        using ids sums v b by (simp add: assert_journal_balanced_def d t post_row_def list_all_iff)
    qed
    moreover have "extends db db'" by (auto simp: extends_def d)
    moreover have "list_ex (\<lambda>q. pe_ID q = j_PeriodID t \<and> pe_Status q \<noteq> ''CLOSED'') (periods db)"
      using per by (auto simp: list_ex_iff t post_row_def)
    ultimately show ?thesis using r d sums v tots by simp
  qed
qed

text \<open>
  \<^bold>\<open>A posting writes one journal that balances.\<close> A successful posting that is not a replay
  appends exactly one journal, in an open period, and one entry per leg in order, and edits
  nothing that was there; debits and credits of the legs agree modulo \<open>2^64\<close>, and when neither
  side leaves the 64-bit range they agree exactly, so the commit-time trigger accepts the new
  journal.
\<close>

theorem Post_balanced:
  assumes "Post p now inp db = Inr (r, db')" "\<not> rs_Replayed r" "journals_ok db" "entries_ok db"
  shows "extends db db' \<and> journals db' = journals db @ [rs_Transaction r] \<and> entries db' = entries db @ rs_Entries r
    \<and> list_ex (\<lambda>q. pe_ID q = j_PeriodID (rs_Transaction r) \<and> pe_Status q \<noteq> ''CLOSED'') (periods db)
    \<and> map e_DebitMinor (rs_Entries r) = map Debit (Legs inp) \<and> map e_CreditMinor (rs_Entries r) = map Credit (Legs inp)
    \<and> wrap64 (sum_list (map Debit (Legs inp))) = wrap64 (sum_list (map Credit (Legs inp)))
    \<and> (in64 (sum_list (map Debit (Legs inp))) \<longrightarrow> in64 (sum_list (map Credit (Legs inp)))
        \<longrightarrow> length (Legs inp) \<le> 2147483647 \<longrightarrow> assert_journal_balanced db' (rs_Transaction r))"
  by (rule Post_effect [OF assms])

definition demo_principal :: Principal where
  "demo_principal = \<lparr>UserID = 11, UserPublicID = ''usr_1'', OrganizationID = 7, OrganizationCurrency = ''INR'',
     OrganizationAWBPrefix = ''QYN'', IsSuperAdmin = False, ImpersonatedOrg = False, Roles = [''FINANCE''],
     permissions = [''ledger.post''], ScopedUnitIDs = Some [3], HasUnscopedRole = False, CustomerIDs = None,
     IsPortalUser = False, IsPartner = False, PartnerKeyID = 0\<rparr>"

definition demo_account :: "int \<Rightarrow> string \<Rightarrow> string \<Rightarrow> string \<Rightarrow> LedgerAccount" where
  "demo_account i code ty nb = \<lparr>ac_ID = i, ac_OrganizationID = 7, ac_Code = code, ac_Name = code, ac_AccountType = ty,
     ac_NormalBalance = nb, ac_Currency = ''INR'', ac_PartyType = None, ac_PartyID = None, ac_ParentID = None\<rparr>"

definition demo_period :: "int \<Rightarrow> string \<Rightarrow> int \<Rightarrow> int \<Rightarrow> string \<Rightarrow> AccountingPeriod" where
  "demo_period i code starts ends st = \<lparr>pe_ID = i, pe_PublicID = ''acp_'' @ code, pe_OrganizationID = 7, pe_Code = code, pe_StartsOn = starts, pe_EndsOn = ends,
     pe_Status = st, pe_ClosedBy = None, pe_CloseReason = None\<rparr>"

declare demo_period_def [simp]

definition demo_ledger :: LedgerDB where
  "demo_ledger = \<lparr>accounts = [demo_account 1 ''1000'' ''ASSET'' ''DEBIT'', demo_account 2 ''4000'' ''REVENUE'' ''CREDIT''],
     periods = [demo_period 5 ''2026-08'' 20260801 20260831 ''OPEN''],
     journals = [], entries = [], op_sequences = Map.empty, next_account = 3, next_journal = 1, next_period = 7, ledger_audit = []\<rparr>"

definition demo_leg :: "string \<Rightarrow> int \<Rightarrow> int \<Rightarrow> Leg" where
  "demo_leg code d c = \<lparr>AccountCode = code, Debit = d, Credit = c, PartyType = '''', PartyID = 0, LegFranchiseID = None,
     LegOperatingUnitID = None, LegCustomerID = None, LegShipmentID = None, Memo = ''''\<rparr>"

definition demo_posting :: Posting where
  "demo_posting = \<lparr>SourceType = ''COD'', SourceID = Some 40, Purpose = ''COLLECTION'', PDescription = ''Cash'', Reason = '''',
     PCurrency = ''INR'', PostingDate = None, Legs = [demo_leg ''1000'' 500 0, demo_leg ''4000'' 0 500]\<rparr>"

lemmas demo_defs = demo_principal_def demo_account_def demo_ledger_def demo_leg_def demo_posting_def

lemma demo_ledger_inv: "ledger_inv demo_ledger"
  by (simp add: ledger_inv_def accounts_ok_def journals_ok_def entries_ok_def demo_defs)

lemma demo_validate: "validate 20260808 demo_posting = Inr (demo_posting\<lparr>PostingDate := Some 20260808\<rparr>)"
  by (simp add: validate_def demo_defs Supported_def supported_def INR_def reason_sources_def)

lemma demo_post:
  "\<exists>r db'. Post demo_principal 20260808 demo_posting demo_ledger = Inr (r, db') \<and> \<not> rs_Replayed r
     \<and> j_ID (rs_Transaction r) = 1"
proof -
  have s: "SourceID demo_posting = Some 40" "journals demo_ledger = []" by (simp_all add: demo_defs)
  have "Post demo_principal 20260808 demo_posting demo_ledger
      = post_write demo_principal (demo_posting\<lparr>PostingDate := Some 20260808\<rparr>) 20260808 demo_ledger"
    by (simp add: Post_def demo_validate FindJournalBySource_def s)
  also have "\<exists>r db'. \<dots> = Inr (r, db') \<and> \<not> rs_Replayed r \<and> j_ID (rs_Transaction r) = 1"
    by (simp add: post_write_def periodFor_def GetPeriodForDate_def
      totalOf_def allocateNumber_def AllocateOperationalSequence_def CreateJournalTransaction_def journal_constraints_def
      period_open_def source_types_def reason_sources_def post_row_def resolveAccount_def GetAccountByCode_def
      CreateJournalEntry_def entry_constraints_def leg_entry_def demo_defs Let_def add64_def width_defs)
  finally show ?thesis .
qed

theorem Post_balanced_witness:
  "\<exists>r db'. Post demo_principal 20260808 demo_posting demo_ledger = Inr (r, db')
     \<and> assert_journal_balanced db' (rs_Transaction r) \<and> map e_DebitMinor (rs_Entries r) = [500, 0]"
proof -
  obtain r db' where r: "Post demo_principal 20260808 demo_posting demo_ledger = Inr (r, db')" "\<not> rs_Replayed r"
    using demo_post by blast
  from Post_balanced [OF r] demo_ledger_inv show ?thesis
    using r by (auto simp: ledger_inv_def demo_defs width_defs)
qed

lemma find_live:
  assumes "journals_ok db" "t \<in> set (journals db)" "live_source org st sid pu t"
  shows "FindJournalBySource db org st sid pu = Some t"
proof -
  obtain u where u: "FindJournalBySource db org st sid pu = Some u"
    using assms(2,3) by (cases "find (live_source org st sid pu) (journals db)")
      (auto simp: FindJournalBySource_def find_None_iff)
  then have "u \<in> set (journals db)" "live_source org st sid pu u"
    by (auto simp: FindJournalBySource_def dest: find_SomeD)
  moreover have "org = j_OrganizationID t" "st = j_SourceType t" "pu = j_Purpose t"
    using assms(3) by (auto simp: live_source_def)
  ultimately have "t = u" using assms unfolding journals_ok_def by blast
  with u show ?thesis by simp
qed

lemma Post_replays:
  assumes "journals_ok db" "t \<in> set (journals db)" "validate now inp0 = Inr inp" "SourceID inp0 = Some sid"
    and "live_source (OrganizationID p) (SourceType inp0) sid (Purpose inp0) t"
  shows "Post p now inp0 db =
    Inr (\<lparr>rs_Transaction = t, rs_Entries = ListJournalEntries db (j_ID t), rs_Replayed = True\<rparr>, db)"
  using find_live [OF assms(1,2,5)] validate_Inr [OF assms(3)] assms(3,4)
  by (auto simp: Post_def Let_def)

text \<open>
  C2: \<^bold>\<open>A source posts once.\<close> While a journal for a source and purpose is live, every further
  posting with that key that passes validation, whatever its legs and date, returns that same
  journal and changes nothing; and a posting that got past the probe before the other one
  committed is refused by the database, so a race cannot pay twice either.
\<close>

theorem Post_once:
  assumes "journals_ok db" "t \<in> set (journals db)" "SourceID inp = Some sid"
    and "live_source (OrganizationID p) (SourceType inp) sid (Purpose inp) t"
  shows "(\<forall>now r db'. Post p now inp db = Inr (r, db') \<longrightarrow> rs_Replayed r \<and> rs_Transaction r = t \<and> db' = db)
    \<and> (\<forall>now. (\<exists>v. validate now inp = Inr v) \<longrightarrow> (\<exists>r. Post p now inp db = Inr (r, db)))
    \<and> (\<forall>date r db'. post_write p inp date db \<noteq> Inr (r, db'))"
proof (intro conjI allI impI)
  fix now r db' assume a: "Post p now inp db = Inr (r, db')"
  then obtain v where "validate now inp = Inr v" by (auto simp: Post_def res_simps)
  from Post_replays [OF assms(1,2) this assms(3,4)] a
  show "rs_Replayed r" "rs_Transaction r = t" "db' = db" by auto
next
  fix now assume "\<exists>v. validate now inp = Inr v"
  then show "\<exists>r. Post p now inp db = Inr (r, db)"
    using Post_replays [OF assms(1,2) _ assms(3,4)] by blast
next
  fix date r db'
  show "post_write p inp date db \<noteq> Inr (r, db')"
  proof
    assume "post_write p inp date db = Inr (r, db')"
    then show False
    proof (rule post_write_Inr)
      fix period number tot
      assume "journal_constraints db (post_row p inp date number period tot)"
      then show False using assms
        by (auto simp: journal_constraints_def post_row_def list_ex_iff)
    qed
  qed
qed

lemma written_live:
  assumes "Post p now inp db = Inr (r, db')" "\<not> rs_Replayed r" "SourceID inp = Some sid"
  shows "rs_Transaction r \<in> set (journals db')
    \<and> live_source (OrganizationID p) (SourceType inp) sid (Purpose inp) (rs_Transaction r)"
  using assms(1)
proof (cases rule: Post_cases)
  case replayed
  then show ?thesis using assms(2) by simp
next
  case (written inp' date)
  note v = validate_Inr [OF written(1)]
  from written(2) show ?thesis
    by (rule post_write_Inr) (use v assms(3) in \<open>auto simp: live_source_def post_row_def\<close>)
qed

subsection \<open>Reversal\<close>

definition mirrors :: "int \<Rightarrow> int \<Rightarrow> JournalEntry list \<Rightarrow> JournalEntry list \<Rightarrow> bool" where
  "mirrors org rid oes new \<longleftrightarrow> list_all2 (\<lambda>oe e. e_OrganizationID e = org \<and> e_TransactionID e = rid
     \<and> e_AccountID e = e_AccountID oe \<and> e_Currency e = e_Currency oe
     \<and> e_DebitMinor e = e_CreditMinor oe \<and> e_CreditMinor e = e_DebitMinor oe) oes new"

lemma write_mirror_Inr:
  "write_mirror org rid i oes acc db = Inr (es, db') \<Longrightarrow>
   \<exists>new. es = acc @ new \<and> db' = db\<lparr>entries := entries db @ new\<rparr> \<and> mirrors org rid oes new"
proof (induction oes arbitrary: i acc db)
  case Nil
  then show ?case by (simp add: mirrors_def)
next
  case (Cons oe oes)
  let ?e = "mirror_entry org rid i oe"
  from Cons.prems have "write_mirror org rid (i + 1) oes (acc @ [?e]) (db\<lparr>entries := entries db @ [?e]\<rparr>) = Inr (es, db')"
    by (auto simp: res_simps CreateJournalEntry_Inr)
  from Cons.IH [OF this] obtain new where "es = (acc @ [?e]) @ new"
    "db' = db\<lparr>entries := (entries db @ [?e]) @ new\<rparr>" "mirrors org rid oes new"
    by auto
  then show ?case by (intro exI [of _ "?e # new"]) (simp add: mirror_entry_def mirrors_def)
qed

definition reversed :: "int \<Rightarrow> int \<Rightarrow> JournalTransaction \<Rightarrow> JournalTransaction" where
  "reversed tid rid t = (if j_ID t = tid then t\<lparr>j_Status := ''REVERSED'', j_ReversedByID := Some rid\<rparr> else t)"

lemma reversed_fields: "j_ID (reversed tid rid t) = j_ID t" "j_OrganizationID (reversed tid rid t) = j_OrganizationID t"
  by (simp_all add: reversed_def)

lemma same_id: "journals_ok db \<Longrightarrow> t \<in> set (journals db) \<Longrightarrow> u \<in> set (journals db) \<Longrightarrow> j_ID t = j_ID u \<Longrightarrow> t = u"
  by (auto simp: journals_ok_def distinct_map dest: inj_onD)

lemma MarkJournalReversed_Inr:
  assumes "MarkJournalReversed db3 org tid rid = Inr db4" "journals db3 = journals db @ [t]" "journals_ok db"
    and "orig \<in> set (journals db)" "j_ID orig = tid" "j_OrganizationID orig = org" "j_Status orig = ''POSTED''" "j_ID t \<noteq> tid"
  shows "period_open db3 (j_PeriodID orig) \<and> db4 = db3\<lparr>journals := map (reversed tid rid) (journals db) @ [t]\<rparr>"
proof -
  let ?P = "\<lambda>t. j_OrganizationID t = org \<and> j_ID t = tid \<and> j_Status t = ''POSTED''"
  obtain u where u: "find ?P (journals db3) = Some u" and po: "period_open db3 (j_PeriodID u)"
    and d4: "db4 = db3\<lparr>journals := map (\<lambda>t. if ?P t then t\<lparr>j_Status := ''REVERSED'', j_ReversedByID := Some rid\<rparr> else t)
      (journals db3)\<rparr>"
    using assms(1) by (auto simp: MarkJournalReversed_def res_simps split: option.splits)
  have "u \<in> set (journals db)" "j_ID u = tid" using find_SomeD [OF u] assms(2,8) by auto
  then have "u = orig" using same_id [OF assms(3)] assms(4,5) by blast
  moreover have "(if ?P v then v\<lparr>j_Status := ''REVERSED'', j_ReversedByID := Some rid\<rparr> else v) = reversed tid rid v"
    if "v \<in> set (journals db)" for v
    using same_id [OF assms(3) that assms(4)] assms(5,6,7) by (auto simp: reversed_def)
  ultimately show ?thesis using po d4 assms(2,8) by simp
qed

text \<open>A successful reversal: the mirror is appended, the original flagged, nothing else changes.\<close>

lemma Reverse_Inr:
  assumes "Reverse p now tid reason date db = Inr (r, db')" "journals_ok db"
  obtains orig t new seqs period number d where
    "orig \<in> set (journals db)" "j_ID orig = tid" "j_OrganizationID orig = OrganizationID p" "j_Status orig = ''POSTED''"
    "period_open db (j_PeriodID orig)"
    "t = (reversal_row p orig reason d number period (length (ListJournalEntries db tid)))\<lparr>j_ID := next_journal db\<rparr>"
    "journal_constraints db (reversal_row p orig reason d number period (length (ListJournalEntries db tid)))"
    "r = \<lparr>rs_Transaction = t, rs_Entries = new, rs_Replayed = False\<rparr>"
    "mirrors (OrganizationID p) (next_journal db) (ListJournalEntries db tid) new"
    "db' = db\<lparr>op_sequences := seqs, journals := map (reversed tid (next_journal db)) (journals db) @ [t],
       next_journal := next_journal db + 1, entries := entries db @ new,
       ledger_audit := ledger_audit db @ [(''ledger.journal.reversed'', tid)]\<rparr>"
proof -
  from assms(1) obtain orig period number db1 t db2 es db3 db4 d where
    lock: "LockJournalForReversal db (OrganizationID p) tid = Some orig"
    and num: "allocateNumber db (OrganizationID p) d = Inr (number, db1)"
    and cr: "CreateJournalTransaction db1 (reversal_row p orig reason d number period (length (ListJournalEntries db (j_ID orig))))
        = Inr (t, db2)"
    and wm: "write_mirror (OrganizationID p) (j_ID t) 0 (ListJournalEntries db (j_ID orig)) [] db2 = Inr (es, db3)"
    and mark: "MarkJournalReversed db3 (OrganizationID p) (j_ID orig) (j_ID t) = Inr db4"
    and r: "r = \<lparr>rs_Transaction = t, rs_Entries = es, rs_Replayed = False\<rparr>"
    and d4: "db' = db4\<lparr>ledger_audit := ledger_audit db4 @ [(''ledger.journal.reversed'', j_ID orig)]\<rparr>"
    and st: "j_Status orig \<noteq> ''REVERSED''" "j_Status orig \<noteq> ''DRAFT''"
    by (auto simp: Reverse_def res_simps Let_def)
  have o: "orig \<in> set (journals db)" "j_OrganizationID orig = OrganizationID p" "j_ID orig = tid"
    using lock by (auto simp: LockJournalForReversal_def dest: find_SomeD)
  then have posted: "j_Status orig = ''POSTED''" and lt: "tid < next_journal db"
    using assms(2) st by (auto simp: journals_ok_def)
  obtain seqs where d1: "db1 = db\<lparr>op_sequences := seqs\<rparr>" using allocateNumber_Inr [OF num] by blast
  have jc: "journal_constraints db1 = journal_constraints db"
    by (rule ext) (simp add: d1 journal_constraints_def period_open_def split: option.split)
  have d2: "t = (reversal_row p orig reason d number period (length (ListJournalEntries db tid)))\<lparr>j_ID := next_journal db\<rparr>"
    "db2 = db1\<lparr>journals := journals db @ [t], next_journal := next_journal db + 1\<rparr>"
    "journal_constraints db (reversal_row p orig reason d number period (length (ListJournalEntries db tid)))"
    using cr jc o(3) by (auto simp: CreateJournalTransaction_Inr d1)
  from write_mirror_Inr [OF wm] have m: "db3 = db2\<lparr>entries := entries db2 @ es\<rparr>"
    "mirrors (OrganizationID p) (j_ID t) (ListJournalEntries db (j_ID orig)) es" by auto
  have tid: "j_ID t = next_journal db" by (simp add: d2(1))
  have k: "period_open db3 (j_PeriodID orig) \<and> db4 = db3\<lparr>journals := map (reversed tid (j_ID t)) (journals db) @ [t]\<rparr>"
  proof (rule MarkJournalReversed_Inr [OF _ _ assms(2) o(1,3,2) posted])
    show "MarkJournalReversed db3 (OrganizationID p) tid (j_ID t) = Inr db4" using mark o(3) by simp
    show "journals db3 = journals db @ [t]" by (simp add: m(1) d2(2))
    show "j_ID t \<noteq> tid" using tid lt by simp
  qed
  show thesis
  proof (rule that [OF o(1) o(3) o(2) posted _ d2(1) d2(3) r])
    show "period_open db (j_PeriodID orig)" using k by (simp add: m(1) d2(2) d1 period_open_def)
    show "mirrors (OrganizationID p) (next_journal db) (ListJournalEntries db tid) es" using m(2) tid o(3) by simp
    show "db' = db\<lparr>op_sequences := seqs, journals := map (reversed tid (next_journal db)) (journals db) @ [t],
       next_journal := next_journal db + 1, entries := entries db @ es,
       ledger_audit := ledger_audit db @ [(''ledger.journal.reversed'', tid)]\<rparr>"
      using k tid o(3) by (simp add: d4 m(1) d2(2) d1)
  qed
qed

text \<open>
  The movement of an account: debits less credits over all its entries. Balances sum every
  journal that is not a draft, so a reversed journal and its mirror both count.
\<close>

definition movement :: "JournalEntry list \<Rightarrow> int \<Rightarrow> int" where
  "movement es aid = sum_list (map (\<lambda>e. e_DebitMinor e - e_CreditMinor e) (filter (\<lambda>e. e_AccountID e = aid) es))"

lemma movement_append [simp]: "movement (xs @ ys) aid = movement xs aid + movement ys aid"
  by (simp add: movement_def)

lemma movement_mset: "mset xs = mset ys \<Longrightarrow> movement xs aid = movement ys aid"
proof -
  assume "mset xs = mset ys"
  then have "mset (filter (\<lambda>e. e_AccountID e = aid) xs) = mset (filter (\<lambda>e. e_AccountID e = aid) ys)" by simp
  then have "mset (map (\<lambda>e. e_DebitMinor e - e_CreditMinor e) (filter (\<lambda>e. e_AccountID e = aid) xs))
      = mset (map (\<lambda>e. e_DebitMinor e - e_CreditMinor e) (filter (\<lambda>e. e_AccountID e = aid) ys))"
    by (simp only: mset_map)
  then show ?thesis unfolding movement_def by (simp only: sum_mset_sum_list [symmetric])
qed

lemma movement_mirrors: "mirrors org rid oes new \<Longrightarrow> movement new aid = - movement oes aid"
  unfolding mirrors_def
  by (induction oes new rule: list_all2_induct) (auto simp: movement_def)

lemma movement_ListJournalEntries: "movement (ListJournalEntries db tid) aid = movement (txn_entries db tid) aid"
  by (rule movement_mset) (simp add: ListJournalEntries_def)

text \<open>
  C3: \<^bold>\<open>A reversal undoes exactly one journal.\<close> A successful reversal appends mirror entries and
  one journal, leaves every entry that was there as it was, moves every account by the exact
  opposite of what the original moved it, links and flags the original as reversed without
  touching any other journal, and a second reversal of the original is refused.
\<close>

theorem Reverse_undoes:
  assumes "Reverse p now tid reason date db = Inr (r, db')" "journals_ok db"
  shows "entries db' = entries db @ rs_Entries r
    \<and> (\<forall>aid. movement (entries db') aid = movement (entries db) aid - movement (txn_entries db tid) aid)
    \<and> journals db' = map (reversed tid (j_ID (rs_Transaction r))) (journals db) @ [rs_Transaction r]
    \<and> (\<exists>orig \<in> set (journals db'). j_ID orig = tid \<and> j_Status orig = ''REVERSED''
         \<and> j_ReversedByID orig = Some (j_ID (rs_Transaction r)))
    \<and> j_ReversesID (rs_Transaction r) = Some tid
    \<and> (3 \<le> rune_count reason' \<longrightarrow>
         Reverse p now' tid reason' date' db' = Inl (Conflict ''LEDGER_ALREADY_REVERSED''))"
  using assms
proof (rule Reverse_Inr)
  fix orig t new seqs period number d
  assume o: "orig \<in> set (journals db)" "j_ID orig = tid" "j_OrganizationID orig = OrganizationID p"
    and t: "t = (reversal_row p orig reason d number period (length (ListJournalEntries db tid)))\<lparr>j_ID := next_journal db\<rparr>"
    and r: "r = \<lparr>rs_Transaction = t, rs_Entries = new, rs_Replayed = False\<rparr>"
    and m: "mirrors (OrganizationID p) (next_journal db) (ListJournalEntries db tid) new"
    and d: "db' = db\<lparr>op_sequences := seqs, journals := map (reversed tid (next_journal db)) (journals db) @ [t],
       next_journal := next_journal db + 1, entries := entries db @ new,
       ledger_audit := ledger_audit db @ [(''ledger.journal.reversed'', tid)]\<rparr>"
  have tid: "j_ID t = next_journal db" and rev: "j_ReversesID t = Some tid" using t o(2) by (simp_all add: reversal_row_def)
  let ?o = "reversed tid (next_journal db) orig"
  have ro: "?o \<in> set (journals db')" "j_ID ?o = tid" "j_Status ?o = ''REVERSED''" "j_ReversedByID ?o = Some (next_journal db)"
    "j_OrganizationID ?o = OrganizationID p"
    using o by (auto simp: d reversed_def)
  have only: "u = ?o" if u: "u \<in> set (journals db')" "j_ID u = tid" for u
  proof -
    have "tid \<noteq> next_journal db" using o assms(2) by (auto simp: journals_ok_def)
    then obtain v where v: "v \<in> set (journals db)" "u = reversed tid (next_journal db) v"
      using u tid by (auto simp: d)
    then have "j_ID v = tid" using u(2) by (auto simp: reversed_def split: if_splits)
    then show ?thesis using same_id [OF assms(2) v(1) o(1)] o(2) v(2) by simp
  qed
  have "LockJournalForReversal db' (OrganizationID p) tid = Some ?o"
  proof (cases "LockJournalForReversal db' (OrganizationID p) tid")
    case None
    then show ?thesis using ro unfolding LockJournalForReversal_def find_None_iff by blast
  next
    case (Some u)
    then show ?thesis using only [of u] by (auto simp: LockJournalForReversal_def dest: find_SomeD)
  qed
  then have second: "3 \<le> rune_count reason' \<longrightarrow>
      Reverse p now' tid reason' date' db' = Inl (Conflict ''LEDGER_ALREADY_REVERSED'')"
    using ro(3) by (simp add: Reverse_def)
  have mv: "movement (entries db') aid = movement (entries db) aid - movement (txn_entries db tid) aid" for aid
    using movement_mirrors [OF m] movement_ListJournalEntries by (simp add: d)
  have link: "\<exists>orig \<in> set (journals db'). j_ID orig = tid \<and> j_Status orig = ''REVERSED''
       \<and> j_ReversedByID orig = Some (j_ID (rs_Transaction r))"
    using ro tid r by auto
  have rows: "entries db' = entries db @ rs_Entries r"
    "journals db' = map (reversed tid (j_ID (rs_Transaction r))) (journals db) @ [rs_Transaction r]"
    "j_ReversesID (rs_Transaction r) = Some tid"
    using r d tid rev by simp_all
  show ?thesis using second mv link rows by blast
qed

text \<open>
  \<^bold>\<open>A closed period locks its journals out of reversal.\<close> The period trigger also fires when
  the original is flagged as reversed, so a journal whose own period has been closed cannot be
  reversed at all, even though the reversal is dated in an open period.
\<close>

theorem Reverse_closed_period:
  assumes "journals_ok db" "orig \<in> set (journals db)" "j_OrganizationID orig = OrganizationID p"
    and "\<not> period_open db (j_PeriodID orig)"
  shows "Reverse p now (j_ID orig) reason date db \<noteq> Inr (r, db')"
proof
  assume "Reverse p now (j_ID orig) reason date db = Inr (r, db')"
  from this assms(1) show False
  proof (rule Reverse_Inr)
    fix o2 assume "o2 \<in> set (journals db)" "j_ID o2 = j_ID orig" "period_open db (j_PeriodID o2)"
    then show False using same_id [OF assms(1)] assms(2,4) by metis
  qed
qed

lemma demo_books:
  "\<exists>r db'. Post demo_principal 20260808 demo_posting demo_ledger = Inr (r, db') \<and> \<not> rs_Replayed r
     \<and> commit_journals db' = Inr db' \<and> journals db' = [rs_Transaction r]"
proof -
  obtain r db' where r: "Post demo_principal 20260808 demo_posting demo_ledger = Inr (r, db')" "\<not> rs_Replayed r"
    using demo_post by blast
  have "journals_ok demo_ledger" "entries_ok demo_ledger" using demo_ledger_inv by (simp_all add: ledger_inv_def)
  from Post_effect [OF r this] have "journals db' = [rs_Transaction r]" "assert_journal_balanced db' (rs_Transaction r)"
    by (auto simp: demo_defs width_defs)
  then show ?thesis using r by (auto simp: commit_journals_def)
qed

subsection \<open>The books as a whole\<close>

text \<open>
  A transaction is any sequence of ledger calls followed by the commit-time check; a history is
  any sequence of transactions.
\<close>

definition ledger_struct :: "LedgerDB \<Rightarrow> bool" where
  "ledger_struct db \<longleftrightarrow> accounts_ok db \<and> journals_ok db \<and> entries_ok db"

inductive ledger_call :: "LedgerDB \<Rightarrow> LedgerDB \<Rightarrow> bool" where
  post: "Post p now inp db = Inr (r, db') \<Longrightarrow> ledger_call db db'"
| reverse: "Reverse p now tid reason date db = Inr (r, db') \<Longrightarrow> ledger_call db db'"

inductive ledger_tx :: "LedgerDB \<Rightarrow> LedgerDB \<Rightarrow> bool" where
  commit: "ledger_call\<^sup>*\<^sup>* db db' \<Longrightarrow> commit_journals db' = Inr db'' \<Longrightarrow> ledger_tx db db''"

lemma commit_Inr: "commit_journals db = Inr db' \<longleftrightarrow> db' = db \<and> list_all (assert_journal_balanced db) (journals db)"
  by (auto simp: commit_journals_def res_simps)

lemma journals_ok_snoc:
  assumes "journals_ok db" "journals db' = map f (journals db) @ [t]" "next_journal db' = next_journal db + 1"
    and "j_ID t = next_journal db" "j_Status t = ''POSTED''"
    and f: "\<And>v. j_ID (f v) = j_ID v \<and> j_OrganizationID (f v) = j_OrganizationID v \<and> j_SourceType (f v) = j_SourceType v
      \<and> j_SourceID (f v) = j_SourceID v \<and> j_Purpose (f v) = j_Purpose v \<and> (f v = v \<or> j_Status (f v) = ''REVERSED'')"
    and jc: "journal_constraints db (t\<lparr>j_ID := 0\<rparr>)"
  shows "journals_ok db'"
proof -
  have ids: "distinct (map j_ID (journals db'))" "\<forall>v \<in> set (journals db'). j_ID v < next_journal db'"
    using assms(1-4) f by (auto simp: journals_ok_def comp_def)
  have st: "\<forall>v \<in> set (journals db'). j_Status v \<in> {''DRAFT'', ''POSTED'', ''REVERSED''}"
    using assms(1,2,5) f by (auto simp: journals_ok_def) metis+
  have live: "live_source org s sid pu v" "f v = v" if "live_source org s sid pu (f v)" for org s sid pu v
    using that f [of v] by (auto simp: live_source_def)
  have fresh: "\<not> live_source (j_OrganizationID t) (j_SourceType t) sid (j_Purpose t) v"
    if "v \<in> set (journals db)" "live_source (j_OrganizationID t) (j_SourceType t) sid (j_Purpose t) t" for v sid
    using that jc assms(5) by (auto simp: journal_constraints_def list_ex_iff live_source_def)
  have uniq: "v = w" if vw: "v \<in> set (journals db')" "w \<in> set (journals db')"
    "live_source (j_OrganizationID v) (j_SourceType v) sid (j_Purpose v) v"
    "live_source (j_OrganizationID v) (j_SourceType v) sid (j_Purpose v) w" for v w sid
  proof -
    have key: "live_source (j_OrganizationID w) (j_SourceType w) sid (j_Purpose w) v"
      "live_source (j_OrganizationID w) (j_SourceType w) sid (j_Purpose w) w"
      using vw(3,4) by (auto simp: live_source_def)
    consider "v = t" "w = t" | a where "v = t" "w = f a" "a \<in> set (journals db)"
      | a where "v = f a" "w = t" "a \<in> set (journals db)"
      | a b where "v = f a" "w = f b" "a \<in> set (journals db)" "b \<in> set (journals db)"
      using vw(1,2) assms(2) by auto
    then show ?thesis
    proof cases
      case (2 a)
      then show ?thesis using fresh [of a sid] live [of _ _ sid _ a] vw(3,4) by blast
    next
      case (3 a)
      then show ?thesis using fresh [of a sid] live [of _ _ sid _ a] key by blast
    next
      case (4 a b)
      then have "f a = a" "f b = b" using live vw(3,4) by blast+
      then show ?thesis using 4 vw(3,4) assms(1) unfolding journals_ok_def by metis
    qed simp
  qed
  show ?thesis unfolding journals_ok_def using ids st uniq by blast
qed

lemma entries_ok_append:
  assumes "entries_ok db" "entries db' = entries db @ new"
    and "\<And>t. t \<in> set (journals db) \<Longrightarrow> \<exists>u \<in> set (journals db'). j_ID u = j_ID t \<and> j_OrganizationID u = j_OrganizationID t"
    and "set (accounts db) \<subseteq> set (accounts db')"
    and "\<And>e. e \<in> set new \<Longrightarrow> \<exists>t \<in> set (journals db'). j_ID t = e_TransactionID e \<and> j_OrganizationID t = e_OrganizationID e"
    and "\<And>e. e \<in> set new \<Longrightarrow> has_account db' (e_OrganizationID e) (e_AccountID e)"
  shows "entries_ok db'"
  unfolding entries_ok_def
proof
  fix e assume "e \<in> set (entries db')"
  then consider "e \<in> set (entries db)" | "e \<in> set new" using assms(2) by auto
  then show "(\<exists>t \<in> set (journals db'). j_ID t = e_TransactionID e \<and> j_OrganizationID t = e_OrganizationID e)
      \<and> has_account db' (e_OrganizationID e) (e_AccountID e)"
  proof cases
    case 1
    then obtain t where t: "t \<in> set (journals db)" "j_ID t = e_TransactionID e" "j_OrganizationID t = e_OrganizationID e"
      and h: "has_account db (e_OrganizationID e) (e_AccountID e)" using assms(1) by (auto simp: entries_ok_def)
    from assms(3) [OF t(1)] t(2,3) has_account_mono [OF h assms(4)] show ?thesis by auto
  next
    case 2
    then show ?thesis using assms(5,6) by blast
  qed
qed

lemma Post_struct:
  assumes "Post p now inp db = Inr (r, db')" "ledger_struct db"
  shows "ledger_struct db'"
  using assms(1)
proof (cases rule: Post_cases)
  case replayed
  then show ?thesis using assms(2) by simp
next
  case (written inp' date)
  have ok: "accounts_ok db" "journals_ok db" "entries_ok db" using assms(2) by (simp_all add: ledger_struct_def)
  from written(2) show ?thesis
  proof (rule post_write_Inr)
    fix period number tot t new seqs as n
    assume t: "t = (post_row p inp' date number period tot)\<lparr>j_ID := next_journal db\<rparr>"
      and jc: "journal_constraints db (post_row p inp' date number period tot)"
      and le: "leg_entries (OrganizationID p) (next_journal db) (PCurrency inp') (Legs inp') new"
      and d: "db' = db\<lparr>op_sequences := seqs, journals := journals db @ [t], next_journal := next_journal db + 1,
            accounts := accounts db @ as, next_account := n, entries := entries db @ new\<rparr>"
      and h: "\<forall>e \<in> set new. has_account db' (OrganizationID p) (e_AccountID e)"
      and a: "accounts_ok db \<longrightarrow> accounts_ok db'"
    note s = leg_entries_sums [OF le]
    have "journals_ok db'"
      by (rule journals_ok_snoc [OF ok(2), where f = id and t = t]) (use t jc in \<open>simp_all add: d post_row_def\<close>)
    moreover have "entries_ok db'"
      by (rule entries_ok_append [OF ok(3), of _ new]) (use s(4) h t in \<open>auto simp: d post_row_def\<close>)
    ultimately show ?thesis using a ok(1) by (simp add: ledger_struct_def)
  qed
qed

lemma mirrors_facts:
  assumes "mirrors org rid oes new" "e \<in> set new"
  shows "e_OrganizationID e = org \<and> e_TransactionID e = rid \<and> (\<exists>oe \<in> set oes. e_AccountID oe = e_AccountID e)"
  using assms unfolding mirrors_def by (induction oes new rule: list_all2_induct) auto

lemma Reverse_struct:
  assumes "Reverse p now tid reason date db = Inr (r, db')" "ledger_struct db"
  shows "ledger_struct db'"
proof -
  have ok: "accounts_ok db" "journals_ok db" "entries_ok db" using assms(2) by (simp_all add: ledger_struct_def)
  from assms(1) ok(2) show ?thesis
  proof (rule Reverse_Inr)
    fix orig t new seqs period number d
    assume o: "orig \<in> set (journals db)" "j_ID orig = tid" "j_OrganizationID orig = OrganizationID p"
      and t: "t = (reversal_row p orig reason d number period (length (ListJournalEntries db tid)))\<lparr>j_ID := next_journal db\<rparr>"
      and jc: "journal_constraints db (reversal_row p orig reason d number period (length (ListJournalEntries db tid)))"
      and m: "mirrors (OrganizationID p) (next_journal db) (ListJournalEntries db tid) new"
      and d: "db' = db\<lparr>op_sequences := seqs, journals := map (reversed tid (next_journal db)) (journals db) @ [t],
         next_journal := next_journal db + 1, entries := entries db @ new,
         ledger_audit := ledger_audit db @ [(''ledger.journal.reversed'', tid)]\<rparr>"
    have jo: "journals_ok db'"
      by (rule journals_ok_snoc [OF ok(2), where f = "reversed tid (next_journal db)" and t = t])
        (use t jc in \<open>simp_all add: d reversal_row_def reversed_def\<close>)
    have "has_account db' (OrganizationID p) (e_AccountID e)" if e: "e \<in> set new" for e
    proof -
      obtain oe where oe: "oe \<in> set (ListJournalEntries db tid)" "e_AccountID oe = e_AccountID e"
        using mirrors_facts [OF m e] by blast
      then have in_db: "oe \<in> set (entries db)" "e_TransactionID oe = tid" by (auto simp: ListJournalEntries_def)
      then obtain u where u: "u \<in> set (journals db)" "j_ID u = tid" "j_OrganizationID u = e_OrganizationID oe"
        using ok(3) unfolding entries_ok_def by metis
      then have "e_OrganizationID oe = OrganizationID p" using same_id [OF ok(2) u(1) o(1)] o by simp
      then have "has_account db (OrganizationID p) (e_AccountID e)"
        using ok(3) in_db(1) oe(2) unfolding entries_ok_def by metis
      then show ?thesis by (simp add: has_account_def d)
    qed
    moreover have "t \<in> set (journals db')" "j_ID t = next_journal db" "j_OrganizationID t = OrganizationID p"
      using t by (simp_all add: d reversal_row_def)
    moreover have "reversed tid (next_journal db) u \<in> set (journals db')" if "u \<in> set (journals db)" for u
      using that by (simp add: d)
    ultimately have "entries_ok db'"
      using mirrors_facts [OF m] reversed_fields
      by (intro entries_ok_append [OF ok(3), of _ new]) (fastforce simp: d)+
    then show ?thesis using ok(1) jo by (simp add: ledger_struct_def accounts_ok_def d)
  qed
qed

lemma call_struct: "ledger_call db db' \<Longrightarrow> ledger_struct db \<Longrightarrow> ledger_struct db' \<and> (\<exists>new. entries db' = entries db @ new)"
proof (induction rule: ledger_call.induct)
  case (post p now inp db r db')
  from post.hyps have "\<exists>new. entries db' = entries db @ new"
  proof (cases rule: Post_cases)
    case (written inp' date)
    from written(2) show ?thesis by (rule post_write_Inr) simp
  qed simp
  then show ?case using Post_struct [OF post.hyps post.prems] by blast
next
  case (reverse p now tid reason date db r db')
  have "journals_ok db" using reverse.prems by (simp add: ledger_struct_def)
  with reverse.hyps have "\<exists>new. entries db' = entries db @ new" by (rule Reverse_Inr) simp
  then show ?case using Reverse_struct [OF reverse.hyps reverse.prems] by blast
qed

lemma calls_struct:
  "ledger_call\<^sup>*\<^sup>* db db' \<Longrightarrow> ledger_struct db \<Longrightarrow> ledger_struct db' \<and> (\<exists>new. entries db' = entries db @ new)"
proof (induction rule: rtranclp_induct)
  case (step y z)
  then show ?case using call_struct [of y z] by force
qed simp

lemma tx_inv: "ledger_tx db db' \<Longrightarrow> ledger_inv db \<Longrightarrow> ledger_inv db' \<and> (\<exists>new. entries db' = entries db @ new)"
  by (induction rule: ledger_tx.induct)
    (use calls_struct in \<open>fastforce simp: ledger_inv_def ledger_struct_def commit_Inr\<close>)

lemma shown_counted:
  assumes "ledger_inv db" "e \<in> set (entries db)"
  shows "e_AccountID e \<in> ac_ID ` set (trial_shown db org asOf includeZero) \<and> counted db asOf e
    \<longleftrightarrow> (\<exists>t \<in> set (journals db). j_ID t = e_TransactionID e
      \<and> (j_OrganizationID t = org \<and> j_Status t \<in> {''POSTED'', ''REVERSED''}
         \<and> (case asOf of None \<Rightarrow> True | Some d \<Rightarrow> j_PostingDate t \<le> d)))" (is "?L \<longleftrightarrow> ?R")
proof -
  have ok: "accounts_ok db" "journals_ok db" "entries_ok db" using assms(1) by (simp_all add: ledger_inv_def)
  from ok(3) assms(2) obtain t where t: "t \<in> set (journals db)" "j_ID t = e_TransactionID e" "j_OrganizationID t = e_OrganizationID e"
    and h: "has_account db (e_OrganizationID e) (e_AccountID e)" unfolding entries_ok_def by metis
  obtain a where a: "a \<in> set (accounts db)" "ac_ID a = e_AccountID e" "ac_OrganizationID a = e_OrganizationID e"
    using h by (auto simp: has_account_def)
  have ua: "b = a" if "b \<in> set (accounts db)" "ac_ID b = e_AccountID e" for b
  proof -
    have "inj_on ac_ID (set (accounts db))" using ok(1) by (simp add: accounts_ok_def distinct_map)
    then show ?thesis using that a by (metis inj_onD)
  qed
  have ut: "u = t" if "u \<in> set (journals db)" "j_ID u = e_TransactionID e" for u
    using that t same_id [OF ok(2)] by metis
  have c: "counted db asOf e \<longleftrightarrow> j_Status t \<in> {''POSTED'', ''REVERSED''}
      \<and> (case asOf of None \<Rightarrow> True | Some d \<Rightarrow> j_PostingDate t \<le> d)"
    (is "_ \<longleftrightarrow> ?C t")
  proof -
    have "counted db asOf e \<longleftrightarrow> (\<exists>u \<in> set (journals db). j_ID u = e_TransactionID e \<and> ?C u)"
      by (simp add: counted_def list_ex_iff)
    also have "\<dots> \<longleftrightarrow> ?C t" using t(1,2) ut by blast
    finally show ?thesis .
  qed
  have r: "?R \<longleftrightarrow> j_OrganizationID t = org \<and> counted db asOf e" using t(1,2) ut c by blast
  have ne: "account_entries db asOf (ac_ID a) \<noteq> []" if "counted db asOf e"
    using that assms(2) a(2) by (auto simp: account_entries_def filter_empty_conv)
  have mem: "e_AccountID e \<in> ac_ID ` set (filter Q (accounts db)) \<longleftrightarrow> Q a" for Q
  proof -
    have "e_AccountID e \<in> ac_ID ` set (filter Q (accounts db)) \<longleftrightarrow> (\<exists>b \<in> set (accounts db). Q b \<and> ac_ID b = e_AccountID e)"
      by force
    also have "\<dots> \<longleftrightarrow> Q a" using a(1,2) ua by blast
    finally show ?thesis .
  qed
  have "?L \<longleftrightarrow> ac_OrganizationID a = org \<and> counted db asOf e"
    unfolding trial_shown_def mem using ne by blast
  with r show ?thesis using a(3) t(3) by simp
qed

text \<open>
  Totals over the entries of any selection of whole journals balance: group by journal.
\<close>

lemma selected_balanced:
  assumes "ledger_inv db" "\<And>t. Q t \<Longrightarrow> j_Status t \<noteq> ''DRAFT''"
  shows "sum_list (map (\<lambda>e. e_DebitMinor e - e_CreditMinor e)
           (filter (\<lambda>e. \<exists>t \<in> set (journals db). j_ID t = e_TransactionID e \<and> Q t) (entries db))) = 0"
proof -
  let ?net = "\<lambda>e. e_DebitMinor e - e_CreditMinor e"
  let ?js = "filter Q (journals db)"
  have d: "distinct (map j_ID ?js)"
    using assms(1) by (simp add: ledger_inv_def journals_ok_def distinct_map_filter)
  have "sum_list (map ?net (txn_entries db (j_ID t))) = 0" if "t \<in> set ?js" for t
  proof -
    have "assert_journal_balanced db t" "j_Status t \<noteq> ''DRAFT''"
      using that assms by (auto simp: ledger_inv_def list_all_iff)
    then show ?thesis by (simp add: assert_journal_balanced_def Let_def sum_list_subtractf)
  qed
  then have "map (\<lambda>t. sum_list (map ?net (filter (\<lambda>e. e_TransactionID e = j_ID t \<and> True) (entries db)))) ?js = map (\<lambda>t. 0) ?js"
    by (intro map_cong refl) simp
  then have "sum_list (map (\<lambda>t. sum_list (map ?net (filter (\<lambda>e. e_TransactionID e = j_ID t \<and> True) (entries db)))) ?js) = 0"
    by (simp only: sum_list_0)
  then have "sum_list (map ?net (filter (\<lambda>e. e_TransactionID e \<in> j_ID ` set ?js \<and> True) (entries db))) = 0"
    unfolding sum_list_group [OF d] .
  moreover have "filter (\<lambda>e. e_TransactionID e \<in> j_ID ` set ?js \<and> True) (entries db)
      = filter (\<lambda>e. \<exists>t \<in> set (journals db). j_ID t = e_TransactionID e \<and> Q t) (entries db)"
    by (rule filter_cong) (auto simp: image_iff)
  ultimately show ?thesis by simp
qed

text \<open>
  C1: \<^bold>\<open>The books always balance.\<close> From books that satisfy the invariant, every history of
  transactions, each any number of postings and reversals ended by a commit, keeps it: ids and
  live sources stay unique, every entry belongs to a journal and an account of its own
  organisation, every journal that is not a draft balances with its header total and count.
  Entries are only ever appended, and over all of an organisation's journals debits equal
  credits.
\<close>

theorem books_balance:
  assumes "ledger_tx\<^sup>*\<^sup>* db db'" "ledger_inv db"
  shows "ledger_inv db' \<and> (\<exists>new. entries db' = entries db @ new)
    \<and> sum_list (map (\<lambda>e. e_DebitMinor e - e_CreditMinor e)
        (filter (\<lambda>e. \<exists>t \<in> set (journals db'). j_ID t = e_TransactionID e \<and> j_OrganizationID t = org
             \<and> j_Status t \<noteq> ''DRAFT'') (entries db'))) = 0"
proof -
  from assms have i: "ledger_inv db' \<and> (\<exists>new. entries db' = entries db @ new)"
  proof (induction rule: rtranclp_induct)
    case (step y z)
    then show ?case using tx_inv [of y z] by force
  qed simp
  then show ?thesis
    using selected_balanced [of db' "\<lambda>t. j_OrganizationID t = org \<and> j_Status t \<noteq> ''DRAFT''"] by auto
qed

theorem books_balance_witness:
  "\<exists>db'. ledger_tx\<^sup>*\<^sup>* demo_ledger db' \<and> ledger_inv db' \<and> journals db' \<noteq> []"
proof -
  obtain r db' where d: "Post demo_principal 20260808 demo_posting demo_ledger = Inr (r, db')"
    "commit_journals db' = Inr db'" "journals db' = [rs_Transaction r]"
    using demo_books by blast
  then have "ledger_tx demo_ledger db'" by (blast intro: ledger_tx.commit ledger_call.post)
  then have tx: "ledger_tx\<^sup>*\<^sup>* demo_ledger db'" by blast
  then show ?thesis using books_balance [OF tx demo_ledger_inv] d(3) by auto
qed

text \<open>
  C4: \<^bold>\<open>The trial balance proves itself.\<close> On books that satisfy the invariant, the report of every
  organisation, as of any date and with or without empty accounts, says it is balanced with
  difference zero.
\<close>

theorem TrialBalance_balanced:
  assumes "ledger_inv db" "TrialBalance db p asOf includeZero = Inr rep"
  shows "tb_Balanced rep \<and> tb_DifferenceMinor rep = 0 \<and> tb_TotalDebit rep = tb_TotalCredit rep"
proof -
  let ?net = "\<lambda>e. e_DebitMinor e - e_CreditMinor e"
  let ?org = "OrganizationID p"
  define shown where "shown = trial_shown db ?org asOf includeZero"
  define net where "net = (\<lambda>a :: LedgerAccount. sum_list (map ?net (account_entries db asOf (ac_ID a))))"
  from assms(2) obtain rows where
    g: "GetTrialBalance db ?org asOf includeZero = Inr rows" and rep: "tb_TotalDebit rep = sum64 0 (map (\<lambda>(_, d, _, _). d) rows)" "tb_TotalCredit rep = sum64 0 (map (\<lambda>(_, _, c, _). c) rows)"
      "tb_DifferenceMinor rep = sub64 (tb_TotalDebit rep) (tb_TotalCredit rep)" "tb_Balanced rep \<longleftrightarrow> tb_DifferenceMinor rep = 0"
    by (auto simp: TrialBalance_def Let_def res_simps)
  have rows: "map (\<lambda>(_, d, c, _). d - c) rows = map net (sort_key ac_Code shown)"
    using g by (auto simp: GetTrialBalance_def trial_row_def Let_def res_simps shown_def net_def sum_list_subtractf)
  have "sum_list (map (\<lambda>(_, d, _, _). d) rows) - sum_list (map (\<lambda>(_, _, c, _). c) rows)
      = sum_list (map (\<lambda>(_, d, c, _). d - c) rows)"
    by (induction rows) auto
  also have "\<dots> = sum_list (map net shown)"
    unfolding rows by (simp flip: sum_mset_sum_list)
  also have "\<dots> = sum_list (map ?net (filter (\<lambda>e. e_AccountID e \<in> ac_ID ` set shown \<and> counted db asOf e) (entries db)))"
  proof -
    have "distinct (map ac_ID shown)"
      using assms(1) by (simp add: ledger_inv_def accounts_ok_def shown_def trial_shown_def distinct_map_filter)
    from sum_list_group [OF this, of ?net e_AccountID "counted db asOf" "entries db"] show ?thesis
      by (simp add: net_def account_entries_def)
  qed
  also have "\<dots> = sum_list (map ?net (filter (\<lambda>e. \<exists>t \<in> set (journals db). j_ID t = e_TransactionID e
      \<and> (j_OrganizationID t = ?org \<and> j_Status t \<in> {''POSTED'', ''REVERSED''}
         \<and> (case asOf of None \<Rightarrow> True | Some d \<Rightarrow> j_PostingDate t \<le> d))) (entries db)))"
    unfolding shown_def
    by (intro arg_cong [of _ _ "\<lambda>es. sum_list (map ?net es)"] filter_cong refl shown_counted [OF assms(1)])
  also have "\<dots> = 0"
    by (rule selected_balanced [OF assms(1)]) auto
  finally have "tb_TotalDebit rep = tb_TotalCredit rep"
    unfolding rep(1,2) by (simp add: sum64_wrap)
  then show ?thesis using rep(3,4) by (simp add: sub64_def)
qed

subsection \<open>Concrete books\<close>

definition demo_journal :: JournalTransaction where
  "demo_journal = \<lparr>j_ID = 1, j_OrganizationID = 7, j_TransactionNumber = ''JV-202608-000001'', j_PeriodID = 5,
     j_PostingDate = 20260808, j_Status = ''POSTED'', j_Currency = ''INR'', j_SourceType = ''COD'', j_SourceID = Some 40,
     j_Purpose = ''COLLECTION'', j_Description = ''Cash'', j_Reason = None, j_ReversesID = None, j_ReversedByID = None,
     j_TotalMinor = 500, j_EntryCount = 2\<rparr>"

definition demo_entry :: "int \<Rightarrow> int \<Rightarrow> int \<Rightarrow> int \<Rightarrow> JournalEntry" where
  "demo_entry line aid d c = \<lparr>e_OrganizationID = 7, e_TransactionID = 1, e_AccountID = aid, e_LineNo = line,
     e_DebitMinor = d, e_CreditMinor = c, e_Currency = ''INR'', e_FranchiseID = None, e_OperatingUnitID = None,
     e_CustomerID = None, e_ShipmentID = None, e_Memo = None\<rparr>"

definition demo_posted :: LedgerDB where
  "demo_posted = demo_ledger\<lparr>journals := [demo_journal], entries := [demo_entry 1 1 500 0, demo_entry 2 2 0 500],
     op_sequences := [(7, ''JRN'', ''202608'') \<mapsto> (1, 999999)], next_journal := 2\<rparr>"

lemmas posted_defs = demo_posted_def demo_journal_def demo_entry_def

lemma demo_posted_inv: "ledger_inv demo_posted"
  by (simp add: ledger_inv_def accounts_ok_def journals_ok_def entries_ok_def has_account_def
      assert_journal_balanced_def width_defs demo_defs posted_defs)

lemma demo_number: "format_200601 20260810 = ''202608''" "format_0d 6 2 = ''000002''"
  by (simp_all add: format_200601_def format_0d_def pad_dec_def dec.simps replicate_num)

lemma demo_list: "ListJournalEntries demo_posted 1 = [demo_entry 1 1 500 0, demo_entry 2 2 0 500]"
  by (simp add: ListJournalEntries_def demo_defs posted_defs)

lemma demo_reverse:
  "\<exists>r db'. Reverse demo_principal 20260810 1 ''wrong amount'' None demo_posted = Inr (r, db')"
proof -
  have l: "LockJournalForReversal demo_posted 7 1 = Some demo_journal"
    by (simp add: LockJournalForReversal_def demo_defs posted_defs)
  have p: "periodFor demo_posted 7 20260810 = Inr (demo_period 5 ''2026-08'' 20260801 20260831 ''OPEN'')"
    by (simp add: periodFor_def GetPeriodForDate_def demo_defs posted_defs)
  have n: "allocateNumber demo_posted 7 20260810 = Inr (''JV-202608-000002'',
      demo_posted\<lparr>op_sequences := [(7, ''JRN'', ''202608'') \<mapsto> (2, 999999)]\<rparr>)"
    by (simp add: allocateNumber_def AllocateOperationalSequence_def demo_number posted_defs)
  have s: "j_Status demo_journal = ''POSTED''" "j_ID demo_journal = 1" "OrganizationID demo_principal = 7"
    by (simp_all add: posted_defs demo_defs)
  show ?thesis
    by (simp add: Reverse_def rune_count_def l p n s demo_list)
      (simp add: CreateJournalTransaction_def journal_constraints_def period_open_def source_types_def reason_sources_def
        btrim_def rune_count_def reversal_row_def live_source_def CreateJournalEntry_def entry_constraints_def
        mirror_entry_def MarkJournalReversed_def wrap32_def demo_defs posted_defs Let_def)
qed

theorem Post_once_witness:
  "\<exists>r. Post demo_principal 20260808 demo_posting demo_posted = Inr (r, demo_posted)"
proof -
  have j: "journals_ok demo_posted" using demo_posted_inv by (simp add: ledger_inv_def)
  have "demo_journal \<in> set (journals demo_posted)" "SourceID demo_posting = Some 40"
    "live_source (OrganizationID demo_principal) (SourceType demo_posting) 40 (Purpose demo_posting) demo_journal"
    by (simp_all add: live_source_def demo_defs posted_defs)
  from Post_once [OF j this] show ?thesis using demo_validate by blast
qed

theorem Reverse_undoes_witness:
  "\<exists>r db'. Reverse demo_principal 20260810 1 ''wrong amount'' None demo_posted = Inr (r, db')
     \<and> movement (entries db') 1 = 0 \<and> movement (entries db') 2 = 0
     \<and> Reverse demo_principal 20260811 1 ''again'' None db' = Inl (Conflict ''LEDGER_ALREADY_REVERSED'')"
proof -
  obtain r db' where r: "Reverse demo_principal 20260810 1 ''wrong amount'' None demo_posted = Inr (r, db')"
    using demo_reverse by blast
  have j: "journals_ok demo_posted" using demo_posted_inv by (simp add: ledger_inv_def)
  have m: "movement (entries demo_posted) aid = movement (txn_entries demo_posted 1) aid" for aid
    by (simp add: demo_defs posted_defs)
  have "3 \<le> rune_count ''again''" by (simp add: rune_count_def)
  with Reverse_undoes [OF r j, of "''again''" 20260811 None] m show ?thesis using r by auto
qed

theorem Reverse_closed_period_witness:
  "\<not> (\<exists>r db'. Reverse demo_principal 20260905 1 ''wrong amount'' None
     (demo_posted\<lparr>periods := [demo_period 5 ''2026-08'' 20260801 20260831 ''CLOSED'',
        demo_period 6 ''2026-09'' 20260901 20260930 ''OPEN'']\<rparr>) = Inr (r, db'))"
    (is "\<not> (\<exists>r db'. Reverse _ _ _ _ _ ?db = _)")
proof -
  have "journals_ok ?db" using demo_posted_inv by (simp add: ledger_inv_def journals_ok_def)
  moreover have "demo_journal \<in> set (journals ?db)" "j_OrganizationID demo_journal = OrganizationID demo_principal"
    "\<not> period_open ?db (j_PeriodID demo_journal)" "j_ID demo_journal = 1"
    by (simp_all add: period_open_def demo_defs posted_defs)
  ultimately show ?thesis
    using Reverse_closed_period [of ?db demo_journal demo_principal 20260905 "''wrong amount''" None] by metis
qed

theorem TrialBalance_balanced_witness:
  "\<exists>rep. TrialBalance demo_posted demo_principal None False = Inr rep \<and> tb_Balanced rep"
proof -
  have "\<exists>rep. TrialBalance demo_posted demo_principal None False = Inr rep"
    by (simp add: TrialBalance_def GetTrialBalance_def trial_shown_def trial_row_def account_entries_def counted_def
        width_defs demo_defs posted_defs Let_def)
  then show ?thesis using TrialBalance_balanced [OF demo_posted_inv] by blast
qed

subsection \<open>Legs of the services\<close>

text \<open>The composite literals of the services: a leg with the fields they do not set at zero.\<close>

definition leg :: "string \<Rightarrow> int \<Rightarrow> int \<Rightarrow> string \<Rightarrow> int \<Rightarrow> string \<Rightarrow> Leg" where
  "leg account debit credit partyType partyID memo =
     \<lparr>AccountCode = account, Debit = debit, Credit = credit, PartyType = partyType, PartyID = partyID, LegFranchiseID = None,
      LegOperatingUnitID = None, LegCustomerID = None, LegShipmentID = None, Memo = memo\<rparr>"

text \<open>What a posting unfolds to on concrete books.\<close>

lemmas post_eval = Post_def validate_def Supported_def supported_def INR_def reason_sources_def FindJournalBySource_def live_source_def
  post_write_def periodFor_def GetPeriodForDate_def totalOf_def allocateNumber_def AllocateOperationalSequence_def CreateJournalTransaction_def
  journal_constraints_def period_open_def source_types_def post_row_def resolveAccount_def GetAccountByCode_def FindPartyAccount_def
  CreateLedgerAccount_def account_constraints_def shortParty_def titleParty_def CreateJournalEntry_def entry_constraints_def leg_entry_def
  Let_def add64_def width_defs leg_def acct_defs Optional_def

end
