(* ===== verification/Shipment_Transition.thy ===== *)
theory Shipment_Transition
  imports Shipment_State Principal
begin

text \<open>
  \<^verbatim>\<open>internal/shipment/transition.go\<close>: the one engine every operational module changes a
  shipment's status through. The database is a record of the shipments, the append-only
  events, the audit records and the user and unit ids that foreign keys refer to; \<open>'w\<close> is the
  state of the outbox tables (notifications, webhook deliveries) that the registered observers
  write, and the observers are a parameter. Instants are in nanoseconds. Coordinates, request
  ids, random public ids and free-form metadata are left out; nothing reads them back.
\<close>

subsection \<open>Rows and requests\<close>

record Shipment =
  s_ID :: int
  s_OrganizationID :: int
  s_CurrentStatus :: Status
  s_EventSequence :: int
  s_OriginBranchID :: "int option"
  s_DestinationBranchID :: "int option"
  s_CustodyUnitID :: "int option"
  s_CustodyUserID :: "int option"
  s_BagID :: "int option"
  s_TripID :: "int option"
  s_MovementDirection :: Direction
  s_DeliveryAttemptCount :: int
  s_PickupAttemptCount :: int
  s_StatusChangedAt :: int
  s_PickedUpAt :: "int option"
  s_FirstOfdAt :: "int option"
  s_DeliveredAt :: "int option"
  s_IsHeld :: bool
  s_CancelledAt :: "int option"

record ShipmentEvent =
  ev_OrganizationID :: int
  ev_ShipmentID :: int
  ev_Sequence :: int
  ev_EventType :: string
  ev_FromStatus :: "Status option"
  ev_ToStatus :: Status
  ev_OccurredAt :: int
  ev_ClientOccurredAt :: "int option"
  ev_ActorUserID :: "int option"
  ev_ActorType :: string
  ev_OperatingUnitID :: "int option"
  ev_Description :: string
  ev_InternalRemarks :: "string option"
  ev_ReasonCode :: "string option"
  ev_IdempotencyKey :: "string option"
  ev_Source :: string
  ev_DeviceID :: "string option"
  ev_DeviceModel :: "string option"

record AuditRow =
  au_Action :: string
  au_ResourceID :: int
  au_Reason :: string
  au_Before :: Status
  au_After :: Status
  au_BypassedRule :: "CustodyRule option"

record 'w ShipmentDB =
  shipments :: "Shipment list"
  events :: "ShipmentEvent list"
  audits :: "AuditRow list"
  user_ids :: "int list"
  unit_ids :: "int list"
  outbox :: 'w

record Actor =
  ActorPrincipal :: "Principal option"
  FacilityID :: "int option"
  ActorSource :: string
  ActorDeviceID :: string
  ActorDeviceModel :: string

record Request =
  rq_Shipment :: Shipment
  rq_To :: Status
  rq_Reason :: string
  rq_ReasonCode :: string
  rq_Description :: string
  rq_InternalRemarks :: string
  rq_OccurredAt :: "int option"
  rq_SetCustodyUnit :: bool
  rq_CustodyUnitID :: "int option"
  rq_SetCustodyUser :: bool
  rq_CustodyUserID :: "int option"
  rq_SetBag :: bool
  rq_BagID :: "int option"
  rq_SetTrip :: bool
  rq_TripID :: "int option"
  rq_Direction :: "Direction option"
  rq_IncrementDeliveryAttempt :: bool
  rq_IncrementPickupAttempt :: bool
  rq_IdempotencyKey :: string
  rq_AuditAction :: string
  rq_AllowHeld :: bool
  rq_SkipCustodyCheck :: bool
  rq_SystemInitiated :: bool

record TransitionResult =
  tr_Shipment :: Shipment
  tr_Event :: ShipmentEvent
  tr_From :: Status
  tr_To :: Status

subsection \<open>Custody\<close>

definition custodyError :: apierr where
  "custodyError = Conflict ''CUSTODY_VIOLATION''"

definition missingFacility :: apierr where
  "missingFacility = Validation ''This action requires the operating unit you are working at.''"

definition requireUnit :: "int option \<Rightarrow> int option \<Rightarrow> unit result" where
  "requireUnit actual expected =
     (case expected of
        None \<Rightarrow> Inl custodyError
      | Some e \<Rightarrow> (case actual of None \<Rightarrow> Inl missingFacility | Some a \<Rightarrow> ensure (a = e) custodyError (Inr ())))"

text \<open>
  The \<^verbatim>\<open>switch\<close> on the custody rule. The agent rule dereferences the principal, which panics on
  nil.
\<close>

definition checkCustody :: "Transition \<Rightarrow> Actor \<Rightarrow> Shipment \<Rightarrow> unit result" where
  "checkCustody def actor s =
     (case Custody def of
        CustodyNone \<Rightarrow> Inr ()
      | CustodyHolder \<Rightarrow>
          (case s_CustodyUnitID s of
             None \<Rightarrow> Inl custodyError
           | Some h \<Rightarrow> (case FacilityID actor of
                          None \<Rightarrow> Inl missingFacility
                        | Some f \<Rightarrow> ensure (f = h) custodyError (Inr ())))
      | CustodyOriginBranch \<Rightarrow> requireUnit (FacilityID actor) (s_OriginBranchID s)
      | CustodyDestinationBranch \<Rightarrow>
          bindE (requireUnit (FacilityID actor) (s_DestinationBranchID s))
            (\<lambda>_. ensure (s_CustodyUnitID s \<noteq> None \<and> s_CustodyUnitID s = s_DestinationBranchID s) custodyError (Inr ()))
      | CustodyAgent \<Rightarrow>
          (case s_CustodyUserID s of
             None \<Rightarrow> Inl custodyError
           | Some u \<Rightarrow> (case ActorPrincipal actor of
                          None \<Rightarrow> Inl (Panic ''nil pointer dereference'')
                        | Some p \<Rightarrow> ensure (UserID p = u)
                            (Forbidden ''This shipment is out with another agent. Only that agent can complete it.'') (Inr ())))
      | CustodyAnyFacility \<Rightarrow> (case FacilityID actor of None \<Rightarrow> Inl missingFacility | Some f \<Rightarrow> Inr ()))"

subsection \<open>Helpers\<close>

definition maxClockSkew :: int where "maxClockSkew = 300000000000"
definition maxBackdate :: int where "maxBackdate = 604800000000000"

definition resolveOccurredAt :: "int \<Rightarrow> int option \<Rightarrow> int \<times> int option" where
  "resolveOccurredAt now claim =
     (case claim of
        None \<Rightarrow> (now, None)
      | Some c \<Rightarrow> if c > now + maxClockSkew then (now, Some c)
                  else if c < now - maxBackdate then (now, Some c)
                  else (c, Some c))"

definition actorUserID :: "Principal option \<Rightarrow> int option" where
  "actorUserID p = map_option UserID p"

definition actorTypeFor :: "Principal option \<Rightarrow> bool \<Rightarrow> string" where
  "actorTypeFor p systemInitiated =
     (if systemInitiated then ''SYSTEM''
      else case p of
             None \<Rightarrow> ''SYSTEM''
           | Some q \<Rightarrow> if IsPartner q then ''PARTNER'' else if IsPortalUser q then ''CUSTOMER'' else ''USER'')"

definition actorType :: "Principal option \<Rightarrow> string" where
  "actorType p = actorTypeFor p False"

definition sourceOrDefault :: "string \<Rightarrow> string" where
  "sourceOrDefault s = (if s = '''' then ''API'' else s)"

definition optional :: "string \<Rightarrow> string option" where
  "optional s = (if s = '''' then None else Some s)"

definition boolToInt :: "bool \<Rightarrow> int" where
  "boolToInt b = (if b then 1 else 0)"

subsection \<open>The two statements\<close>

text \<open>
  \<^verbatim>\<open>ApplyOperationalTransition\<close>: the row as it is updated, and the compare-and-swap. The inner
  error is a violated CHECK or an integer overflow; no matching row is \<^const>\<open>None\<close>.
\<close>

definition transitioned :: "int \<Rightarrow> Request \<Rightarrow> Shipment \<Rightarrow> Shipment" where
  "transitioned now req s = s
     \<lparr>s_CurrentStatus := rq_To req,
      s_StatusChangedAt := now,
      s_EventSequence := s_EventSequence s + 1,
      s_CustodyUnitID := (if rq_SetCustodyUnit req then rq_CustodyUnitID req else s_CustodyUnitID s),
      s_CustodyUserID := (if rq_SetCustodyUser req then rq_CustodyUserID req else s_CustodyUserID s),
      s_BagID := (if rq_SetBag req then rq_BagID req else s_BagID s),
      s_TripID := (if rq_SetTrip req then rq_TripID req else s_TripID s),
      s_MovementDirection := (case rq_Direction req of Some d \<Rightarrow> d | None \<Rightarrow> s_MovementDirection s),
      s_PickedUpAt := (if rq_To req = StatusPickedUp then (case s_PickedUpAt s of Some x \<Rightarrow> Some x | None \<Rightarrow> Some now) else s_PickedUpAt s),
      s_FirstOfdAt := (if rq_To req = StatusOutForDelivery then (case s_FirstOfdAt s of Some x \<Rightarrow> Some x | None \<Rightarrow> Some now) else s_FirstOfdAt s),
      s_DeliveredAt := (if rq_To req \<in> {StatusDelivered, StatusRTODelivered} then Some now else s_DeliveredAt s),
      s_DeliveryAttemptCount := s_DeliveryAttemptCount s + boolToInt (rq_IncrementDeliveryAttempt req),
      s_PickupAttemptCount := s_PickupAttemptCount s + boolToInt (rq_IncrementPickupAttempt req)\<rparr>"

definition row_ok :: "Shipment \<Rightarrow> bool" where
  "row_ok s \<longleftrightarrow> in32 (s_EventSequence s) \<and> in32 (s_DeliveryAttemptCount s) \<and> in32 (s_PickupAttemptCount s)
     \<and> (s_CurrentStatus s = StatusCancelled \<longrightarrow> s_CancelledAt s \<noteq> None)"

definition ApplyOperationalTransition :: "int \<Rightarrow> Request \<Rightarrow> Status \<Rightarrow> 'w ShipmentDB \<Rightarrow>
    (Shipment \<times> 'w ShipmentDB) option result" where
  "ApplyOperationalTransition now req expected db =
     (let hit = (\<lambda>s. s_ID s = s_ID (rq_Shipment req) \<and> s_OrganizationID s = s_OrganizationID (rq_Shipment req)
                     \<and> s_CurrentStatus s = expected)
      in case find hit (shipments db) of
           None \<Rightarrow> Inr None
         | Some s \<Rightarrow> ensure (row_ok (transitioned now req s)) Internal
             (Inr (Some (transitioned now req s,
                db\<lparr>shipments := map (\<lambda>u. if hit u then transitioned now req u else u) (shipments db)\<rparr>))))"

definition ReserveShipmentEventSequence :: "int \<Rightarrow> int \<Rightarrow> 'w ShipmentDB \<Rightarrow> (Shipment \<times> 'w ShipmentDB) result" where
  "ReserveShipmentEventSequence sid org db =
     (let hit = (\<lambda>s. s_ID s = sid \<and> s_OrganizationID s = org); bump = (\<lambda>s. s\<lparr>s_EventSequence := s_EventSequence s + 1\<rparr>)
      in case find hit (shipments db) of
           None \<Rightarrow> Inl Internal
         | Some s \<Rightarrow> ensure (in32 (s_EventSequence s + 1)) Internal
             (Inr (bump s, db\<lparr>shipments := map (\<lambda>u. if hit u then bump u else u) (shipments db)\<rparr>)))"

definition event_types :: "string list" where
  "event_types = [''BOOKED'', ''STATUS_CHANGED'', ''CANCELLED'', ''EXCEPTION'', ''REMARK'', ''LOCATION_UPDATE'', ''SYSTEM'',
     ''SCAN'', ''PICKUP'', ''BAG'', ''MANIFEST'', ''TRIP'', ''DELIVERY'', ''NDR'', ''RTO'', ''POD'', ''HOLD'', ''RELEASE'']"

definition event_sources :: "string list" where
  "event_sources = [''WEB'', ''MOBILE'', ''SCANNER'', ''API'', ''SYSTEM'', ''PARTNER'', ''PUBLIC'']"

text \<open>
  The insert of an event: CHECK constraints first, then the unique indexes in the order they
  were created, then the foreign keys.
\<close>

definition AppendShipmentEventFull :: "ShipmentEvent \<Rightarrow> 'w ShipmentDB \<Rightarrow> 'w ShipmentDB result" where
  "AppendShipmentEventFull e db =
     ensure (ev_EventType e \<in> set event_types \<and> ev_Source e \<in> set event_sources \<and> 1 \<le> ev_Sequence e) Internal
     (ensure (\<not> list_ex (\<lambda>f. ev_ShipmentID f = ev_ShipmentID e \<and> ev_Sequence f = ev_Sequence e) (events db)) Internal
     (ensure (ev_IdempotencyKey e = None \<or>
        \<not> list_ex (\<lambda>f. ev_ShipmentID f = ev_ShipmentID e \<and> ev_IdempotencyKey f = ev_IdempotencyKey e) (events db))
        (Conflict ''DUPLICATE_RESOURCE'')
     (ensure ((case ev_ActorUserID e of None \<Rightarrow> True | Some u \<Rightarrow> u \<in> set (user_ids db))
        \<and> (case ev_OperatingUnitID e of None \<Rightarrow> True | Some u \<Rightarrow> u \<in> set (unit_ids db))) Internal
     (Inr (db\<lparr>events := events db @ [e]\<rparr>)))))"

subsection \<open>Apply and RecordEvent\<close>

type_synonym 'w Observer = "Principal option \<Rightarrow> TransitionResult \<Rightarrow> 'w \<Rightarrow> 'w result"

definition runObservers :: "'w Observer list \<Rightarrow> Principal option \<Rightarrow> TransitionResult \<Rightarrow> 'w \<Rightarrow> 'w result" where
  "runObservers os p res w = foldE (\<lambda>ob w. ob p res w) os w"

text \<open>Steps 1 to 5 of \<^verbatim>\<open>Apply\<close>, in their order: nothing is written before they pass.\<close>

definition apply_checks :: "Actor \<Rightarrow> Request \<Rightarrow> Transition result" where
  "apply_checks actor req =
     (let p = ActorPrincipal actor; s = rq_Shipment req;
          direction = (case rq_Direction req of None \<Rightarrow> Some (s_MovementDirection s) | Some d \<Rightarrow> Some d)
      in bindE (ValidateDirection (s_CurrentStatus s) (rq_To req) direction)
        (\<lambda>def. bindE (if rq_SystemInitiated req then Inr () else Require p (Permission def))
          (\<lambda>_. ensure (\<not> (RequiresReason def \<and> rq_Reason req = '''')) (Validation ''This transition requires a reason.'')
            (ensure (\<not> (s_IsHeld s \<and> BlockedByHold def \<and> \<not> rq_AllowHeld req)) (Conflict ''SHIPMENT_ON_HOLD'')
              (bindE (if rq_SkipCustodyCheck req
                      then bindE (Require p ''shipment.override_custody'')
                             (\<lambda>_. ensure (rq_Reason req \<noteq> '''') (Validation ''A custody override requires a reason.'') (Inr ()))
                      else if rq_SystemInitiated req then Inr ()
                      else checkCustody def actor s)
                (\<lambda>_. Inr def))))))"

definition transition_event :: "int \<Rightarrow> Actor \<Rightarrow> Request \<Rightarrow> Transition \<Rightarrow> Shipment \<Rightarrow> ShipmentEvent" where
  "transition_event now actor req def updated =
     \<lparr>ev_OrganizationID = s_OrganizationID (rq_Shipment req), ev_ShipmentID = s_ID updated, ev_Sequence = s_EventSequence updated,
      ev_EventType = EventType def, ev_FromStatus = Some (s_CurrentStatus (rq_Shipment req)), ev_ToStatus = rq_To req,
      ev_OccurredAt = fst (resolveOccurredAt now (rq_OccurredAt req)),
      ev_ClientOccurredAt = snd (resolveOccurredAt now (rq_OccurredAt req)),
      ev_ActorUserID = actorUserID (ActorPrincipal actor),
      ev_ActorType = actorTypeFor (ActorPrincipal actor) (rq_SystemInitiated req),
      ev_OperatingUnitID = FacilityID actor,
      ev_Description = (if rq_Description req = '''' then Description def else rq_Description req),
      ev_InternalRemarks = optional (rq_InternalRemarks req), ev_ReasonCode = optional (rq_ReasonCode req),
      ev_IdempotencyKey = optional (rq_IdempotencyKey req), ev_Source = sourceOrDefault (ActorSource actor),
      ev_DeviceID = optional (ActorDeviceID actor), ev_DeviceModel = optional (ActorDeviceModel actor)\<rparr>"

definition Apply :: "'w Observer list \<Rightarrow> int \<Rightarrow> Actor \<Rightarrow> Request \<Rightarrow> 'w ShipmentDB \<Rightarrow>
    (TransitionResult \<times> 'w ShipmentDB) result" where
  "Apply observers now actor req db =
     (let from = s_CurrentStatus (rq_Shipment req)
      in bindE (apply_checks actor req)
        (\<lambda>def. bindE (ApplyOperationalTransition now req from db)
          (\<lambda>swapped. bindE (opt_or swapped (Conflict ''CONCURRENT_MODIFICATION''))
            (\<lambda>(updated, db1). let event = transition_event now actor req def updated in
               bindE (AppendShipmentEventFull event db1)
                 (\<lambda>db2. let db3 = (if rq_AuditAction req \<noteq> '''' then
                               db2\<lparr>audits := audits db2 @
                                 [\<lparr>au_Action = rq_AuditAction req, au_ResourceID = s_ID updated, au_Reason = rq_Reason req,
                                   au_Before = from, au_After = rq_To req,
                                   au_BypassedRule = (if rq_SkipCustodyCheck req then Some (Custody def) else None)\<rparr>]\<rparr>
                             else db2);
                           res = \<lparr>tr_Shipment = updated, tr_Event = event, tr_From = from, tr_To = rq_To req\<rparr>
                       in bindE (runObservers observers (ActorPrincipal actor) res (outbox db3))
                            (\<lambda>w. Inr (res, db3\<lparr>outbox := w\<rparr>)))))))"

definition RecordEvent :: "int \<Rightarrow> Actor \<Rightarrow> Shipment \<Rightarrow> string \<Rightarrow> string \<Rightarrow> Request \<Rightarrow> 'w ShipmentDB \<Rightarrow>
    (ShipmentEvent \<times> 'w ShipmentDB) result" where
  "RecordEvent now actor s eventType description req db =
     bindE (ReserveShipmentEventSequence (s_ID s) (s_OrganizationID s) db)
       (\<lambda>(seq, db1). let e =
            \<lparr>ev_OrganizationID = s_OrganizationID s, ev_ShipmentID = s_ID s, ev_Sequence = s_EventSequence seq,
             ev_EventType = eventType, ev_FromStatus = Some (s_CurrentStatus seq), ev_ToStatus = s_CurrentStatus seq,
             ev_OccurredAt = fst (resolveOccurredAt now (rq_OccurredAt req)),
             ev_ClientOccurredAt = snd (resolveOccurredAt now (rq_OccurredAt req)),
             ev_ActorUserID = actorUserID (ActorPrincipal actor), ev_ActorType = actorType (ActorPrincipal actor),
             ev_OperatingUnitID = FacilityID actor, ev_Description = description,
             ev_InternalRemarks = optional (rq_InternalRemarks req), ev_ReasonCode = optional (rq_ReasonCode req),
             ev_IdempotencyKey = optional (rq_IdempotencyKey req), ev_Source = sourceOrDefault (ActorSource actor),
             ev_DeviceID = optional (ActorDeviceID actor), ev_DeviceModel = optional (ActorDeviceModel actor)\<rparr>
          in bindE (AppendShipmentEventFull e db1) (\<lambda>db2. Inr (e, db2)))"

section \<open>What the engine guarantees\<close>

subsection \<open>Authorisation\<close>

text \<open>The custody rules as they are meant, one line each.\<close>

definition custody_holds :: "Transition \<Rightarrow> Actor \<Rightarrow> Shipment \<Rightarrow> bool" where
  "custody_holds def actor s \<longleftrightarrow>
     (case Custody def of
        CustodyNone \<Rightarrow> True
      | CustodyHolder \<Rightarrow> FacilityID actor \<noteq> None \<and> FacilityID actor = s_CustodyUnitID s
      | CustodyOriginBranch \<Rightarrow> FacilityID actor \<noteq> None \<and> FacilityID actor = s_OriginBranchID s
      | CustodyDestinationBranch \<Rightarrow> FacilityID actor \<noteq> None \<and> FacilityID actor = s_DestinationBranchID s
          \<and> s_CustodyUnitID s = s_DestinationBranchID s
      | CustodyAgent \<Rightarrow> (\<exists>p. ActorPrincipal actor = Some p \<and> s_CustodyUserID s = Some (UserID p))
      | CustodyAnyFacility \<Rightarrow> FacilityID actor \<noteq> None)"

lemma checkCustody_Inr: "checkCustody def actor s = Inr u \<longleftrightarrow> custody_holds def actor s"
  by (cases "Custody def"; cases "FacilityID actor"; cases "s_CustodyUnitID s"; cases "s_OriginBranchID s";
      cases "s_DestinationBranchID s"; cases "s_CustodyUserID s"; cases "ActorPrincipal actor")
    (auto simp: checkCustody_def custody_holds_def requireUnit_def res_simps)

lemma apply_checks_Inr:
  "apply_checks actor req = Inr def \<longleftrightarrow>
     def \<in> set transitions \<and> From def = s_CurrentStatus (rq_Shipment req) \<and> To def = rq_To req
     \<and> (TDirection def = None \<or> TDirection def = Some (case rq_Direction req of None \<Rightarrow> s_MovementDirection (rq_Shipment req) | Some d \<Rightarrow> d))
     \<and> (rq_SystemInitiated req \<or> Can (ActorPrincipal actor) (Permission def))
     \<and> (RequiresReason def \<longrightarrow> rq_Reason req \<noteq> '''')
     \<and> (s_IsHeld (rq_Shipment req) \<longrightarrow> BlockedByHold def \<longrightarrow> rq_AllowHeld req)
     \<and> (if rq_SkipCustodyCheck req then Can (ActorPrincipal actor) ''shipment.override_custody'' \<and> rq_Reason req \<noteq> ''''
        else rq_SystemInitiated req \<or> custody_holds def actor (rq_Shipment req))"
  by (cases "rq_Direction req")
    (auto simp: apply_checks_def Let_def res_simps ValidateDirection_iff checkCustody_Inr)

lemma Apply_Inr:
  assumes "Apply observers now actor req db = Inr (res, db')"
  obtains def updated db1 w where
    "apply_checks actor req = Inr def"
    "ApplyOperationalTransition now req (s_CurrentStatus (rq_Shipment req)) db = Inr (Some (updated, db1))"
    "AppendShipmentEventFull (tr_Event res) db1 = Inr (db1\<lparr>events := events db1 @ [tr_Event res]\<rparr>)"
    "res = \<lparr>tr_Shipment = updated, tr_Event = transition_event now actor req def updated,
       tr_From = s_CurrentStatus (rq_Shipment req), tr_To = rq_To req\<rparr>"
    "shipments db' = shipments db1" "events db' = events db @ [tr_Event res]"
    "\<exists>new. audits db' = audits db @ new" "user_ids db' = user_ids db" "unit_ids db' = unit_ids db"
proof -
  from assms obtain def updated db1 db2 where
    c: "apply_checks actor req = Inr def"
    and u: "ApplyOperationalTransition now req (s_CurrentStatus (rq_Shipment req)) db = Inr (Some (updated, db1))"
    and e: "AppendShipmentEventFull (transition_event now actor req def updated) db1 = Inr db2"
    and r: "res = \<lparr>tr_Shipment = updated, tr_Event = transition_event now actor req def updated,
       tr_From = s_CurrentStatus (rq_Shipment req), tr_To = rq_To req\<rparr>"
    and d: "shipments db' = shipments db2" "events db' = events db2" "\<exists>new. audits db' = audits db2 @ new"
      "user_ids db' = user_ids db2" "unit_ids db' = unit_ids db2"
    by (auto simp: Apply_def Let_def res_simps split: if_splits)
  have d2: "db2 = db1\<lparr>events := events db1 @ [transition_event now actor req def updated]\<rparr>"
    using e by (auto simp: AppendShipmentEventFull_def res_simps)
  have d1: "\<exists>ss. db1 = db\<lparr>shipments := ss\<rparr>"
    using u by (auto simp: ApplyOperationalTransition_def Let_def res_simps split: option.splits)
  show thesis by (rule that [OF c u]) (use e r d d2 d1 in auto)
qed


subsection \<open>History\<close>

text \<open>
  A history: the statuses an append-only event list leads through, each event starting where
  the previous one ended and either a legal change or a remark that leaves the status.
\<close>

fun chained :: "Status \<Rightarrow> ShipmentEvent list \<Rightarrow> Status \<Rightarrow> bool" where
  "chained s [] t \<longleftrightarrow> s = t"
| "chained s (e # es) t \<longleftrightarrow>
     ev_FromStatus e = Some s \<and> (moves s (ev_ToStatus e) \<or> ev_ToStatus e = s) \<and> chained (ev_ToStatus e) es t"

lemma chained_snoc:
  "chained s (es @ [e]) t \<longleftrightarrow>
     (\<exists>u. chained s es u \<and> ev_FromStatus e = Some u \<and> (moves u t \<or> t = u) \<and> ev_ToStatus e = t)"
  by (induction es arbitrary: s) auto

lemma chained_moves: "chained s es t \<Longrightarrow> moves\<^sup>*\<^sup>* s t"
  by (induction es arbitrary: s) (auto intro: converse_rtranclp_into_rtranclp)

abbreviation history :: "'w ShipmentDB \<Rightarrow> int \<Rightarrow> ShipmentEvent list" where
  "history db sid \<equiv> filter (\<lambda>e. ev_ShipmentID e = sid) (events db)"

definition shipment_ok :: "'w ShipmentDB \<Rightarrow> Shipment \<Rightarrow> bool" where
  "shipment_ok db s \<longleftrightarrow>
     (\<exists>e es. history db (s_ID s) = e # es \<and> chained (ev_ToStatus e) es (s_CurrentStatus s))
     \<and> map ev_Sequence (history db (s_ID s)) = map int [1 ..< Suc (length (history db (s_ID s)))]
     \<and> s_EventSequence s = int (length (history db (s_ID s)))"

definition history_ok :: "'w ShipmentDB \<Rightarrow> bool" where
  "history_ok db \<longleftrightarrow> distinct (map s_ID (shipments db)) \<and> (\<forall>s \<in> set (shipments db). shipment_ok db s)"

lemma one_row: "history_ok db \<Longrightarrow> u \<in> set (shipments db) \<Longrightarrow> s \<in> set (shipments db) \<Longrightarrow> s_ID u = s_ID s \<Longrightarrow> u = s"
  by (auto simp: history_ok_def distinct_map dest: inj_onD)

text \<open>One more event for one shipment, whose row moves along with it, keeps every history.\<close>

lemma history_ok_snoc:
  assumes ok: "history_ok db" and s: "s \<in> set (shipments db)"
    and ships: "shipments db' = map (\<lambda>u. if s_ID u = s_ID s then f u else u) (shipments db)"
    and f: "s_ID (f s) = s_ID s" "s_EventSequence (f s) = s_EventSequence s + 1"
    and ev: "events db' = events db @ [e]" "ev_ShipmentID e = s_ID s" "ev_Sequence e = s_EventSequence s + 1"
      "ev_FromStatus e = Some (s_CurrentStatus s)" "ev_ToStatus e = s_CurrentStatus (f s)"
    and mv: "moves (s_CurrentStatus s) (s_CurrentStatus (f s)) \<or> s_CurrentStatus (f s) = s_CurrentStatus s"
  shows "history_ok db'"
proof -
  have uniq: "u = s" if "u \<in> set (shipments db)" "s_ID u = s_ID s" for u
    using one_row [OF ok that(1) s that(2)] .
  have same: "shipment_ok db' u" if "u \<in> set (shipments db)" "s_ID u \<noteq> s_ID s" for u
  proof -
    have "history db' (s_ID u) = history db (s_ID u)" using that(2) ev(1,2) by simp
    then show ?thesis using ok that(1) by (simp add: history_ok_def shipment_ok_def)
  qed
  have hist: "history db' (s_ID s) = history db (s_ID s) @ [e]" using ev(1,2) by simp
  obtain e0 es where h: "history db (s_ID s) = e0 # es" "chained (ev_ToStatus e0) es (s_CurrentStatus s)"
    and seq: "map ev_Sequence (history db (s_ID s)) = map int [1 ..< Suc (length (history db (s_ID s)))]"
      "s_EventSequence s = int (length (history db (s_ID s)))"
    using ok s by (auto simp: history_ok_def shipment_ok_def)
  have "chained (ev_ToStatus e0) (es @ [e]) (s_CurrentStatus (f s))"
    using h(2) ev(4,5) mv by (auto simp: chained_snoc)
  then have "shipment_ok db' (f s)"
    unfolding shipment_ok_def f(1) hist using h(1) seq ev(3) f(2) by simp
  then have "shipment_ok db' u" if "u \<in> set (shipments db')" for u
    using that ships same uniq by (auto split: if_splits)
  moreover have "map s_ID (shipments db') = map s_ID (shipments db)"
    unfolding ships using f(1) uniq by (auto simp: map_map)
  ultimately show ?thesis using ok by (simp add: history_ok_def)
qed

lemma transitioned_fields:
  "s_ID (transitioned now req s) = s_ID s" "s_EventSequence (transitioned now req s) = s_EventSequence s + 1"
  "s_CurrentStatus (transitioned now req s) = rq_To req" "s_OrganizationID (transitioned now req s) = s_OrganizationID s"
  by (simp_all add: transitioned_def)

text \<open>The compare-and-swap finds the one row with the id, in the status the caller saw.\<close>

lemma swap_Inr:
  assumes "ApplyOperationalTransition now req from db = Inr (Some (updated, db1))" "history_ok db"
  obtains s where "s \<in> set (shipments db)" "s_ID s = s_ID (rq_Shipment req)" "s_CurrentStatus s = from"
    "updated = transitioned now req s"
    "db1 = db\<lparr>shipments := map (\<lambda>u. if s_ID u = s_ID s then transitioned now req u else u) (shipments db)\<rparr>"
proof -
  let ?hit = "\<lambda>s. s_ID s = s_ID (rq_Shipment req) \<and> s_OrganizationID s = s_OrganizationID (rq_Shipment req)
    \<and> s_CurrentStatus s = from"
  from assms(1) obtain s where s: "find ?hit (shipments db) = Some s" "updated = transitioned now req s"
    "db1 = db\<lparr>shipments := map (\<lambda>u. if ?hit u then transitioned now req u else u) (shipments db)\<rparr>"
    by (auto simp: ApplyOperationalTransition_def Let_def res_simps split: option.splits)
  from find_SomeD [OF s(1)] have in_db: "s \<in> set (shipments db)" and hit: "?hit s" by auto
  have "?hit u \<longleftrightarrow> s_ID u = s_ID s" if "u \<in> set (shipments db)" for u
    using one_row [OF assms(2) that in_db] hit by metis
  then have "map (\<lambda>u. if ?hit u then transitioned now req u else u) (shipments db)
      = map (\<lambda>u. if s_ID u = s_ID s then transitioned now req u else u) (shipments db)"
    by (intro map_cong) auto
  then show thesis using that [OF in_db] hit s(2,3) by simp
qed

lemma Apply_history:
  assumes "Apply observers now actor req db = Inr (res, db')" "history_ok db"
  shows "history_ok db'"
  using assms(1)
proof (rule Apply_Inr)
  fix def updated db1
  assume c: "apply_checks actor req = Inr def"
    and u: "ApplyOperationalTransition now req (s_CurrentStatus (rq_Shipment req)) db = Inr (Some (updated, db1))"
    and r: "res = \<lparr>tr_Shipment = updated, tr_Event = transition_event now actor req def updated,
       tr_From = s_CurrentStatus (rq_Shipment req), tr_To = rq_To req\<rparr>"
    and d: "shipments db' = shipments db1" "events db' = events db @ [tr_Event res]"
  from u assms(2) show ?thesis
  proof (rule swap_Inr)
    fix s assume s: "s \<in> set (shipments db)" "s_CurrentStatus s = s_CurrentStatus (rq_Shipment req)"
      "updated = transitioned now req s"
      "db1 = db\<lparr>shipments := map (\<lambda>u. if s_ID u = s_ID s then transitioned now req u else u) (shipments db)\<rparr>"
    have "moves (s_CurrentStatus s) (rq_To req)"
      using c s(2) unfolding apply_checks_Inr moves_row by auto
    then show ?thesis
      by (intro history_ok_snoc [OF assms(2) s(1), of db' "transitioned now req" "tr_Event res"])
        (use d s r in \<open>simp_all add: transitioned_fields transition_event_def\<close>)
  qed
qed

lemma RecordEvent_history:
  assumes "RecordEvent now actor s0 ty desc req db = Inr (e, db')" "history_ok db"
  shows "history_ok db'"
proof -
  let ?hit = "\<lambda>s. s_ID s = s_ID s0 \<and> s_OrganizationID s = s_OrganizationID s0"
  let ?bump = "\<lambda>s :: Shipment. s\<lparr>s_EventSequence := s_EventSequence s + 1\<rparr>"
  from assms(1) obtain s where s: "find ?hit (shipments db) = Some s"
    "shipments db' = map (\<lambda>u. if ?hit u then ?bump u else u) (shipments db)"
    "events db' = events db @ [e]" "ev_ShipmentID e = s_ID s0" "ev_Sequence e = s_EventSequence s + 1"
    "ev_FromStatus e = Some (s_CurrentStatus s)" "ev_ToStatus e = s_CurrentStatus s"
    by (auto simp: RecordEvent_def ReserveShipmentEventSequence_def AppendShipmentEventFull_def Let_def res_simps
        split: option.splits)
  from find_SomeD [OF s(1)] have in_db: "s \<in> set (shipments db)" and hit: "?hit s" by auto
  have "?hit u \<longleftrightarrow> s_ID u = s_ID s" if "u \<in> set (shipments db)" for u
    using one_row [OF assms(2) that in_db] hit by metis
  then have "map (\<lambda>u. if ?hit u then ?bump u else u) (shipments db)
      = map (\<lambda>u. if s_ID u = s_ID s then ?bump u else u) (shipments db)"
    by (intro map_cong) auto
  then show ?thesis
    by (intro history_ok_snoc [OF assms(2) in_db, of db' ?bump e]) (use s hit in simp_all)
qed

text \<open>
  \<^bold>\<open>A status change writes one row and one event.\<close> When the engine applies a change, the stored
  row was still in the status the caller saw; that row alone is rewritten, to the new status with
  its event counter one higher; exactly one event is appended, with that counter as its
  sequence number, from the old to the new status; nothing already recorded is edited.
\<close>

theorem Apply_effect:
  assumes "Apply observers now actor req db = Inr (res, db')" "history_ok db"
  shows "\<exists>s \<in> set (shipments db). s_ID s = s_ID (rq_Shipment req) \<and> s_CurrentStatus s = s_CurrentStatus (rq_Shipment req)
    \<and> tr_Shipment res = transitioned now req s
    \<and> shipments db' = map (\<lambda>u. if s_ID u = s_ID s then tr_Shipment res else u) (shipments db)
    \<and> events db' = events db @ [tr_Event res]
    \<and> ev_ShipmentID (tr_Event res) = s_ID s \<and> ev_Sequence (tr_Event res) = s_EventSequence s + 1
    \<and> s_EventSequence (tr_Shipment res) = s_EventSequence s + 1
    \<and> ev_FromStatus (tr_Event res) = Some (s_CurrentStatus s) \<and> ev_ToStatus (tr_Event res) = rq_To req
    \<and> s_CurrentStatus (tr_Shipment res) = rq_To req
    \<and> (\<exists>new. audits db' = audits db @ new)"
  using assms(1)
proof (rule Apply_Inr)
  fix def updated db1
  assume u: "ApplyOperationalTransition now req (s_CurrentStatus (rq_Shipment req)) db = Inr (Some (updated, db1))"
    and r: "res = \<lparr>tr_Shipment = updated, tr_Event = transition_event now actor req def updated,
       tr_From = s_CurrentStatus (rq_Shipment req), tr_To = rq_To req\<rparr>"
    and d: "shipments db' = shipments db1" "events db' = events db @ [tr_Event res]" "\<exists>new. audits db' = audits db @ new"
  from u assms(2) show ?thesis
  proof (rule swap_Inr)
    fix s assume s: "s \<in> set (shipments db)" "s_ID s = s_ID (rq_Shipment req)"
      "s_CurrentStatus s = s_CurrentStatus (rq_Shipment req)" "updated = transitioned now req s"
      "db1 = db\<lparr>shipments := map (\<lambda>u. if s_ID u = s_ID s then transitioned now req u else u) (shipments db)\<rparr>"
    have "map (\<lambda>u. if s_ID u = s_ID s then transitioned now req u else u) (shipments db)
        = map (\<lambda>u. if s_ID u = s_ID s then updated else u) (shipments db)"
      using one_row [OF assms(2) _ s(1)] s(4) by (intro map_cong) auto
    then show ?thesis
      by (intro bexI [OF _ s(1)]) (use d s r in \<open>auto simp: transitioned_fields transition_event_def\<close>)
  qed
qed

text \<open>
  \<^bold>\<open>Of two racing changes one wins.\<close> Once a change has been applied, a second request that was
  prepared from the same snapshot of the shipment, whatever it wants to do, is refused as a
  concurrent modification if it passes its own checks, and is refused in any case; the same holds
  for a retry that repeats the idempotency key.
\<close>

theorem Apply_race:
  assumes "Apply observers now actor req db = Inr (res, db')" "history_ok db"
    and "s_ID (rq_Shipment req2) = s_ID (rq_Shipment req)"
    and "s_CurrentStatus (rq_Shipment req2) = s_CurrentStatus (rq_Shipment req)"
  shows "Apply observers now2 actor2 req2 db' \<noteq> Inr (res2, db2)
    \<and> ((\<exists>def. apply_checks actor2 req2 = Inr def) \<longrightarrow>
         Apply observers now2 actor2 req2 db' = Inl (Conflict ''CONCURRENT_MODIFICATION''))"
  using assms(1)
proof (rule Apply_Inr)
  fix def updated db1
  assume c: "apply_checks actor req = Inr def"
    and u: "ApplyOperationalTransition now req (s_CurrentStatus (rq_Shipment req)) db = Inr (Some (updated, db1))"
    and d: "shipments db' = shipments db1"
  have ne: "rq_To req \<noteq> s_CurrentStatus (rq_Shipment req)"
    using c transitions_irreflexive unfolding apply_checks_Inr by metis
  from u assms(2) show ?thesis
  proof (rule swap_Inr)
    fix s assume s: "s \<in> set (shipments db)" "s_ID s = s_ID (rq_Shipment req)"
      "db1 = db\<lparr>shipments := map (\<lambda>u. if s_ID u = s_ID s then transitioned now req u else u) (shipments db)\<rparr>"
    have "\<not> (s_ID v = s_ID (rq_Shipment req2) \<and> s_CurrentStatus v = s_CurrentStatus (rq_Shipment req2))"
      if "v \<in> set (shipments db')" for v
      using that d s ne assms(3,4) by (auto simp: transitioned_fields split: if_splits)
    then have "ApplyOperationalTransition now2 req2 (s_CurrentStatus (rq_Shipment req2)) db' = Inr None"
      by (auto simp: ApplyOperationalTransition_def Let_def find_None_iff split: option.splits dest!: find_SomeD)
    then show ?thesis by (auto simp: Apply_def Let_def bindE_def split: sum.splits)
  qed
qed

subsection \<open>Every reachable history\<close>

text \<open>
  A run of the engine: any interleaving, over all shipments, of applied changes and recorded
  remarks, by any actors at any times.
\<close>

inductive engine_step :: "'w Observer list \<Rightarrow> 'w ShipmentDB \<Rightarrow> 'w ShipmentDB \<Rightarrow> bool" for observers where
  change: "Apply observers now actor req db = Inr (res, db') \<Longrightarrow> engine_step observers db db'"
| remark: "RecordEvent now actor s ty desc req db = Inr (e, db') \<Longrightarrow> engine_step observers db db'"

lemma engine_step_keeps:
  "engine_step observers db db' \<Longrightarrow> history_ok db \<Longrightarrow> history_ok db' \<and> (\<exists>new. events db' = events db @ new)"
proof (induction rule: engine_step.induct)
  case (change now actor req db res db')
  from change.hyps have "\<exists>new. events db' = events db @ new" by (rule Apply_Inr) blast
  then show ?case using Apply_history [OF change.hyps change.prems] by blast
next
  case (remark now actor s ty desc req db e db')
  then have "\<exists>new. events db' = events db @ new"
    by (auto simp: RecordEvent_def ReserveShipmentEventSequence_def AppendShipmentEventFull_def Let_def res_simps
        split: option.splits)
  then show ?case using RecordEvent_history [OF remark.hyps remark.prems] by blast
qed

lemma engine_run_keeps:
  "(engine_step observers)\<^sup>*\<^sup>* db db' \<Longrightarrow> history_ok db \<Longrightarrow> history_ok db' \<and> (\<exists>new. events db' = events db @ new)"
proof (induction rule: rtranclp_induct)
  case (step y z)
  then show ?case using engine_step_keeps [of observers y z] by force
qed simp

lemma chained_avoiding:
  "chained s es t \<Longrightarrow> \<forall>e \<in> set es. ev_ToStatus e \<noteq> x \<Longrightarrow> (\<lambda>a b. moves a b \<and> b \<noteq> x)\<^sup>*\<^sup>* s t"
  by (induction es arbitrary: s) (auto intro: converse_rtranclp_into_rtranclp)

text \<open>
  C21: \<^bold>\<open>The history replays to the present.\<close> From a consistent database every run of the engine
  keeps the event list append-only and consistent: each shipment's events are numbered from one
  without gap or repetition up to its counter, each starts in the status the one before it ended
  in, each is a legal change or a remark, and the last one ends in the shipment's current
  status, which is therefore reachable by legal changes from the first.
\<close>

theorem history_replays:
  assumes "(engine_step observers)\<^sup>*\<^sup>* db db'" "history_ok db"
  shows "(\<exists>new. events db' = events db @ new)
    \<and> (\<forall>s \<in> set (shipments db').
         map ev_Sequence (history db' (s_ID s)) = map int [1 ..< Suc (nat (s_EventSequence s))]
         \<and> (\<exists>e es. history db' (s_ID s) = e # es \<and> chained (ev_ToStatus e) es (s_CurrentStatus s)
              \<and> moves\<^sup>*\<^sup>* (ev_ToStatus e) (s_CurrentStatus s)))"
proof -
  from engine_run_keeps [OF assms] have ok: "history_ok db'" and app: "\<exists>new. events db' = events db @ new" by auto
  have "map ev_Sequence (history db' (s_ID s)) = map int [1 ..< Suc (nat (s_EventSequence s))]
         \<and> (\<exists>e es. history db' (s_ID s) = e # es \<and> chained (ev_ToStatus e) es (s_CurrentStatus s)
              \<and> moves\<^sup>*\<^sup>* (ev_ToStatus e) (s_CurrentStatus s))" if "s \<in> set (shipments db')" for s
  proof -
    have "shipment_ok db' s" using ok that by (simp add: history_ok_def)
    then obtain e es where h: "history db' (s_ID s) = e # es" "chained (ev_ToStatus e) es (s_CurrentStatus s)"
      and n: "map ev_Sequence (history db' (s_ID s)) = map int [1 ..< Suc (length (history db' (s_ID s)))]"
        "nat (s_EventSequence s) = length (history db' (s_ID s))"
      by (auto simp: shipment_ok_def)
    from n have "map ev_Sequence (history db' (s_ID s)) = map int [1 ..< Suc (nat (s_EventSequence s))]" by simp
    then show ?thesis using h chained_moves [OF h(2)] by blast
  qed
  with app show ?thesis by blast
qed

text \<open>
  C22: \<^bold>\<open>Delivered means handled.\<close> In every database a run of the engine can reach, a shipment that
  was booked through the normal opening event and is now delivered has the origin branch's
  receipt in its history, and one that is out for delivery, failed or NDR has the destination
  branch's receipt in it.
\<close>

theorem delivered_was_received:
  assumes "(engine_step observers)\<^sup>*\<^sup>* db db'" "history_ok db" "s \<in> set (shipments db')"
    and "ev_ToStatus (hd (history db' (s_ID s))) = StatusBooked"
  shows "(s_CurrentStatus s = StatusDelivered \<longrightarrow>
      (\<exists>e \<in> set (history db' (s_ID s)). ev_ToStatus e = StatusOriginBranchReceived))
    \<and> (s_CurrentStatus s \<in> {StatusOutForDelivery, StatusDeliveryFailed, StatusNDR} \<longrightarrow>
      (\<exists>e \<in> set (history db' (s_ID s)). ev_ToStatus e = StatusDestinationBranchReceived))"
proof -
  have "shipment_ok db' s" using engine_run_keeps [OF assms(1,2)] assms(3) by (simp add: history_ok_def)
  then obtain e es where h: "history db' (s_ID s) = e # es" "chained (ev_ToStatus e) es (s_CurrentStatus s)"
    by (auto simp: shipment_ok_def)
  then have c: "chained StatusBooked es (s_CurrentStatus s)" using assms(4) by simp
  have "\<exists>e \<in> set es. ev_ToStatus e = StatusOriginBranchReceived" if "s_CurrentStatus s = StatusDelivered"
    using origin_gate [OF chained_avoiding [OF c]] that by auto
  moreover have "\<exists>e \<in> set es. ev_ToStatus e = StatusDestinationBranchReceived"
    if "s_CurrentStatus s \<in> {StatusOutForDelivery, StatusDeliveryFailed, StatusNDR}"
    using destination_gate [OF chained_avoiding [OF c]] that by auto
  ultimately show ?thesis using h(1) by auto
qed

subsection \<open>A concrete run\<close>

definition demo_clerk :: Actor where
  "demo_clerk = \<lparr>ActorPrincipal = Some \<lparr>UserID = 11, UserPublicID = ''usr_1'', OrganizationID = 7, OrganizationCurrency = ''INR'',
     OrganizationAWBPrefix = ''QYN'', IsSuperAdmin = False, ImpersonatedOrg = False, Roles = [''CLERK''],
     permissions = [''scan.inbound''], ScopedUnitIDs = Some [3], HasUnscopedRole = False, CustomerIDs = None,
     IsPortalUser = False, IsPartner = False, PartnerKeyID = 0\<rparr>,
     FacilityID = Some 3, ActorSource = '''', ActorDeviceID = '''', ActorDeviceModel = ''''\<rparr>"

definition demo_shipment :: Shipment where
  "demo_shipment = \<lparr>s_ID = 1, s_OrganizationID = 7, s_CurrentStatus = StatusBooked, s_EventSequence = 1, s_OriginBranchID = Some 3,
     s_DestinationBranchID = Some 4, s_CustodyUnitID = None, s_CustodyUserID = None, s_BagID = None, s_TripID = None,
     s_MovementDirection = DirectionForward, s_DeliveryAttemptCount = 0, s_PickupAttemptCount = 0, s_StatusChangedAt = 0,
     s_PickedUpAt = None, s_FirstOfdAt = None, s_DeliveredAt = None, s_IsHeld = False, s_CancelledAt = None\<rparr>"

definition demo_booked :: ShipmentEvent where
  "demo_booked = \<lparr>ev_OrganizationID = 7, ev_ShipmentID = 1, ev_Sequence = 1, ev_EventType = ''BOOKED'', ev_FromStatus = None,
     ev_ToStatus = StatusBooked, ev_OccurredAt = 0, ev_ClientOccurredAt = None, ev_ActorUserID = Some 11, ev_ActorType = ''USER'',
     ev_OperatingUnitID = Some 3, ev_Description = ''Booked'', ev_InternalRemarks = None, ev_ReasonCode = None,
     ev_IdempotencyKey = None, ev_Source = ''API'', ev_DeviceID = None, ev_DeviceModel = None\<rparr>"

definition demo_ship_db :: "unit ShipmentDB" where
  "demo_ship_db = \<lparr>shipments = [demo_shipment], events = [demo_booked], audits = [], user_ids = [11], unit_ids = [3, 4], outbox = ()\<rparr>"

definition demo_request :: Request where
  "demo_request = \<lparr>rq_Shipment = demo_shipment, rq_To = StatusOriginBranchReceived, rq_Reason = '''', rq_ReasonCode = '''',
     rq_Description = '''', rq_InternalRemarks = '''', rq_OccurredAt = None, rq_SetCustodyUnit = True, rq_CustodyUnitID = Some 3,
     rq_SetCustodyUser = False, rq_CustodyUserID = None, rq_SetBag = False, rq_BagID = None, rq_SetTrip = False, rq_TripID = None,
     rq_Direction = None, rq_IncrementDeliveryAttempt = False, rq_IncrementPickupAttempt = False, rq_IdempotencyKey = ''k1'',
     rq_AuditAction = '''', rq_AllowHeld = False, rq_SkipCustodyCheck = False, rq_SystemInitiated = False\<rparr>"

lemmas ship_demo_defs = demo_clerk_def demo_shipment_def demo_booked_def demo_ship_db_def demo_request_def

lemma demo_history: "history_ok demo_ship_db"
  by (simp add: history_ok_def shipment_ok_def ship_demo_defs)

lemma demo_row:
  "mkT StatusBooked StatusOriginBranchReceived ''scan.inbound'' 2 False CustodyAnyFacility None ''SCAN''
     ''Received at origin facility'' False \<in> set transitions"
  unfolding transitions_def by (intro list.set_intros)

lemma demo_checks:
  "apply_checks demo_clerk demo_request =
     Inr (mkT StatusBooked StatusOriginBranchReceived ''scan.inbound'' 2 False CustodyAnyFacility None ''SCAN''
       ''Received at origin facility'' False)"
  unfolding apply_checks_Inr using demo_row
  by (simp add: ship_demo_defs Can_def custody_holds_def)

lemma demo_apply: "\<exists>res db'. Apply [] 100 demo_clerk demo_request demo_ship_db = Inr (res, db')"
  unfolding Apply_def Let_def demo_checks
  by (simp add: ApplyOperationalTransition_def AppendShipmentEventFull_def transition_event_def transitioned_def row_ok_def
      event_types_def event_sources_def sourceOrDefault_def optional_def actorUserID_def resolveOccurredAt_def
      runObservers_def boolToInt_def ship_demo_defs in32_def Let_def)


theorem Apply_effect_witness:
  "\<exists>res db'. Apply [] 100 demo_clerk demo_request demo_ship_db = Inr (res, db')
     \<and> events db' = [demo_booked, tr_Event res] \<and> ev_Sequence (tr_Event res) = 2"
proof -
  obtain res db' where a: "Apply [] 100 demo_clerk demo_request demo_ship_db = Inr (res, db')" using demo_apply by blast
  from Apply_effect [OF a demo_history] show ?thesis using a by (auto simp: demo_ship_db_def demo_shipment_def)
qed

theorem Apply_race_witness:
  "\<exists>res db'. Apply [] 100 demo_clerk demo_request demo_ship_db = Inr (res, db')
     \<and> Apply [] 101 demo_clerk (demo_request\<lparr>rq_IdempotencyKey := ''k2''\<rparr>) db' = Inl (Conflict ''CONCURRENT_MODIFICATION'')"
proof -
  obtain res db' where a: "Apply [] 100 demo_clerk demo_request demo_ship_db = Inr (res, db')" using demo_apply by blast
  let ?r = "demo_request\<lparr>rq_IdempotencyKey := ''k2''\<rparr>"
  have c: "apply_checks demo_clerk ?r = apply_checks demo_clerk demo_request"
    by (simp add: apply_checks_def demo_request_def)
  have "s_ID (rq_Shipment ?r) = s_ID (rq_Shipment demo_request)"
    "s_CurrentStatus (rq_Shipment ?r) = s_CurrentStatus (rq_Shipment demo_request)" by simp_all
  from Apply_race [OF a demo_history this, of 101 demo_clerk] show ?thesis using a c demo_checks by auto
qed

theorem history_replays_witness:
  "\<exists>db'. (engine_step [])\<^sup>*\<^sup>* demo_ship_db db' \<and> length (events db') = 2
     \<and> (\<forall>s \<in> set (shipments db'). map ev_Sequence (history db' (s_ID s)) = map int [1 ..< Suc (nat (s_EventSequence s))])"
proof -
  obtain res db' where a: "Apply [] 100 demo_clerk demo_request demo_ship_db = Inr (res, db')" using demo_apply by blast
  then have r: "(engine_step [])\<^sup>*\<^sup>* demo_ship_db db'" by (blast intro: engine_step.change)
  from a have "events db' = events demo_ship_db @ [tr_Event res]" by (rule Apply_Inr)
  then have "length (events db') = 2" by (simp add: demo_ship_db_def)
  then show ?thesis using r history_replays [OF r demo_history] by blast
qed

definition demo_moved :: "int \<Rightarrow> Status \<Rightarrow> Status \<Rightarrow> ShipmentEvent" where
  "demo_moved n a b = demo_booked\<lparr>ev_Sequence := n, ev_EventType := ''SCAN'', ev_FromStatus := Some a, ev_ToStatus := b\<rparr>"

definition demo_delivered :: "unit ShipmentDB" where
  "demo_delivered = demo_ship_db\<lparr>shipments := [demo_shipment\<lparr>s_CurrentStatus := StatusDelivered, s_EventSequence := 4\<rparr>],
     events := [demo_booked, demo_moved 2 StatusBooked StatusOriginBranchReceived,
       demo_moved 3 StatusOriginBranchReceived StatusDestinationBranchReceived,
       demo_moved 4 StatusDestinationBranchReceived StatusDelivered]\<rparr>"

theorem delivered_was_received_witness:
  "\<exists>s \<in> set (shipments demo_delivered). s_CurrentStatus s = StatusDelivered
     \<and> (\<exists>e \<in> set (history demo_delivered (s_ID s)). ev_ToStatus e = StatusOriginBranchReceived)"
proof -
  let ?s = "demo_shipment\<lparr>s_CurrentStatus := StatusDelivered, s_EventSequence := 4\<rparr>"
  have ok: "history_ok demo_delivered"
    by (simp add: history_ok_def shipment_ok_def demo_delivered_def demo_moved_def ship_demo_defs moves_successors successors_simps
        upt_rec numeral_eq_Suc)
  have s: "?s \<in> set (shipments demo_delivered)" "ev_ToStatus (hd (history demo_delivered (s_ID ?s))) = StatusBooked"
    by (simp_all add: demo_delivered_def ship_demo_defs)
  have "(engine_step [])\<^sup>*\<^sup>* demo_delivered demo_delivered" by simp
  from delivered_was_received [OF this ok s] have "\<exists>e \<in> set (history demo_delivered (s_ID ?s)). ev_ToStatus e = StatusOriginBranchReceived"
    by simp
  then show ?thesis using s(1) by (intro bexI [of _ ?s]) simp_all
qed

end
