(* ===== verification/Pricing.thy ===== *)
theory Pricing
  imports Money
begin

text \<open>
  \<^verbatim>\<open>internal/pricing/engine.go\<close> and \<^verbatim>\<open>insurance.go\<close>: the pricing engine. The rate tables are a
  record of row lists and each query is the selection its SQL makes, ordering and limit
  included. A quote is a function of the input and the tables. Text meant for people (labels,
  rates and explanations of a line item) and the offer's hash are left out; the text of a
  rule's JSON policy is represented by what decoding it gives, a row's public identifier by its
  number. The Unicode tables that the normalisation of a city name consults are an argument
  of the functions that need it.
\<close>

subsection \<open>Inputs, rows, results\<close>

record Package =
  ActualWeightGrams :: int
  LengthMM :: int
  WidthMM :: int
  HeightMM :: int

record CourierService =
  svc_ID :: int
  svc_VolumetricDivisor :: int
  svc_MinWeightGrams :: int
  svc_WeightRoundingGrams :: int
  svc_InsuranceAllowed :: bool

record InquiryDiscountInput =
  iq_DiscountType :: string
  iq_ValueMinor :: "int option"
  iq_PercentageBP :: "int option"

record QuoteInput =
  in_OrganizationID :: int
  in_CustomerID :: "int option"
  in_FranchiseID :: "int option"
  in_Service :: CourierService
  in_OriginZoneID :: int
  in_DestZoneID :: int
  in_OriginStateID :: int
  in_DestStateID :: int
  in_DestinationCity :: string
  in_Packages :: "Package list"
  in_PaymentMode :: string
  in_DeclaredValueMinor :: int
  in_CODAmountMinor :: int
  in_InsuranceRequired :: bool
  in_InquiryDiscount :: "InquiryDiscountInput option"
  in_OriginIsRemote :: bool
  in_DestIsRemote :: bool
  in_IsIntraState :: bool
  in_Currency :: string
  in_At :: "int option"

record conditions =
  c_RemoteOrigin :: "bool option"
  c_RemoteDestination :: "bool option"
  c_RemoteEither :: "bool option"
  c_PaymentModes :: "string list"
  c_MinWeightGrams :: "int option"
  c_MaxWeightGrams :: "int option"
  c_MinDeclaredValueMinor :: "int option"
  c_RequiresInsurance :: "bool option"
  c_IntraStateOnly :: "bool option"

text \<open>The stored policy text: empty (or \<^verbatim>\<open>{}\<close>), not decodable, or decoded.\<close>

datatype RawConditions = NoConditions | Malformed | Decoded conditions

record RateCardRow =
  rc_ID :: int
  rc_OrganizationID :: int
  rc_Status :: string
  rc_Scope :: string
  rc_CustomerID :: "int option"
  rc_FranchiseID :: "int option"
  rc_IsDefault :: bool
  rc_Currency :: string
  rc_VersionID :: int
  rc_VersionStatus :: string
  rc_EffectiveFrom :: int
  rc_EffectiveTo :: "int option"

record ZoneRate =
  zr_ID :: int
  zr_VersionID :: int
  zr_ServiceID :: int
  zr_OriginZoneID :: int
  zr_DestZoneID :: int
  zr_BaseWeightGrams :: int
  zr_BasePriceMinor :: int
  zr_AdditionalStepGrams :: int
  zr_AdditionalPriceMinor :: int
  zr_MinChargeableWeightGrams :: int

record WeightSlab =
  ws_ID :: int
  ws_VersionID :: int
  ws_ServiceID :: int
  ws_OriginZoneID :: int
  ws_DestZoneID :: int
  ws_FromWeightGrams :: int
  ws_ToWeightGrams :: "int option"
  ws_PriceMinor :: int
  ws_AdditionalStepGrams :: "int option"
  ws_AdditionalPriceMinor :: "int option"

record StateBaseRate =
  sb_ID :: int
  sb_OrganizationID :: int
  sb_StateID :: int
  sb_ServiceID :: "int option"
  sb_IsActive :: bool
  sb_BaseWeight :: int
  sb_BaseCost :: int
  sb_StepWeight :: int
  sb_StepCost :: int

record DomesticLocation =
  dl_ID :: int
  dl_VersionID :: int
  dl_DestStateID :: int
  dl_NormalizedCity :: string
  dl_RateZoneCode :: string
  dl_City :: string
  dl_CentreArea :: string
  dl_SurchargeCode :: string
  dl_SurchargeType :: string
  dl_SurchargeAmountMinor :: int

record DomesticStateZone =
  dz_VersionID :: int
  dz_OriginStateID :: int
  dz_DestStateID :: int
  dz_RateZoneCode :: string

record DomesticSlab =
  ds_ID :: int
  ds_VersionID :: int
  ds_ServiceID :: int
  ds_OriginStateID :: int
  ds_RateZoneCode :: string
  ds_FromWeightGrams :: int
  ds_ToWeightGrams :: "int option"
  ds_PriceMinor :: int
  ds_AdditionalStepGrams :: "int option"
  ds_AdditionalPriceMinor :: "int option"

record SurchargeRule =
  sr_ID :: int
  sr_VersionID :: int
  sr_ServiceID :: "int option"
  sr_Code :: string
  sr_SurchargeType :: string
  sr_CalcType :: string
  sr_ValueMinor :: "int option"
  sr_PercentageBp :: "int option"
  sr_AppliesTo :: string
  sr_MinAmountMinor :: "int option"
  sr_MaxAmountMinor :: "int option"
  sr_Conditions :: RawConditions
  sr_Priority :: int
  sr_IsTaxable :: bool

record DiscountRule =
  dr_ID :: int
  dr_VersionID :: int
  dr_ServiceID :: "int option"
  dr_Code :: string
  dr_DiscountType :: string
  dr_ValueMinor :: "int option"
  dr_PercentageBp :: "int option"
  dr_AppliesTo :: string
  dr_MinSubtotalMinor :: int
  dr_MaxDiscountMinor :: "int option"
  dr_Conditions :: RawConditions
  dr_Priority :: int
  dr_IsStackable :: bool

record TaxRule =
  tx_ID :: int
  tx_OrganizationID :: int
  tx_Code :: string
  tx_PercentageBp :: int
  tx_IntraStateOnly :: "bool option"
  tx_Status :: string
  tx_EffectiveFrom :: int
  tx_EffectiveTo :: "int option"
  tx_Priority :: int

record RateTables =
  rate_cards :: "RateCardRow list"
  zone_rates :: "ZoneRate list"
  weight_slabs :: "WeightSlab list"
  state_base_rates :: "StateBaseRate list"
  domestic_locations :: "DomesticLocation list"
  domestic_state_zones :: "DomesticStateZone list"
  domestic_slabs :: "DomesticSlab list"
  surcharge_rules :: "SurchargeRule list"
  discount_rules :: "DiscountRule list"
  tax_rules :: "TaxRule list"

record LineItem =
  li_Kind :: string
  li_Code :: string
  li_AmountMinor :: int
  li_BasisMinor :: int
  li_RuleID :: "int option"

record WeightBreakdown =
  wb_ActualGrams :: int
  wb_VolumetricGrams :: int
  wb_VolumetricDivisor :: int
  wb_RoundingGrams :: int
  wb_MinChargeableGrams :: int
  wb_ChargeableGrams :: int

record InsuranceRuleQuote =
  ir_RuleID :: int
  ir_Code :: string
  ir_CalcType :: string
  ir_AppliesTo :: string
  ir_RateBP :: "int option"
  ir_ValueMinor :: "int option"
  ir_MinAmountMinor :: "int option"
  ir_MaxAmountMinor :: "int option"
  ir_IsTaxable :: bool
  ir_BasisMinor :: int
  ir_PremiumMinor :: int

record InsuranceQuote =
  iq_PolicyVersion :: "int option"
  iq_RateBP :: "int option"
  iq_Rules :: "InsuranceRuleQuote list"
  iq_DeclaredValueMinor :: int
  iq_PremiumMinor :: int
  iq_Currency :: string

record InquiryDiscountQuote =
  id_DiscountType :: string
  id_ValueMinor :: "int option"
  id_PercentageBP :: "int option"
  id_BasisMinor :: int
  id_AmountMinor :: int
  id_OriginalTotalMinor :: int
  id_TaxReductionMinor :: int
  id_AdjustedTotalMinor :: int

record domesticRateArea =
  da_RowID :: "int option"
  da_RateZoneCode :: string
  da_City :: string
  da_CentreArea :: string
  da_SurchargeCode :: string
  da_SurchargeType :: string
  da_SurchargeAmountMinor :: int

record DomesticTariffSelection =
  dt_RateZoneCode :: string
  dt_City :: string
  dt_CentreArea :: string
  dt_SurchargeType :: string
  dt_SurchargeAmountMinor :: int

record Quote =
  q_Currency :: string
  q_RateCardID :: int
  q_RateCardVersionID :: int
  q_Weight :: WeightBreakdown
  q_FreightMinor :: int
  q_SurchargeTotalMinor :: int
  q_DiscountTotalMinor :: int
  q_TaxableMinor :: int
  q_TaxTotalMinor :: int
  q_RoundingMinor :: int
  q_TotalMinor :: int
  q_LineItems :: "LineItem list"
  q_Insurance :: "InsuranceQuote option"
  q_DomesticTariff :: "DomesticTariffSelection option"
  q_InquiryDiscount :: "InquiryDiscountQuote option"

abbreviation mkItem :: "string \<Rightarrow> string \<Rightarrow> int \<Rightarrow> int \<Rightarrow> int option \<Rightarrow> LineItem" where
  "mkItem k c a b r \<equiv> \<lparr>li_Kind = k, li_Code = c, li_AmountMinor = a, li_BasisMinor = b, li_RuleID = r\<rparr>"

subsection \<open>Chargeable weight\<close>

text \<open>Go's integer division, which panics on a zero divisor.\<close>

definition div64 :: "int \<Rightarrow> int \<Rightarrow> int result" where
  "div64 a b = (if b = 0 then Inl (Panic ''integer divide by zero'') else Inr (quot64 a b))"

fun sum_weights :: "int \<Rightarrow> Package list \<Rightarrow> int \<Rightarrow> int \<Rightarrow> (int \<times> int) result" where
  "sum_weights divisor [] actual volumetric = Inr (actual, volumetric)"
| "sum_weights divisor (p # ps) actual volumetric =
     (let actual' = add64 actual (ActualWeightGrams p)
      in if LengthMM p > 0 \<and> WidthMM p > 0 \<and> HeightMM p > 0
         then bindE (DivRoundHalfUp (mul64 (mul64 (LengthMM p) (WidthMM p)) (HeightMM p)) divisor)
                (\<lambda>v. sum_weights divisor ps actual' (add64 volumetric v))
         else sum_weights divisor ps actual' volumetric)"

definition ComputeChargeableWeight :: "Package list \<Rightarrow> CourierService \<Rightarrow> int \<Rightarrow> WeightBreakdown result" where
  "ComputeChargeableWeight packages svc minChargeableGrams =
     bindE (sum_weights (svc_VolumetricDivisor svc) packages 0 0)
       (\<lambda>(actual, volumetric).
          let c0 = actual;
              c1 = (if volumetric > c0 then volumetric else c0);
              c2 = (if minChargeableGrams > c1 then minChargeableGrams else c1);
              c3 = (if svc_MinWeightGrams svc > c2 then svc_MinWeightGrams svc else c2);
              rounding = svc_WeightRoundingGrams svc;
              c4 = (if rounding > 1
                    then mul64 (quot64 (sub64 (add64 c3 rounding) 1) rounding) rounding else c3)
          in Inr \<lparr>wb_ActualGrams = wrap32 actual, wb_VolumetricGrams = wrap32 volumetric,
                   wb_VolumetricDivisor = svc_VolumetricDivisor svc, wb_RoundingGrams = svc_WeightRoundingGrams svc,
                   wb_MinChargeableGrams = minChargeableGrams, wb_ChargeableGrams = wrap32 c4\<rparr>)"

subsection \<open>Queries\<close>

definition scope_rank :: "string \<Rightarrow> int" where
  "scope_rank s = (if s = ''BUSINESS'' then 0 else if s = ''FRANCHISE'' then 1 else 2)"

definition ResolveRateCardForBooking :: "RateTables \<Rightarrow> int \<Rightarrow> int option \<Rightarrow> int option \<Rightarrow> int \<Rightarrow> RateCardRow option" where
  "ResolveRateCardForBooking db org cust fran asOf =
     (case sort_key (\<lambda>r. scope_rank (rc_Scope r)) (sort_key rc_ID (filter (\<lambda>r.
          rc_OrganizationID r = org \<and> rc_Status r = ''ACTIVE'' \<and> rc_VersionStatus r = ''ACTIVE''
          \<and> rc_EffectiveFrom r \<le> asOf \<and> (case rc_EffectiveTo r of None \<Rightarrow> True | Some t \<Rightarrow> t > asOf)
          \<and> (rc_Scope r = ''BUSINESS'' \<and> cust \<noteq> None \<and> rc_CustomerID r = cust
             \<or> rc_Scope r = ''FRANCHISE'' \<and> fran \<noteq> None \<and> rc_FranchiseID r = fran
             \<or> rc_Scope r = ''RETAIL'' \<and> rc_IsDefault r)) (rate_cards db))) of
        [] \<Rightarrow> None | r # _ \<Rightarrow> Some r)"

definition FindZoneRate :: "RateTables \<Rightarrow> int \<Rightarrow> int \<Rightarrow> int \<Rightarrow> int \<Rightarrow> ZoneRate option" where
  "FindZoneRate db ver svc oz dz =
     find (\<lambda>z. zr_VersionID z = ver \<and> zr_ServiceID z = svc \<and> zr_OriginZoneID z = oz \<and> zr_DestZoneID z = dz) (zone_rates db)"

definition FindWeightSlab :: "RateTables \<Rightarrow> int \<Rightarrow> int \<Rightarrow> int \<Rightarrow> int \<Rightarrow> int \<Rightarrow> WeightSlab option" where
  "FindWeightSlab db ver svc oz dz w =
     (case sort_key (\<lambda>s. - ws_FromWeightGrams s) (filter (\<lambda>s.
          ws_VersionID s = ver \<and> ws_ServiceID s = svc \<and> ws_OriginZoneID s = oz \<and> ws_DestZoneID s = dz
          \<and> ws_FromWeightGrams s \<le> w \<and> (case ws_ToWeightGrams s of None \<Rightarrow> True | Some t \<Rightarrow> t > w)) (weight_slabs db)) of
        [] \<Rightarrow> None | s # _ \<Rightarrow> Some s)"

definition find_state_rate :: "RateTables \<Rightarrow> int \<Rightarrow> int \<Rightarrow> int \<Rightarrow> StateBaseRate option" where
  "find_state_rate db org st svc =
     (case sort_key (\<lambda>r. if sb_ServiceID r \<noteq> None then 0 else 1 :: int) (filter (\<lambda>r.
          sb_OrganizationID r = org \<and> sb_StateID r = st \<and> sb_IsActive r
          \<and> (sb_ServiceID r = Some svc \<or> sb_ServiceID r = None)) (state_base_rates db)) of
        [] \<Rightarrow> None | r # _ \<Rightarrow> Some r)"

definition find_domestic_slab :: "RateTables \<Rightarrow> int \<Rightarrow> int \<Rightarrow> int \<Rightarrow> string \<Rightarrow> int \<Rightarrow> DomesticSlab option" where
  "find_domestic_slab db ver svc os zone w =
     (case sort_key (\<lambda>s. - ds_FromWeightGrams s) (filter (\<lambda>s.
          ds_VersionID s = ver \<and> ds_ServiceID s = svc \<and> ds_OriginStateID s = os \<and> ds_RateZoneCode s = zone
          \<and> ds_FromWeightGrams s \<le> w \<and> (case ds_ToWeightGrams s of None \<Rightarrow> True | Some t \<Rightarrow> t > w)) (domestic_slabs db)) of
        [] \<Rightarrow> None | s # _ \<Rightarrow> Some s)"

definition ListSurchargeRulesForVersion :: "RateTables \<Rightarrow> int \<Rightarrow> int \<Rightarrow> SurchargeRule list" where
  "ListSurchargeRulesForVersion db ver svc =
     sort_key sr_Priority (sort_key sr_ID (filter (\<lambda>r. sr_VersionID r = ver
        \<and> (sr_ServiceID r = None \<or> sr_ServiceID r = Some svc)) (surcharge_rules db)))"

definition ListDiscountRulesForVersion :: "RateTables \<Rightarrow> int \<Rightarrow> int \<Rightarrow> DiscountRule list" where
  "ListDiscountRulesForVersion db ver svc =
     sort_key dr_Priority (sort_key dr_ID (filter (\<lambda>r. dr_VersionID r = ver
        \<and> (dr_ServiceID r = None \<or> dr_ServiceID r = Some svc)) (discount_rules db)))"

definition ListApplicableTaxRules :: "RateTables \<Rightarrow> int \<Rightarrow> int \<Rightarrow> bool \<Rightarrow> TaxRule list" where
  "ListApplicableTaxRules db org asOf intra =
     sort_key tx_Priority (sort_key tx_ID (filter (\<lambda>r. tx_OrganizationID r = org \<and> tx_Status r = ''ACTIVE''
        \<and> tx_EffectiveFrom r \<le> asOf \<and> (case tx_EffectiveTo r of None \<Rightarrow> True | Some t \<Rightarrow> t > asOf)
        \<and> (case tx_IntraStateOnly r of None \<Rightarrow> True | Some b \<Rightarrow> b = intra)) (tax_rules db)))"

subsection \<open>The domestic tariff\<close>

text \<open>
  What \<^verbatim>\<open>range\<close> over a string and package \<^verbatim>\<open>unicode\<close> give: the runes of a string (each as the
  bytes of its encoding), the two character classes and the upper-case mapping.
\<close>

record unicode =
  u_runes :: "string \<Rightarrow> string list"
  u_IsLetter :: "string \<Rightarrow> bool"
  u_IsNumber :: "string \<Rightarrow> bool"
  u_ToUpper :: "string \<Rightarrow> string"

definition normalizeDomesticCity :: "unicode \<Rightarrow> string \<Rightarrow> string" where
  "normalizeDomesticCity uc s =
     concat (map (u_ToUpper uc) (filter (\<lambda>r. u_IsLetter uc r \<or> u_IsNumber uc r) (u_runes uc (TrimSpace s))))"

definition resolveDomesticRateArea :: "unicode \<Rightarrow> RateTables \<Rightarrow> QuoteInput \<Rightarrow> int \<Rightarrow> domesticRateArea option" where
  "resolveDomesticRateArea uc db inp versionID =
     (let normalizedCity = normalizeDomesticCity uc (in_DestinationCity inp);
          city = (if normalizedCity \<noteq> ''''
                  then find (\<lambda>l. dl_VersionID l = versionID \<and> dl_DestStateID l = in_DestStateID inp
                              \<and> dl_NormalizedCity l = normalizedCity) (domestic_locations db)
                  else None)
      in case city of
           Some l \<Rightarrow> Some \<lparr>da_RowID = Some (dl_ID l), da_RateZoneCode = dl_RateZoneCode l, da_City = dl_City l,
                        da_CentreArea = dl_CentreArea l, da_SurchargeCode = dl_SurchargeCode l,
                        da_SurchargeType = dl_SurchargeType l, da_SurchargeAmountMinor = dl_SurchargeAmountMinor l\<rparr>
         | None \<Rightarrow>
             map_option (\<lambda>z. \<lparr>da_RowID = None, da_RateZoneCode = dz_RateZoneCode z, da_City = '''',
                        da_CentreArea = '''', da_SurchargeCode = '''', da_SurchargeType = '''', da_SurchargeAmountMinor = 0\<rparr>)
               (find (\<lambda>z. dz_VersionID z = versionID \<and> dz_OriginStateID z = in_OriginStateID inp
                          \<and> dz_DestStateID z = in_DestStateID inp) (domestic_state_zones db)))"

subsection \<open>Freight\<close>

text \<open>\<^verbatim>\<open>steps := (excess + step - 1) / step\<close>, the number of started steps.\<close>

definition started_steps :: "int \<Rightarrow> int \<Rightarrow> int result" where
  "started_steps excess step = div64 (sub64 (add64 excess step) 1) step"

definition computeDomesticFreight :: "RateTables \<Rightarrow> QuoteInput \<Rightarrow> int \<Rightarrow> domesticRateArea \<Rightarrow> int
    \<Rightarrow> (int \<times> LineItem) option result" where
  "computeDomesticFreight db inp versionID area chargeable =
     (case find_domestic_slab db versionID (svc_ID (in_Service inp)) (in_OriginStateID inp) (da_RateZoneCode area) chargeable of
        None \<Rightarrow> Inr None
      | Some s \<Rightarrow>
          bindE (case (ds_ToWeightGrams s, ds_AdditionalStepGrams s, ds_AdditionalPriceMinor s) of
                   (None, Some stepWeight, Some stepPrice) \<Rightarrow>
                     bindE (started_steps (sub32 chargeable (sub32 (ds_FromWeightGrams s) 1)) stepWeight)
                       (\<lambda>steps. bindE (ApplyPerUnit stepPrice steps)
                       (\<lambda>extra. Inr (add64 (ds_PriceMinor s) extra)))
                 | _ \<Rightarrow> Inr (ds_PriceMinor s))
            (\<lambda>amount. Inr (Some (amount, mkItem ''FREIGHT'' ''DOMESTIC_FREIGHT'' amount 0 (Some (ds_ID s))))))"

definition slab_freight :: "WeightSlab \<Rightarrow> int \<Rightarrow> int result" where
  "slab_freight slab chargeable =
     (case (ws_ToWeightGrams slab, ws_AdditionalStepGrams slab, ws_AdditionalPriceMinor slab) of
        (Some toWeight, Some stepGrams, Some stepPrice) \<Rightarrow>
          if chargeable > toWeight
          then bindE (started_steps (sub32 chargeable toWeight) stepGrams)
                 (\<lambda>steps. bindE (ApplyPerUnit stepPrice steps)
                 (\<lambda>extra. Inr (add64 (ws_PriceMinor slab) extra)))
          else Inr (ws_PriceMinor slab)
      | _ \<Rightarrow> Inr (ws_PriceMinor slab))"

text \<open>The linear model of zone rates and state rates: a base, and a price per started step beyond it.\<close>

definition linear_freight :: "int \<Rightarrow> int \<Rightarrow> int \<Rightarrow> int \<Rightarrow> int \<Rightarrow> int result" where
  "linear_freight baseWeight basePrice stepGrams stepPrice chargeable =
     (if chargeable > baseWeight
      then bindE (started_steps (sub32 chargeable baseWeight) stepGrams)
             (\<lambda>steps. bindE (ApplyPerUnit stepPrice steps)
             (\<lambda>extra. Inr (add64 basePrice extra)))
      else Inr basePrice)"

definition computeFreight :: "RateTables \<Rightarrow> QuoteInput \<Rightarrow> int \<Rightarrow> ZoneRate option \<Rightarrow> domesticRateArea option \<Rightarrow> int
    \<Rightarrow> (int \<times> LineItem) result" where
  "computeFreight db inp versionID zoneRate domestic chargeable =
     (case FindWeightSlab db versionID (svc_ID (in_Service inp)) (in_OriginZoneID inp) (in_DestZoneID inp) chargeable of
        Some slab \<Rightarrow> bindE (slab_freight slab chargeable)
                       (\<lambda>amount. Inr (amount, mkItem ''FREIGHT'' ''FREIGHT'' amount 0 (Some (ws_ID slab))))
      | None \<Rightarrow>
          bindE (case domestic of None \<Rightarrow> Inr None
                 | Some area \<Rightarrow> computeDomesticFreight db inp versionID area chargeable)
            (\<lambda>found. case found of
               Some r \<Rightarrow> Inr r
             | None \<Rightarrow>
                 (case zoneRate of
                    None \<Rightarrow>
                      (case find_state_rate db (in_OrganizationID inp) (in_DestStateID inp) (svc_ID (in_Service inp)) of
                         Some sr \<Rightarrow> bindE (linear_freight (sb_BaseWeight sr) (sb_BaseCost sr) (sb_StepWeight sr) (sb_StepCost sr) chargeable)
                                      (\<lambda>amount. Inr (amount, mkItem ''FREIGHT'' ''STATE_BASE_FREIGHT'' amount 0 (Some (sb_ID sr))))
                       | None \<Rightarrow> Inl (Validation ''No rate is configured for this lane or destination state.''))
                  | Some z \<Rightarrow> bindE (linear_freight (zr_BaseWeightGrams z) (zr_BasePriceMinor z) (zr_AdditionalStepGrams z) (zr_AdditionalPriceMinor z) chargeable)
                                (\<lambda>amount. Inr (amount, mkItem ''FREIGHT'' ''FREIGHT'' amount 0 (Some (zr_ID z)))))))"

subsection \<open>Rule evaluation\<close>

definition matchesConditions :: "RawConditions \<Rightarrow> QuoteInput \<Rightarrow> int \<Rightarrow> bool" where
  "matchesConditions raw inp chargeable =
     (case raw of
        NoConditions \<Rightarrow> True
      | Malformed \<Rightarrow> False
      | Decoded c \<Rightarrow>
          \<not> (case c_RemoteOrigin c of None \<Rightarrow> False | Some b \<Rightarrow> b \<noteq> in_OriginIsRemote inp)
          \<and> \<not> (case c_RemoteDestination c of None \<Rightarrow> False | Some b \<Rightarrow> b \<noteq> in_DestIsRemote inp)
          \<and> \<not> (case c_RemoteEither c of None \<Rightarrow> False | Some b \<Rightarrow> b \<noteq> (in_OriginIsRemote inp \<or> in_DestIsRemote inp))
          \<and> \<not> (length (c_PaymentModes c) > 0 \<and> \<not> List.member (c_PaymentModes c) (in_PaymentMode inp))
          \<and> \<not> (case c_MinWeightGrams c of None \<Rightarrow> False | Some w \<Rightarrow> chargeable < w)
          \<and> \<not> (case c_MaxWeightGrams c of None \<Rightarrow> False | Some w \<Rightarrow> chargeable > w)
          \<and> \<not> (case c_MinDeclaredValueMinor c of None \<Rightarrow> False | Some v \<Rightarrow> in_DeclaredValueMinor inp < v)
          \<and> \<not> (case c_RequiresInsurance c of None \<Rightarrow> False | Some b \<Rightarrow> b \<noteq> in_InsuranceRequired inp)
          \<and> \<not> (case c_IntraStateOnly c of None \<Rightarrow> False | Some b \<Rightarrow> b \<noteq> in_IsIntraState inp))"

definition surchargeBasis :: "string \<Rightarrow> int \<Rightarrow> int \<Rightarrow> QuoteInput \<Rightarrow> int" where
  "surchargeBasis appliesTo freight running inp =
     (if appliesTo = ''FREIGHT_PLUS_SURCHARGES'' then running
      else if appliesTo = ''DECLARED_VALUE'' then in_DeclaredValueMinor inp
      else if appliesTo = ''COD_AMOUNT'' then in_CODAmountMinor inp
      else freight)"

definition applyCalc :: "string \<Rightarrow> int option \<Rightarrow> int option \<Rightarrow> int \<Rightarrow> int \<Rightarrow> int result" where
  "applyCalc calcType valueMinor percentageBP basis chargeableGrams =
     (if calcType = ''PERCENTAGE'' then
        (case percentageBP of None \<Rightarrow> Inr 0 | Some bp \<Rightarrow> ApplyBP basis bp)
      else if calcType = ''PER_KG'' then
        (case valueMinor of None \<Rightarrow> Inr 0
         | Some v \<Rightarrow> ApplyPerUnit v (quot64 (add64 chargeableGrams 999) 1000))
      else (case valueMinor of None \<Rightarrow> Inr 0 | Some v \<Rightarrow> Inr v))"

subsection \<open>Surcharges and insurance\<close>

definition validateInsuranceRequest :: "QuoteInput \<Rightarrow> unit result" where
  "validateInsuranceRequest inp =
     (if \<not> in_InsuranceRequired inp then Inr ()
      else ensure (svc_InsuranceAllowed (in_Service inp)) (Conflict ''INSURANCE_NOT_AVAILABLE'')
          (ensure (\<not> (in_DeclaredValueMinor inp \<le> 0 \<or> in_DeclaredValueMinor inp > 1000000000000))
             (Validation ''Insurance requires a positive declared value within the permitted limit.'')
          (Inr ())))"

definition addRule :: "InsuranceQuote \<Rightarrow> SurchargeRule \<Rightarrow> int \<Rightarrow> int \<Rightarrow> InsuranceQuote" where
  "addRule offer rule basis amount =
     (let rules = iq_Rules offer @ [\<lparr>ir_RuleID = sr_ID rule, ir_Code = sr_Code rule, ir_CalcType = sr_CalcType rule,
                    ir_AppliesTo = sr_AppliesTo rule, ir_RateBP = sr_PercentageBp rule, ir_ValueMinor = sr_ValueMinor rule,
                    ir_MinAmountMinor = sr_MinAmountMinor rule, ir_MaxAmountMinor = sr_MaxAmountMinor rule,
                    ir_IsTaxable = sr_IsTaxable rule, ir_BasisMinor = basis, ir_PremiumMinor = amount\<rparr>]
      in offer\<lparr>iq_Rules := rules,
               iq_PremiumMinor := add64 (iq_PremiumMinor offer) amount,
               iq_RateBP := (if length rules = 1 \<and> sr_CalcType rule = ''PERCENTAGE'' \<and> sr_AppliesTo rule = ''DECLARED_VALUE''
                                \<and> sr_MinAmountMinor rule = None \<and> sr_MaxAmountMinor rule = None
                             then sr_PercentageBp rule else None)\<rparr>)"

record surcharge_state =
  ss_taxable :: int
  ss_exempt :: int
  ss_items :: "LineItem list"
  ss_insurance :: "InsuranceQuote option"
  ss_running :: int

text \<open>The body of the loop over the surcharge rules; \<open>add_charge\<close> is its last part, which appends
  the line item and adds the amount to the running totals.\<close>

definition add_charge :: "SurchargeRule \<Rightarrow> int \<Rightarrow> int \<Rightarrow> surcharge_state \<Rightarrow> surcharge_state" where
  "add_charge rule basis amount st = st\<lparr>
     ss_items := ss_items st @ [mkItem ''SURCHARGE'' (sr_Code rule) amount basis (Some (sr_ID rule))],
     ss_running := add64 (ss_running st) amount,
     ss_taxable := (if sr_IsTaxable rule then add64 (ss_taxable st) amount else ss_taxable st),
     ss_exempt := (if sr_IsTaxable rule then ss_exempt st else add64 (ss_exempt st) amount)\<rparr>"

definition surcharge_step :: "QuoteInput \<Rightarrow> int \<Rightarrow> int \<Rightarrow> SurchargeRule \<Rightarrow> surcharge_state \<Rightarrow> surcharge_state result" where
  "surcharge_step inp freight chargeable rule st =
     (if sr_SurchargeType rule = ''INSURANCE'' \<and> \<not> in_InsuranceRequired inp then Inr st
      else if \<not> matchesConditions (sr_Conditions rule) inp chargeable then Inr st
      else
        let basis = surchargeBasis (sr_AppliesTo rule) freight (ss_running st) inp
        in bindE (applyCalc (sr_CalcType rule) (sr_ValueMinor rule) (sr_PercentageBp rule) basis chargeable) (\<lambda>amount0.
           let amount = Clamp amount0 (sr_MinAmountMinor rule) (sr_MaxAmountMinor rule)
           in bindE (if sr_SurchargeType rule = ''INSURANCE''
                     then (case ss_insurance st of
                             None \<Rightarrow> Inl (Panic ''invalid memory address or nil pointer dereference'')
                           | Some offer \<Rightarrow> Inr (st\<lparr>ss_insurance := Some (addRule offer rule basis amount)\<rparr>))
                     else Inr st) (\<lambda>st1.
              if amount = 0 \<and> sr_SurchargeType rule \<noteq> ''INSURANCE'' then Inr st1
              else Inr (add_charge rule basis amount st1))))"

text \<open>The state before the loop: the on-forwarding charge of the domestic tariff, if any.\<close>

definition surcharge_init :: "QuoteInput \<Rightarrow> string \<Rightarrow> int \<Rightarrow> domesticRateArea option \<Rightarrow> surcharge_state" where
  "surcharge_init inp currency freight domestic =
     (let insurance = (if in_InsuranceRequired inp
                       then Some \<lparr>iq_PolicyVersion = None, iq_RateBP = None, iq_Rules = [],
                              iq_DeclaredValueMinor = in_DeclaredValueMinor inp, iq_PremiumMinor = 0, iq_Currency = currency\<rparr>
                       else None);
          st0 = \<lparr>ss_taxable = 0, ss_exempt = 0, ss_items = [], ss_insurance = insurance, ss_running = freight\<rparr>
      in case domestic of
           None \<Rightarrow> st0
         | Some d \<Rightarrow>
             if da_SurchargeAmountMinor d > 0
             then st0\<lparr>ss_items := [mkItem ''SURCHARGE''
                          (if da_SurchargeType d = ''R'' then ''ONFORWARDING_RAS'' else ''ONFORWARDING_EAS'')
                          (da_SurchargeAmountMinor d) 0 (da_RowID d)],
                      ss_taxable := add64 0 (da_SurchargeAmountMinor d),
                      ss_running := add64 freight (da_SurchargeAmountMinor d)\<rparr>
             else st0)"

definition computeSurcharges :: "RateTables \<Rightarrow> QuoteInput \<Rightarrow> string \<Rightarrow> int \<Rightarrow> int \<Rightarrow> domesticRateArea option \<Rightarrow> int
    \<Rightarrow> surcharge_state result" where
  "computeSurcharges db inp currency versionID freight domestic chargeable =
     bindE (foldE (surcharge_step inp freight chargeable)
              (ListSurchargeRulesForVersion db versionID (svc_ID (in_Service inp)))
              (surcharge_init inp currency freight domestic)) (\<lambda>st.
     ensure (case ss_insurance st of None \<Rightarrow> True | Some offer \<Rightarrow> iq_Rules offer \<noteq> [])
       (Conflict ''INSURANCE_RATE_NOT_CONFIGURED'')
     (Inr st))"

subsection \<open>Discounts and tax\<close>

text \<open>The loop over the discount rules, with its \<^verbatim>\<open>break\<close> after a rule that does not stack.\<close>

fun discount_loop :: "int \<Rightarrow> int \<Rightarrow> DiscountRule list \<Rightarrow> int \<Rightarrow> LineItem list \<Rightarrow> (int \<times> LineItem list) result" where
  "discount_loop freight surchargeTotal [] acc items = Inr (acc, items)"
| "discount_loop freight surchargeTotal (rule # rules) acc items =
     (let basis = (if dr_AppliesTo rule = ''FREIGHT_PLUS_SURCHARGES'' then add64 freight surchargeTotal else freight)
      in if basis < dr_MinSubtotalMinor rule then discount_loop freight surchargeTotal rules acc items
         else bindE (if dr_DiscountType rule = ''PERCENTAGE''
                     then bindE (opt_or (dr_PercentageBp rule) (Panic ''invalid memory address or nil pointer dereference''))
                            (\<lambda>bp. ApplyBP basis bp)
                     else opt_or (dr_ValueMinor rule) (Panic ''invalid memory address or nil pointer dereference'')) (\<lambda>a0.
           let a1 = (case dr_MaxDiscountMinor rule of None \<Rightarrow> a0 | Some m \<Rightarrow> if a0 > m then m else a0);
               remaining = sub64 basis acc;
               amount = (if a1 > remaining then remaining else a1)
           in if amount \<le> 0 then discount_loop freight surchargeTotal rules acc items
              else
                let items' = items @ [mkItem ''DISCOUNT'' (dr_Code rule) (neg64 amount) basis (Some (dr_ID rule))];
                    acc' = add64 acc amount
                in if \<not> dr_IsStackable rule then Inr (acc', items')
                   else discount_loop freight surchargeTotal rules acc' items'))"

definition computeDiscounts :: "RateTables \<Rightarrow> QuoteInput \<Rightarrow> int \<Rightarrow> int \<Rightarrow> int \<Rightarrow> (int \<times> LineItem list) result" where
  "computeDiscounts db inp versionID freight surchargeTotal =
     discount_loop freight surchargeTotal (ListDiscountRulesForVersion db versionID (svc_ID (in_Service inp))) 0 []"

definition computeInquiryDiscount :: "QuoteInput \<Rightarrow> int \<Rightarrow> int \<Rightarrow> (InquiryDiscountQuote \<times> LineItem) option result" where
  "computeInquiryDiscount inp eligibleSubtotal configuredDiscount =
     (case in_InquiryDiscount inp of
        None \<Rightarrow> Inr None
      | Some d \<Rightarrow>
          let r0 = sub64 eligibleSubtotal configuredDiscount;
              remaining = (if r0 < 0 then 0 else r0)
          in bindE (if iq_DiscountType d = ''PERCENTAGE''
                    then (case iq_PercentageBP d of None \<Rightarrow> Inr 0 | Some bp \<Rightarrow> ApplyBP remaining bp)
                    else if iq_DiscountType d = ''FIXED''
                    then Inr (case iq_ValueMinor d of None \<Rightarrow> 0 | Some v \<Rightarrow> v)
                    else Inr 0) (\<lambda>a0.
             let a1 = (if a0 > remaining then remaining else a0);
                 amount = (if a1 < 0 then 0 else a1)
             in Inr (Some (\<lparr>id_DiscountType = iq_DiscountType d, id_ValueMinor = iq_ValueMinor d, id_PercentageBP = iq_PercentageBP d,
                            id_BasisMinor = remaining, id_AmountMinor = amount, id_OriginalTotalMinor = 0,
                            id_TaxReductionMinor = 0, id_AdjustedTotalMinor = 0\<rparr>,
                     mkItem ''DISCOUNT'' ''INQUIRY_DISCOUNT'' (neg64 amount) remaining None))))"

definition tax_step :: "int \<Rightarrow> TaxRule \<Rightarrow> int \<times> LineItem list \<Rightarrow> (int \<times> LineItem list) result" where
  "tax_step taxable rule st =
     bindE (ApplyBP taxable (tx_PercentageBp rule)) (\<lambda>amount.
       if amount = 0 then Inr st
       else Inr (add64 (fst st) amount, snd st @ [mkItem ''TAX'' (tx_Code rule) amount taxable (Some (tx_ID rule))]))"

definition computeTax :: "RateTables \<Rightarrow> QuoteInput \<Rightarrow> int \<Rightarrow> int \<Rightarrow> (int \<times> LineItem list) result" where
  "computeTax db inp asOf taxable =
     (if taxable = 0 then Inr (0, [])
      else foldE (tax_step taxable) (ListApplicableTaxRules db (in_OrganizationID inp) asOf (in_IsIntraState inp)) (0, []))"

subsection \<open>The quote\<close>

definition resolveRateCard :: "RateTables \<Rightarrow> QuoteInput \<Rightarrow> string \<Rightarrow> int \<Rightarrow> RateCardRow result" where
  "resolveRateCard db inp currency asOf =
     (case ResolveRateCardForBooking db (in_OrganizationID inp) (in_CustomerID inp) (in_FranchiseID inp) asOf of
        None \<Rightarrow> Inl (Validation ''RATE_CARD_NOT_FOUND'')
      | Some row \<Rightarrow>
          ensure (rc_Currency row = currency)
            (Validation ''The rate card currency does not match the requested currency.'')
          (Inr row))"

definition selection :: "domesticRateArea \<Rightarrow> DomesticTariffSelection" where
  "selection d = \<lparr>dt_RateZoneCode = da_RateZoneCode d, dt_City = da_City d, dt_CentreArea = da_CentreArea d,
     dt_SurchargeType = da_SurchargeType d, dt_SurchargeAmountMinor = da_SurchargeAmountMinor d\<rparr>"

text \<open>Steps 6 to 8 of a quote: the taxable base, tax, the total, and the reconciliation of an
  inquiry discount.\<close>

definition finish_quote :: "RateTables \<Rightarrow> QuoteInput \<Rightarrow> int \<Rightarrow> Quote \<Rightarrow> int \<Rightarrow> int \<Rightarrow> int \<Rightarrow> int \<Rightarrow> int \<Rightarrow> Quote result" where
  "finish_quote db inp asOf quote freight surchargeTaxable surchargeExempt configuredDiscount discount =
     (let o0 = sub64 (add64 freight surchargeTaxable) configuredDiscount;
          originalTaxable = (if o0 < 0 then 0 else o0);
          t0 = sub64 (add64 freight surchargeTaxable) discount;
          taxable = (if t0 < 0 then 0 else t0)
      in bindE (computeTax db inp asOf taxable) (\<lambda>(taxTotal, taxItems).
         bindE (case q_InquiryDiscount quote of
                  None \<Rightarrow> Inr None
                | Some iq \<Rightarrow> bindE (computeTax db inp asOf originalTaxable) (\<lambda>(originalTaxTotal, _).
                    Inr (Some (iq\<lparr>id_TaxReductionMinor := sub64 originalTaxTotal taxTotal,
                                  id_OriginalTotalMinor := add64 (sub64 (add64 (add64 freight surchargeTaxable) surchargeExempt) configuredDiscount) originalTaxTotal\<rparr>)))) (\<lambda>inquiry.
         let total0 = add64 (sub64 (add64 (add64 freight surchargeTaxable) surchargeExempt) discount) taxTotal;
             totalMinor = (if total0 < 0 then 0 else total0)
         in Inr (quote\<lparr>q_TaxableMinor := taxable,
                       q_LineItems := q_LineItems quote @ taxItems,
                       q_TaxTotalMinor := taxTotal,
                       q_RoundingMinor := 0,
                       q_TotalMinor := totalMinor,
                       q_InquiryDiscount := map_option (\<lambda>iq. iq\<lparr>id_AdjustedTotalMinor := totalMinor\<rparr>) inquiry\<rparr>))))"

definition Engine_Quote :: "unicode \<Rightarrow> RateTables \<Rightarrow> int \<Rightarrow> QuoteInput \<Rightarrow> Quote result" where
  "Engine_Quote uc db now inp =
     (let asOf = (case in_At inp of None \<Rightarrow> now | Some t \<Rightarrow> t);
          currency = (if in_Currency inp = '''' then INR else in_Currency inp)
      in ensure (length (in_Packages inp) \<noteq> 0) (Validation ''At least one package is required to price a shipment.'')
        (bindE (validateInsuranceRequest inp) (\<lambda>_.
         bindE (resolveRateCard db inp currency asOf) (\<lambda>card.
         let zoneRate = FindZoneRate db (rc_VersionID card) (svc_ID (in_Service inp)) (in_OriginZoneID inp) (in_DestZoneID inp);
             minChargeable = (case zoneRate of None \<Rightarrow> 0 | Some z \<Rightarrow> zr_MinChargeableWeightGrams z)
         in bindE (ComputeChargeableWeight (in_Packages inp) (in_Service inp) minChargeable) (\<lambda>weight.
         let domestic = resolveDomesticRateArea uc db inp (rc_VersionID card)
         in bindE (computeFreight db inp (rc_VersionID card) zoneRate domestic (wb_ChargeableGrams weight)) (\<lambda>(freight, freightItem).
         bindE (computeSurcharges db inp currency (rc_VersionID card) freight domestic (wb_ChargeableGrams weight)) (\<lambda>st.
         let sub = add64 (ss_taxable st) (ss_exempt st);
             offer = map_option (\<lambda>off. off\<lparr>iq_PolicyVersion := Some (rc_VersionID card)\<rparr>) (ss_insurance st);
             discountableSurcharges = (case offer of None \<Rightarrow> sub | Some off \<Rightarrow> sub64 sub (iq_PremiumMinor off))
         in bindE (computeDiscounts db inp (rc_VersionID card) freight discountableSurcharges) (\<lambda>(configuredDiscount, discountItems).
         bindE (computeInquiryDiscount inp (add64 freight discountableSurcharges) configuredDiscount) (\<lambda>inquiry.
         let discount = (case inquiry of None \<Rightarrow> configuredDiscount | Some (iq, _) \<Rightarrow> add64 configuredDiscount (id_AmountMinor iq));
             inquiryItems = (case inquiry of None \<Rightarrow> [] | Some (_, it) \<Rightarrow> [it])
         in finish_quote db inp asOf
              \<lparr>q_Currency = currency, q_RateCardID = rc_ID card, q_RateCardVersionID = rc_VersionID card, q_Weight = weight,
               q_FreightMinor = freight, q_SurchargeTotalMinor = sub, q_DiscountTotalMinor = discount,
               q_TaxableMinor = 0, q_TaxTotalMinor = 0, q_RoundingMinor = 0, q_TotalMinor = 0,
               q_LineItems = [freightItem] @ ss_items st @ discountItems @ inquiryItems,
               q_Insurance = offer, q_DomesticTariff = map_option selection domestic,
               q_InquiryDiscount = map_option fst inquiry\<rparr>
              freight (ss_taxable st) (ss_exempt st) configuredDiscount discount)))))))))"

subsection \<open>The loops keep the breakdown in step with the totals\<close>

definition amounts :: "LineItem list \<Rightarrow> int" where
  "amounts items = sum_list (map li_AmountMinor items)"

definition all_kind :: "string \<Rightarrow> LineItem list \<Rightarrow> bool" where
  "all_kind k items \<longleftrightarrow> list_all (\<lambda>i. li_Kind i = k) items"

lemma amounts_simps [simp]:
  "amounts [] = 0" "amounts (i # is) = li_AmountMinor i + amounts is" "amounts (is @ js) = amounts is + amounts js"
  by (simp_all add: amounts_def)

lemma all_kind_simps [simp]:
  "all_kind k []" "all_kind k (i # is) \<longleftrightarrow> li_Kind i = k \<and> all_kind k is"
  "all_kind k (is @ js) \<longleftrightarrow> all_kind k is \<and> all_kind k js"
  by (simp_all add: all_kind_def)

lemma filter_all_kind: "all_kind k is \<Longrightarrow> filter (\<lambda>i. li_Kind i = k') is = (if k = k' then is else [])"
  by (induction "is") auto

lemma filter_not_kind: "all_kind k is \<Longrightarrow> filter (\<lambda>i. li_Kind i \<noteq> k') is = (if k = k' then [] else is)"
  by (induction "is") auto

text \<open>What the surcharge loop keeps: the two running totals add up to the line items, the
  running basis is freight plus the line items, and the offer's premium is the sum of its rules.\<close>

definition surcharge_inv :: "QuoteInput \<Rightarrow> int \<Rightarrow> surcharge_state \<Rightarrow> bool" where
  "surcharge_inv inp freight st \<longleftrightarrow>
     all_kind ''SURCHARGE'' (ss_items st)
     \<and> add64 (ss_taxable st) (ss_exempt st) = wrap64 (amounts (ss_items st))
     \<and> wrap64 (ss_running st) = wrap64 (freight + amounts (ss_items st))
     \<and> (in_InsuranceRequired inp \<longleftrightarrow> ss_insurance st \<noteq> None)
     \<and> (\<forall>offer. ss_insurance st = Some offer \<longrightarrow>
           iq_DeclaredValueMinor offer = in_DeclaredValueMinor inp
           \<and> iq_PremiumMinor offer = wrap64 (sum_list (map ir_PremiumMinor (iq_Rules offer))))"

lemma surcharge_inv_init: "surcharge_inv inp freight (surcharge_init inp cur freight domestic)"
  by (simp add: surcharge_inv_def surcharge_init_def go_int Let_def split: option.split)

lemma addRule_simps [simp]:
  "iq_DeclaredValueMinor (addRule offer r b a) = iq_DeclaredValueMinor offer"
  "iq_PremiumMinor (addRule offer r b a) = add64 (iq_PremiumMinor offer) a"
  "map ir_PremiumMinor (iq_Rules (addRule offer r b a)) = map ir_PremiumMinor (iq_Rules offer) @ [a]"
  "iq_Rules (addRule offer r b a) \<noteq> []"
  by (simp_all add: addRule_def Let_def)

lemma wrap64_shift: "wrap64 x = wrap64 y \<Longrightarrow> wrap64 (x + a) = wrap64 (y + a)"
  by (metis wrap64_push(1))

lemma surcharge_step_cases:
  assumes "surcharge_step inp freight w rule st = Inr st'"
  obtains (skip) "st' = st"
    | (insure) offer basis amount where "sr_SurchargeType rule = ''INSURANCE''" "ss_insurance st = Some offer"
        "st' = add_charge rule basis amount (st\<lparr>ss_insurance := Some (addRule offer rule basis amount)\<rparr>)"
    | (charge) basis amount where "sr_SurchargeType rule \<noteq> ''INSURANCE''" "amount \<noteq> 0" "st' = add_charge rule basis amount st"
proof (cases "sr_SurchargeType rule = ''INSURANCE'' \<and> \<not> in_InsuranceRequired inp \<or> \<not> matchesConditions (sr_Conditions rule) inp w")
  case True
  then show thesis using assms skip by (simp add: surcharge_step_def split: if_split_asm)
next
  case False
  define basis where "basis = surchargeBasis (sr_AppliesTo rule) freight (ss_running st) inp"
  have "(sr_SurchargeType rule = ''INSURANCE'' \<and> \<not> in_InsuranceRequired inp) = False"
    "matchesConditions (sr_Conditions rule) inp w" using False by auto
  then obtain a0 amount where amount: "amount = Clamp a0 (sr_MinAmountMinor rule) (sr_MaxAmountMinor rule)"
    and st': "bindE (if sr_SurchargeType rule = ''INSURANCE''
                     then (case ss_insurance st of
                             None \<Rightarrow> Inl (Panic ''invalid memory address or nil pointer dereference'')
                           | Some offer \<Rightarrow> Inr (st\<lparr>ss_insurance := Some (addRule offer rule basis amount)\<rparr>))
                     else Inr st) (\<lambda>st1.
              if amount = 0 \<and> sr_SurchargeType rule \<noteq> ''INSURANCE'' then Inr st1
              else Inr (add_charge rule basis amount st1)) = Inr st'"
    using assms by (auto simp only: surcharge_step_def basis_def Let_def bindE_Inr if_False if_True simp_thms)
  show thesis
  proof (cases "sr_SurchargeType rule = ''INSURANCE''")
    case ins: True
    then show thesis using st' insure by (cases "ss_insurance st") auto
  next
    case noins: False
    then show thesis using st' skip charge by (cases "amount = 0") auto
  qed
qed

lemma surcharge_inv_charge: "surcharge_inv inp freight st \<Longrightarrow> surcharge_inv inp freight (add_charge rule basis amount st)"
proof -
  assume inv: "surcharge_inv inp freight st"
  have "wrap64 (ss_taxable st + ss_exempt st + amount) = wrap64 (amounts (ss_items st) + amount)"
    using inv by (intro wrap64_shift) (simp add: surcharge_inv_def go_int)
  moreover have "wrap64 (ss_running st + amount) = wrap64 (freight + amounts (ss_items st) + amount)"
    using inv by (intro wrap64_shift) (simp add: surcharge_inv_def)
  ultimately show ?thesis
    using inv by (simp add: surcharge_inv_def add_charge_def go_int algebra_simps)
qed

lemma surcharge_inv_step:
  assumes inv: "surcharge_inv inp freight st" and step: "surcharge_step inp freight w rule st = Inr st'"
  shows "surcharge_inv inp freight st'"
  using step
proof (cases rule: surcharge_step_cases)
  case skip
  then show ?thesis using inv by simp
next
  case (insure offer basis amount)
  have "surcharge_inv inp freight (st\<lparr>ss_insurance := Some (addRule offer rule basis amount)\<rparr>)"
    using inv insure(2) by (simp add: surcharge_inv_def go_int)
  then show ?thesis using insure(3) by (simp add: surcharge_inv_charge)
next
  case (charge basis amount)
  then show ?thesis using inv by (simp add: surcharge_inv_charge)
qed

lemma computeSurcharges_inv:
  assumes "computeSurcharges db inp cur ver freight area w = Inr st"
  shows "surcharge_inv inp freight st"
    and "\<And>offer. ss_insurance st = Some offer \<Longrightarrow> iq_Rules offer \<noteq> []"
proof -
  from assms have f: "foldE (surcharge_step inp freight w) (ListSurchargeRulesForVersion db ver (svc_ID (in_Service inp)))
      (surcharge_init inp cur freight area) = Inr st"
    and off: "case ss_insurance st of None \<Rightarrow> True | Some offer \<Rightarrow> iq_Rules offer \<noteq> []"
    by (auto simp: computeSurcharges_def res_simps)
  show "surcharge_inv inp freight st"
    using f surcharge_inv_init by (rule foldE_inv) (rule surcharge_inv_step)
  show "\<And>offer. ss_insurance st = Some offer \<Longrightarrow> iq_Rules offer \<noteq> []"
    using off by (simp split: option.splits)
qed

lemma discount_loop_Cons:
  assumes "discount_loop freight sub (rule # rules) acc items = Inr r"
  obtains (skip) "discount_loop freight sub rules acc items = Inr r"
    | (take) basis amount where "basis = freight \<or> basis = add64 freight sub" "0 < amount" "amount \<le> sub64 basis acc"
        "r = (add64 acc amount, items @ [mkItem ''DISCOUNT'' (dr_Code rule) (neg64 amount) basis (Some (dr_ID rule))])
         \<or> discount_loop freight sub rules (add64 acc amount)
              (items @ [mkItem ''DISCOUNT'' (dr_Code rule) (neg64 amount) basis (Some (dr_ID rule))]) = Inr r"
proof -
  let ?basis = "if dr_AppliesTo rule = ''FREIGHT_PLUS_SURCHARGES'' then add64 freight sub else freight"
  show thesis
  proof (cases "?basis < dr_MinSubtotalMinor rule")
    case True
    then show thesis using assms skip by simp
  next
    case False
    then obtain a0 a1 where "let remaining = sub64 ?basis acc; amount = (if a1 > remaining then remaining else a1)
           in (if amount \<le> 0 then discount_loop freight sub rules acc items
              else
                let items' = items @ [mkItem ''DISCOUNT'' (dr_Code rule) (neg64 amount) ?basis (Some (dr_ID rule))];
                    acc' = add64 acc amount
                in if \<not> dr_IsStackable rule then Inr (acc', items')
                   else discount_loop freight sub rules acc' items') = Inr r"
      using assms by (auto simp: Let_def bindE_Inr)
    then show thesis
      using skip take [of ?basis "if a1 > sub64 ?basis acc then sub64 ?basis acc else a1"]
      by (auto simp: Let_def split: if_splits)
  qed
qed

lemma discount_loop_items:
  "discount_loop freight sub rules acc items = Inr (acc', items') \<Longrightarrow>
   all_kind ''DISCOUNT'' items \<Longrightarrow> acc = wrap64 (- amounts items) \<Longrightarrow>
   all_kind ''DISCOUNT'' items' \<and> acc' = wrap64 (- amounts items')"
proof (induction rules arbitrary: acc items)
  case Nil
  then show ?case by auto
next
  case (Cons rule rules)
  from Cons.prems(1) show ?case
  proof (cases rule: discount_loop_Cons)
    case skip
    then show ?thesis using Cons by blast
  next
    case (take basis amount)
    let ?items = "items @ [mkItem ''DISCOUNT'' (dr_Code rule) (neg64 amount) basis (Some (dr_ID rule))]"
    have k: "all_kind ''DISCOUNT'' ?items" using Cons.prems by simp
    have "wrap64 (- amounts ?items) = wrap64 (- amounts items - wrap64 (- amount))" by (simp add: go_int algebra_simps)
    then have a: "add64 acc amount = wrap64 (- amounts ?items)"
      using Cons.prems by (simp add: go_int algebra_simps)
    show ?thesis using take(4) Cons.IH [OF _ k a] k a by auto
  qed
qed

lemma foldE_tax_items:
  "foldE (tax_step taxable) rules (a, items) = Inr (a', items') \<Longrightarrow>
   all_kind ''TAX'' items \<Longrightarrow> a = wrap64 (amounts items) \<Longrightarrow>
   all_kind ''TAX'' items' \<and> a' = wrap64 (amounts items')"
proof (induction rules arbitrary: a items)
  case Nil
  then show ?case by auto
next
  case (Cons rule rules)
  from Cons.prems(1) obtain x y where step: "tax_step taxable rule (a, items) = Inr (x, y)"
    and rest: "foldE (tax_step taxable) rules (x, y) = Inr (a', items')"
    by (auto simp: bindE_Inr)
  have "all_kind ''TAX'' y \<and> x = wrap64 (amounts y)"
    using step Cons.prems(2,3) by (auto simp: tax_step_def bindE_Inr go_int split: if_splits)
  then show ?case using Cons.IH rest by blast
qed

lemma computeTax_items:
  "computeTax db inp asOf taxable = Inr (t, items) \<Longrightarrow> all_kind ''TAX'' items \<and> t = wrap64 (amounts items)"
  using foldE_tax_items [of taxable _ 0 "[]" t items]
  by (auto simp: computeTax_def split: if_splits)

lemma computeDiscounts_items:
  "computeDiscounts db inp ver freight sub = Inr (d, items) \<Longrightarrow>
   all_kind ''DISCOUNT'' items \<and> d = wrap64 (- amounts items)"
  using discount_loop_items [of freight sub _ 0 "[]" d items] by (simp add: computeDiscounts_def)

lemma computeFreight_item:
  assumes "computeFreight db inp ver zr area w = Inr (f, i)"
  shows "li_Kind i = ''FREIGHT'' \<and> li_AmountMinor i = f"
  using assms unfolding computeFreight_def computeDomesticFreight_def
  by (auto simp: bindE_Inr split: option.splits)

lemma computeInquiryDiscount_cases:
  assumes "computeInquiryDiscount inp eligible configured = Inr r"
  obtains (none) "in_InquiryDiscount inp = None" "r = None"
    | (some) iq where "r = Some (iq, mkItem ''DISCOUNT'' ''INQUIRY_DISCOUNT'' (neg64 (id_AmountMinor iq)) (id_BasisMinor iq) None)"
        "id_BasisMinor iq = max 0 (sub64 eligible configured)" "0 \<le> id_AmountMinor iq" "id_AmountMinor iq \<le> id_BasisMinor iq"
proof (cases "in_InquiryDiscount inp")
  case None
  then show thesis using assms none by (simp add: computeInquiryDiscount_def)
next
  case (Some d)
  then show thesis using assms some unfolding computeInquiryDiscount_def
    by (force simp: Let_def bindE_Inr max_def)
qed

text \<open>
  Inversion of a successful quote: the intermediate values of the eight steps, and the fields of
  the quote in terms of them.
\<close>

definition quote_discountable :: "surcharge_state \<Rightarrow> int" where
  "quote_discountable st = (case ss_insurance st of None \<Rightarrow> add64 (ss_taxable st) (ss_exempt st)
     | Some off \<Rightarrow> sub64 (add64 (ss_taxable st) (ss_exempt st)) (iq_PremiumMinor off))"

definition premium_of :: "InsuranceQuote option \<Rightarrow> int" where
  "premium_of off = (case off of None \<Rightarrow> 0 | Some offer \<Rightarrow> iq_PremiumMinor offer)"

definition floor0 :: "int \<Rightarrow> int" where
  "floor0 x = (if x < 0 then 0 else x)"

lemma finish_quoteE:
  assumes "finish_quote db inp asOf q0 freight st se cd d = Inr q"
  obtains t items iq where
    "computeTax db inp asOf (floor0 (sub64 (add64 freight st) d)) = Inr (t, items)"
    "case q_InquiryDiscount q0 of None \<Rightarrow> iq = None
     | Some iq0 \<Rightarrow> \<exists>ot its. computeTax db inp asOf (floor0 (sub64 (add64 freight st) cd)) = Inr (ot, its)
         \<and> iq = Some (iq0\<lparr>id_TaxReductionMinor := sub64 ot t,
                 id_OriginalTotalMinor := add64 (sub64 (add64 (add64 freight st) se) cd) ot,
                 id_AdjustedTotalMinor := floor0 (add64 (sub64 (add64 (add64 freight st) se) d) t)\<rparr>)"
    "q = q0\<lparr>q_TaxableMinor := floor0 (sub64 (add64 freight st) d), q_LineItems := q_LineItems q0 @ items,
            q_TaxTotalMinor := t, q_RoundingMinor := 0,
            q_TotalMinor := floor0 (add64 (sub64 (add64 (add64 freight st) se) d) t), q_InquiryDiscount := iq\<rparr>"
proof -
  note fq = finish_quote_def floor0_def [symmetric] Let_def bindE_Inr split_paired_Ex split_conv
  show thesis
  proof (cases "q_InquiryDiscount q0")
    case None
    with assms obtain t items where "computeTax db inp asOf (floor0 (sub64 (add64 freight st) d)) = Inr (t, items)"
      "q = q0\<lparr>q_TaxableMinor := floor0 (sub64 (add64 freight st) d), q_LineItems := q_LineItems q0 @ items,
            q_TaxTotalMinor := t, q_RoundingMinor := 0,
            q_TotalMinor := floor0 (add64 (sub64 (add64 (add64 freight st) se) d) t), q_InquiryDiscount := None\<rparr>"
      by (auto simp only: fq option.case sum.inject option.map)
    then show thesis using None by (intro that [of t items None]) simp_all
  next
    case (Some iq0)
    with assms obtain t items ot its where "computeTax db inp asOf (floor0 (sub64 (add64 freight st) d)) = Inr (t, items)"
      "computeTax db inp asOf (floor0 (sub64 (add64 freight st) cd)) = Inr (ot, its)"
      "q = q0\<lparr>q_TaxableMinor := floor0 (sub64 (add64 freight st) d), q_LineItems := q_LineItems q0 @ items,
            q_TaxTotalMinor := t, q_RoundingMinor := 0,
            q_TotalMinor := floor0 (add64 (sub64 (add64 (add64 freight st) se) d) t),
            q_InquiryDiscount := Some (iq0\<lparr>id_TaxReductionMinor := sub64 ot t,
                 id_OriginalTotalMinor := add64 (sub64 (add64 (add64 freight st) se) cd) ot,
                 id_AdjustedTotalMinor := floor0 (add64 (sub64 (add64 (add64 freight st) se) d) t)\<rparr>)\<rparr>"
      by (auto simp only: fq option.case sum.inject option.map)
    then show thesis using Some by (intro that) auto
  qed
qed

lemma Engine_QuoteE:
  assumes "Engine_Quote uc db now inp = Inr q"
  obtains asOf cur u card weight freight fi st cd ditems inq where
    "validateInsuranceRequest inp = Inr u"
    "resolveRateCard db inp cur asOf = Inr card"
    "computeFreight db inp (rc_VersionID card)
       (FindZoneRate db (rc_VersionID card) (svc_ID (in_Service inp)) (in_OriginZoneID inp) (in_DestZoneID inp))
       (resolveDomesticRateArea uc db inp (rc_VersionID card)) (wb_ChargeableGrams weight) = Inr (freight, fi)"
    "computeSurcharges db inp cur (rc_VersionID card) freight
       (resolveDomesticRateArea uc db inp (rc_VersionID card)) (wb_ChargeableGrams weight) = Inr st"
    "computeDiscounts db inp (rc_VersionID card) freight (quote_discountable st) = Inr (cd, ditems)"
    "computeInquiryDiscount inp (add64 freight (quote_discountable st)) cd = Inr inq"
    "finish_quote db inp asOf
       \<lparr>q_Currency = cur, q_RateCardID = rc_ID card, q_RateCardVersionID = rc_VersionID card, q_Weight = weight,
        q_FreightMinor = freight, q_SurchargeTotalMinor = add64 (ss_taxable st) (ss_exempt st),
        q_DiscountTotalMinor = (case inq of None \<Rightarrow> cd | Some (iq, _) \<Rightarrow> add64 cd (id_AmountMinor iq)),
        q_TaxableMinor = 0, q_TaxTotalMinor = 0, q_RoundingMinor = 0, q_TotalMinor = 0,
        q_LineItems = [fi] @ ss_items st @ ditems @ (case inq of None \<Rightarrow> [] | Some (_, it) \<Rightarrow> [it]),
        q_Insurance = map_option (\<lambda>off. off\<lparr>iq_PolicyVersion := Some (rc_VersionID card)\<rparr>) (ss_insurance st),
        q_DomesticTariff = map_option selection (resolveDomesticRateArea uc db inp (rc_VersionID card)),
        q_InquiryDiscount = map_option fst inq\<rparr>
       freight (ss_taxable st) (ss_exempt st) cd (case inq of None \<Rightarrow> cd | Some (iq, _) \<Rightarrow> add64 cd (id_AmountMinor iq)) = Inr q"
proof -
  have *: "(case map_option (\<lambda>off. off\<lparr>iq_PolicyVersion := v\<rparr>) (ss_insurance st) of
      None \<Rightarrow> add64 (ss_taxable st) (ss_exempt st) | Some off \<Rightarrow> sub64 (add64 (ss_taxable st) (ss_exempt st)) (iq_PremiumMinor off))
      = quote_discountable st" for v st
    by (simp add: quote_discountable_def split: option.split)
  show thesis
    using assms
    unfolding Engine_Quote_def Let_def ensure_Inr bindE_Inr split_paired_Ex split_conv *
    by (elim exE conjE) (rule that, assumption+)
qed

text \<open>The same with the line items split by kind, as the theorems on the totals need it.\<close>

lemma quote_partsE:
  assumes "Engine_Quote uc db now inp = Inr q"
  obtains asOf cur ver area w freight fi st cd ditems inq iitems d t titems where
    "computeSurcharges db inp cur ver freight area w = Inr st"
    "computeDiscounts db inp ver freight (quote_discountable st) = Inr (cd, ditems)"
    "computeInquiryDiscount inp (add64 freight (quote_discountable st)) cd = Inr inq"
    "computeTax db inp asOf (floor0 (sub64 (add64 freight (ss_taxable st)) d)) = Inr (t, titems)"
    "d = (case inq of None \<Rightarrow> cd | Some (iq, _) \<Rightarrow> add64 cd (id_AmountMinor iq))"
    "iitems = (case inq of None \<Rightarrow> [] | Some (_, it) \<Rightarrow> [it])"
    "q_LineItems q = [fi] @ ss_items st @ ditems @ iitems @ titems"
    "li_Kind fi = ''FREIGHT''" "li_AmountMinor fi = freight" "all_kind ''SURCHARGE'' (ss_items st)"
    "all_kind ''DISCOUNT'' ditems" "all_kind ''DISCOUNT'' iitems" "all_kind ''TAX'' titems"
    "d = wrap64 (- amounts ditems - amounts iitems)" "t = wrap64 (amounts titems)"
    "q_FreightMinor q = freight" "q_SurchargeTotalMinor q = add64 (ss_taxable st) (ss_exempt st)"
    "q_DiscountTotalMinor q = d" "q_TaxTotalMinor q = t" "premium_of (q_Insurance q) = premium_of (ss_insurance st)"
    "q_TotalMinor q = max 0 (wrap64 (freight + amounts (ss_items st) - d + t))"
    "case inq of None \<Rightarrow> q_InquiryDiscount q = None
     | Some (iq, _) \<Rightarrow> \<exists>ot its. computeTax db inp asOf (floor0 (sub64 (add64 freight (ss_taxable st)) cd)) = Inr (ot, its)
         \<and> q_InquiryDiscount q = Some (iq\<lparr>id_TaxReductionMinor := sub64 ot t,
                 id_OriginalTotalMinor := wrap64 (freight + amounts (ss_items st) - cd + ot),
                 id_AdjustedTotalMinor := q_TotalMinor q\<rparr>)"
  using assms
proof (cases rule: Engine_QuoteE)
  case (1 asOf cur u card weight freight fi st cd ditems inq)
  let ?iitems = "case inq of None \<Rightarrow> [] | Some (_, it) \<Rightarrow> [it]"
  let ?d = "case inq of None \<Rightarrow> cd | Some (iq, _) \<Rightarrow> add64 cd (id_AmountMinor iq)"
  note s = computeSurcharges_inv(1) [OF 1(4), unfolded surcharge_inv_def]
  note d = computeDiscounts_items [OF 1(5)]
  from 1(6) have i: "all_kind ''DISCOUNT'' ?iitems \<and> ?d = wrap64 (- amounts ditems - amounts ?iitems)"
    by (cases rule: computeInquiryDiscount_cases) (use d in \<open>auto simp: go_int algebra_simps\<close>)
  have total: "add64 (sub64 (add64 (add64 freight (ss_taxable st)) (ss_exempt st)) x) y
      = wrap64 (freight + amounts (ss_items st) - x + y)" for x y
  proof -
    obtain a where "ss_taxable st + ss_exempt st = amounts (ss_items st) + a * 18446744073709551616"
      using s by (auto simp only: go_int wrap64_eq_iff)
    then have "wrap64 (freight + ss_taxable st + ss_exempt st - x + y) = wrap64 (freight + amounts (ss_items st) - x + y)"
      unfolding wrap64_eq_iff by (intro exI [of _ a]) simp
    then show ?thesis by (simp add: go_int)
  qed
  from 1(7) show thesis
  proof (cases rule: finish_quoteE)
    case (1 t titems iq)
    note fields = 1(3)
    have m: "floor0 x = max 0 x" for x :: int by (simp add: floor0_def max_def)
    note t = computeTax_items [OF 1(1)]
    show thesis
      by (rule that [OF \<open>computeSurcharges _ _ _ _ _ _ _ = _\<close> \<open>computeDiscounts _ _ _ _ _ = _\<close> \<open>computeInquiryDiscount _ _ _ = _\<close> 1(1) refl refl])
        (use fields 1(2) s d i t computeFreight_item [OF \<open>computeFreight _ _ _ _ _ _ = _\<close>] in
          \<open>auto simp: total m premium_of_def split: option.splits\<close>)
  qed
qed

text \<open>
  C27: the breakdown of a quote reconciles with its totals. Whatever the configuration, the freight,
  surcharge, discount and tax totals are the sums of the line items of their kind, and the
  amount to pay is the sum of all line items, floored at zero (in 64-bit arithmetic).
\<close>

theorem quote_reconciles:
  assumes "Engine_Quote uc db now inp = Inr q"
  shows "q_TotalMinor q = max 0 (wrap64 (amounts (q_LineItems q)))
    \<and> q_FreightMinor q = amounts (filter (\<lambda>i. li_Kind i = ''FREIGHT'') (q_LineItems q))
    \<and> q_SurchargeTotalMinor q = wrap64 (amounts (filter (\<lambda>i. li_Kind i = ''SURCHARGE'') (q_LineItems q)))
    \<and> q_DiscountTotalMinor q = wrap64 (- amounts (filter (\<lambda>i. li_Kind i = ''DISCOUNT'') (q_LineItems q)))
    \<and> q_TaxTotalMinor q = wrap64 (amounts (filter (\<lambda>i. li_Kind i = ''TAX'') (q_LineItems q)))"
  using assms
proof (cases rule: quote_partsE)
  case (1 asOf cur ver area w freight fi st cd ditems inq iitems d t titems)
  obtain b where b: "t = amounts titems - b * 18446744073709551616"
    using 1(15) wrap64_multiple by metis
  obtain c where c: "d = - amounts ditems - amounts iitems - c * 18446744073709551616"
    using 1(14) wrap64_multiple by metis
  have "wrap64 (freight + amounts (ss_items st) - d + t) = wrap64 (amounts (q_LineItems q))"
    unfolding wrap64_eq_iff using b c 1(7,9) by (intro exI [of _ "c - b"]) (simp add: algebra_simps)
  then show ?thesis
    using computeSurcharges_inv(1) [OF 1(1), unfolded surcharge_inv_def] 1(14,15)
    by (simp add: 1(7-9,16-19,21) 1(10-13) [THEN filter_all_kind] algebra_simps)
qed

subsection \<open>A configured lane\<close>

text \<open>
  A small configuration the witnesses evaluate: one retail card with a zone rate, a fuel surcharge, an
  insurance rule, a discount and a tax, and the Unicode tables restricted to ASCII.
\<close>

definition ascii :: unicode where
  "ascii = \<lparr>u_runes = map (\<lambda>c. [c]),
     u_IsLetter = (\<lambda>r. list_all (\<lambda>c. 65 \<le> (of_char c :: nat) \<and> of_char c \<le> (90 :: nat) \<or> 97 \<le> (of_char c :: nat) \<and> of_char c \<le> (122 :: nat)) r),
     u_IsNumber = list_all is_digit,
     u_ToUpper = map (\<lambda>c. if 97 \<le> (of_char c :: nat) \<and> of_char c \<le> (122 :: nat) then char_of (of_char c - 32 :: nat) else c)\<rparr>"

definition lane_service :: CourierService where
  "lane_service = \<lparr>svc_ID = 1, svc_VolumetricDivisor = 5000, svc_MinWeightGrams = 100, svc_WeightRoundingGrams = 500,
     svc_InsuranceAllowed = True\<rparr>"

definition lane_tables :: RateTables where
  "lane_tables = \<lparr>
     rate_cards = [\<lparr>rc_ID = 1, rc_OrganizationID = 1, rc_Status = ''ACTIVE'', rc_Scope = ''RETAIL'', rc_CustomerID = None,
       rc_FranchiseID = None, rc_IsDefault = True, rc_Currency = ''INR'', rc_VersionID = 10, rc_VersionStatus = ''ACTIVE'',
       rc_EffectiveFrom = 0, rc_EffectiveTo = None\<rparr>],
     zone_rates = [\<lparr>zr_ID = 1, zr_VersionID = 10, zr_ServiceID = 1, zr_OriginZoneID = 1, zr_DestZoneID = 2, zr_BaseWeightGrams = 500,
       zr_BasePriceMinor = 5000, zr_AdditionalStepGrams = 500, zr_AdditionalPriceMinor = 2000, zr_MinChargeableWeightGrams = 500\<rparr>],
     weight_slabs = [], state_base_rates = [], domestic_locations = [], domestic_state_zones = [], domestic_slabs = [],
     surcharge_rules =
       [\<lparr>sr_ID = 1, sr_VersionID = 10, sr_ServiceID = None, sr_Code = ''FUEL'', sr_SurchargeType = ''FUEL'', sr_CalcType = ''PERCENTAGE'',
         sr_ValueMinor = None, sr_PercentageBp = Some 1000, sr_AppliesTo = ''FREIGHT'', sr_MinAmountMinor = None, sr_MaxAmountMinor = None,
         sr_Conditions = NoConditions, sr_Priority = 1, sr_IsTaxable = True\<rparr>,
        \<lparr>sr_ID = 2, sr_VersionID = 10, sr_ServiceID = None, sr_Code = ''INS'', sr_SurchargeType = ''INSURANCE'', sr_CalcType = ''PERCENTAGE'',
         sr_ValueMinor = None, sr_PercentageBp = Some 50, sr_AppliesTo = ''DECLARED_VALUE'', sr_MinAmountMinor = None, sr_MaxAmountMinor = None,
         sr_Conditions = NoConditions, sr_Priority = 2, sr_IsTaxable = True\<rparr>],
     discount_rules = [\<lparr>dr_ID = 1, dr_VersionID = 10, dr_ServiceID = None, dr_Code = ''WELCOME'', dr_DiscountType = ''PERCENTAGE'',
         dr_ValueMinor = None, dr_PercentageBp = Some 1000, dr_AppliesTo = ''FREIGHT'', dr_MinSubtotalMinor = 0, dr_MaxDiscountMinor = None,
         dr_Conditions = NoConditions, dr_Priority = 1, dr_IsStackable = False\<rparr>],
     tax_rules = [\<lparr>tx_ID = 1, tx_OrganizationID = 1, tx_Code = ''IGST'', tx_PercentageBp = 1800, tx_IntraStateOnly = Some False,
         tx_Status = ''ACTIVE'', tx_EffectiveFrom = 0, tx_EffectiveTo = None, tx_Priority = 1\<rparr>]\<rparr>"

definition lane_input :: "bool \<Rightarrow> InquiryDiscountInput option \<Rightarrow> QuoteInput" where
  "lane_input insured inquiry = \<lparr>in_OrganizationID = 1, in_CustomerID = None, in_FranchiseID = None, in_Service = lane_service,
     in_OriginZoneID = 1, in_DestZoneID = 2, in_OriginStateID = 1, in_DestStateID = 2, in_DestinationCity = '''',
     in_Packages = [\<lparr>ActualWeightGrams = 1200, LengthMM = 200, WidthMM = 100, HeightMM = 100\<rparr>],
     in_PaymentMode = ''PREPAID'', in_DeclaredValueMinor = 100000, in_CODAmountMinor = 0, in_InsuranceRequired = insured,
     in_InquiryDiscount = inquiry, in_OriginIsRemote = False, in_DestIsRemote = False, in_IsIntraState = False,
     in_Currency = '''', in_At = None\<rparr>"

lemmas int_eval = go_int in64_def in32_def min64_def max64_def ApplyBP_eq mulSaturating_eq DivRoundHalfUp_def divRoundHalfUp_eq
  quot64_nonneg bp_value_def round_half_away_def ApplyPerUnit_def
lemmas lane_defs = lane_tables_def lane_input_def lane_service_def

lemma lane_card: "\<exists>card. resolveRateCard lane_tables (lane_input i d) ''INR'' 5 = Inr card \<and> rc_VersionID card = 10 \<and> rc_ID card = 1"
  by (simp add: resolveRateCard_def ResolveRateCardForBooking_def lane_defs)

lemma lane_zone: "FindZoneRate lane_tables 10 (svc_ID (in_Service (lane_input i d))) (in_OriginZoneID (lane_input i d)) (in_DestZoneID (lane_input i d))
   = Some (hd (zone_rates lane_tables))"
  by (simp add: FindZoneRate_def lane_defs)

lemma lane_domestic: "resolveDomesticRateArea uc lane_tables (lane_input i d) 10 = None"
  by (simp add: resolveDomesticRateArea_def Let_def lane_defs)

lemma lane_weight: "ComputeChargeableWeight (in_Packages (lane_input i d)) (in_Service (lane_input i d)) 500
   = Inr \<lparr>wb_ActualGrams = 1200, wb_VolumetricGrams = 400,
             wb_VolumetricDivisor = 5000, wb_RoundingGrams = 500,
             wb_MinChargeableGrams = 500, wb_ChargeableGrams = 1500\<rparr>"
  by (simp add: ComputeChargeableWeight_def lane_defs int_eval)

lemma lane_freight: "computeFreight lane_tables (lane_input i d) 10 (Some (hd (zone_rates lane_tables))) None 1500
  = Inr (9000, mkItem ''FREIGHT'' ''FREIGHT'' 9000 0 (Some 1))"
  by (simp add: computeFreight_def FindWeightSlab_def linear_freight_def started_steps_def div64_def ApplyPerUnit_def int_eval lane_defs)

lemma lane_surcharges: "computeSurcharges lane_tables (lane_input False d) ''INR'' 10 9000 None 1500
  = Inr \<lparr>ss_taxable = 900, ss_exempt = 0, ss_items = [mkItem ''SURCHARGE'' ''FUEL'' 900 9000 (Some 1)], ss_insurance = None, ss_running = 9900\<rparr>"
  by (simp add: computeSurcharges_def ListSurchargeRulesForVersion_def surcharge_init_def surcharge_step_def matchesConditions_def
     surchargeBasis_def applyCalc_def Clamp_def add_charge_def int_eval lane_defs)

lemma lane_surcharges_insured: "\<exists>st offer. computeSurcharges lane_tables (lane_input True d) ''INR'' 10 9000 None 1500 = Inr st
  \<and> ss_taxable st = 1400 \<and> ss_exempt st = 0 \<and> ss_insurance st = Some offer \<and> iq_PremiumMinor offer = 500
  \<and> ss_items st = [mkItem ''SURCHARGE'' ''FUEL'' 900 9000 (Some 1), mkItem ''SURCHARGE'' ''INS'' 500 100000 (Some 2)]"
  by (simp add: computeSurcharges_def ListSurchargeRulesForVersion_def surcharge_init_def surcharge_step_def matchesConditions_def
     surchargeBasis_def applyCalc_def Clamp_def add_charge_def addRule_def int_eval lane_defs)

lemma lane_discounts: "computeDiscounts lane_tables (lane_input i d) 10 9000 900
  = Inr (900, [mkItem ''DISCOUNT'' ''WELCOME'' (- 900) 9000 (Some 1)])"
  by (simp add: computeDiscounts_def ListDiscountRulesForVersion_def
      int_eval lane_defs)

lemma lane_tax: "computeTax lane_tables (lane_input i d) 5 9500
  = Inr (1710, [mkItem ''TAX'' ''IGST'' 1710 9500 (Some 1)])"
  by (simp add: computeTax_def ListApplicableTaxRules_def tax_step_def
      int_eval lane_defs)

lemmas lane_steps = Engine_Quote_def Let_def lane_zone lane_domestic lane_weight lane_freight lane_discounts lane_tax

lemma lane_quote: "\<exists>q. Engine_Quote ascii lane_tables 5 (lane_input True None) = Inr q \<and> q_TotalMinor q = 11210
    \<and> q_LineItems q = [mkItem ''FREIGHT'' ''FREIGHT'' 9000 0 (Some 1), mkItem ''SURCHARGE'' ''FUEL'' 900 9000 (Some 1),
         mkItem ''SURCHARGE'' ''INS'' 500 100000 (Some 2), mkItem ''DISCOUNT'' ''WELCOME'' (- 900) 9000 (Some 1),
         mkItem ''TAX'' ''IGST'' 1710 9500 (Some 1)]"
proof -
  obtain card where card: "resolveRateCard lane_tables (lane_input True None) ''INR'' 5 = Inr card" "rc_VersionID card = 10"
    using lane_card by blast
  obtain st offer where st: "computeSurcharges lane_tables (lane_input True None) ''INR'' 10 9000 None 1500 = Inr st"
    "ss_taxable st = 1400" "ss_exempt st = 0" "ss_insurance st = Some offer" "iq_PremiumMinor offer = 500"
    "ss_items st = [mkItem ''SURCHARGE'' ''FUEL'' 900 9000 (Some 1), mkItem ''SURCHARGE'' ''INS'' 500 100000 (Some 2)]"
    using lane_surcharges_insured by blast
  have v: "validateInsuranceRequest (lane_input True None) = Inr ()"
    by (simp add: validateInsuranceRequest_def lane_defs)
  have z: "zr_MinChargeableWeightGrams (hd (zone_rates lane_tables)) = 500" by (simp add: lane_defs)
  have i: "computeInquiryDiscount (lane_input True None) a b = Inr None" for a b
    by (simp add: computeInquiryDiscount_def lane_defs)
  have c: "in_At (lane_input True None) = None" "in_Currency (lane_input True None) = ''''" "in_Packages (lane_input True None) \<noteq> []"
    by (simp_all add: lane_defs)
  have w: "wrap64 1400 = 1400" "wrap64 900 = 900" "wrap64 10400 = 10400" "wrap64 9500 = 9500" "wrap64 11210 = 11210"
    by (simp_all add: width_defs)
  show ?thesis
    by (simp add: lane_steps card st v z i c w finish_quote_def INR_def go_int)
qed

theorem quote_reconciles_witness:
  "\<exists>q. Engine_Quote ascii lane_tables 5 (lane_input True None) = Inr q \<and> max 0 (wrap64 (amounts (q_LineItems q))) = 11210"
  using lane_quote quote_reconciles [of ascii lane_tables 5 "lane_input True None"] by metis

subsection \<open>Discounts never exceed what they discount\<close>

definition nonneg :: "LineItem list \<Rightarrow> bool" where
  "nonneg items \<longleftrightarrow> list_all (\<lambda>i. 0 \<le> li_AmountMinor i) items"

lemma nonneg_simps [simp]:
  "nonneg []" "nonneg (i # is) \<longleftrightarrow> 0 \<le> li_AmountMinor i \<and> nonneg is" "nonneg (is @ js) \<longleftrightarrow> nonneg is \<and> nonneg js"
  by (simp_all add: nonneg_def)

lemma nonneg_amounts: "nonneg items \<Longrightarrow> 0 \<le> amounts items"
  by (induction items) auto

lemma discount_loop_bound:
  assumes "discount_loop freight sub rules acc items = Inr (d, items')"
    and "0 \<le> freight" "0 \<le> sub" "in64 (freight + sub)" "0 \<le> acc" "acc \<le> freight + sub" "acc = - amounts items"
  shows "0 \<le> d \<and> d \<le> freight + sub \<and> d = - amounts items'"
  using assms
proof (induction rules arbitrary: acc items)
  case Nil
  then show ?case by auto
next
  case (Cons rule rules)
  from Cons.prems(1) show ?case
  proof (cases rule: discount_loop_Cons)
    case skip
    then show ?thesis using Cons.IH Cons.prems by blast
  next
    case (take basis amount)
    have basis: "0 \<le> basis" "basis \<le> freight + sub" using take(1) Cons.prems by (auto simp: go_int)
    have "in64 (basis - acc)" using basis Cons.prems by (simp add: in64_def min64_def max64_def)
    then have amount: "amount \<le> basis - acc" using take(3) by (simp add: go_int)
    have "in64 (acc + amount)" using amount take(2) basis Cons.prems by (simp add: in64_def min64_def)
    then have acc': "add64 acc amount = acc + amount" by (simp add: go_int)
    have "0 \<le> acc + amount" "acc + amount \<le> freight + sub" using amount take(2) basis Cons.prems by linarith+
    moreover have "neg64 amount = - amount" using amount take(2) basis Cons.prems by (simp add: go_int in64_def min64_def max64_def)
    ultimately show ?thesis
      using take(4) Cons.IH [of "acc + amount" "items @ [mkItem ''DISCOUNT'' (dr_Code rule) (neg64 amount) basis (Some (dr_ID rule))]"]
        Cons.prems acc' by auto
  qed
qed

text \<open>The premium of an offer is part of the surcharge line items.\<close>

definition premium_inv :: "surcharge_state \<Rightarrow> bool" where
  "premium_inv st \<longleftrightarrow> (\<forall>offer. ss_insurance st = Some offer \<longrightarrow> nonneg (ss_items st) \<longrightarrow>
     0 \<le> sum_list (map ir_PremiumMinor (iq_Rules offer))
     \<and> sum_list (map ir_PremiumMinor (iq_Rules offer)) \<le> amounts (ss_items st))"

lemma premium_inv_step: "premium_inv st \<Longrightarrow> surcharge_step inp freight w rule st = Inr st' \<Longrightarrow> premium_inv st'"
  by (erule surcharge_step_cases) (auto simp: premium_inv_def add_charge_def)

lemma computeSurcharges_premium: "computeSurcharges db inp cur ver freight area w = Inr st \<Longrightarrow> premium_inv st"
proof -
  assume "computeSurcharges db inp cur ver freight area w = Inr st"
  then have "foldE (surcharge_step inp freight w) (ListSurchargeRulesForVersion db ver (svc_ID (in_Service inp)))
      (surcharge_init inp cur freight area) = Inr st"
    by (auto simp: computeSurcharges_def res_simps)
  then show ?thesis
  proof (rule foldE_inv)
    show "premium_inv (surcharge_init inp cur freight area)"
      by (simp add: premium_inv_def surcharge_init_def Let_def split: option.split)
  qed (rule premium_inv_step)
qed

lemma premium_bounds:
  assumes s: "computeSurcharges db inp cur ver freight area w = Inr st"
    and n: "nonneg (ss_items st)" "in64 (amounts (ss_items st))"
  shows "0 \<le> premium_of (ss_insurance st)" "premium_of (ss_insurance st) \<le> amounts (ss_items st)"
    "quote_discountable st = amounts (ss_items st) - premium_of (ss_insurance st)"
    "add64 (ss_taxable st) (ss_exempt st) = amounts (ss_items st)"
proof -
  note inv = computeSurcharges_inv(1) [OF s, unfolded surcharge_inv_def]
  note p = computeSurcharges_premium [OF s, unfolded premium_inv_def]
  have le: "0 \<le> premium_of (ss_insurance st) \<and> premium_of (ss_insurance st) \<le> amounts (ss_items st)"
  proof (cases "ss_insurance st")
    case None
    then show ?thesis using nonneg_amounts [OF n(1)] by (simp add: premium_of_def)
  next
    case (Some offer)
    let ?s = "sum_list (map ir_PremiumMinor (iq_Rules offer))"
    have "0 \<le> ?s" "?s \<le> amounts (ss_items st)" using p Some n(1) by auto
    moreover from this have "in64 ?s" using n(2) by (simp add: in64_def min64_def)
    ultimately show ?thesis using inv Some by (simp add: premium_of_def)
  qed
  show t: "add64 (ss_taxable st) (ss_exempt st) = amounts (ss_items st)" using inv n(2) by simp
  have "in64 (amounts (ss_items st) - premium_of (ss_insurance st))" using le n(2) by (simp add: in64_def min64_def)
  then show "quote_discountable st = amounts (ss_items st) - premium_of (ss_insurance st)"
    using n(2) by (cases "ss_insurance st") (simp_all add: quote_discountable_def premium_of_def t sub64_def)
  show "0 \<le> premium_of (ss_insurance st)" "premium_of (ss_insurance st) \<le> amounts (ss_items st)" using le by simp_all
qed

lemma quote_discounts:
  assumes s: "computeSurcharges db inp cur ver freight area w = Inr st"
    and d: "computeDiscounts db inp ver freight (quote_discountable st) = Inr (cd, ditems)"
    and i: "computeInquiryDiscount inp (add64 freight (quote_discountable st)) cd = Inr inq"
    and n: "0 \<le> freight" "nonneg (ss_items st)" "in64 (freight + amounts (ss_items st))"
  defines "disc \<equiv> (case inq of None \<Rightarrow> cd | Some (iq, _) \<Rightarrow> add64 cd (id_AmountMinor iq))"
  shows "0 \<le> cd" "cd \<le> disc" "disc + premium_of (ss_insurance st) \<le> freight + amounts (ss_items st)"
    "\<And>iq it. inq = Some (iq, it) \<Longrightarrow> disc = cd + id_AmountMinor iq"
    "disc = - amounts ditems - amounts (case inq of None \<Rightarrow> [] | Some (_, it) \<Rightarrow> [it])"
proof -
  have n': "in64 (amounts (ss_items st))" using n nonneg_amounts [OF n(2)] by (simp add: in64_def min64_def)
  note p = premium_bounds [OF s n(2) n']
  let ?D = "quote_discountable st"
  have D: "0 \<le> ?D" "in64 (freight + ?D)" using p n by (simp_all add: in64_def min64_def)
  have cd: "0 \<le> cd \<and> cd \<le> freight + ?D \<and> cd = - amounts ditems"
    using d discount_loop_bound [of freight ?D _ 0 "[]" cd ditems] n(1) D by (simp add: computeDiscounts_def)
  have r: "sub64 (add64 freight ?D) cd = freight + ?D - cd" using cd D by (simp add: go_int in64_def min64_def)
  from i have "cd \<le> disc \<and> disc \<le> freight + ?D \<and> (\<forall>iq it. inq = Some (iq, it) \<longrightarrow> disc = cd + id_AmountMinor iq)
    \<and> disc = - amounts ditems - amounts (case inq of None \<Rightarrow> [] | Some (_, it) \<Rightarrow> [it])"
  proof (cases rule: computeInquiryDiscount_cases)
    case none
    then show ?thesis using cd by (simp add: disc_def)
  next
    case (some iq)
    have b: "id_AmountMinor iq \<le> freight + ?D - cd" using some r cd by simp
    then have "in64 (cd + id_AmountMinor iq)" "in64 (- id_AmountMinor iq)"
      using some(3) cd D by (simp_all add: in64_def min64_def max64_def)
    then show ?thesis using some b cd by (simp add: disc_def go_int)
  qed
  then show "0 \<le> cd" "cd \<le> disc" "disc + premium_of (ss_insurance st) \<le> freight + amounts (ss_items st)"
    "\<And>iq it. inq = Some (iq, it) \<Longrightarrow> disc = cd + id_AmountMinor iq"
    "disc = - amounts ditems - amounts (case inq of None \<Rightarrow> [] | Some (_, it) \<Rightarrow> [it])"
    using cd p(3) by auto
qed

text \<open>
  C28: discounts never eat into the insurance premium or below zero. When the charges of a quote (freight,
  surcharges, tax) are non-negative and their sum fits in 64 bits, the discount is non-negative and
  at most freight plus surcharges less the premium, and the floor on the amount to pay never
  acts: the amount is exactly the sum of the line items, and at least the premium plus the tax.
\<close>

theorem quote_discount_bounded:
  assumes q: "Engine_Quote uc db now inp = Inr q"
    and n: "\<forall>i \<in> set (q_LineItems q). li_Kind i \<noteq> ''DISCOUNT'' \<longrightarrow> 0 \<le> li_AmountMinor i"
    and m: "amounts (filter (\<lambda>i. li_Kind i \<noteq> ''DISCOUNT'') (q_LineItems q)) \<le> max64"
  shows "0 \<le> q_DiscountTotalMinor q
    \<and> q_DiscountTotalMinor q + premium_of (q_Insurance q) \<le> q_FreightMinor q + q_SurchargeTotalMinor q
    \<and> q_TotalMinor q = amounts (q_LineItems q)
    \<and> premium_of (q_Insurance q) + q_TaxTotalMinor q \<le> q_TotalMinor q"
  using q
proof (cases rule: quote_partsE)
  case (1 asOf cur ver area w freight fi st cd ditems inq iitems d t titems)
  have n': "0 \<le> freight" "nonneg (ss_items st)" "nonneg titems"
    using n 1(8-13) by (auto simp: 1(7) nonneg_def all_kind_def list_all_iff)
  have m': "freight + amounts (ss_items st) + amounts titems \<le> max64"
    using m by (simp add: 1(7-9) 1(10-13) [THEN filter_not_kind])
  note ge = nonneg_amounts [OF n'(2)] nonneg_amounts [OF n'(3)]
  have r: "in64 (freight + amounts (ss_items st))" "in64 (amounts (ss_items st))" "in64 (amounts titems)"
    using m' ge n'(1) by (simp_all add: in64_def min64_def)
  note d = quote_discounts [OF 1(1-3) n'(1,2) r(1), folded 1(5) 1(6)]
  note p = premium_bounds [OF 1(1) n'(2) r(2)]
  have t: "t = amounts titems" using 1(15) r(3) by simp
  have total: "0 \<le> freight + amounts (ss_items st) - d" "0 \<le> freight + amounts (ss_items st) - d + t"
    using d p(1) t ge by linarith+
  have "in64 (freight + amounts (ss_items st) - d + t)" using total m' d(1,2) t by (simp add: in64_def min64_def)
  then show ?thesis using d p t ge total by (simp add: 1(7,9) 1(16-21))
qed

theorem quote_discount_bounded_witness:
  "\<exists>q. Engine_Quote ascii lane_tables 5 (lane_input True None) = Inr q \<and> q_TotalMinor q = amounts (q_LineItems q)
     \<and> premium_of (q_Insurance q) + q_TaxTotalMinor q \<le> 11210"
proof -
  obtain q where q: "Engine_Quote ascii lane_tables 5 (lane_input True None) = Inr q" "q_TotalMinor q = 11210"
    "q_LineItems q = [mkItem ''FREIGHT'' ''FREIGHT'' 9000 0 (Some 1), mkItem ''SURCHARGE'' ''FUEL'' 900 9000 (Some 1),
         mkItem ''SURCHARGE'' ''INS'' 500 100000 (Some 2), mkItem ''DISCOUNT'' ''WELCOME'' (- 900) 9000 (Some 1),
         mkItem ''TAX'' ''IGST'' 1710 9500 (Some 1)]"
    using lane_quote by blast
  have "\<forall>i \<in> set (q_LineItems q). li_Kind i \<noteq> ''DISCOUNT'' \<longrightarrow> 0 \<le> li_AmountMinor i"
    "amounts (filter (\<lambda>i. li_Kind i \<noteq> ''DISCOUNT'') (q_LineItems q)) \<le> max64"
    by (simp_all add: q(3) max64_def)
  from quote_discount_bounded [OF q(1) this] show ?thesis using q(1,2) by auto
qed

subsection \<open>Insurance\<close>

lemma foldE_skip:
  assumes "\<And>x s. x \<in> set xs \<Longrightarrow> \<not> P x \<Longrightarrow> f x s = Inr s"
  shows "foldE f xs s = foldE f (filter P xs) s"
  using assms by (induction xs arbitrary: s) (auto simp: bindE_def split: sum.split)

definition chargeable_rule :: "SurchargeRule \<Rightarrow> bool" where
  "chargeable_rule r \<longleftrightarrow> sr_SurchargeType r \<noteq> ''INSURANCE'' \<and> sr_Conditions r \<noteq> Malformed"

lemma computeSurcharges_filter:
  assumes "\<not> in_InsuranceRequired inp"
  shows "computeSurcharges db inp cur ver freight area w =
    computeSurcharges (db\<lparr>surcharge_rules := filter chargeable_rule (surcharge_rules db)\<rparr>) inp cur ver freight area w"
proof -
  have skip: "surcharge_step inp freight w r st = Inr st" if "\<not> chargeable_rule r" for r st
    using that assms by (auto simp: surcharge_step_def chargeable_rule_def matchesConditions_def)
  have "ListSurchargeRulesForVersion (db\<lparr>surcharge_rules := filter chargeable_rule (surcharge_rules db)\<rparr>) ver sid
      = filter chargeable_rule (ListSurchargeRulesForVersion db ver sid)" for sid
    by (simp add: ListSurchargeRulesForVersion_def filter_sort conj_commute)
  moreover have "foldE (surcharge_step inp freight w) xs st = foldE (surcharge_step inp freight w) (filter chargeable_rule xs) st" for xs st
    by (rule foldE_skip) (rule skip)
  ultimately show ?thesis unfolding computeSurcharges_def by simp
qed

text \<open>
  C29: an uninsured shipment never pays for insurance, and a rule whose policy does not decode never
  charges anybody: without a request for insurance, the quote is the one of the rate tables
  from which every insurance rule and every malformed rule has been deleted.
\<close>

theorem uninsured_never_charged:
  assumes "\<not> in_InsuranceRequired inp"
  shows "Engine_Quote uc db now inp
    = Engine_Quote uc (db\<lparr>surcharge_rules := filter chargeable_rule (surcharge_rules db)\<rparr>) now inp"
proof -
  let ?db = "db\<lparr>surcharge_rules := filter chargeable_rule (surcharge_rules db)\<rparr>"
  have queries: "ResolveRateCardForBooking ?db = ResolveRateCardForBooking db" "FindZoneRate ?db = FindZoneRate db"
    "FindWeightSlab ?db = FindWeightSlab db" "find_domestic_slab ?db = find_domestic_slab db" "find_state_rate ?db = find_state_rate db"
    "ListDiscountRulesForVersion ?db = ListDiscountRulesForVersion db" "ListApplicableTaxRules ?db = ListApplicableTaxRules db"
    "domestic_locations ?db = domestic_locations db" "domestic_state_zones ?db = domestic_state_zones db"
    by (simp_all add: fun_eq_iff ResolveRateCardForBooking_def FindZoneRate_def FindWeightSlab_def find_domestic_slab_def
        find_state_rate_def ListDiscountRulesForVersion_def ListApplicableTaxRules_def)
  show ?thesis
    unfolding Engine_Quote_def resolveRateCard_def resolveDomesticRateArea_def computeFreight_def computeDomesticFreight_def
      computeDiscounts_def finish_quote_def computeTax_def queries computeSurcharges_filter [OF assms, symmetric]
    by (rule refl)
qed

theorem uninsured_never_charged_witness:
  "Engine_Quote ascii lane_tables 5 (lane_input False None)
    = Engine_Quote ascii (lane_tables\<lparr>surcharge_rules := filter chargeable_rule (surcharge_rules lane_tables)\<rparr>) 5 (lane_input False None)
   \<and> length (filter chargeable_rule (surcharge_rules lane_tables)) < length (surcharge_rules lane_tables)"
  using uninsured_never_charged [of "lane_input False None" ascii lane_tables 5]
  by (simp add: lane_defs chargeable_rule_def)

text \<open>
  an insured shipment is priced by configured insurance rules or refused. When insurance is requested and a quote is
  given, the product allows insurance, the declared value lies in the permitted range, at least one
  insurance rule applied, and the premium offered is the sum of what those rules charge.
\<close>

theorem insured_offer:
  assumes "Engine_Quote uc db now inp = Inr q" and "in_InsuranceRequired inp"
  shows "svc_InsuranceAllowed (in_Service inp) \<and> 0 < in_DeclaredValueMinor inp \<and> in_DeclaredValueMinor inp \<le> 1000000000000
    \<and> (\<exists>offer. q_Insurance q = Some offer \<and> iq_Rules offer \<noteq> [] \<and> iq_DeclaredValueMinor offer = in_DeclaredValueMinor inp
        \<and> iq_PremiumMinor offer = wrap64 (sum_list (map ir_PremiumMinor (iq_Rules offer))))"
  using assms(1)
proof (cases rule: Engine_QuoteE)
  case (1 asOf cur u card weight freight fi st cd ditems inq)
  note s = computeSurcharges_inv [OF 1(4)]
  obtain off where off: "ss_insurance st = Some off" "iq_Rules off \<noteq> []" "iq_DeclaredValueMinor off = in_DeclaredValueMinor inp"
    "iq_PremiumMinor off = wrap64 (sum_list (map ir_PremiumMinor (iq_Rules off)))"
    using s assms(2) by (auto simp: surcharge_inv_def)
  from 1(7) have "q_Insurance q = Some (off\<lparr>iq_PolicyVersion := Some (rc_VersionID card)\<rparr>)"
    by (cases rule: finish_quoteE) (simp add: off(1))
  then show ?thesis
    using off 1(1) assms(2) by (auto simp: validateInsuranceRequest_def res_simps)
qed

theorem insured_offer_witness:
  "\<exists>q offer. Engine_Quote ascii lane_tables 5 (lane_input True None) = Inr q \<and> q_Insurance q = Some offer \<and> iq_Rules offer \<noteq> []"
proof -
  obtain q where "Engine_Quote ascii lane_tables 5 (lane_input True None) = Inr q" using lane_quote by blast
  with insured_offer [OF this] show ?thesis by (auto simp: lane_input_def)
qed

subsection \<open>Chargeable weight and freight against their specifications\<close>

definition volume_weight :: "int \<Rightarrow> Package \<Rightarrow> int" where
  "volume_weight divisor p = (if LengthMM p > 0 \<and> WidthMM p > 0 \<and> HeightMM p > 0
     then round_half_away (LengthMM p * WidthMM p * HeightMM p) divisor else 0)"

definition piece_ok :: "Package \<Rightarrow> bool" where
  "piece_ok p \<longleftrightarrow> 0 \<le> ActualWeightGrams p \<and> LengthMM p \<le> 100000 \<and> WidthMM p \<le> 100000 \<and> HeightMM p \<le> 100000"

lemma volume_product:
  assumes "piece_ok p" "LengthMM p > 0" "WidthMM p > 0" "HeightMM p > 0"
  shows "mul64 (mul64 (LengthMM p) (WidthMM p)) (HeightMM p) = LengthMM p * WidthMM p * HeightMM p"
    "in64 (LengthMM p * WidthMM p * HeightMM p)" "0 \<le> LengthMM p * WidthMM p * HeightMM p"
proof -
  have "LengthMM p * WidthMM p \<le> 100000 * 100000"
    using assms by (intro mult_mono) (simp_all add: piece_ok_def)
  moreover have p: "0 \<le> LengthMM p * WidthMM p" using assms by simp
  ultimately have "LengthMM p * WidthMM p * HeightMM p \<le> (100000 * 100000) * 100000"
    using assms by (intro mult_mono) (simp_all add: piece_ok_def)
  moreover show q: "0 \<le> LengthMM p * WidthMM p * HeightMM p" using assms by simp
  ultimately show r: "in64 (LengthMM p * WidthMM p * HeightMM p)" by (simp add: in64_def min64_def max64_def)
  show "mul64 (mul64 (LengthMM p) (WidthMM p)) (HeightMM p) = LengthMM p * WidthMM p * HeightMM p"
    using r by (simp add: go_int)
qed

lemma volume_weight_nonneg: "0 < divisor \<Longrightarrow> 0 \<le> volume_weight divisor p"
  by (simp add: volume_weight_def round_half_away_nonneg pos_imp_zdiv_nonneg_iff)

lemma sum_weights_eq:
  assumes "0 < divisor" "divisor \<le> 2147483647" "list_all piece_ok ps" "0 \<le> a" "0 \<le> v"
    "a + sum_list (map ActualWeightGrams ps) \<le> max64" "v + sum_list (map (volume_weight divisor) ps) \<le> max64"
  shows "sum_weights divisor ps a v
    = Inr (a + sum_list (map ActualWeightGrams ps), v + sum_list (map (volume_weight divisor) ps))"
  using assms(3-)
proof (induction ps arbitrary: a v)
  case Nil
  then show ?case by simp
next
  case (Cons p ps)
  have ge: "0 \<le> sum_list (map ActualWeightGrams ps)" "0 \<le> sum_list (map (volume_weight divisor) ps)"
    using Cons.prems(1) volume_weight_nonneg [OF assms(1)]
    by (auto intro!: sum_list_nonneg simp: list_all_iff piece_ok_def)
  have p: "piece_ok p" "0 \<le> ActualWeightGrams p" using Cons.prems(1) by (simp_all add: piece_ok_def)
  have a: "add64 a (ActualWeightGrams p) = a + ActualWeightGrams p"
    using Cons.prems p ge by (simp add: go_int in64_def min64_def)
  have v: "add64 v (volume_weight divisor p) = v + volume_weight divisor p"
    using Cons.prems ge volume_weight_nonneg [OF assms(1), of p] by (simp add: go_int in64_def min64_def)
  have d: "DivRoundHalfUp (mul64 (mul64 (LengthMM p) (WidthMM p)) (HeightMM p)) divisor = Inr (volume_weight divisor p)"
    if "LengthMM p > 0 \<and> WidthMM p > 0 \<and> HeightMM p > 0"
  proof -
    note v = volume_product [OF p(1)]
    have "LengthMM p * WidthMM p * HeightMM p \<noteq> min64" using v(3) that unfolding min64_def by linarith
    then show ?thesis
      using that v assms(1,2) by (simp add: DivRoundHalfUp_def divRoundHalfUp_eq volume_weight_def)
  qed
  have rest: "sum_weights divisor ps (a + ActualWeightGrams p) (v + volume_weight divisor p)
      = Inr (a + ActualWeightGrams p + sum_list (map ActualWeightGrams ps), v + volume_weight divisor p + sum_list (map (volume_weight divisor) ps))"
    using Cons.prems p volume_weight_nonneg [OF assms(1), of p] by (intro Cons.IH) simp_all
  show ?case
  proof (cases "LengthMM p > 0 \<and> WidthMM p > 0 \<and> HeightMM p > 0")
    case True
    then show ?thesis using rest d a v by (simp add: add.assoc)
  next
    case False
    then have "volume_weight divisor p = 0" by (auto simp: volume_weight_def)
    then have "sum_weights divisor (p # ps) a v = sum_weights divisor ps (a + ActualWeightGrams p) (v + volume_weight divisor p)"
      by (simp only: sum_weights.simps Let_def a if_not_P [OF False] add_0_right)
    then show ?thesis using rest by (simp add: add.assoc)
  qed
qed

lemma round_up:
  fixes x r :: int
  assumes "0 \<le> x" "1 < r" "x + r \<le> 2147483647"
  shows "mul64 (quot64 (sub64 (add64 x r) 1) r) r = (x + r - 1) div r * r"
    and "x \<le> (x + r - 1) div r * r" and "(x + r - 1) div r * r < x + r"
proof -
  have "(x + r - 1) div r * r + (x + r - 1) mod r = x + r - 1" by simp
  moreover have "0 \<le> (x + r - 1) mod r" "(x + r - 1) mod r < r" using assms by simp_all
  ultimately show le: "x \<le> (x + r - 1) div r * r" and lt: "(x + r - 1) div r * r < x + r" by linarith+
  have "in64 (x + r)" "in64 (x + r - 1)" "in64 ((x + r - 1) div r * r)"
    using le lt assms by (simp_all add: in64_def min64_def max64_def)
  then show "mul64 (quot64 (sub64 (add64 x r) 1) r) r = (x + r - 1) div r * r"
    using assms by (simp add: go_int quot64_nonneg)
qed

text \<open>
  C30: the chargeable weight is the specified one. For pieces with plausible dimensions and a total that fits
  in 32 bits after rounding, the computation returns the exact actual and volumetric weights, and
  the chargeable weight is the least multiple of the product's rounding step that is at least
  the actual weight, the volumetric weight and both minimums.
\<close>

theorem chargeable_weight:
  assumes "0 < svc_VolumetricDivisor svc" "svc_VolumetricDivisor svc \<le> 2147483647" "list_all piece_ok ps"
    and "actual = sum_list (map ActualWeightGrams ps)" "volumetric = sum_list (map (volume_weight (svc_VolumetricDivisor svc)) ps)"
    and "need = Max {actual, volumetric, lane_min, svc_MinWeightGrams svc}" "r = max 1 (svc_WeightRoundingGrams svc)"
    and "need + r \<le> 2147483647"
  shows "\<exists>w. ComputeChargeableWeight ps svc lane_min = Inr w \<and> wb_ActualGrams w = actual \<and> wb_VolumetricGrams w = volumetric
    \<and> need \<le> wb_ChargeableGrams w \<and> r dvd wb_ChargeableGrams w
    \<and> (\<forall>c. need \<le> c \<and> r dvd c \<longrightarrow> wb_ChargeableGrams w \<le> c)"
proof -
  have ge: "0 \<le> actual" "0 \<le> volumetric"
    using assms(3) volume_weight_nonneg [OF assms(1)] unfolding assms(4,5)
    by (auto intro!: sum_list_nonneg simp: list_all_iff piece_ok_def)
  have le: "actual \<le> need" "volumetric \<le> need" "0 \<le> need" unfolding assms(6) using ge by (auto intro: Max_ge max.coboundedI1)
  have sums: "sum_weights (svc_VolumetricDivisor svc) ps 0 0 = Inr (actual, volumetric)"
    using sum_weights_eq [OF assms(1-3), of 0 0] le assms(7,8) unfolding assms(4,5) by (simp add: max64_def)
  have narrow: "in32 actual" "in32 volumetric" using ge le assms(7,8) by (simp_all add: in32_def)
  have pick: "(let c1 = (if volumetric > actual then volumetric else actual); c2 = (if lane_min > c1 then lane_min else c1)
      in if svc_MinWeightGrams svc > c2 then svc_MinWeightGrams svc else c2) = need"
    unfolding assms(6) by (simp add: Let_def max_def)
  have weight: "\<exists>w. ComputeChargeableWeight ps svc lane_min = Inr w \<and> wb_ActualGrams w = actual \<and> wb_VolumetricGrams w = volumetric
      \<and> wb_ChargeableGrams w = wrap32 (if svc_WeightRoundingGrams svc > 1
          then mul64 (quot64 (sub64 (add64 need (svc_WeightRoundingGrams svc)) 1) (svc_WeightRoundingGrams svc)) (svc_WeightRoundingGrams svc)
          else need)"
    using sums narrow unfolding pick [symmetric] ComputeChargeableWeight_def Let_def by simp
  show ?thesis
  proof (cases "svc_WeightRoundingGrams svc > 1")
    case True
    then have r: "r = svc_WeightRoundingGrams svc" "1 < r" using assms(7) by simp_all
    note up = round_up [OF le(3) r(2) assms(8)]
    have "in32 ((need + r - 1) div r * r)" using up le assms(8) by (simp add: in32_def)
    moreover have "(need + r - 1) div r * r \<le> c" if "need \<le> c" "r dvd c" for c
    proof -
      obtain k where k: "c = r * k" using \<open>r dvd c\<close> by (rule dvdE)
      have "(need + r - 1) div r \<le> (r * k + (r - 1)) div r"
        using that(1) r(2) k by (intro zdiv_mono1) simp_all
      also have "\<dots> = k" using r(2) by (simp add: div_pos_pos_trivial)
      finally show ?thesis using k r(2) by (simp add: mult.commute)
    qed
    ultimately show ?thesis using weight up True by (auto simp: r(1) [symmetric])
  next
    case False
    then have "r = 1" using assms(7) by simp
    then show ?thesis using weight False le assms(8) by (auto simp: in32_def)
  qed
qed

theorem chargeable_weight_witness:
  "\<exists>w. ComputeChargeableWeight [\<lparr>ActualWeightGrams = 1200, LengthMM = 200, WidthMM = 100, HeightMM = 100\<rparr>] lane_service 500 = Inr w
     \<and> wb_ActualGrams w = 1200 \<and> wb_VolumetricGrams w = 400 \<and> 1200 \<le> wb_ChargeableGrams w \<and> wb_ChargeableGrams w \<le> 1500"
proof -
  let ?ps = "[\<lparr>ActualWeightGrams = 1200, LengthMM = 200, WidthMM = 100, HeightMM = 100\<rparr>]"
  have h: "0 < svc_VolumetricDivisor lane_service" "svc_VolumetricDivisor lane_service \<le> 2147483647" "list_all piece_ok ?ps"
    "1200 = sum_list (map ActualWeightGrams ?ps)" "400 = sum_list (map (volume_weight (svc_VolumetricDivisor lane_service)) ?ps)"
    "1200 = Max {1200, 400, 500, svc_MinWeightGrams lane_service}" "500 = max 1 (svc_WeightRoundingGrams lane_service)"
    "(1200 :: int) + 500 \<le> 2147483647"
    by (simp_all add: volume_weight_def lane_service_def round_half_away_def piece_ok_def)
  obtain w where w: "ComputeChargeableWeight ?ps lane_service 500 = Inr w" "wb_ActualGrams w = 1200" "wb_VolumetricGrams w = 400"
    "1200 \<le> wb_ChargeableGrams w" "\<forall>c. 1200 \<le> c \<and> 500 dvd c \<longrightarrow> wb_ChargeableGrams w \<le> c"
    using chargeable_weight [OF h] by blast
  have "wb_ChargeableGrams w \<le> 1500" using w(5) [THEN spec, of 1500] by simp
  then show ?thesis using w(1-4) by blast
qed

text \<open>
  The branch of \<^verbatim>\<open>computeFreight\<close> that charges additional steps on a slab is dead: the query only
  returns a slab whose upper bound, if it has one, is above the weight.
\<close>

lemma sort_filter_hd: "sort_key f (filter P xs) = x # rest \<Longrightarrow> x \<in> set xs \<and> P x"
proof -
  assume "sort_key f (filter P xs) = x # rest"
  then have "x \<in> set (sort_key f (filter P xs))" by simp
  then show ?thesis by simp
qed

lemma slab_step_never_charged:
  assumes "FindWeightSlab db ver svc oz dz w = Some s"
  shows "slab_freight s w = Inr (ws_PriceMinor s)"
  using assms
  by (auto simp: FindWeightSlab_def slab_freight_def split: list.splits option.splits dest!: sort_filter_hd)

lemma started_steps_eq:
  assumes "0 < excess" "excess \<le> 2147483647" "0 < step" "step \<le> 2147483647"
  obtains k where "started_steps excess step = Inr k" "0 < k" "(k - 1) * step < excess" "excess \<le> k * step"
proof
  let ?k = "(excess + step - 1) div step"
  have "in64 (excess + step)" "in64 (excess + step - 1)" using assms by (simp_all add: in64_def min64_def max64_def)
  then show "started_steps excess step = Inr ?k"
    using assms by (simp add: started_steps_def div64_def go_int quot64_nonneg)
  have e: "?k * step + (excess + step - 1) mod step = excess + step - 1" by simp
  have m: "0 \<le> (excess + step - 1) mod step" "(excess + step - 1) mod step < step" using assms by simp_all
  have "(?k - 1) * step = ?k * step - step" by (simp add: left_diff_distrib)
  then show "(?k - 1) * step < excess" using e m by linarith
  show "excess \<le> ?k * step" using e m by linarith
  show "0 < ?k" using assms by (simp add: pos_imp_zdiv_pos_iff)
qed

text \<open>
  Freight beyond the base weight is charged per started step. Where the linear model of a lane's zone
  rate applies, with weights and steps in 32 bits and an amount that fits in 64, the freight is
  the base price plus the step price times the number of steps started by the excess weight,
  and it does not panic.
\<close>

theorem freight_started_steps:
  assumes "FindWeightSlab db ver (svc_ID (in_Service inp)) (in_OriginZoneID inp) (in_DestZoneID inp) w = None"
    and "zr_BaseWeightGrams z < w" "0 \<le> zr_BaseWeightGrams z" "w \<le> 2147483647"
    and "0 < zr_AdditionalStepGrams z" "zr_AdditionalStepGrams z \<le> 2147483647"
    and "0 \<le> zr_BasePriceMinor z" "0 \<le> zr_AdditionalPriceMinor z"
    and "zr_BasePriceMinor z + zr_AdditionalPriceMinor z * (w - zr_BaseWeightGrams z) \<le> max64"
  shows "\<exists>k item. computeFreight db inp ver (Some z) None w = Inr (zr_BasePriceMinor z + k * zr_AdditionalPriceMinor z, item)
    \<and> (k - 1) * zr_AdditionalStepGrams z < w - zr_BaseWeightGrams z \<and> w - zr_BaseWeightGrams z \<le> k * zr_AdditionalStepGrams z"
proof -
  let ?e = "w - zr_BaseWeightGrams z"
  obtain k where k: "started_steps ?e (zr_AdditionalStepGrams z) = Inr k" "0 < k"
    "(k - 1) * zr_AdditionalStepGrams z < ?e" "?e \<le> k * zr_AdditionalStepGrams z"
    using started_steps_eq [of ?e "zr_AdditionalStepGrams z"] assms by auto
  have "(k - 1) * 1 \<le> (k - 1) * zr_AdditionalStepGrams z" using k(2) assms(5) by (intro mult_left_mono) simp_all
  then have "k \<le> ?e" using k(3) by simp
  then have "zr_AdditionalPriceMinor z * k \<le> zr_AdditionalPriceMinor z * ?e" using assms(8) by (intro mult_left_mono)
  moreover have "0 \<le> zr_AdditionalPriceMinor z * k" using assms(8) k(2) by simp
  ultimately have r: "in64 (zr_AdditionalPriceMinor z * k)" "in64 (zr_BasePriceMinor z + zr_AdditionalPriceMinor z * k)"
    using assms(7,9) by (simp_all add: in64_def min64_def)
  have s: "sub32 w (zr_BaseWeightGrams z) = ?e" using assms by (simp add: go_int in32_def)
  have "mulSaturating (zr_AdditionalPriceMinor z) k = Inr (zr_AdditionalPriceMinor z * k)"
  proof -
    have "zr_AdditionalPriceMinor z * 1 \<le> zr_AdditionalPriceMinor z * ?e" using assms(2,8) by (intro mult_left_mono) simp_all
    then have "in64 (zr_AdditionalPriceMinor z)" "in64 k"
      using assms \<open>k \<le> ?e\<close> k(2) by (simp_all add: in64_def min64_def max64_def)
    then show ?thesis using r(1) by (simp add: mulSaturating_eq)
  qed
  then have "linear_freight (zr_BaseWeightGrams z) (zr_BasePriceMinor z) (zr_AdditionalStepGrams z) (zr_AdditionalPriceMinor z) w
      = Inr (zr_BasePriceMinor z + k * zr_AdditionalPriceMinor z)"
    using assms(2) k(1) s r by (simp add: linear_freight_def ApplyPerUnit_def go_int mult.commute)
  then show ?thesis using k(3,4) assms(1) by (auto simp: computeFreight_def)
qed

theorem freight_started_steps_witness:
  "\<exists>k item. computeFreight lane_tables (lane_input False None) 10 (Some (hd (zone_rates lane_tables))) None 1501 = Inr (5000 + k * 2000, item)
    \<and> (k - 1) * 500 < 1001 \<and> 1001 \<le> k * (500 :: int)"
proof -
  let ?z = "hd (zone_rates lane_tables)" and ?i = "lane_input False None"
  have h: "FindWeightSlab lane_tables 10 (svc_ID (in_Service ?i)) (in_OriginZoneID ?i) (in_DestZoneID ?i) 1501 = None"
    "zr_BaseWeightGrams ?z < 1501" "0 \<le> zr_BaseWeightGrams ?z" "(1501 :: int) \<le> 2147483647" "0 < zr_AdditionalStepGrams ?z"
    "zr_AdditionalStepGrams ?z \<le> 2147483647" "0 \<le> zr_BasePriceMinor ?z" "0 \<le> zr_AdditionalPriceMinor ?z"
    "zr_BasePriceMinor ?z + zr_AdditionalPriceMinor ?z * (1501 - zr_BaseWeightGrams ?z) \<le> max64"
    by (simp_all add: FindWeightSlab_def lane_defs max64_def)
  have v: "zr_BasePriceMinor ?z = 5000" "zr_AdditionalPriceMinor ?z = 2000" "zr_AdditionalStepGrams ?z = 500" "zr_BaseWeightGrams ?z = 500"
    by (simp_all add: lane_defs)
  show ?thesis using freight_started_steps [OF h] unfolding v by simp
qed

subsection \<open>The inquiry discount\<close>

definition tax_config_ok :: "RateTables \<Rightarrow> bool" where
  "tax_config_ok db \<longleftrightarrow> length (tax_rules db) \<le> 100 \<and> list_all (\<lambda>r. 0 \<le> tx_PercentageBp r \<and> tx_PercentageBp r \<le> 10000) (tax_rules db)"

definition tax_rates :: "RateTables \<Rightarrow> QuoteInput \<Rightarrow> int \<Rightarrow> int list" where
  "tax_rates db inp asOf = map tx_PercentageBp (ListApplicableTaxRules db (in_OrganizationID inp) asOf (in_IsIntraState inp))"

lemma tax_rates_ok:
  assumes "tax_config_ok db"
  shows "\<forall>bp \<in> set (tax_rates db inp asOf). 0 \<le> bp \<and> bp \<le> 10000" "length (tax_rates db inp asOf) \<le> 100"
proof -
  show "\<forall>bp \<in> set (tax_rates db inp asOf). 0 \<le> bp \<and> bp \<le> 10000"
    using assms by (auto simp: tax_rates_def ListApplicableTaxRules_def tax_config_ok_def list_all_iff)
  have "length (tax_rates db inp asOf) \<le> length (tax_rules db)"
    by (simp add: tax_rates_def ListApplicableTaxRules_def)
  then show "length (tax_rates db inp asOf) \<le> 100" using assms by (simp add: tax_config_ok_def)
qed

lemma foldE_tax_sum:
  assumes "0 \<le> x" "x \<le> 100000000000000" "\<forall>r \<in> set rules. 0 \<le> tx_PercentageBp r \<and> tx_PercentageBp r \<le> 10000"
    and "0 \<le> a" "a + int (length rules) * x \<le> max64"
  shows "\<exists>items'. foldE (tax_step x) rules (a, items) = Inr (a + sum_list (map (\<lambda>r. bp_value x (tx_PercentageBp r)) rules), items')"
  using assms(3-)
proof (induction rules arbitrary: a items)
  case Nil
  then show ?case by simp
next
  case (Cons r rules)
  let ?bp = "tx_PercentageBp r"
  have bp: "0 \<le> ?bp" "?bp \<le> 10000" using Cons.prems(1) by auto
  have "x * ?bp \<le> 100000000000000 * 10000" using assms(1,2) bp by (intro mult_mono) simp_all
  moreover have p: "0 \<le> x * ?bp" using assms(1) bp by simp
  ultimately have a: "ApplyBP x ?bp = Inr (bp_value x ?bp)"
    using assms(1,2) bp unfolding in64_def in32_def min64_def max64_def by (intro ApplyBP_eq; unfold in64_def in32_def min64_def max64_def) linarith+
  have v: "0 \<le> bp_value x ?bp" "bp_value x ?bp \<le> x" using bp assms(1) by (simp_all add: bp_value_nonneg bp_value_le)
  have l: "0 \<le> int (length rules) * x" using assms(1) by simp
  have s: "add64 a (bp_value x ?bp) = a + bp_value x ?bp"
  proof -
    have "a + (x + int (length rules) * x) \<le> max64" using Cons.prems(3) by (simp add: algebra_simps)
    then have "in64 (a + bp_value x ?bp)" unfolding in64_def min64_def using v l Cons.prems(2) by linarith
    then show ?thesis by (simp add: go_int)
  qed

  have step: "\<exists>its. tax_step x r (a, items) = Inr (a + bp_value x ?bp, its)"
    using a s by (auto simp: tax_step_def)
  moreover have "\<exists>its'. foldE (tax_step x) rules (a + bp_value x ?bp, its)
      = Inr (a + bp_value x ?bp + sum_list (map (\<lambda>r. bp_value x (tx_PercentageBp r)) rules), its')" for its
    using v Cons.prems by (intro Cons.IH) (auto simp: algebra_simps)
  ultimately show ?case by (auto simp: bindE_Inr add.assoc) 
qed

lemma filter_charges: "all_kind k is \<Longrightarrow> filter (\<lambda>i. li_Kind i = a \<or> li_Kind i = b) is = (if k = a \<or> k = b then is else [])"
  by (induction "is") auto

lemma computeTax_sum:
  assumes "tax_config_ok db" "0 \<le> x" "x \<le> 100000000000000"
  shows "\<exists>items. computeTax db inp asOf x = Inr (sum_list (map (bp_value x) (tax_rates db inp asOf)), items)"
proof (cases "x = 0")
  case True
  have "sum_list (map (bp_value 0) bps) = 0" for bps by (induction bps) simp_all
  then show ?thesis using True by (simp add: computeTax_def)
next
  case False
  let ?rules = "ListApplicableTaxRules db (in_OrganizationID inp) asOf (in_IsIntraState inp)"
  note ok = tax_rates_ok [OF assms(1), of inp asOf, unfolded tax_rates_def]
  have "int (length ?rules) * x \<le> 100 * 100000000000000" using ok(2) assms by (intro mult_mono) simp_all
  then have "\<exists>items. foldE (tax_step x) ?rules (0, []) = Inr (0 + sum_list (map (\<lambda>r. bp_value x (tx_PercentageBp r)) ?rules), items)"
    using ok(1) assms by (intro foldE_tax_sum) (simp_all add: max64_def)
  then show ?thesis using False by (simp add: computeTax_def tax_rates_def comp_def)
qed

text \<open>The taxable part of the surcharges lies between zero and their sum.\<close>

definition taxable_inv :: "surcharge_state \<Rightarrow> bool" where
  "taxable_inv st \<longleftrightarrow> (\<exists>x. ss_taxable st = wrap64 x \<and> (nonneg (ss_items st) \<longrightarrow> 0 \<le> x \<and> x \<le> amounts (ss_items st)))"

lemma taxable_inv_charge: "taxable_inv st \<Longrightarrow> taxable_inv (add_charge rule basis amount st)"
proof -
  assume "taxable_inv st"
  then obtain x where x: "ss_taxable st = wrap64 x" "nonneg (ss_items st) \<longrightarrow> 0 \<le> x \<and> x \<le> amounts (ss_items st)"
    by (auto simp: taxable_inv_def)
  then show ?thesis unfolding taxable_inv_def
    by (intro exI [of _ "if sr_IsTaxable rule then x + amount else x"]) (auto simp: add_charge_def go_int)
qed

lemma taxable_inv_step: "taxable_inv st \<Longrightarrow> surcharge_step inp freight w rule st = Inr st' \<Longrightarrow> taxable_inv st'"
proof (erule surcharge_step_cases)
  fix offer basis amount
  assume "taxable_inv st" "st' = add_charge rule basis amount (st\<lparr>ss_insurance := Some (addRule offer rule basis amount)\<rparr>)"
  moreover from this have "taxable_inv (st\<lparr>ss_insurance := Some (addRule offer rule basis amount)\<rparr>)" by (simp add: taxable_inv_def)
  ultimately show "taxable_inv st'" by (simp add: taxable_inv_charge)
qed (simp_all add: taxable_inv_charge)

lemma computeSurcharges_taxable:
  assumes "computeSurcharges db inp cur ver freight area w = Inr st" "nonneg (ss_items st)" "in64 (amounts (ss_items st))"
  shows "0 \<le> ss_taxable st \<and> ss_taxable st \<le> amounts (ss_items st)"
proof -
  from assms(1) have "foldE (surcharge_step inp freight w) (ListSurchargeRulesForVersion db ver (svc_ID (in_Service inp)))
      (surcharge_init inp cur freight area) = Inr st"
    by (auto simp: computeSurcharges_def res_simps)
  then have "taxable_inv st"
  proof (rule foldE_inv)
    show "taxable_inv (surcharge_init inp cur freight area)"
      unfolding taxable_inv_def
      by (intro exI [of _ "amounts (ss_items (surcharge_init inp cur freight area))"])
        (auto simp: surcharge_init_def Let_def go_int split: option.split)
  qed (rule taxable_inv_step)
  then obtain x where x: "ss_taxable st = wrap64 x" "0 \<le> x" "x \<le> amounts (ss_items st)" using assms(2) by (auto simp: taxable_inv_def)
  then have "in64 x" using assms(3) by (simp add: in64_def min64_def)
  then show ?thesis using x by simp
qed

text \<open>
  a staff discount on an inquiry reconciles and never raises the tax. With non-negative charges of realistic
  size and at most a hundred tax rules of 0 to 100 percent, the discount given lies between zero
  and what is left after the configured discounts, the tax saved is not negative, and the
  original total is the adjusted total plus the discount plus the tax saved.
\<close>

theorem inquiry_reconciles:
  assumes q: "Engine_Quote uc db now inp = Inr q" and i: "q_InquiryDiscount q = Some iq"
    and n: "\<forall>i \<in> set (q_LineItems q). li_Kind i = ''FREIGHT'' \<or> li_Kind i = ''SURCHARGE'' \<longrightarrow> 0 \<le> li_AmountMinor i"
    and m: "amounts (filter (\<lambda>i. li_Kind i = ''FREIGHT'' \<or> li_Kind i = ''SURCHARGE'') (q_LineItems q)) \<le> 100000000000000"
    and t: "tax_config_ok db"
  shows "0 \<le> id_AmountMinor iq \<and> id_AmountMinor iq \<le> id_BasisMinor iq \<and> 0 \<le> id_TaxReductionMinor iq
    \<and> id_AdjustedTotalMinor iq = q_TotalMinor q
    \<and> id_OriginalTotalMinor iq = id_AdjustedTotalMinor iq + id_AmountMinor iq + id_TaxReductionMinor iq"
  using q
proof (cases rule: quote_partsE)
  case (1 asOf cur ver area w freight fi st cd ditems inq iitems d tx titems)
  have n': "0 \<le> freight" "nonneg (ss_items st)"
    using n 1(8-10) by (auto simp: 1(7) nonneg_def all_kind_def list_all_iff)
  have m': "freight + amounts (ss_items st) \<le> 100000000000000"
    using m by (simp add: 1(7-9) 1(10-13) [THEN filter_charges])
  note ge = nonneg_amounts [OF n'(2)]
  have r: "in64 (freight + amounts (ss_items st))" "in64 (amounts (ss_items st))"
    using m' ge n'(1) by (simp_all add: in64_def min64_def max64_def)
  note d = quote_discounts [OF 1(1-3) n'(1,2) r(1), folded 1(5) 1(6)]
  note p = premium_bounds [OF 1(1) n'(2) r(2)]
  note x = computeSurcharges_taxable [OF 1(1) n'(2) r(2)]
  from 1(22) i obtain iq0 it ot its where inq: "inq = Some (iq0, it)"
    and ot: "computeTax db inp asOf (floor0 (sub64 (add64 freight (ss_taxable st)) cd)) = Inr (ot, its)"
    and iq: "iq = iq0\<lparr>id_TaxReductionMinor := sub64 ot tx, id_OriginalTotalMinor := wrap64 (freight + amounts (ss_items st) - cd + ot),
               id_AdjustedTotalMinor := q_TotalMinor q\<rparr>"
    by (auto split: option.splits)
  have dd: "d = cd + id_AmountMinor iq0" using d(4) inq by blast
  have sub: "sub64 (add64 freight (ss_taxable st)) y = freight + ss_taxable st - y" if "0 \<le> y" "y \<le> freight + amounts (ss_items st)" for y
    using that x n'(1) m' by (simp add: go_int in64_def min64_def max64_def)
  let ?a = "floor0 (freight + ss_taxable st - cd)" and ?b = "floor0 (freight + ss_taxable st - d)"
  have ab: "0 \<le> ?b" "?b \<le> ?a" "?a \<le> 100000000000000" using d(1,2) x m' n'(1) by (simp_all add: floor0_def)
  let ?T = "\<lambda>y. sum_list (map (bp_value y) (tax_rates db inp asOf))"
  have le: "d \<le> freight + amounts (ss_items st)" "0 \<le> d" using d p(1) by linarith+
  have tx: "ot = ?T ?a" "tx = ?T ?b"
    using computeTax_sum [OF t, of ?a inp asOf] computeTax_sum [OF t, of ?b inp asOf] ot 1(4) sub [of cd] sub [of d] d(1,2) le ab
    by auto
  note rates = tax_rates_ok [OF t, of inp asOf]
  have "?T ?b \<le> ?T ?a" "0 \<le> ?T ?b"
    using bpv.total_mono [of ?b ?a] bpv.total_nonneg [of ?b] rates(1) ab by auto
  moreover have "?T ?a \<le> int (length (tax_rates db inp asOf)) * ?a" using bpv.total_le rates(1) ab by simp
  moreover have "int (length (tax_rates db inp asOf)) * ?a \<le> 100 * 100000000000000" using rates(2) ab by (intro mult_mono) simp_all
  ultimately have T: "0 \<le> tx" "tx \<le> ot" "ot \<le> 10000000000000000" using tx by simp_all
  have "sub64 ot tx = ot - tx" "wrap64 (freight + amounts (ss_items st) - cd + ot) = freight + amounts (ss_items st) - cd + ot"
    "wrap64 (freight + amounts (ss_items st) - d + tx) = freight + amounts (ss_items st) - d + tx"
    using T d(1,2) le m' n'(1) ge by (simp_all add: go_int in64_def min64_def max64_def)
  moreover have "0 \<le> id_AmountMinor iq0" "id_AmountMinor iq0 \<le> id_BasisMinor iq0"
    using 1(3) inq by (auto elim: computeInquiryDiscount_cases)
  moreover have "0 \<le> freight + amounts (ss_items st) - d + tx" using le T by linarith
  ultimately show ?thesis using T dd by (simp add: iq 1(21))
qed

lemma lane_inquiry:
  fixes d defines "d \<equiv> Some \<lparr>iq_DiscountType = ''FIXED'', iq_ValueMinor = Some 1000, iq_PercentageBP = None\<rparr>"
  shows "\<exists>q iq. Engine_Quote ascii lane_tables 5 (lane_input False d) = Inr q \<and> q_InquiryDiscount q = Some iq \<and> q_TotalMinor q = 9440
    \<and> id_AmountMinor iq = 1000
    \<and> q_LineItems q = [mkItem ''FREIGHT'' ''FREIGHT'' 9000 0 (Some 1), mkItem ''SURCHARGE'' ''FUEL'' 900 9000 (Some 1),
         mkItem ''DISCOUNT'' ''WELCOME'' (- 900) 9000 (Some 1), mkItem ''DISCOUNT'' ''INQUIRY_DISCOUNT'' (- 1000) 9000 None,
         mkItem ''TAX'' ''IGST'' 1440 8000 (Some 1)]"
proof -
  obtain card where card: "resolveRateCard lane_tables (lane_input False d) ''INR'' 5 = Inr card" "rc_VersionID card = 10"
    using lane_card by blast
  have v: "validateInsuranceRequest (lane_input False d) = Inr ()"
    by (simp add: validateInsuranceRequest_def lane_defs)
  have z: "zr_MinChargeableWeightGrams (hd (zone_rates lane_tables)) = 500" by (simp add: lane_defs)
  obtain iq where i: "computeInquiryDiscount (lane_input False d) 9900 900
      = Inr (Some (iq, mkItem ''DISCOUNT'' ''INQUIRY_DISCOUNT'' (- 1000) 9000 None))" "id_AmountMinor iq = 1000"
    by (simp add: computeInquiryDiscount_def lane_defs d_def int_eval)
  have t: "computeTax lane_tables (lane_input False d) 5 8000 = Inr (1440, [mkItem ''TAX'' ''IGST'' 1440 8000 (Some 1)])"
    "computeTax lane_tables (lane_input False d) 5 9000 = Inr (1620, [mkItem ''TAX'' ''IGST'' 1620 9000 (Some 1)])"
    by (simp_all add: computeTax_def ListApplicableTaxRules_def tax_step_def int_eval lane_defs)
  have c: "in_At (lane_input False d) = None" "in_Currency (lane_input False d) = []" "in_Packages (lane_input False d) \<noteq> []"
    by (simp_all add: lane_defs)
  have w: "wrap64 900 = 900" "wrap64 9900 = 9900" "wrap64 1900 = 1900" "wrap64 8000 = 8000" "wrap64 9000 = 9000" "wrap64 9440 = 9440"
    by (simp_all add: width_defs)
  show ?thesis
    by (simp add: lane_steps lane_surcharges card v z i c w t finish_quote_def INR_def go_int)
qed

theorem inquiry_reconciles_witness:
  "\<exists>q iq. Engine_Quote ascii lane_tables 5
       (lane_input False (Some \<lparr>iq_DiscountType = ''FIXED'', iq_ValueMinor = Some 1000, iq_PercentageBP = None\<rparr>)) = Inr q
     \<and> q_InquiryDiscount q = Some iq \<and> id_OriginalTotalMinor iq = 10440 + id_TaxReductionMinor iq"
proof -
  let ?inp = "lane_input False (Some \<lparr>iq_DiscountType = ''FIXED'', iq_ValueMinor = Some 1000, iq_PercentageBP = None\<rparr>)"
  obtain q iq where q: "Engine_Quote ascii lane_tables 5 ?inp = Inr q" "q_InquiryDiscount q = Some iq" "q_TotalMinor q = 9440" "id_AmountMinor iq = 1000"
    and l: "q_LineItems q = [mkItem ''FREIGHT'' ''FREIGHT'' 9000 0 (Some 1), mkItem ''SURCHARGE'' ''FUEL'' 900 9000 (Some 1),
         mkItem ''DISCOUNT'' ''WELCOME'' (- 900) 9000 (Some 1), mkItem ''DISCOUNT'' ''INQUIRY_DISCOUNT'' (- 1000) 9000 None,
         mkItem ''TAX'' ''IGST'' 1440 8000 (Some 1)]"
    using lane_inquiry by blast
  have "\<forall>i \<in> set (q_LineItems q). li_Kind i = ''FREIGHT'' \<or> li_Kind i = ''SURCHARGE'' \<longrightarrow> 0 \<le> li_AmountMinor i"
    "amounts (filter (\<lambda>i. li_Kind i = ''FREIGHT'' \<or> li_Kind i = ''SURCHARGE'') (q_LineItems q)) \<le> 100000000000000" "tax_config_ok lane_tables"
    by (simp_all add: l tax_config_ok_def lane_defs)
  from inquiry_reconciles [OF q(1,2) this] q show ?thesis by auto
qed

end
