(* ===== verification/Transactions.thy ===== *)
theory Transactions
  imports Go_Prelude
begin

text \<open>
  \<^verbatim>\<open>internal/platform/database/database.go\<close>: running a function inside a database transaction, with
  the bounded retry after a serialization failure or a deadlock. The database is a state of any
  type. What the code cannot control is a record per attempt: the commits of other sessions
  before it, whether the transaction could be opened, how the commit ended and whether the
  request was cancelled. A panic of the function is an error that is rolled back and passed on.
\<close>

subsection \<open>Errors\<close>

record PgError =
  pg_Code :: string
  pg_ConstraintName :: string
  pg_Message :: string

text \<open>An error as \<^verbatim>\<open>errors.As\<close> and \<^verbatim>\<open>errors.Is\<close> see it through its wrappers.\<close>

datatype dberror =
    PgErr PgError
  | ErrNoRows
  | ApiErr apierr
  | CtxErr string
  | PanicErr string
  | OtherErr string

definition SQLStateUniqueViolation :: string where "SQLStateUniqueViolation = ''23505''"
definition SQLStateForeignKeyViolation :: string where "SQLStateForeignKeyViolation = ''23503''"
definition SQLStateCheckViolation :: string where "SQLStateCheckViolation = ''23514''"
definition SQLStateSerializationFail :: string where "SQLStateSerializationFail = ''40001''"
definition SQLStateDeadlockDetected :: string where "SQLStateDeadlockDetected = ''40P01''"
definition SQLStateRaiseException :: string where "SQLStateRaiseException = ''P0001''"

definition IsRetryable :: "dberror \<Rightarrow> bool" where
  "IsRetryable err = (case err of
     PgErr p \<Rightarrow> pg_Code p = SQLStateSerializationFail \<or> pg_Code p = SQLStateDeadlockDetected | _ \<Rightarrow> False)"

definition IsUniqueViolation :: "dberror \<Rightarrow> string list \<Rightarrow> bool" where
  "IsUniqueViolation err constraints = (case err of
     PgErr p \<Rightarrow> pg_Code p = SQLStateUniqueViolation
       \<and> (length constraints = 0 \<or> List.member constraints (pg_ConstraintName p)) | _ \<Rightarrow> False)"

definition IsForeignKeyViolation :: "dberror \<Rightarrow> string list \<Rightarrow> bool" where
  "IsForeignKeyViolation err constraints = (case err of
     PgErr p \<Rightarrow> pg_Code p = SQLStateForeignKeyViolation
       \<and> (length constraints = 0 \<or> List.member constraints (pg_ConstraintName p)) | _ \<Rightarrow> False)"

definition ConstraintName :: "dberror \<Rightarrow> string" where
  "ConstraintName err = (case err of PgErr p \<Rightarrow> pg_ConstraintName p | _ \<Rightarrow> '''')"

definition IsNoRows :: "dberror \<Rightarrow> bool" where
  "IsNoRows err \<longleftrightarrow> err = ErrNoRows"

definition RaisedMessage :: "dberror \<Rightarrow> string" where
  "RaisedMessage err = (case err of
     PgErr p \<Rightarrow> if pg_Code p = SQLStateRaiseException then pg_Message p else '''' | _ \<Rightarrow> '''')"

subsection \<open>One transaction\<close>

text \<open>
  A commit that fails may still have been applied by the server (the connection broke after it);
  the flag says so.
\<close>

datatype commit_end = Committed | CommitFailed dberror bool

record 's tx_world =
  w_others :: "'s \<Rightarrow> 's"
  w_begin :: "dberror option"
  w_commit :: commit_end
  w_cancelled :: bool
  w_done :: "dberror option"

definition runTx :: "'s tx_world \<Rightarrow> ('s \<Rightarrow> dberror + 's) \<Rightarrow> 's \<Rightarrow> dberror option \<times> 's" where
  "runTx w fn s =
     (let s0 = w_others w s
      in case w_begin w of
           Some err \<Rightarrow> (Some err, s0)
         | None \<Rightarrow>
             (case fn s0 of
                Inl err \<Rightarrow> (Some err, s0)
              | Inr s1 \<Rightarrow>
                  (case w_commit w of
                     Committed \<Rightarrow> (None, s1)
                   | CommitFailed err applied \<Rightarrow> (Some err, if applied then s1 else s0))))"

subsection \<open>Retries\<close>

definition maxAttempts :: nat where "maxAttempts = 3"

text \<open>The loop of \<^verbatim>\<open>InTxOpts\<close>, from attempt \<open>n\<close> on.\<close>

function tx_loop :: "(nat \<Rightarrow> 's tx_world) \<Rightarrow> ('s \<Rightarrow> dberror + 's) \<Rightarrow> nat \<Rightarrow> dberror option \<Rightarrow> 's \<Rightarrow> dberror option \<times> 's" where
  "tx_loop ws fn attempt lastErr s =
     (if attempt \<le> maxAttempts
      then (case runTx (ws attempt) fn s of
              (None, s') \<Rightarrow> (None, s')
            | (Some err, s') \<Rightarrow>
                if \<not> IsRetryable err \<or> attempt = maxAttempts \<or> w_cancelled (ws attempt) then (Some err, s')
                else (case w_done (ws attempt) of
                        Some cerr \<Rightarrow> (Some cerr, s')
                      | None \<Rightarrow> tx_loop ws fn (attempt + 1) (Some err) s'))
      else (lastErr, s))"
  by pat_completeness auto

termination tx_loop
  by (relation "measure (\<lambda>(ws, fn, attempt, lastErr, s). maxAttempts + 1 - attempt)") auto

declare tx_loop.simps [simp del]

definition InTxOpts :: "(nat \<Rightarrow> 's tx_world) \<Rightarrow> ('s \<Rightarrow> dberror + 's) \<Rightarrow> 's \<Rightarrow> dberror option \<times> 's" where
  "InTxOpts ws fn s = tx_loop ws fn 1 None s"

definition InTx :: "(nat \<Rightarrow> 's tx_world) \<Rightarrow> ('s \<Rightarrow> dberror + 's) \<Rightarrow> 's \<Rightarrow> dberror option \<times> 's" where
  "InTx ws fn s = InTxOpts ws fn s"

subsection \<open>At most one application\<close>

text \<open>What the other sessions alone do to the database up to the start of attempt \<open>n\<close>.\<close>

fun others_upto :: "(nat \<Rightarrow> 's tx_world) \<Rightarrow> nat \<Rightarrow> 's \<Rightarrow> 's" where
  "others_upto ws 0 s = s"
| "others_upto ws (Suc n) s = w_others (ws (Suc n)) (others_upto ws n s)"

text \<open>The server's promise: a transaction that ended in a serialization failure or a deadlock was
  rolled back.\<close>

definition retryable_rolled_back :: "(nat \<Rightarrow> 's tx_world) \<Rightarrow> bool" where
  "retryable_rolled_back ws \<longleftrightarrow> (\<forall>n err applied. w_commit (ws n) = CommitFailed err applied \<longrightarrow> IsRetryable err \<longrightarrow> \<not> applied)"

definition tx_outcome :: "(nat \<Rightarrow> 's tx_world) \<Rightarrow> ('s \<Rightarrow> dberror + 's) \<Rightarrow> 's \<Rightarrow> nat \<Rightarrow> dberror option \<times> 's \<Rightarrow> bool" where
  "tx_outcome ws fn s n r \<longleftrightarrow>
     (let pre = others_upto ws n s
      in case fst r of
           None \<Rightarrow> fn pre = Inr (snd r)
         | Some err \<Rightarrow> snd r = pre \<or> (w_commit (ws n) = CommitFailed err True \<and> fn pre = Inr (snd r)))"

lemma runTx_cases:
  assumes "runTx w fn s = (r, s')"
  obtains (ok) "r = None" "fn (w_others w s) = Inr s'"
    | (undone) err where "r = Some err" "s' = w_others w s"
    | (lost) err where "r = Some err" "w_commit w = CommitFailed err True" "fn (w_others w s) = Inr s'"
proof -
  have "r = None \<and> fn (w_others w s) = Inr s' \<or> (\<exists>err. r = Some err \<and> s' = w_others w s)
      \<or> (\<exists>err. r = Some err \<and> w_commit w = CommitFailed err True \<and> fn (w_others w s) = Inr s')"
    using assms unfolding runTx_def Let_def by (auto split: option.splits sum.splits commit_end.splits if_splits)
  then show thesis using ok undone lost by blast
qed

lemma tx_loop_outcome:
  assumes "retryable_rolled_back ws" "0 < n" "n \<le> maxAttempts" "s = others_upto ws (n - 1) s0"
  shows "\<exists>m. n \<le> m \<and> m \<le> maxAttempts \<and> tx_outcome ws fn s0 m (tx_loop ws fn n e s)"
  using assms
proof (induction ws fn n e s rule: tx_loop.induct)
  case (1 ws fn n e s)
  have pre: "w_others (ws n) s = others_upto ws n s0" using 1(3,5) by (cases n) simp_all
  obtain r s' where r: "runTx (ws n) fn s = (r, s')" by fastforce
  show ?case
  proof (cases "\<exists>err. r = Some err \<and> IsRetryable err \<and> n \<noteq> maxAttempts \<and> \<not> w_cancelled (ws n) \<and> w_done (ws n) = None")
    case True
    then obtain err where err: "r = Some err" "IsRetryable err" "n \<noteq> maxAttempts" "\<not> w_cancelled (ws n)" "w_done (ws n) = None"
      by blast
    have "s' = w_others (ws n) s"
      using r err(1,2) 1(2) by (auto elim!: runTx_cases simp: retryable_rolled_back_def)
    then have "\<exists>m. n + 1 \<le> m \<and> m \<le> maxAttempts \<and> tx_outcome ws fn s0 m (tx_loop ws fn (n + 1) (Some err) s')"
      using 1(1) [OF 1(4) r [unfolded err(1), symmetric]] 1(2,4) err pre by auto
    moreover have "tx_loop ws fn n e s = tx_loop ws fn (n + 1) (Some err) s'"
      using 1(4) r err by (subst tx_loop.simps) simp
    ultimately show ?thesis by (metis Suc_eq_plus1 Suc_leD)
  next
    case False
    then have final: "\<exists>r'. tx_loop ws fn n e s = (r', s') \<and> (r = None \<longleftrightarrow> r' = None) \<and> (r' = r \<or> (w_done (ws n) = r' \<and> (\<exists>err. r = Some err \<and> IsRetryable err)))"
      using 1(4) r by (subst tx_loop.simps) (auto split: option.splits)
    have "tx_outcome ws fn s0 n (tx_loop ws fn n e s)"
      using r final 1(2) by (auto elim!: runTx_cases simp: tx_outcome_def pre retryable_rolled_back_def)
    then show ?thesis using 1(4) by blast
  qed
qed

text \<open>
  C34: a transaction takes effect at most once. Whatever other sessions do between the attempts and however the
  attempts end, provided a commit that reports a serialization failure or a deadlock was rolled back,
  the call makes at most three attempts and returns; on success the function was applied exactly
  once, to the state at the start of the last attempt; on an error it was not applied, or the
  error is that of a commit whose outcome was lost.
\<close>

theorem InTx_at_most_once:
  assumes "retryable_rolled_back ws"
  shows "\<exists>n. 1 \<le> n \<and> n \<le> 3 \<and> tx_outcome ws fn s n (InTx ws fn s)"
  using tx_loop_outcome [OF assms, of 1 s s fn None] by (simp add: InTx_def InTxOpts_def maxAttempts_def)

definition serialization_failure :: dberror where
  "serialization_failure = PgErr \<lparr>pg_Code = ''40001'', pg_ConstraintName = '''', pg_Message = ''could not serialize access''\<rparr>"

text \<open>A first attempt that fails to serialize while another session adds ten, and a second that commits.\<close>

definition retry_world :: "nat \<Rightarrow> int tx_world" where
  "retry_world n = \<lparr>w_others = (if n = 1 then (\<lambda>x. x + 10) else id), w_begin = None,
     w_commit = (if n = 1 then CommitFailed serialization_failure False else Committed), w_cancelled = False, w_done = None\<rparr>"

theorem InTx_at_most_once_witness:
  "InTx retry_world (\<lambda>x. Inr (2 * x)) 1 = (None, 22) \<and> retryable_rolled_back retry_world
     \<and> (\<exists>n. 1 \<le> n \<and> n \<le> 3 \<and> tx_outcome retry_world (\<lambda>x. Inr (2 * x)) 1 n (InTx retry_world (\<lambda>x. Inr (2 * x)) 1))"
proof -
  have w: "retryable_rolled_back retry_world" by (simp add: retryable_rolled_back_def retry_world_def)
  have "InTx retry_world (\<lambda>x. Inr (2 * x)) 1 = (None, 22)"
    by (simp add: InTx_def InTxOpts_def tx_loop.simps runTx_def retry_world_def maxAttempts_def IsRetryable_def serialization_failure_def
        SQLStateSerializationFail_def)
  then show ?thesis using InTx_at_most_once [OF w, of "\<lambda>x. Inr (2 * x)" 1] w by blast
qed

end
