(* ===== verification/Idempotency.thy ===== *)
theory Idempotency
  imports Transactions "HOL-Library.Word"
begin

text \<open>
  \<^verbatim>\<open>internal/platform/idempotency/idempotency.go\<close>: running an operation at most once per idempotency
  key. The table of keys is a map; the business data beside it is of any type. \<open>Run\<close> is the code as one
  caller sees it. Since every database call of \<open>Run\<close> commits by itself and other requests act in
  between, the protocol is also a system of processes: one step per database call, any number of
  requests in any interleaving, crashes and the passing of time included. The digest
  (SHA-256) and the JSON encoding of a response are arguments.
\<close>

unbundle bit_operations_syntax

subsection \<open>Data\<close>

record IdemRequest =
  rq_OrganizationID :: int
  rq_UserID :: "int option"
  rq_Endpoint :: string
  rq_Key :: string
  rq_Body :: string
  rq_RequestID :: string

record IdemOutcome =
  oc_Status :: int
  oc_Body :: string
  oc_ResourceType :: string
  oc_ResourcePublicID :: string

record IdempotencyKey =
  ik_RequestHash :: "8 word list"
  ik_UserID :: "int option"
  ik_Status :: string
  ik_ResponseStatus :: "int option"
  ik_ResponseBody :: "string option"
  ik_ResourceType :: "string option"
  ik_ResourcePublicID :: "string option"
  ik_RequestID :: "string option"
  ik_CreatedAt :: int
  ik_CompletedAt :: "int option"
  ik_ExpiresAt :: int

type_synonym idem_key = "int \<times> string \<times> string"

record 'b IdemDB =
  idem_keys :: "idem_key \<Rightarrow> IdempotencyKey option"
  business :: 'b

definition key_of :: "IdemRequest \<Rightarrow> idem_key" where
  "key_of req = (rq_OrganizationID req, rq_Endpoint req, rq_Key req)"

text \<open>Times are in microseconds.\<close>

definition DefaultTTL :: int where "DefaultTTL = 24 * 60 * 60 * 1000000"
definition DefaultStaleAfter :: int where "DefaultStaleAfter = 2 * 60 * 1000000"

definition optionalString :: "string \<Rightarrow> string option" where
  "optionalString s = (if s = '''' then None else Some s)"

definition hashRequest :: "(string \<Rightarrow> 8 word list) \<Rightarrow> string \<Rightarrow> string \<Rightarrow> 8 word list" where
  "hashRequest sha256 endpoint body = sha256 (endpoint @ [char_of (0 :: nat)] @ body)"

definition equalDigest :: "8 word list \<Rightarrow> 8 word list \<Rightarrow> bool" where
  "equalDigest a b =
     (if length a \<noteq> length b then False
      else foldl (\<lambda>diff (x, y). diff OR (x XOR y)) 0 (zip a b) = 0)"

subsection \<open>Queries\<close>

definition check_violation :: "string \<Rightarrow> dberror" where
  "check_violation c = PgErr \<lparr>pg_Code = SQLStateCheckViolation, pg_ConstraintName = c, pg_Message = ''check''\<rparr>"

definition ClaimIdempotencyKey :: "int \<Rightarrow> IdemRequest \<Rightarrow> 8 word list \<Rightarrow> 'b IdemDB \<Rightarrow> dberror + 'b IdemDB" where
  "ClaimIdempotencyKey now req digest db =
     (if \<not> (8 \<le> rune_count (rq_Key req) \<and> rune_count (rq_Key req) \<le> 128) then Inl (check_violation ''idempotency_keys_idempotency_key_check'')
      else if length digest \<noteq> 32 then Inl (check_violation ''idempotency_keys_request_hash_check'')
      else case idem_keys db (key_of req) of
             Some _ \<Rightarrow> Inl ErrNoRows
           | None \<Rightarrow> Inr (db\<lparr>idem_keys := (idem_keys db)(key_of req \<mapsto>
               \<lparr>ik_RequestHash = digest, ik_UserID = rq_UserID req, ik_Status = ''IN_PROGRESS'', ik_ResponseStatus = None,
                ik_ResponseBody = None, ik_ResourceType = None, ik_ResourcePublicID = None,
                ik_RequestID = optionalString (rq_RequestID req), ik_CreatedAt = now, ik_CompletedAt = None,
                ik_ExpiresAt = now + DefaultTTL\<rparr>)\<rparr>))"

definition TakeOverStaleIdempotencyKey :: "int \<Rightarrow> IdemRequest \<Rightarrow> 'b IdemDB \<Rightarrow> dberror + 'b IdemDB" where
  "TakeOverStaleIdempotencyKey now req db =
     (case idem_keys db (key_of req) of
        None \<Rightarrow> Inl ErrNoRows
      | Some row \<Rightarrow>
          if ik_Status row = ''IN_PROGRESS'' \<and> ik_CreatedAt row < now - DefaultStaleAfter
          then Inr (db\<lparr>idem_keys := (idem_keys db)(key_of req \<mapsto>
                 row\<lparr>ik_CreatedAt := now, ik_RequestID := optionalString (rq_RequestID req), ik_UserID := rq_UserID req\<rparr>)\<rparr>)
          else Inl ErrNoRows)"

definition GetIdempotencyKey :: "IdemRequest \<Rightarrow> 'b IdemDB \<Rightarrow> dberror + IdempotencyKey" where
  "GetIdempotencyKey req db = (case idem_keys db (key_of req) of None \<Rightarrow> Inl ErrNoRows | Some row \<Rightarrow> Inr row)"

text \<open>An update that matches no row is not an error.\<close>

definition CompleteIdempotencyKey :: "int \<Rightarrow> IdemRequest \<Rightarrow> int \<Rightarrow> string \<Rightarrow> string option \<Rightarrow> string option \<Rightarrow> 'b IdemDB
    \<Rightarrow> dberror + 'b IdemDB" where
  "CompleteIdempotencyKey now req status body rtype rid db =
     (case idem_keys db (key_of req) of
        None \<Rightarrow> Inr db
      | Some row \<Rightarrow>
          if \<not> (100 \<le> status \<and> status \<le> 599) then Inl (check_violation ''idempotency_keys_response_status_check'')
          else Inr (db\<lparr>idem_keys := (idem_keys db)(key_of req \<mapsto>
                 row\<lparr>ik_Status := ''COMPLETED'', ik_ResponseStatus := Some status, ik_ResponseBody := Some body,
                     ik_ResourceType := rtype, ik_ResourcePublicID := rid, ik_CompletedAt := Some now\<rparr>)\<rparr>))"

definition FailIdempotencyKey :: "IdemRequest \<Rightarrow> 'b IdemDB \<Rightarrow> 'b IdemDB" where
  "FailIdempotencyKey req db =
     (case idem_keys db (key_of req) of
        None \<Rightarrow> db
      | Some row \<Rightarrow> if ik_Status row = ''IN_PROGRESS'' then db\<lparr>idem_keys := (idem_keys db)(key_of req := None)\<rparr> else db)"

definition PurgeExpired :: "int \<Rightarrow> 'b IdemDB \<Rightarrow> 'b IdemDB" where
  "PurgeExpired now db = db\<lparr>idem_keys := (\<lambda>k. case idem_keys db k of None \<Rightarrow> None
     | Some row \<Rightarrow> if ik_ExpiresAt row < now then None else Some row)\<rparr>"

subsection \<open>The executor\<close>

type_synonym 'b operation = "'b \<Rightarrow> dberror + ('b \<times> IdemOutcome)"

definition claim :: "(string \<Rightarrow> 8 word list) \<Rightarrow> int \<Rightarrow> IdemRequest \<Rightarrow> 'b IdemDB \<Rightarrow> (dberror + bool) \<times> 'b IdemDB" where
  "claim sha256 now req db =
     (case ClaimIdempotencyKey now req (hashRequest sha256 (rq_Endpoint req) (rq_Body req)) db of
        Inr db' \<Rightarrow> (Inr True, db')
      | Inl err \<Rightarrow>
          if \<not> IsNoRows err then (Inl (ApiErr Internal), db)
          else (case TakeOverStaleIdempotencyKey now req db of
                  Inr db' \<Rightarrow> (Inr True, db')
                | Inl takeErr \<Rightarrow> if \<not> IsNoRows takeErr then (Inl (ApiErr Internal), db) else (Inr False, db)))"

definition replay :: "(string \<Rightarrow> 8 word list) \<Rightarrow> IdemRequest \<Rightarrow> 'b IdemDB \<Rightarrow> dberror + IdemOutcome \<times> bool" where
  "replay sha256 req db =
     (case GetIdempotencyKey req db of
        Inl err \<Rightarrow> if IsNoRows err then Inl (ApiErr (Conflict ''IDEMPOTENCY_IN_PROGRESS'')) else Inl (ApiErr Internal)
      | Inr rec \<Rightarrow>
          if \<not> equalDigest (ik_RequestHash rec) (hashRequest sha256 (rq_Endpoint req) (rq_Body req))
          then Inl (ApiErr (Conflict ''IDEMPOTENCY_KEY_REUSED''))
          else if ik_Status rec = ''COMPLETED''
          then Inr (\<lparr>oc_Status = (case ik_ResponseStatus rec of None \<Rightarrow> 200 | Some st \<Rightarrow> st),
                     oc_Body = (case ik_ResponseBody rec of None \<Rightarrow> '''' | Some b \<Rightarrow> b),
                     oc_ResourceType = (case ik_ResourceType rec of None \<Rightarrow> '''' | Some t \<Rightarrow> t),
                     oc_ResourcePublicID = (case ik_ResourcePublicID rec of None \<Rightarrow> '''' | Some i \<Rightarrow> i)\<rparr>, True)
          else Inl (ApiErr (Conflict ''IDEMPOTENCY_IN_PROGRESS'')))"

text \<open>The function \<open>runOnce\<close> hands to the transaction; the captured variable \<open>out\<close> is part of the state.\<close>

definition run_body :: "(string \<Rightarrow> string option) \<Rightarrow> int \<Rightarrow> IdemRequest option \<Rightarrow> 'b operation
    \<Rightarrow> 'b IdemDB \<times> IdemOutcome \<Rightarrow> dberror + ('b IdemDB \<times> IdemOutcome)" where
  "run_body marshal now req op st =
     (case op (business (fst st)) of
        Inl opErr \<Rightarrow> Inl opErr
      | Inr (b, out) \<Rightarrow>
          let db = (fst st)\<lparr>business := b\<rparr>
          in case req of
               None \<Rightarrow> Inr (db, out)
             | Some r \<Rightarrow>
                 if rq_Key r = '''' then Inr (db, out)
                 else (case marshal (oc_Body out) of
                         None \<Rightarrow> Inl (ApiErr Internal)
                       | Some body \<Rightarrow>
                           (case CompleteIdempotencyKey now r (wrap32 (oc_Status out)) body
                                   (optionalString (oc_ResourceType out)) (optionalString (oc_ResourcePublicID out)) db of
                              Inl err \<Rightarrow> Inl err
                            | Inr db' \<Rightarrow> Inr (db', out))))"

definition zero_outcome :: IdemOutcome where
  "zero_outcome = \<lparr>oc_Status = 0, oc_Body = '''', oc_ResourceType = '''', oc_ResourcePublicID = ''''\<rparr>"

definition runOnce :: "(string \<Rightarrow> string option) \<Rightarrow> int \<Rightarrow> (nat \<Rightarrow> ('b IdemDB \<times> IdemOutcome) tx_world) \<Rightarrow> IdemRequest option
    \<Rightarrow> 'b operation \<Rightarrow> 'b IdemDB \<Rightarrow> (dberror + IdemOutcome) \<times> 'b IdemDB" where
  "runOnce marshal now ws req op db =
     (case InTx ws (run_body marshal now req op) (db, zero_outcome) of
        (None, db', out) \<Rightarrow> (Inr out, db')
      | (Some err, db', out) \<Rightarrow> (Inl err, db'))"

definition Run :: "(string \<Rightarrow> 8 word list) \<Rightarrow> (string \<Rightarrow> string option) \<Rightarrow> int \<Rightarrow> (nat \<Rightarrow> ('b IdemDB \<times> IdemOutcome) tx_world)
    \<Rightarrow> IdemRequest \<Rightarrow> dberror option \<Rightarrow> 'b operation \<Rightarrow> 'b IdemDB \<Rightarrow> (dberror + IdemOutcome \<times> bool) \<times> 'b IdemDB" where
  "Run sha256 marshal now ws req prepare op db =
     (if rq_Key req = ''''
      then (case prepare of
              Some err \<Rightarrow> (Inl err, db)
            | None \<Rightarrow> (case runOnce marshal now ws None op db of
                        (Inl err, db') \<Rightarrow> (Inl err, db') | (Inr out, db') \<Rightarrow> (Inr (out, False), db')))
      else (case claim sha256 now req db of
              (Inl err, db1) \<Rightarrow> (Inl err, db1)
            | (Inr claimed, db1) \<Rightarrow>
                if \<not> claimed then (replay sha256 req db1, db1)
                else (case prepare of
                        Some err \<Rightarrow> (Inl err, FailIdempotencyKey req db1)
                      | None \<Rightarrow> (case runOnce marshal now ws (Some req) op db1 of
                                  (Inl err, db2) \<Rightarrow> (Inl err, FailIdempotencyKey req db2)
                                | (Inr out, db2) \<Rightarrow> (Inr (out, False), db2)))))"

subsection \<open>Processes\<close>

text \<open>
  Where a request stands between two database calls. \<open>AtRun n\<close> is before attempt \<open>n\<close> of the transaction.
\<close>

datatype idem_pc =
    AtClaim
  | AtTakeOver
  | AtReplay
  | AtPrepare
  | AtRun nat
  | AtRelease dberror
  | Returned "dberror + IdemOutcome \<times> bool"
  | Crashed

text \<open>
  One call of a process: its next place, the database, and the outcome if this call applied the
  operation. The worlds \<open>ws\<close> say how each attempt of the transaction ends, \<open>prepare\<close> what preparation gives.
\<close>

definition applied :: "'s tx_world \<Rightarrow> ('s \<Rightarrow> dberror + 's) \<Rightarrow> 's \<Rightarrow> bool" where
  "applied w fn s \<longleftrightarrow> w_begin w = None \<and> (case fn (w_others w s) of Inl _ \<Rightarrow> False | Inr _ \<Rightarrow>
     (case w_commit w of Committed \<Rightarrow> True | CommitFailed err app \<Rightarrow> app))"

definition proc_step :: "(string \<Rightarrow> 8 word list) \<Rightarrow> (string \<Rightarrow> string option) \<Rightarrow> int \<Rightarrow> (nat \<Rightarrow> ('b IdemDB \<times> IdemOutcome) tx_world)
    \<Rightarrow> dberror option \<Rightarrow> IdemRequest \<Rightarrow> 'b operation \<Rightarrow> idem_pc \<Rightarrow> 'b IdemDB \<Rightarrow> idem_pc \<times> 'b IdemDB \<times> IdemOutcome option" where
  "proc_step sha256 marshal now ws prepare req op pc db =
     (case pc of
        AtClaim \<Rightarrow>
          (case ClaimIdempotencyKey now req (hashRequest sha256 (rq_Endpoint req) (rq_Body req)) db of
             Inr db' \<Rightarrow> (AtPrepare, db', None)
           | Inl err \<Rightarrow> (if IsNoRows err then AtTakeOver else Returned (Inl (ApiErr Internal)), db, None))
      | AtTakeOver \<Rightarrow>
          (case TakeOverStaleIdempotencyKey now req db of
             Inr db' \<Rightarrow> (AtPrepare, db', None)
           | Inl err \<Rightarrow> (if IsNoRows err then AtReplay else Returned (Inl (ApiErr Internal)), db, None))
      | AtReplay \<Rightarrow> (Returned (replay sha256 req db), db, None)
      | AtPrepare \<Rightarrow> (case prepare of None \<Rightarrow> (AtRun 1, db, None) | Some err \<Rightarrow> (AtRelease err, db, None))
      | AtRun n \<Rightarrow>
          (let fn = run_body marshal now (Some req) op;
               r = runTx (ws n) fn (db, zero_outcome);
               out = snd (snd r)
           in (case fst r of
                 None \<Rightarrow> Returned (Inr (out, False))
               | Some err \<Rightarrow>
                   if \<not> IsRetryable err \<or> n = maxAttempts \<or> w_cancelled (ws n) then AtRelease err
                   else (case w_done (ws n) of Some cerr \<Rightarrow> AtRelease cerr | None \<Rightarrow> AtRun (n + 1)),
               fst (snd r),
               if applied (ws n) fn (db, zero_outcome) then Some out else None))
      | AtRelease err \<Rightarrow> (Returned (Inl err), FailIdempotencyKey req db, None)
      | Returned r \<Rightarrow> (Returned r, db, None)
      | Crashed \<Rightarrow> (Crashed, db, None))"

text \<open>
  The system: the requests \<open>rq\<close> and operations \<open>ops\<close> of the processes are fixed, the log records the
  processes whose operation was applied. A takeover is allowed by the code whenever the row
  is stale; with \<open>abandoned\<close> the relation only contains those where no other process still works
  on the key, which is what the comment on the query assumes of a stale row.
\<close>

record 'b idem_sys =
  sys_db :: "'b IdemDB"
  sys_pc :: "nat \<Rightarrow> idem_pc"
  sys_now :: int
  sys_log :: "(nat \<times> IdemOutcome) list"

fun working :: "idem_pc \<Rightarrow> bool" where
  "working AtPrepare = True"
| "working (AtRun n) = True"
| "working (AtRelease e) = True"
| "working _ = False"

definition world_ok :: "(nat \<Rightarrow> 's tx_world) \<Rightarrow> bool" where
  "world_ok ws \<longleftrightarrow> retryable_rolled_back ws \<and> (\<forall>n. w_others (ws n) = id)"

inductive idem_step :: "bool \<Rightarrow> (string \<Rightarrow> 8 word list) \<Rightarrow> (string \<Rightarrow> string option) \<Rightarrow> (nat \<Rightarrow> IdemRequest) \<Rightarrow> (nat \<Rightarrow> 'b operation)
    \<Rightarrow> 'b idem_sys \<Rightarrow> 'b idem_sys \<Rightarrow> bool"
  for abandoned sha256 marshal rq ops where
  tick: "sys_now s \<le> t \<Longrightarrow> idem_step abandoned sha256 marshal rq ops s (s\<lparr>sys_now := t\<rparr>)"
| crash: "idem_step abandoned sha256 marshal rq ops s (s\<lparr>sys_pc := (sys_pc s)(p := Crashed)\<rparr>)"
| proc: "world_ok ws \<Longrightarrow>
    proc_step sha256 marshal (sys_now s) ws prepare (rq p) (ops p) (sys_pc s p) (sys_db s) = (pc', db', done) \<Longrightarrow>
    (abandoned \<and> sys_pc s p = AtTakeOver \<and> pc' = AtPrepare \<longrightarrow>
       (\<forall>q. q \<noteq> p \<longrightarrow> key_of (rq q) = key_of (rq p) \<longrightarrow> \<not> working (sys_pc s q))) \<Longrightarrow>
    idem_step abandoned sha256 marshal rq ops s
      (s\<lparr>sys_pc := (sys_pc s)(p := pc'), sys_db := db',
         sys_log := sys_log s @ (case done of None \<Rightarrow> [] | Some out \<Rightarrow> [(p, out)])\<rparr>)"

definition idem_start :: "'b idem_sys \<Rightarrow> bool" where
  "idem_start s \<longleftrightarrow> idem_keys (sys_db s) = Map.empty \<and> sys_pc s = (\<lambda>p. AtClaim) \<and> sys_log s = []"

definition applied_for :: "(nat \<Rightarrow> IdemRequest) \<Rightarrow> 'b idem_sys \<Rightarrow> idem_key \<Rightarrow> (nat \<times> IdemOutcome) list" where
  "applied_for rq s k = filter (\<lambda>(p, out). key_of (rq p) = k) (sys_log s)"

subsection \<open>What the calls do to the row of a key\<close>

lemma equalDigest_eq: "equalDigest a b \<longleftrightarrow> a = b"
proof -
  have z: "x OR y = 0 \<longleftrightarrow> x = 0 \<and> y = 0" for x y :: "8 word" by (rule or_eq_0_iff)
  have x: "x XOR y = 0 \<longleftrightarrow> x = y" for x y :: "8 word" by (auto simp: bit_eq_iff bit_xor_iff)
  have "length a = length b \<Longrightarrow> foldl (\<lambda>diff (x, y). diff OR (x XOR y)) d (zip a b) = 0 \<longleftrightarrow> d = 0 \<and> a = b" for d
    by (induction a b arbitrary: d rule: list_induct2) (auto simp: z x)
  then show ?thesis by (auto simp: equalDigest_def)
qed

text \<open>A completed row records an outcome; \<open>replayed\<close> is the answer later callers get for it.\<close>

definition recorded :: "(string \<Rightarrow> string option) \<Rightarrow> IdemOutcome \<Rightarrow> IdempotencyKey \<Rightarrow> bool" where
  "recorded marshal out row \<longleftrightarrow> ik_Status row = ''COMPLETED'' \<and> ik_ResponseStatus row = Some (wrap32 (oc_Status out))
     \<and> marshal (oc_Body out) \<noteq> None \<and> ik_ResponseBody row = marshal (oc_Body out)
     \<and> ik_ResourceType row = optionalString (oc_ResourceType out)
     \<and> ik_ResourcePublicID row = optionalString (oc_ResourcePublicID out)"

definition replayed :: "(string \<Rightarrow> string option) \<Rightarrow> IdemOutcome \<Rightarrow> IdemOutcome" where
  "replayed marshal out = out\<lparr>oc_Status := wrap32 (oc_Status out),
     oc_Body := (case marshal (oc_Body out) of None \<Rightarrow> '''' | Some b \<Rightarrow> b)\<rparr>"

lemma replay_recorded:
  assumes "replay sha256 req db = Inr (out', b)"
  obtains row where "idem_keys db (key_of req) = Some row" "ik_Status row = ''COMPLETED''" "b"
    "\<And>out. recorded marshal out row \<Longrightarrow> out' = replayed marshal out"
    "ik_RequestHash row = hashRequest sha256 (rq_Endpoint req) (rq_Body req)"
proof -
  let ?out = "\<lambda>row. \<lparr>oc_Status = (case ik_ResponseStatus row of None \<Rightarrow> 200 | Some st \<Rightarrow> st),
       oc_Body = (case ik_ResponseBody row of None \<Rightarrow> [] | Some b \<Rightarrow> b),
       oc_ResourceType = (case ik_ResourceType row of None \<Rightarrow> [] | Some t \<Rightarrow> t),
       oc_ResourcePublicID = (case ik_ResourcePublicID row of None \<Rightarrow> [] | Some i \<Rightarrow> i)\<rparr>"
  from assms obtain row where row: "idem_keys db (key_of req) = Some row" "ik_Status row = ''COMPLETED''" "b" "out' = ?out row"
    "ik_RequestHash row = hashRequest sha256 (rq_Endpoint req) (rq_Body req)"
    unfolding replay_def GetIdempotencyKey_def equalDigest_eq
    by (cases "idem_keys db (key_of req)") (auto split: if_splits)
  have "?out row = replayed marshal out" if "recorded marshal out row" for out
    using that by (cases out) (auto simp: recorded_def replayed_def optionalString_def split: option.splits if_splits)
  then show thesis using row by (intro that [of row]) simp_all
qed

text \<open>The change of a key's row, by the place of the process that makes the call.\<close>

lemma run_body_row:
  assumes "run_body marshal now (Some req) op (db, z) = Inr (db', out)" "rq_Key req \<noteq> ''''"
    and "idem_keys db (key_of req) = Some row"
  shows "\<exists>row'. idem_keys db' = (idem_keys db)(key_of req \<mapsto> row') \<and> recorded marshal out row'
    \<and> ik_RequestHash row' = ik_RequestHash row"
  using assms
  by (auto simp: run_body_def Let_def CompleteIdempotencyKey_def recorded_def split: sum.splits option.splits if_splits prod.splits)

lemma runTx_applied:
  assumes "runTx w fn s = (r, s')" "w_others w = id"
  shows "if applied w fn s then fn s = Inr s' else s' = s \<and> r \<noteq> None"
  using assms by (cases "w_begin w"; cases "fn s"; cases "w_commit w") (auto simp: runTx_def applied_def Let_def split: if_splits dest: sym)

lemma ClaimIdempotencyKey_row:
  assumes "ClaimIdempotencyKey now req digest db = Inr db'"
  shows "idem_keys db (key_of req) = None" "rq_Key req \<noteq> ''''"
    "\<exists>row. idem_keys db' = (idem_keys db)(key_of req \<mapsto> row) \<and> ik_Status row = ''IN_PROGRESS''"
  using assms by (auto simp: ClaimIdempotencyKey_def rune_count_def split: if_splits option.splits)

lemma proc_step_cases:
  assumes "proc_step sha256 marshal now ws prepare req op pc db = (pc', db', app)" and "world_ok ws"
  obtains
    (claim) "pc = AtClaim" "pc' = AtPrepare" "app = None" "idem_keys db (key_of req) = None" "rq_Key req \<noteq> ''''"
      "\<exists>row. idem_keys db' = (idem_keys db)(key_of req \<mapsto> row) \<and> ik_Status row = ''IN_PROGRESS''"
  | (takeover) row row' where "pc = AtTakeOver" "pc' = AtPrepare" "app = None" "idem_keys db (key_of req) = Some row"
      "ik_Status row = ''IN_PROGRESS''" "idem_keys db' = (idem_keys db)(key_of req \<mapsto> row')" "ik_Status row' = ''IN_PROGRESS''"
  | (move) "db' = db" "app = None" "working pc' \<longrightarrow> working pc" "\<forall>out. pc' \<noteq> Returned (Inr (out, True))"
      "pc' = AtPrepare \<or> (\<exists>n. pc' = AtRun n) \<longrightarrow> pc = AtPrepare \<or> (\<exists>n. pc = AtRun n)"
  | (replay) "db' = db" "app = None" "pc = AtReplay" "pc' = Returned (replay sha256 req db)"
  | (run) n out where "pc = AtRun n" "app = Some out" "run_body marshal now (Some req) op (db, zero_outcome) = Inr (db', out)"
      "\<not> (pc' = AtPrepare \<or> (\<exists>n. pc' = AtRun n))" "\<forall>out. pc' \<noteq> Returned (Inr (out, True))"
  | (release) err where "pc = AtRelease err" "pc' = Returned (Inl err)" "app = None" "db' = FailIdempotencyKey req db"
  | (idle) "pc' = pc" "\<not> working pc" "db' = db" "app = None"
proof (cases pc)
  case AtClaim
  then show thesis
    using assms(1) claim move ClaimIdempotencyKey_row [of now req "hashRequest sha256 (rq_Endpoint req) (rq_Body req)" db]
    by (auto simp: proc_step_def split: if_splits sum.splits)
next
  case AtTakeOver
  then show thesis
    using assms(1) takeover move
    by (auto simp: proc_step_def TakeOverStaleIdempotencyKey_def IsNoRows_def split: if_splits option.splits)
next
  case AtReplay
  then show thesis using assms(1) replay by (auto simp: proc_step_def)
next
  case AtPrepare
  then show thesis using assms(1) move by (auto simp: proc_step_def split: option.splits)
next
  case (AtRun n)
  let ?fn = "run_body marshal now (Some req) op"
  obtain r db1 out where r: "runTx (ws n) ?fn (db, zero_outcome) = (r, db1, out)" by (metis prod_cases3)
  have w: "w_others (ws n) = id" "retryable_rolled_back ws" using assms(2) by (simp_all add: world_ok_def)
  note a = runTx_applied [OF r w(1)]
  have step: "db' = db1" "app = (if applied (ws n) ?fn (db, zero_outcome) then Some out else None)"
    "pc' = (case r of None \<Rightarrow> Returned (Inr (out, False))
       | Some err \<Rightarrow> if \<not> IsRetryable err \<or> n = maxAttempts \<or> w_cancelled (ws n) then AtRelease err
                     else (case w_done (ws n) of Some cerr \<Rightarrow> AtRelease cerr | None \<Rightarrow> AtRun (n + 1)))"
    using assms(1) unfolding AtRun proc_step_def idem_pc.case Let_def r fst_conv snd_conv by simp_all
  show thesis
  proof (cases "applied (ws n) ?fn (db, zero_outcome)")
    case True
    then have b: "?fn (db, zero_outcome) = Inr (db1, out)" using a by simp
    have "\<not> IsRetryable err" if "r = Some err" for err
      using r that True w by (auto simp: applied_def runTx_def Let_def retryable_rolled_back_def split: option.splits sum.splits commit_end.splits)
    then show thesis using run [OF AtRun, of out] step True b by (auto split: option.splits)
  next
    case False
    then have "db1 = db" "r \<noteq> None" using a by auto
    then show thesis using move step False AtRun by (auto split: option.splits)
  qed
next
  case (AtRelease e)
  then show thesis using assms(1) release by (auto simp: proc_step_def)
next
  case (Returned x7)
  then show thesis using assms(1) idle by (auto simp: proc_step_def)
next
  case Crashed
  then show thesis using assms(1) idle by (auto simp: proc_step_def)
qed

subsection \<open>The protocol invariant\<close>

text \<open>
  Of one key, with the places \<open>pl\<close> of its processes, its row and what was applied for it: at most one
  process works on it; while one does the row exists, and until its operation is applied the row is
  in progress; nothing was applied before the row is completed, and a completed row records the
  one outcome that was.
\<close>

fun fresh :: "idem_pc \<Rightarrow> bool" where
  "fresh AtPrepare = True"
| "fresh (AtRun n) = True"
| "fresh _ = False"

definition row_inv :: "(string \<Rightarrow> string option) \<Rightarrow> idem_key \<Rightarrow> IdempotencyKey option \<Rightarrow> (nat \<times> IdemOutcome) list \<Rightarrow> bool" where
  "row_inv marshal k row app = (case row of
     None \<Rightarrow> app = []
   | Some r \<Rightarrow> snd (snd k) \<noteq> '''' \<and> (ik_Status r = ''IN_PROGRESS'' \<and> app = []
       \<or> (\<exists>p out. app = [(p, out)] \<and> recorded marshal out r)))"

definition key_inv :: "(string \<Rightarrow> string option) \<Rightarrow> idem_key \<Rightarrow> (nat \<Rightarrow> idem_pc) \<Rightarrow> IdempotencyKey option \<Rightarrow> (nat \<times> IdemOutcome) list \<Rightarrow> bool" where
  "key_inv marshal k pl row app \<longleftrightarrow>
     (\<forall>p q. working (pl p) \<longrightarrow> working (pl q) \<longrightarrow> p = q)
     \<and> (\<forall>p. working (pl p) \<longrightarrow> row \<noteq> None)
     \<and> (\<forall>p r. fresh (pl p) \<longrightarrow> row = Some r \<longrightarrow> ik_Status r = ''IN_PROGRESS'')
     \<and> row_inv marshal k row app"

definition place :: "(nat \<Rightarrow> IdemRequest) \<Rightarrow> idem_key \<Rightarrow> (nat \<Rightarrow> idem_pc) \<Rightarrow> nat \<Rightarrow> idem_pc" where
  "place rq k pcs p = (if key_of (rq p) = k then pcs p else Crashed)"

text \<open>Every answer marked as a replay is the recorded answer of an applied operation of its key.\<close>

definition replay_inv :: "(string \<Rightarrow> string option) \<Rightarrow> (nat \<Rightarrow> IdemRequest) \<Rightarrow> 'b idem_sys \<Rightarrow> bool" where
  "replay_inv marshal rq s \<longleftrightarrow> (\<forall>p out'. sys_pc s p = Returned (Inr (out', True)) \<longrightarrow>
     (\<exists>q out. (q, out) \<in> set (applied_for rq s (key_of (rq p))) \<and> out' = replayed marshal out))"

definition idem_inv :: "(string \<Rightarrow> string option) \<Rightarrow> (nat \<Rightarrow> IdemRequest) \<Rightarrow> 'b idem_sys \<Rightarrow> bool" where
  "idem_inv marshal rq s \<longleftrightarrow>
     (\<forall>k. key_inv marshal k (place rq k (sys_pc s)) (idem_keys (sys_db s) k) (applied_for rq s k)) \<and> replay_inv marshal rq s"

lemma idem_inv_start: "idem_start s \<Longrightarrow> idem_inv marshal rq s"
  by (simp add: idem_start_def idem_inv_def key_inv_def row_inv_def place_def replay_inv_def applied_for_def)

lemma fresh_working: "fresh pc \<Longrightarrow> working pc"
  by (cases pc) simp_all

lemma key_inv_retire:
  assumes "key_inv marshal k pl row app" "working pc' \<longrightarrow> working (pl p)" "fresh pc' \<longrightarrow> fresh (pl p)"
  shows "key_inv marshal k (pl(p := pc')) row app"
  using assms unfolding key_inv_def by (metis fun_upd_apply)

lemma key_inv_claim:
  assumes "key_inv marshal k pl row app" "row = None \<or> (\<forall>q. q \<noteq> p \<longrightarrow> \<not> working (pl q))"
    and "row_inv marshal k (Some r) app" "ik_Status r = ''IN_PROGRESS''"
  shows "key_inv marshal k (pl(p := AtPrepare)) (Some r) app"
proof -
  have "\<not> working (pl q)" if "q \<noteq> p" for q using assms(1,2) that unfolding key_inv_def by blast
  then show ?thesis using assms(3,4) by (auto simp: key_inv_def)
qed

lemma key_inv_apply:
  assumes "key_inv marshal k pl (Some r) app" "fresh (pl p)" "recorded marshal out r'" "\<not> fresh pc'"
  shows "key_inv marshal k (pl(p := pc')) (Some r') (app @ [(p, out)])"
proof -
  have p: "\<not> working (pl q)" if "q \<noteq> p" for q
    using assms(1,2) that fresh_working unfolding key_inv_def by blast
  have "ik_Status r = ''IN_PROGRESS''" using assms(1,2) unfolding key_inv_def by blast
  then have "app = []" "snd (snd k) \<noteq> ''''" using assms(1) by (auto simp: key_inv_def row_inv_def recorded_def)
  then have "row_inv marshal k (Some r') (app @ [(p, out)])" using assms(3) by (simp add: row_inv_def)
  moreover have "\<not> fresh ((pl(p := pc')) q)" for q using p assms(4) fresh_working by (metis fun_upd_apply)
  ultimately show ?thesis using p unfolding key_inv_def by (metis fun_upd_apply option.distinct(1))
qed

lemma key_inv_release:
  assumes "key_inv marshal k pl row app" "working (pl p)" "\<not> working pc'"
    and "row' = (case row of None \<Rightarrow> None | Some r \<Rightarrow> if ik_Status r = ''IN_PROGRESS'' then None else Some r)"
  shows "key_inv marshal k (pl(p := pc')) row' app"
proof -
  have p: "\<not> working (pl q)" if "q \<noteq> p" for q using assms(1,2) that unfolding key_inv_def by metis
  have "row_inv marshal k row' app"
    using assms(1,4) by (auto simp: key_inv_def row_inv_def recorded_def split: option.splits)
  moreover have "\<not> working ((pl(p := pc')) q)" for q using p assms(3) by simp
  ultimately show ?thesis using fresh_working unfolding key_inv_def by blast
qed

lemma proc_step_frame:
  assumes "proc_step sha256 marshal now ws prepare req op pc db = (pc', db', app)" "world_ok ws" "k \<noteq> key_of req"
  shows "idem_keys db' k = idem_keys db k"
  using assms(1,2)
proof (cases rule: proc_step_cases)
  case (run n out)
  then show ?thesis
    using assms(3) by (auto simp: run_body_def Let_def CompleteIdempotencyKey_def split: sum.splits option.splits if_splits prod.splits)
next
  case (release err)
  then show ?thesis using assms(3) by (auto simp: FailIdempotencyKey_def split: option.splits)
qed (use assms(3) in auto)

lemma idem_inv_step:
  assumes "idem_step True sha256 marshal rq ops s s'" "idem_inv marshal rq s"
  shows "idem_inv marshal rq s'"
  using assms(1)
proof cases
  case (tick t)
  then show ?thesis using assms(2) by (simp add: idem_inv_def replay_inv_def applied_for_def)
next
  case (crash p)
  have "place rq k (sys_pc s') = (place rq k (sys_pc s))(p := Crashed)" for k
    by (auto simp: crash place_def fun_eq_iff)
  moreover have "applied_for rq s' = applied_for rq s" by (simp add: crash applied_for_def fun_eq_iff)
  ultimately show ?thesis using assms(2) unfolding idem_inv_def replay_inv_def
    by (auto simp: crash intro!: key_inv_retire)
next
  case (proc ws prepare p pc' db' app)
  let ?k = "key_of (rq p)"
  have inv: "key_inv marshal k (place rq k (sys_pc s)) (idem_keys (sys_db s) k) (applied_for rq s k)" for k
    using assms(2) unfolding idem_inv_def by blast
  have here: "place rq ?k (sys_pc s) p = sys_pc s p" by (simp add: place_def)
  have pl: "place rq k (sys_pc s') = (if k = ?k then (place rq k (sys_pc s))(p := pc') else place rq k (sys_pc s))" for k
    by (auto simp: proc(1) place_def fun_eq_iff)
  have ap: "applied_for rq s' k = applied_for rq s k @ (case app of None \<Rightarrow> [] | Some out \<Rightarrow> if k = ?k then [(p, out)] else [])" for k
    by (auto simp: proc(1) applied_for_def split: option.splits)
  have own: "key_inv marshal ?k ((place rq ?k (sys_pc s))(p := pc')) (idem_keys db' ?k) (applied_for rq s' ?k)"
    using proc(3,2)
  proof (cases rule: proc_step_cases)
    case claim
    then obtain r where r: "idem_keys db' ?k = Some r" "ik_Status r = ''IN_PROGRESS''" by auto
    have "applied_for rq s ?k = []" using inv [of ?k] claim(4) by (simp add: key_inv_def row_inv_def)
    then have "row_inv marshal ?k (Some r) (applied_for rq s' ?k)"
      using r claim(3,5) by (simp add: row_inv_def ap key_of_def)
    then show ?thesis using key_inv_claim [OF inv [of ?k], of p r] claim r by (simp add: ap)
  next
    case (takeover row row')
    have free: "\<forall>q. q \<noteq> p \<longrightarrow> \<not> working (place rq ?k (sys_pc s) q)"
      using proc(4) takeover(1,2) by (auto simp: place_def)
    have "row_inv marshal ?k (Some row') (applied_for rq s ?k)"
      using inv [of ?k] takeover by (auto simp: key_inv_def row_inv_def recorded_def)
    then show ?thesis using key_inv_claim [OF inv [of ?k], of p row'] free takeover by (simp add: ap)
  next
    case move
    have "fresh pc' \<longrightarrow> fresh (sys_pc s p)" using move(5) by (cases pc') auto
    then show ?thesis using key_inv_retire [OF inv [of ?k], of pc' p] move here by (simp add: ap)
  next
    case replay
    then show ?thesis using key_inv_retire [OF inv [of ?k], of pc' p] here by (simp add: ap)
  next
    case (run n out)
    have f: "fresh (place rq ?k (sys_pc s) p)" using run(1) here by simp
    then obtain r where r: "idem_keys (sys_db s) ?k = Some r" "snd (snd ?k) \<noteq> []"
      using inv [of ?k] fresh_working unfolding key_inv_def row_inv_def by (auto split: option.splits)
    obtain r' where "idem_keys db' = (idem_keys (sys_db s))(?k \<mapsto> r')" "recorded marshal out r'"
      using run_body_row [OF run(3) _ r(1)] r(2) by (auto simp: key_of_def)
    moreover have "\<not> fresh pc'" using run(4) by (cases pc') auto
    ultimately show ?thesis using key_inv_apply [OF inv [of ?k, unfolded r(1)] f] run(2) by (simp add: ap)
  next
    case (release err)
    have "idem_keys db' ?k = (case idem_keys (sys_db s) ?k of None \<Rightarrow> None | Some r \<Rightarrow> if ik_Status r = ''IN_PROGRESS'' then None else Some r)"
      by (simp add: release(4) FailIdempotencyKey_def split: option.splits)
    then show ?thesis using key_inv_release [OF inv [of ?k], of p pc'] release here by (simp add: ap)
  next
    case idle
    then show ?thesis using inv [of ?k] here by (simp add: ap fun_upd_idem)
  qed
  have main: "key_inv marshal k (place rq k (sys_pc s')) (idem_keys db' k) (applied_for rq s' k)" for k
    using own inv [of k] proc_step_frame [OF proc(3,2), of k] by (auto simp: pl ap split: option.splits)
  have "replay_inv marshal rq s'"
    unfolding replay_inv_def
  proof (intro allI impI)
    fix q out'
    assume q: "sys_pc s' q = Returned (Inr (out', True))"
    have mono: "set (applied_for rq s k) \<subseteq> set (applied_for rq s' k)" for k by (simp add: ap)
    show "\<exists>q' out. (q', out) \<in> set (applied_for rq s' (key_of (rq q))) \<and> out' = replayed marshal out"
    proof (cases "sys_pc s q = Returned (Inr (out', True))")
      case True
      then show ?thesis using assms(2) mono unfolding idem_inv_def replay_inv_def by blast
    next
      case False
      then have "q = p" "pc' = Returned (Inr (out', True))" using q by (auto simp: proc(1) split: if_splits)
      from proc(3,2) have rep: "replay sha256 (rq p) (sys_db s) = Inr (out', True)" "app = None"
        by (cases rule: proc_step_cases; use \<open>pc' = _\<close> False \<open>q = p\<close> in auto)+
      then obtain row where row: "idem_keys (sys_db s) ?k = Some row" "ik_Status row = ''COMPLETED''"
        "\<And>out. recorded marshal out row \<Longrightarrow> out' = replayed marshal out"
        by (elim replay_recorded) blast
      then obtain q' out where "applied_for rq s ?k = [(q', out)]" "recorded marshal out row"
        using inv [of ?k] by (auto simp: key_inv_def row_inv_def)
      then show ?thesis using row(3) rep(2) by (auto simp: ap \<open>q = p\<close>)
    qed
  qed
  then show ?thesis using main by (simp add: idem_inv_def proc(1))
qed

lemma idem_inv_reachable:
  "(idem_step True sha256 marshal rq ops)\<^sup>*\<^sup>* s0 s \<Longrightarrow> idem_start s0 \<Longrightarrow> idem_inv marshal rq s"
  by (induction rule: rtranclp_induct) (auto intro: idem_inv_start idem_inv_step)

subsection \<open>One process alone is \<open>Run\<close>\<close>

text \<open>A process driven for a number of calls, with no other process in between.\<close>

fun drive :: "nat \<Rightarrow> (string \<Rightarrow> 8 word list) \<Rightarrow> (string \<Rightarrow> string option) \<Rightarrow> int \<Rightarrow> (nat \<Rightarrow> ('b IdemDB \<times> IdemOutcome) tx_world)
    \<Rightarrow> dberror option \<Rightarrow> IdemRequest \<Rightarrow> 'b operation \<Rightarrow> idem_pc \<times> 'b IdemDB \<Rightarrow> idem_pc \<times> 'b IdemDB" where
  "drive 0 sha256 marshal now ws prepare req op st = st"
| "drive (Suc k) sha256 marshal now ws prepare req op st =
     (let (pc', db', app) = proc_step sha256 marshal now ws prepare req op (fst st) (snd st)
      in drive k sha256 marshal now ws prepare req op (pc', db'))"

lemma drive_returned: "drive k sha256 marshal now ws prepare req op (Returned r, db) = (Returned r, db)"
  by (induction k) (simp_all add: proc_step_def)

lemma drive_release:
  "drive (Suc k) sha256 marshal now ws prepare req op (AtRelease err, db) = (Returned (Inl err), FailIdempotencyKey req db)"
  by (simp add: proc_step_def drive_returned)

lemma drive_add: "drive (a + b) sha256 marshal now ws prepare req op st
    = drive b sha256 marshal now ws prepare req op (drive a sha256 marshal now ws prepare req op st)"
  by (induction a arbitrary: st) (simp_all add: Let_def split: prod.split)

text \<open>The worlds act on the database only, not on the captured variable.\<close>

definition worlds_on_db :: "(nat \<Rightarrow> ('d \<times> 'o) tx_world) \<Rightarrow> bool" where
  "worlds_on_db ws \<longleftrightarrow> (\<forall>n. \<exists>f. w_others (ws n) = map_prod f id)"

lemma runTx_captured:
  assumes "w_others w = map_prod f id" "\<And>db a b. fn (db, a) = fn (db, b)"
    and "runTx w fn (db, a) = (r, db1, out1)" "runTx w fn (db, b) = (r2, db2, out2)"
  shows "r2 = r \<and> db2 = db1 \<and> (r = None \<longrightarrow> out2 = out1)"
  using assms(3,4) assms(2) [of "f db" a b]
  by (auto simp: runTx_def Let_def assms(1) split: option.splits sum.splits commit_end.splits if_splits)

definition finish :: "IdemRequest \<Rightarrow> dberror option \<times> 'b IdemDB \<times> IdemOutcome \<Rightarrow> idem_pc \<times> 'b IdemDB" where
  "finish req r = (case r of (None, db, out) \<Rightarrow> (Returned (Inr (out, False)), db)
     | (Some err, db, out) \<Rightarrow> (Returned (Inl err), FailIdempotencyKey req db))"

lemma drive_run:
  assumes w: "worlds_on_db ws" and n: "0 < n" "n \<le> maxAttempts"
  shows "drive (Suc (maxAttempts + 1 - n)) sha256 marshal now ws prepare req op (AtRun n, db)
    = finish req (tx_loop ws (run_body marshal now (Some req) op) n e (db, out))"
  using n
proof (induction "maxAttempts - n" arbitrary: n e db out rule: less_induct)
  case less
  let ?fn = "run_body marshal now (Some req) op"
  have ignore: "?fn (d, a) = ?fn (d, b)" for d a b unfolding run_body_def fst_conv by (rule refl)
  obtain r db1 out1 where r: "runTx (ws n) ?fn (db, out) = (r, db1, out1)" by (metis prod_cases3)
  obtain r2 db2 out2 where r2: "runTx (ws n) ?fn (db, zero_outcome) = (r2, db2, out2)" by (metis prod_cases3)
  obtain f where f: "w_others (ws n) = map_prod f id" using w unfolding worlds_on_db_def by blast
  have eq: "r2 = r" "db2 = db1" "r = None \<longrightarrow> out2 = out1" using runTx_captured [OF f ignore r r2] by simp_all
  define pc' where "pc' = (case r of None \<Rightarrow> Returned (Inr (out2, False))
       | Some err \<Rightarrow> if \<not> IsRetryable err \<or> n = maxAttempts \<or> w_cancelled (ws n) then AtRelease err
                     else (case w_done (ws n) of Some cerr \<Rightarrow> AtRelease cerr | None \<Rightarrow> AtRun (n + 1)))"
  have "\<exists>app. proc_step sha256 marshal now ws prepare req op (AtRun n) db = (pc', db1, app)"
    unfolding proc_step_def idem_pc.case Let_def r2 fst_conv snd_conv eq pc'_def by simp
  then have step: "drive (Suc (maxAttempts + 1 - n)) sha256 marshal now ws prepare req op (AtRun n, db)
      = drive (maxAttempts + 1 - n) sha256 marshal now ws prepare req op (pc', db1)"
    by auto
  obtain k where k: "maxAttempts + 1 - n = Suc k" using less.prems by (metis Suc_diff_le Suc_eq_plus1)
  show ?case
  proof (cases "\<exists>err. r = Some err \<and> IsRetryable err \<and> n \<noteq> maxAttempts \<and> \<not> w_cancelled (ws n) \<and> w_done (ws n) = None")
    case True
    then obtain err where err: "r = Some err" "IsRetryable err" "n \<noteq> maxAttempts" "\<not> w_cancelled (ws n)" "w_done (ws n) = None"
      by blast
    have "tx_loop ws ?fn n e (db, out) = tx_loop ws ?fn (n + 1) (Some err) (db1, out1)"
      using less.prems r err by (subst tx_loop.simps) simp
    moreover have "drive (Suc (maxAttempts + 1 - (n + 1))) sha256 marshal now ws prepare req op (AtRun (n + 1), db1)
        = finish req (tx_loop ws ?fn (n + 1) (Some err) (db1, out1))"
      using less.prems err(3) by (intro less.hyps) simp_all
    moreover have "Suc (maxAttempts + 1 - (n + 1)) = maxAttempts + 1 - n" using less.prems by simp
    moreover have "pc' = AtRun (n + 1)" using err by (simp add: pc'_def)
    ultimately show ?thesis using step by (simp only:)
  next
    case False
    then have "finish req (tx_loop ws ?fn n e (db, out)) = drive (Suc k) sha256 marshal now ws prepare req op (pc', db1)"
      using less.prems r eq
      by (subst tx_loop.simps) (auto simp: pc'_def finish_def drive_returned drive_release simp del: drive.simps split: option.splits)
    then show ?thesis using step k by simp
  qed
qed

text \<open>
  C33: the process model refines the executor. A request with a key, driven alone for seven database calls
  from its start, returns exactly what \<open>Run\<close> returns and leaves the database \<open>Run\<close> leaves, whatever
  the attempts of its transaction meet.
\<close>

theorem Run_driven:
  assumes "rq_Key req \<noteq> ''''" "worlds_on_db ws"
  shows "drive 7 sha256 marshal now ws prepare req op (AtClaim, db)
    = (Returned (fst (Run sha256 marshal now ws req prepare op db)), snd (Run sha256 marshal now ws req prepare op db))"
proof -
  let ?d = "\<lambda>k. drive k sha256 marshal now ws prepare req op" and ?fn = "run_body marshal now (Some req) op"
  have run: "?d (4 + k) (AtRun 1, d) = finish req (InTx ws ?fn (d, zero_outcome))" for d k
  proof -
    have "?d 4 (AtRun 1, d) = finish req (tx_loop ws ?fn 1 None (d, zero_outcome))"
      using drive_run [OF assms(2), of 1 sha256 marshal now prepare req op d None zero_outcome] by (simp add: maxAttempts_def eval_nat_numeral)
    then show ?thesis
      by (simp add: drive_add InTx_def InTxOpts_def finish_def drive_returned split: prod.splits option.splits)
  qed
  have prep: "?d (5 + k) (AtPrepare, d) = (case prepare of Some err \<Rightarrow> (Returned (Inl err), FailIdempotencyKey req d)
      | None \<Rightarrow> finish req (InTx ws ?fn (d, zero_outcome)))" for d k
  proof (cases prepare)
    case None
    then have "?d (Suc (4 + k)) (AtPrepare, d) = ?d (4 + k) (AtRun 1, d)"
      unfolding drive.simps proc_step_def by simp
    then show ?thesis using run [of k d] None by simp
  next
    case (Some err)
    then have "?d (Suc (Suc (3 + k))) (AtPrepare, d) = ?d (Suc (3 + k)) (AtRelease err, d)"
      unfolding drive.simps proc_step_def by simp
    then show ?thesis unfolding drive_release using Some by simp
  qed
  have once: "(case runOnce marshal now ws (Some req) op d of
        (Inl err, db2) \<Rightarrow> (Inl err, FailIdempotencyKey req db2) | (Inr out, db2) \<Rightarrow> (Inr (out, False), db2)) = (r, d')
      \<longleftrightarrow> finish req (InTx ws ?fn (d, zero_outcome)) = (Returned r, d')" for d r d'
    by (auto simp: runOnce_def finish_def split: prod.splits option.splits)
  let ?R = "Run sha256 marshal now ws req prepare op db"
  let ?after = "\<lambda>d. case prepare of Some err \<Rightarrow> (Inl err, FailIdempotencyKey req d)
      | None \<Rightarrow> (case runOnce marshal now ws (Some req) op d of
          (Inl err, db2) \<Rightarrow> (Inl err, FailIdempotencyKey req db2) | (Inr out, db2) \<Rightarrow> (Inr (out, False), db2))"
  have after: "?d (5 + k) (AtPrepare, d) = (Returned (fst (?after d)), snd (?after d))" for d k
    unfolding prep using once [of d, THEN iffD1, OF prod.collapse [symmetric]] by (cases prepare) simp_all
  have "?d (Suc 4) (AtReplay, db) = (Returned (replay sha256 req db), db)"
    unfolding drive.simps proc_step_def by (simp add: drive_returned)
  then have r: "?d 5 (AtReplay, db) = (Returned (replay sha256 req db), db)" by simp
  show ?thesis
  proof (cases "ClaimIdempotencyKey now req (hashRequest sha256 (rq_Endpoint req) (rq_Body req)) db")
    case (Inr d)
    have "?d (Suc 6) (AtClaim, db) = ?d 6 (AtPrepare, d)" unfolding drive.simps proc_step_def using Inr by simp
    moreover have "?R = ?after d" using assms(1) Inr by (simp add: Run_def claim_def split: option.split)
    ultimately show ?thesis using after [of 1 d] by simp
  next
    case (Inl err)
    show ?thesis
    proof (cases "IsNoRows err")
      case False
      have "?d (Suc 6) (AtClaim, db) = (Returned (Inl (ApiErr Internal)), db)" unfolding drive.simps proc_step_def using Inl False by (simp add: drive_returned)
      moreover have "?R = (Inl (ApiErr Internal), db)" using assms(1) Inl False by (simp add: Run_def claim_def)
      ultimately show ?thesis by simp
    next
      case no: True
      have t: "?d (Suc 6) (AtClaim, db) = ?d 6 (AtTakeOver, db)" unfolding drive.simps proc_step_def using Inl no by simp
      show ?thesis
      proof (cases "TakeOverStaleIdempotencyKey now req db")
        case (Inr d)
        have "?d (Suc 5) (AtTakeOver, db) = ?d 5 (AtPrepare, d)" unfolding drive.simps proc_step_def using Inr by simp
        moreover have "?R = ?after d" using assms(1) Inl no Inr by (simp add: Run_def claim_def split: option.split)
        ultimately show ?thesis using t after [of 0 d] by simp
      next
        case err2: (Inl e2)
        then have "IsNoRows e2" by (auto simp: TakeOverStaleIdempotencyKey_def IsNoRows_def split: option.splits if_splits)
        then have "?d (Suc 5) (AtTakeOver, db) = ?d 5 (AtReplay, db)" unfolding drive.simps proc_step_def using err2 by simp
        moreover have "?R = (replay sha256 req db, db)" using assms(1) Inl no err2 \<open>IsNoRows e2\<close> by (simp add: Run_def claim_def)
        ultimately show ?thesis using t r by simp
      qed
    qed
  qed
qed

subsection \<open>Schedules\<close>

text \<open>Executable runs of the system, in which every transaction commits.\<close>

datatype action = Go nat | Wait int | Kill nat

definition calm :: "nat \<Rightarrow> 's tx_world" where
  "calm n = \<lparr>w_others = id, w_begin = None, w_commit = Committed, w_cancelled = False, w_done = None\<rparr>"

definition go :: "(string \<Rightarrow> 8 word list) \<Rightarrow> (string \<Rightarrow> string option) \<Rightarrow> (nat \<Rightarrow> IdemRequest) \<Rightarrow> (nat \<Rightarrow> 'b operation) \<Rightarrow> nat \<Rightarrow> 'b idem_sys \<Rightarrow> 'b idem_sys" where
  "go sha256 marshal rq ops p s =
     (case proc_step sha256 marshal (sys_now s) calm None (rq p) (ops p) (sys_pc s p) (sys_db s) of
        (pc', db', app) \<Rightarrow> s\<lparr>sys_pc := (sys_pc s)(p := pc'), sys_db := db',
           sys_log := sys_log s @ (case app of None \<Rightarrow> [] | Some out \<Rightarrow> [(p, out)])\<rparr>)"

fun act :: "(string \<Rightarrow> 8 word list) \<Rightarrow> (string \<Rightarrow> string option) \<Rightarrow> (nat \<Rightarrow> IdemRequest) \<Rightarrow> (nat \<Rightarrow> 'b operation) \<Rightarrow> action \<Rightarrow> 'b idem_sys \<Rightarrow> 'b idem_sys" where
  "act sha256 marshal rq ops (Go p) s = go sha256 marshal rq ops p s"
| "act sha256 marshal rq ops (Wait d) s = s\<lparr>sys_now := sys_now s + \<bar>d\<bar>\<rparr>"
| "act sha256 marshal rq ops (Kill p) s = s\<lparr>sys_pc := (sys_pc s)(p := Crashed)\<rparr>"

text \<open>The processes of a schedule, all others crashed: then it is decidable whether a takeover is one of an abandoned row.\<close>

definition may_go :: "bool \<Rightarrow> (nat \<Rightarrow> IdemRequest) \<Rightarrow> nat \<Rightarrow> 'b idem_sys \<Rightarrow> bool" where
  "may_go abandoned rq p s \<longleftrightarrow> (abandoned \<and> sys_pc s p = AtTakeOver \<longrightarrow>
     (\<forall>q. q \<noteq> p \<longrightarrow> key_of (rq q) = key_of (rq p) \<longrightarrow> \<not> working (sys_pc s q)))"

lemma act_step:
  assumes "\<And>p. a = Go p \<Longrightarrow> may_go abandoned rq p s"
  shows "idem_step abandoned sha256 marshal rq ops s (act sha256 marshal rq ops a s)"
proof (cases a)
  case (Go p)
  obtain pc' db' app where r: "proc_step sha256 marshal (sys_now s) calm None (rq p) (ops p) (sys_pc s p) (sys_db s) = (pc', db', app)"
    by (metis prod_cases3)
  have "world_ok calm" by (simp add: world_ok_def retryable_rolled_back_def calm_def)
  then have "idem_step abandoned sha256 marshal rq ops s (s\<lparr>sys_pc := (sys_pc s)(p := pc'), sys_db := db',
         sys_log := sys_log s @ (case app of None \<Rightarrow> [] | Some out \<Rightarrow> [(p, out)])\<rparr>)"
    using r assms [OF Go] by (intro idem_step.proc) (auto simp: may_go_def)
  then show ?thesis by (simp add: Go go_def r)
next
  case (Wait d)
  then show ?thesis using idem_step.tick [of s "sys_now s + \<bar>d\<bar>"] by simp
next
  case (Kill p)
  then show ?thesis using idem_step.crash by simp
qed

text \<open>A schedule is admissible when each of its calls may go where it comes.\<close>

fun admissible :: "bool \<Rightarrow> (string \<Rightarrow> 8 word list) \<Rightarrow> (string \<Rightarrow> string option) \<Rightarrow> (nat \<Rightarrow> IdemRequest) \<Rightarrow> (nat \<Rightarrow> 'b operation)
    \<Rightarrow> action list \<Rightarrow> 'b idem_sys \<Rightarrow> bool" where
  "admissible abandoned sha256 marshal rq ops [] s \<longleftrightarrow> True"
| "admissible abandoned sha256 marshal rq ops (a # as) s \<longleftrightarrow>
     (case a of Go p \<Rightarrow> may_go abandoned rq p s | _ \<Rightarrow> True)
     \<and> admissible abandoned sha256 marshal rq ops as (act sha256 marshal rq ops a s)"

lemma admissible_reaches:
  "admissible abandoned sha256 marshal rq ops as s \<Longrightarrow>
   (idem_step abandoned sha256 marshal rq ops)\<^sup>*\<^sup>* s (fold (act sha256 marshal rq ops) as s)"
proof (induction as arbitrary: s)
  case (Cons a as)
  then have "idem_step abandoned sha256 marshal rq ops s (act sha256 marshal rq ops a s)" by (intro act_step) auto
  with Cons show ?case by (auto intro: converse_rtranclp_into_rtranclp)
qed simp


subsection \<open>An example\<close>

text \<open>Three requests for one key that book a shipment each; the second has another payload.\<close>

definition booking :: "nat \<Rightarrow> IdemRequest" where
  "booking p = \<lparr>rq_OrganizationID = 1, rq_UserID = None, rq_Endpoint = ''book'', rq_Key = ''key-0001'',
     rq_Body = (if p = 1 then ''other'' else ''one''), rq_RequestID = ''''\<rparr>"

definition book_op :: "nat \<Rightarrow> nat operation" where
  "book_op p n = Inr (n + 1, \<lparr>oc_Status = 201, oc_Body = (if p = 1 then ''B1'' else ''B''), oc_ResourceType = '''', oc_ResourcePublicID = ''''\<rparr>)"

definition toy_digest :: "string \<Rightarrow> 8 word list" where
  "toy_digest s = replicate 32 (if length s = 8 then 1 else 0)"

definition fresh_sys :: "nat idem_sys" where
  "fresh_sys = \<lparr>sys_db = \<lparr>idem_keys = Map.empty, business = 0\<rparr>, sys_pc = (\<lambda>p. AtClaim), sys_now = 0, sys_log = []\<rparr>"

definition runs :: "action list \<Rightarrow> nat idem_sys" where
  "runs as = fold (act toy_digest Some booking book_op) as fresh_sys"

definition the_key :: idem_key where
  "the_key = (1, ''book'', ''key-0001'')"

lemma fresh_start: "idem_start fresh_sys"
  by (simp add: idem_start_def fresh_sys_def)

lemmas protocol_eval = runs_def go_def proc_step_def fresh_sys_def calm_def booking_def book_op_def key_of_def ClaimIdempotencyKey_def
  TakeOverStaleIdempotencyKey_def CompleteIdempotencyKey_def FailIdempotencyKey_def GetIdempotencyKey_def runTx_def run_body_def applied_def replay_def
  rune_count_def hashRequest_def toy_digest_def equalDigest_eq optionalString_def IsNoRows_def DefaultStaleAfter_def DefaultTTL_def
  zero_outcome_def wrap32_def applied_for_def Let_def may_go_def the_key_def








text \<open>
  C31: an operation is applied at most once per idempotency key, and retries get its answer. For any number of
  concurrent requests, in any interleaving of their database calls, with crashes, failed and lost commits:
  if a stale reservation is only taken over when no other process still works on the key, at
  most one operation per key is ever applied, and every answer marked as a replay is the
  recorded answer of that operation.
\<close>

theorem idempotent_once:
  assumes "idem_start s0" "(idem_step True sha256 marshal rq ops)\<^sup>*\<^sup>* s0 s"
  shows "length (applied_for rq s k) \<le> 1
    \<and> (\<forall>p out'. sys_pc s p = Returned (Inr (out', True)) \<longrightarrow>
         (\<exists>q out. applied_for rq s (key_of (rq p)) = [(q, out)] \<and> out' = replayed marshal out))"
proof -
  have inv: "idem_inv marshal rq s" using idem_inv_reachable assms by blast
  then have one: "length (applied_for rq s k) \<le> 1" for k
  proof -
    have "row_inv marshal k (idem_keys (sys_db s) k) (applied_for rq s k)"
      using inv unfolding idem_inv_def key_inv_def by blast
    then show ?thesis by (auto simp: row_inv_def split: option.splits)
  qed
  have "\<exists>q out. applied_for rq s (key_of (rq p)) = [(q, out)] \<and> out' = replayed marshal out"
    if "sys_pc s p = Returned (Inr (out', True))" for p out'
  proof -
    obtain q out where q: "(q, out) \<in> set (applied_for rq s (key_of (rq p)))" "out' = replayed marshal out"
      using inv \<open>sys_pc s p = _\<close> unfolding idem_inv_def replay_inv_def by blast
    then show ?thesis using one [of "key_of (rq p)"] by (cases "applied_for rq s (key_of (rq p))") auto
  qed
  then show ?thesis using one by blast
qed

theorem idempotent_once_witness:
  "length (applied_for booking (runs [Go 0, Go 2, Go 0, Go 0, Go 2, Go 2]) the_key) \<le> 1
     \<and> business (sys_db (runs [Go 0, Go 2, Go 0, Go 0, Go 2, Go 2])) = 1
     \<and> (\<exists>q out. applied_for booking (runs [Go 0, Go 2, Go 0, Go 0, Go 2, Go 2]) the_key = [(q, out)] \<and> oc_Body (replayed Some out) = ''B'')"
proof -
  let ?as = "[Go 0, Go 2, Go 0, Go 0, Go 2, Go 2]"
  have "admissible True toy_digest Some booking book_op ?as fresh_sys" by (simp add: protocol_eval)
  then have r: "(idem_step True toy_digest Some booking book_op)\<^sup>*\<^sup>* fresh_sys (runs ?as)"
    unfolding runs_def by (rule admissible_reaches)
  have b: "business (sys_db (runs ?as)) = 1"
    and p: "sys_pc (runs ?as) 2 = Returned (Inr (\<lparr>oc_Status = 201, oc_Body = ''B'', oc_ResourceType = '''', oc_ResourcePublicID = ''''\<rparr>, True))"
    and k: "key_of (booking 2) = the_key"
    by (simp_all add: protocol_eval)
  note once = idempotent_once [OF fresh_start r, of the_key]
  then obtain q out where "applied_for booking (runs ?as) the_key = [(q, out)]"
    "\<lparr>oc_Status = 201, oc_Body = ''B'', oc_ResourceType = [], oc_ResourcePublicID = []\<rparr> = replayed Some out"
    using p k by metis
  then show ?thesis using once b by (metis IdemOutcome.select_convs(2))
qed


theorem Run_driven_witness:
  "drive 7 toy_digest Some 5 calm None (booking 0) (book_op 0) (AtClaim, sys_db fresh_sys)
    = (Returned (fst (Run toy_digest Some 5 calm (booking 0) None (book_op 0) (sys_db fresh_sys))),
       snd (Run toy_digest Some 5 calm (booking 0) None (book_op 0) (sys_db fresh_sys)))"
proof (rule Run_driven)
  show "worlds_on_db (calm :: nat \<Rightarrow> (nat IdemDB \<times> IdemOutcome) tx_world)"
    by (simp add: worlds_on_db_def calm_def) (metis map_prod.id)
qed (simp add: booking_def)

end
