(* ===== verification/Jobs.thy ===== *)
theory Jobs
  imports Transactions
begin

text \<open>
  \<^verbatim>\<open>internal/platform/jobs/jobs.go\<close>: the background job queue on a database table. The table is a list of
  rows; each query is one atomic update of it. A handler is an argument: what it returns for a
  claimed job. Times are in microseconds, durations in nanoseconds as in Go. Logging and metrics are
  left out, as is the polling loop, which repeats \<open>claim_jobs\<close>, \<open>execute\<close> and \<open>reclaimStuck\<close>.
\<close>

subsection \<open>Data\<close>

record JobRow =
  jb_ID :: int
  jb_PublicID :: string
  jb_OrganizationID :: "int option"
  jb_Queue :: string
  jb_Type :: string
  jb_Payload :: string
  jb_Status :: string
  jb_Priority :: int
  jb_RunAt :: int
  jb_Attempts :: int
  jb_MaxAttempts :: int
  jb_LastError :: "string option"
  jb_ErrorCount :: int
  jb_DedupeKey :: "string option"
  jb_LockedAt :: "int option"
  jb_LockedBy :: "string option"
  jb_StartedAt :: "int option"
  jb_CompletedAt :: "int option"
  jb_CreatedBy :: "int option"

record JobDB =
  job_rows :: "JobRow list"
  next_job :: int

text \<open>The part of a row a handler sees.\<close>

record Job =
  job_ID :: int
  job_PublicID :: string
  job_OrganizationID :: "int option"
  job_Queue :: string
  job_Type :: string
  job_Payload :: string
  job_Attempts :: int
  job_MaxAttempts :: int

text \<open>An error a handler returns: its text, whether it wraps \<^verbatim>\<open>ErrPermanent\<close>, and the interval of a wrapped \<^verbatim>\<open>RetryAfter\<close>.\<close>

record job_error =
  je_Error :: string
  je_Permanent :: bool
  je_RetryAfter :: "int option"

record EnqueueOptions =
  eo_Queue :: string
  eo_OrganizationID :: "int option"
  eo_Priority :: int
  eo_RunAt :: "int option"
  eo_MaxAttempts :: int
  eo_DedupeKey :: string
  eo_CreatedBy :: "int option"

definition RetryAfter :: "int \<Rightarrow> job_error option \<Rightarrow> job_error option" where
  "RetryAfter after cause = (case cause of
     None \<Rightarrow> None
   | Some e \<Rightarrow> if after \<le> 0 then Some e else Some (e\<lparr>je_RetryAfter := Some after\<rparr>))"

definition retryIntervalOf :: "job_error \<Rightarrow> int option" where
  "retryIntervalOf err = je_RetryAfter err"

subsection \<open>Queries\<close>

definition live :: "JobRow \<Rightarrow> bool" where
  "live r \<longleftrightarrow> jb_Status r = ''PENDING'' \<or> jb_Status r = ''RUNNING''"

text \<open>Rows that clash on the partial unique index \<^verbatim>\<open>jobs_dedupe_idx\<close>.\<close>

definition dedupe_clash :: "JobRow \<Rightarrow> JobRow \<Rightarrow> bool" where
  "dedupe_clash r r' \<longleftrightarrow> jb_DedupeKey r \<noteq> None \<and> jb_DedupeKey r = jb_DedupeKey r' \<and> live r \<and> live r' \<and> jb_ID r \<noteq> jb_ID r'"

definition lower :: "char \<Rightarrow> bool" where
  "lower c \<longleftrightarrow> 97 \<le> (of_char c :: nat) \<and> (of_char c :: nat) \<le> 122"

definition queue_ok :: "string \<Rightarrow> bool" where
  "queue_ok q = (case q of [] \<Rightarrow> False | c # cs \<Rightarrow> lower c \<and> length cs \<le> 31
     \<and> list_all (\<lambda>d. lower d \<or> is_digit d \<or> d = CHR ''_'' \<or> d = CHR ''-'') cs)"

text \<open>\<^verbatim>\<open>^[a-z][a-z0-9_]*(\.[a-z][a-z0-9_]*)*$\<close>; the flag says whether a segment is open.\<close>

fun job_type_from :: "bool \<Rightarrow> string \<Rightarrow> bool" where
  "job_type_from seg [] = seg"
| "job_type_from seg (c # cs) =
     (if seg then (if lower c \<or> is_digit c \<or> c = CHR ''_'' then job_type_from True cs
                   else if c = CHR ''.'' then job_type_from False cs else False)
      else lower c \<and> job_type_from True cs)"

definition job_constraints :: "JobRow \<Rightarrow> bool" where
  "job_constraints r \<longleftrightarrow> queue_ok (jb_Queue r) \<and> job_type_from False (jb_Type r) \<and> 0 \<le> jb_Priority r \<and> jb_Priority r \<le> 1000
     \<and> 0 \<le> jb_Attempts r \<and> 1 \<le> jb_MaxAttempts r \<and> jb_MaxAttempts r \<le> 50"

definition EnqueueJob :: "JobRow \<Rightarrow> JobDB \<Rightarrow> dberror + (JobRow \<times> JobDB)" where
  "EnqueueJob r db =
     (let row = r\<lparr>jb_ID := next_job db\<rparr>
      in if \<not> job_constraints row then Inl (PgErr \<lparr>pg_Code = SQLStateCheckViolation, pg_ConstraintName = ''jobs'', pg_Message = ''check''\<rparr>)
         else if list_ex (dedupe_clash row) (job_rows db) then Inl ErrNoRows
         else Inr (row, db\<lparr>job_rows := job_rows db @ [row], next_job := next_job db + 1\<rparr>))"

definition due :: "int \<Rightarrow> string list \<Rightarrow> JobRow \<Rightarrow> bool" where
  "due now queues r \<longleftrightarrow> jb_Status r = ''PENDING'' \<and> jb_RunAt r \<le> now \<and> List.member queues (jb_Queue r)"

text \<open>\<^verbatim>\<open>FOR UPDATE SKIP LOCKED\<close>: the rows another transaction has locked are \<open>locked\<close>.\<close>

definition claim_order :: "JobRow list \<Rightarrow> JobRow list" where
  "claim_order rs = sort_key jb_Priority (sort_key jb_RunAt (sort_key jb_ID rs))"

definition claimed_ids :: "int \<Rightarrow> string list \<Rightarrow> int \<Rightarrow> (int \<Rightarrow> bool) \<Rightarrow> JobDB \<Rightarrow> int list" where
  "claimed_ids now queues maxJobs locked db =
     map jb_ID (take (nat maxJobs) (claim_order (filter (\<lambda>r. due now queues r \<and> \<not> locked (jb_ID r)) (job_rows db))))"

definition start :: "int \<Rightarrow> string \<Rightarrow> JobRow \<Rightarrow> JobRow" where
  "start now worker r = r\<lparr>jb_Status := ''RUNNING'', jb_Attempts := jb_Attempts r + 1, jb_LockedAt := Some now,
     jb_LockedBy := Some worker, jb_StartedAt := (case jb_StartedAt r of None \<Rightarrow> Some now | Some t \<Rightarrow> Some t)\<rparr>"

definition ClaimJobs :: "int \<Rightarrow> string list \<Rightarrow> int \<Rightarrow> string \<Rightarrow> (int \<Rightarrow> bool) \<Rightarrow> JobDB \<Rightarrow> JobRow list \<times> JobDB" where
  "ClaimJobs now queues maxJobs worker locked db =
     (let ids = claimed_ids now queues maxJobs locked db;
          rows = map (\<lambda>r. if List.member ids (jb_ID r) then start now worker r else r) (job_rows db)
      in (filter (\<lambda>r. List.member ids (jb_ID r)) rows, db\<lparr>job_rows := rows\<rparr>))"

definition CompleteJob :: "int \<Rightarrow> int \<Rightarrow> JobDB \<Rightarrow> JobDB" where
  "CompleteJob now jid db = db\<lparr>job_rows := map (\<lambda>r. if jb_ID r = jid
     then r\<lparr>jb_Status := ''SUCCEEDED'', jb_CompletedAt := Some now, jb_LockedAt := None, jb_LockedBy := None\<rparr> else r) (job_rows db)\<rparr>"

definition retried :: "int \<Rightarrow> int \<Rightarrow> string \<Rightarrow> JobRow \<Rightarrow> JobRow" where
  "retried now backoffSeconds lastError r =
     (let exhausted = (jb_Attempts r \<ge> jb_MaxAttempts r)
      in r\<lparr>jb_Status := (if exhausted then ''DEAD'' else ''PENDING''),
           jb_RunAt := (if exhausted then jb_RunAt r else now + backoffSeconds * 1000000),
           jb_LastError := Some lastError, jb_ErrorCount := jb_ErrorCount r + 1, jb_LockedAt := None, jb_LockedBy := None,
           jb_CompletedAt := (if exhausted then Some now else None)\<rparr>)"

definition RetryJob :: "int \<Rightarrow> int \<Rightarrow> int \<Rightarrow> string \<Rightarrow> JobDB \<Rightarrow> dberror + (string \<times> JobDB)" where
  "RetryJob now jid backoffSeconds lastError db =
     (case find (\<lambda>r. jb_ID r = jid) (job_rows db) of
        None \<Rightarrow> Inl ErrNoRows
      | Some r \<Rightarrow>
          let r' = retried now backoffSeconds lastError r
          in if list_ex (dedupe_clash r') (job_rows db)
             then Inl (PgErr \<lparr>pg_Code = SQLStateUniqueViolation, pg_ConstraintName = ''jobs_dedupe_idx'', pg_Message = ''duplicate key''\<rparr>)
             else Inr (jb_Status r', db\<lparr>job_rows := map (\<lambda>u. if jb_ID u = jid then r' else u) (job_rows db)\<rparr>))"

definition ReleaseStuckJobs :: "int \<Rightarrow> int \<Rightarrow> JobDB \<Rightarrow> JobDB" where
  "ReleaseStuckJobs now stuckAfterSeconds db = db\<lparr>job_rows := map (\<lambda>r.
     if jb_Status r = ''RUNNING'' \<and> (case jb_LockedAt r of None \<Rightarrow> False | Some t \<Rightarrow> t < now - stuckAfterSeconds * 1000000)
     then r\<lparr>jb_Status := ''PENDING'', jb_LockedAt := None, jb_LockedBy := None, jb_LastError := Some ''worker lock expired; job requeued''\<rparr>
     else r) (job_rows db)\<rparr>"

subsection \<open>Submitting\<close>

definition QueueDefault :: string where "QueueDefault = ''default''"

definition enqueue :: "(string \<Rightarrow> string option) \<Rightarrow> string \<Rightarrow> int \<Rightarrow> string \<Rightarrow> string \<Rightarrow> EnqueueOptions \<Rightarrow> JobDB \<Rightarrow> dberror + (string \<times> JobDB)" where
  "enqueue marshal newID now jobType payload opts db =
     (case marshal payload of
        None \<Rightarrow> Inl (OtherErr ''jobs: marshal payload'')
      | Some raw \<Rightarrow>
          let row = \<lparr>jb_ID = 0, jb_PublicID = newID, jb_OrganizationID = eo_OrganizationID opts,
                jb_Queue = (if eo_Queue opts = '''' then QueueDefault else eo_Queue opts), jb_Type = jobType, jb_Payload = raw,
                jb_Status = ''PENDING'', jb_Priority = (if eo_Priority opts = 0 then 100 else eo_Priority opts),
                jb_RunAt = (case eo_RunAt opts of None \<Rightarrow> now | Some t \<Rightarrow> t), jb_Attempts = 0,
                jb_MaxAttempts = (if eo_MaxAttempts opts = 0 then 5 else eo_MaxAttempts opts), jb_LastError = None, jb_ErrorCount = 0,
                jb_DedupeKey = (if eo_DedupeKey opts = '''' then None else Some (eo_DedupeKey opts)), jb_LockedAt = None,
                jb_LockedBy = None, jb_StartedAt = None, jb_CompletedAt = None, jb_CreatedBy = eo_CreatedBy opts\<rparr>
          in case EnqueueJob row db of
               Inr (r, db') \<Rightarrow> Inr (jb_PublicID r, db')
             | Inl err \<Rightarrow> if IsNoRows err then Inr ('''', db) else Inl err)"

subsection \<open>The worker\<close>

definition job_of :: "JobRow \<Rightarrow> Job" where
  "job_of r = \<lparr>job_ID = jb_ID r, job_PublicID = jb_PublicID r, job_OrganizationID = jb_OrganizationID r, job_Queue = jb_Queue r,
     job_Type = jb_Type r, job_Payload = jb_Payload r, job_Attempts = jb_Attempts r, job_MaxAttempts = jb_MaxAttempts r\<rparr>"

definition claim_jobs :: "int \<Rightarrow> string list \<Rightarrow> int \<Rightarrow> string \<Rightarrow> (int \<Rightarrow> bool) \<Rightarrow> JobDB \<Rightarrow> Job list \<times> JobDB" where
  "claim_jobs now queues batchSize workerID locked db =
     (let (rows, db') = ClaimJobs now queues batchSize workerID locked db in (map job_of rows, db'))"

text \<open>\<^verbatim>\<open>math.Pow(2, attempt) * 5\<close> capped at 300 seconds; below the cap the floating-point values are exact.\<close>

definition retryBackoff :: "int \<Rightarrow> int" where
  "retryBackoff attempt =
     (let a = (if attempt < 1 then 1 else attempt);
          secs = 2 ^ nat a * 5
      in (if secs > 300 then 300 else secs) * 1000000000)"

definition truncate_msg :: "string \<Rightarrow> nat \<Rightarrow> string" where
  "truncate_msg s m = (if length s \<le> m then s else take m s @ [char_of (226 :: nat), char_of (128 :: nat), char_of (166 :: nat)])"

definition attemptsMax :: nat where "attemptsMax = 50"

text \<open>The loop that is to force the row dead: at most \<open>n\<close> more updates.\<close>

fun force_dead :: "nat \<Rightarrow> int \<Rightarrow> int \<Rightarrow> string \<Rightarrow> string \<Rightarrow> JobDB \<Rightarrow> string \<times> JobDB" where
  "force_dead 0 now jid msg status db = (status, db)"
| "force_dead (Suc n) now jid msg status db =
     (if status = ''DEAD'' then (status, db)
      else case RetryJob now jid 0 msg db of
             Inl err \<Rightarrow> (status, db)
           | Inr (status', db') \<Rightarrow> force_dead n now jid msg status' db')"

definition fail :: "int \<Rightarrow> Job \<Rightarrow> job_error \<Rightarrow> bool \<Rightarrow> JobDB \<Rightarrow> JobDB" where
  "fail now job cause permanent db =
     (let backoff = (case retryIntervalOf cause of Some d \<Rightarrow> d | None \<Rightarrow> retryBackoff (job_Attempts job));
          attemptsLeft = (if permanent then 0 else sub32 (job_MaxAttempts job) (job_Attempts job));
          msg0 = truncate_msg (je_Error cause) 2000;
          msg = (if attemptsLeft \<le> 0 then ''PERMANENT: '' @ msg0 else msg0)
      in case RetryJob now (job_ID job) (wrap32 (quot64 backoff 1000000000)) msg db of
           Inl err \<Rightarrow> db
         | Inr (status, db') \<Rightarrow>
             if permanent \<and> status \<noteq> ''DEAD'' then snd (force_dead attemptsMax now (job_ID job) msg status db') else db')"

text \<open>\<open>handlers\<close> gives what the handler registered for a type returns: nothing on success.\<close>

definition execute :: "(string \<Rightarrow> (Job \<Rightarrow> job_error option) option) \<Rightarrow> int \<Rightarrow> Job \<Rightarrow> JobDB \<Rightarrow> JobDB" where
  "execute handlers now job db =
     (case handlers (job_Type job) of
        None \<Rightarrow> fail now job \<lparr>je_Error = ''no handler registered for '' @ job_Type job, je_Permanent = False, je_RetryAfter = None\<rparr> True db
      | Some handler \<Rightarrow>
          (case handler job of
             Some err \<Rightarrow> fail now job err (je_Permanent err) db
           | None \<Rightarrow> CompleteJob now (job_ID job) db))"

definition requeue :: "int \<Rightarrow> Job \<Rightarrow> string \<Rightarrow> JobDB \<Rightarrow> JobDB" where
  "requeue now job reason db = (case RetryJob now (job_ID job) 0 reason db of Inl err \<Rightarrow> db | Inr (status, db') \<Rightarrow> db')"

definition reclaimStuck :: "int \<Rightarrow> int \<Rightarrow> JobDB \<Rightarrow> JobDB" where
  "reclaimStuck now stuckAfter db = ReleaseStuckJobs now (wrap32 (quot64 stuckAfter 1000000000)) db"

subsection \<open>Claims\<close>



lemma claim_order_set [simp]: "set (claim_order rs) = set rs"
  by (simp add: claim_order_def)

lemma claim_order_length [simp]: "length (claim_order rs) = length rs"
  by (simp add: claim_order_def)


definition eligible :: "int \<Rightarrow> string list \<Rightarrow> (int \<Rightarrow> bool) \<Rightarrow> JobDB \<Rightarrow> JobRow list" where
  "eligible now queues locked db = filter (\<lambda>r. due now queues r \<and> \<not> locked (jb_ID r)) (job_rows db)"

lemma start_id [simp]: "jb_ID (start now worker r) = jb_ID r"
  by (simp add: start_def)

lemma ids_inj:
  "distinct (map jb_ID rs) \<Longrightarrow> r \<in> set rs \<Longrightarrow> r' \<in> set rs \<Longrightarrow> jb_ID r = jb_ID r' \<Longrightarrow> r = r'"
  by (auto simp: distinct_map inj_on_def)

lemma claimed_iff:
  assumes "distinct (map jb_ID (job_rows db))" "r \<in> set (job_rows db)"
  shows "jb_ID r \<in> set (claimed_ids now queues n locked db) \<longleftrightarrow>
           r \<in> set (take (nat n) (claim_order (eligible now queues locked db)))"
proof -
  have "set (take (nat n) (claim_order (eligible now queues locked db))) \<subseteq> set (job_rows db)"
    using set_take_subset [of "nat n" "claim_order (eligible now queues locked db)"]
    by (auto simp: eligible_def)
  thus ?thesis using assms by (auto simp: claimed_ids_def eligible_def dest: ids_inj)
qed




lemma start_not_due [simp]: "\<not> due now' queues' (start now worker r)"
  by (simp add: start_def due_def)



subsection \<open>Reachable queues\<close>

definition no_clash :: "JobRow list \<Rightarrow> bool" where
  "no_clash rs \<longleftrightarrow> (\<forall>r\<in>set rs. \<forall>r'\<in>set rs. \<not> dedupe_clash r r')"

definition lock_ok :: "JobRow \<Rightarrow> bool" where
  "lock_ok r \<longleftrightarrow> (jb_Status r = ''RUNNING'') = (jb_LockedAt r \<noteq> None)"

definition jobs_inv :: "JobDB \<Rightarrow> bool" where
  "jobs_inv db \<longleftrightarrow> distinct (map jb_ID (job_rows db)) \<and> (\<forall>r\<in>set (job_rows db). jb_ID r < next_job db \<and> lock_ok r)
     \<and> no_clash (job_rows db)"

text \<open>One step of any process: a submission, a claim, the end of an execution, a release at
  shutdown, the sweep for stuck jobs. The job an execution or a release is about is arbitrary, so a worker may
  come late.\<close>

inductive job_step :: "JobDB \<Rightarrow> JobDB \<Rightarrow> bool" where
  enqueued: "enqueue marshal newID now jobType payload opts db = Inr (pid, db') \<Longrightarrow> job_step db db'"
| claimed: "job_step db (snd (claim_jobs now queues batchSize workerID locked db))"
| executed: "job_step db (execute handlers now job db)"
| requeued: "job_step db (requeue now job reason db)"
| reclaimed: "job_step db (reclaimStuck now stuckAfter db)"

lemma jobs_inv_map:
  assumes "jobs_inv db" and "\<And>r. jb_ID (g r) = jb_ID r" and "\<And>r. jb_DedupeKey (g r) = jb_DedupeKey r"
    and "\<And>r. r \<in> set (job_rows db) \<Longrightarrow> live (g r) \<Longrightarrow> live r"
    and "\<And>r. r \<in> set (job_rows db) \<Longrightarrow> lock_ok r \<Longrightarrow> lock_ok (g r)"
  shows "jobs_inv (db\<lparr>job_rows := map g (job_rows db)\<rparr>)"
proof -
  have "no_clash (map g (job_rows db))"
    using assms unfolding jobs_inv_def no_clash_def dedupe_clash_def by auto
  thus ?thesis using assms by (auto simp: jobs_inv_def comp_def)
qed

lemma EnqueueJob_inv:
  assumes "jobs_inv db" "EnqueueJob r db = Inr (row, db')" "jb_Status r = ''PENDING''" "jb_LockedAt r = None"
  shows "jobs_inv db'"
  using assms
  by (auto simp: EnqueueJob_def Let_def jobs_inv_def no_clash_def lock_ok_def list_ex_iff dedupe_clash_def
      split: if_splits) fastforce+

lemma RetryJob_inv:
  assumes "jobs_inv db" "RetryJob now jid b msg db = Inr (status, db')"
  shows "jobs_inv db'"
proof -
  obtain r where r: "r \<in> set (job_rows db)" "jb_ID r = jid"
    and nc: "\<not> list_ex (dedupe_clash (retried now b msg r)) (job_rows db)"
    and db': "db' = db\<lparr>job_rows := map (\<lambda>u. if jb_ID u = jid then retried now b msg r else u) (job_rows db)\<rparr>"
    using assms(2) by (auto simp: RetryJob_def Let_def split: option.splits if_splits dest!: find_SomeD)
  have "lock_ok (retried now b msg r)" "jb_ID (retried now b msg r) = jid"
    using r by (auto simp: retried_def lock_ok_def Let_def)
  moreover have "map jb_ID (job_rows db') = map jb_ID (job_rows db)"
    using calculation by (auto simp: db')
  moreover have "no_clash (job_rows db')"
    using nc assms(1) calculation(2) by (auto simp: db' no_clash_def jobs_inv_def list_ex_iff dedupe_clash_def)
  moreover have "\<forall>u\<in>set (job_rows db'). jb_ID u < next_job db \<and> lock_ok u"
    using assms(1) r calculation(1,2) by (auto simp: jobs_inv_def db')
  ultimately show ?thesis using assms(1) by (simp add: jobs_inv_def) (simp add: db')
qed

lemma force_dead_inv: "jobs_inv db \<Longrightarrow> jobs_inv (snd (force_dead n now jid msg status db))"
  by (induction n arbitrary: status db) (auto split: sum.splits dest: RetryJob_inv)

lemma fail_inv: "jobs_inv db \<Longrightarrow> jobs_inv (fail now job cause permanent db)"
  by (auto simp: fail_def Let_def split: sum.splits dest: RetryJob_inv intro: force_dead_inv)

lemma CompleteJob_inv: "jobs_inv db \<Longrightarrow> jobs_inv (CompleteJob now jid db)"
  unfolding CompleteJob_def by (rule jobs_inv_map) (auto simp: live_def lock_ok_def split: if_splits)

lemma ReleaseStuckJobs_inv: "jobs_inv db \<Longrightarrow> jobs_inv (ReleaseStuckJobs now s db)"
  unfolding ReleaseStuckJobs_def by (rule jobs_inv_map) (auto simp: live_def lock_ok_def split: if_splits)

lemma ClaimJobs_inv:
  assumes "jobs_inv db"
  shows "jobs_inv (snd (ClaimJobs now queues n worker locked db))"
proof -
  let ?I = "set (claimed_ids now queues n locked db)"
  have "live r" if "r \<in> set (job_rows db)" "jb_ID r \<in> ?I" for r
    using that assms claimed_iff [of db r now queues n locked]
    by (auto simp: jobs_inv_def eligible_def due_def live_def dest!: in_set_takeD)
  hence "jobs_inv (db\<lparr>job_rows := map (\<lambda>r. if jb_ID r \<in> ?I then start now worker r else r) (job_rows db)\<rparr>)"
    by (intro jobs_inv_map [OF assms]) (auto simp: start_def lock_ok_def split: if_splits)
  thus ?thesis by (simp add: ClaimJobs_def Let_def)
qed

lemma job_step_inv: "job_step db db' \<Longrightarrow> jobs_inv db \<Longrightarrow> jobs_inv db'"
proof (induction rule: job_step.induct)
  case (enqueued marshal newID now jobType payload opts db pid db')
  thus ?case by (auto simp: enqueue_def Let_def split: option.splits sum.splits if_splits dest: EnqueueJob_inv)
next
  case (claimed db now queues batchSize workerID locked)
  thus ?case using ClaimJobs_inv by (auto simp: claim_jobs_def split: prod.splits) (metis snd_conv)
next
  case (executed db handlers now job)
  thus ?case by (auto simp: execute_def fail_inv CompleteJob_inv split: option.splits)
next
  case (requeued db now job reason)
  thus ?case by (auto simp: requeue_def split: sum.splits dest: RetryJob_inv)
next
  case (reclaimed db now stuckAfter)
  thus ?case by (simp add: reclaimStuck_def ReleaseStuckJobs_inv)
qed


lemma job_reach_inv: "job_step\<^sup>*\<^sup>* \<lparr>job_rows = [], next_job = n\<rparr> db \<Longrightarrow> jobs_inv db"
proof (induction rule: rtranclp_induct)
  case base show ?case by (simp add: jobs_inv_def no_clash_def)
next
  case (step y z) thus ?case using job_step_inv by blast
qed








subsection \<open>Failed attempts\<close>

lemma backoff_seconds:
  "wrap32 (quot64 (retryBackoff a) 1000000000) = min 300 (2 ^ nat (max 1 a) * 5)"
proof -
  let ?s = "min 300 (2 ^ nat (max 1 a) * 5 :: int)"
  have "retryBackoff a = ?s * 1000000000"
    by (simp add: retryBackoff_def Let_def min_def max_def)
  moreover have "wrap32 (quot64 (s * 1000000000) 1000000000) = s" if "0 \<le> s" "s \<le> 300" for s
    using that by (simp add: quot64_nonneg in64_def min64_def max64_def in32_def)
  ultimately show ?thesis by simp
qed

lemma retried_simps [simp]:
  "jb_ID (retried now b msg r) = jb_ID r" "jb_Attempts (retried now b msg r) = jb_Attempts r"
  "jb_MaxAttempts (retried now b msg r) = jb_MaxAttempts r" "jb_DedupeKey (retried now b msg r) = jb_DedupeKey r"
  "jb_LastError (retried now b msg r) = Some msg" "jb_LockedAt (retried now b msg r) = None"
  "jb_Queue (retried now b msg r) = jb_Queue r" "jb_Type (retried now b msg r) = jb_Type r"
  by (simp_all add: retried_def Let_def)

lemma retried_status:
  "jb_Attempts r < jb_MaxAttempts r \<Longrightarrow> jb_Status (retried now b msg r) = ''PENDING'' \<and> jb_RunAt (retried now b msg r) = now + b * 1000000"
  "jb_MaxAttempts r \<le> jb_Attempts r \<Longrightarrow> jb_Status (retried now b msg r) = ''DEAD'' \<and> jb_RunAt (retried now b msg r) = jb_RunAt r"
  by (simp_all add: retried_def Let_def)

lemma job_of_simps [simp]: "job_ID (job_of r) = jb_ID r" "job_Type (job_of r) = jb_Type r" "job_Attempts (job_of r) = jb_Attempts r"
  "job_MaxAttempts (job_of r) = jb_MaxAttempts r"
  by (simp_all add: job_of_def)

text \<open>Retrying a job that is pending or running never fails on the deduplication index.\<close>

lemma RetryJob_live:
  assumes "jobs_inv db" "r \<in> set (job_rows db)" "live r"
  shows "RetryJob now (jb_ID r) b msg db =
     Inr (jb_Status (retried now b msg r), db\<lparr>job_rows := map (\<lambda>u. if jb_ID u = jb_ID r then retried now b msg r else u) (job_rows db)\<rparr>)"
proof -
  have "find (\<lambda>u. jb_ID u = jb_ID r) (job_rows db) = Some r"
  proof (cases "find (\<lambda>u. jb_ID u = jb_ID r) (job_rows db)")
    case None thus ?thesis using assms(2) by (auto simp: find_None_iff)
  next
    case (Some u) thus ?thesis using assms(1,2) ids_inj by (auto simp: jobs_inv_def dest!: find_SomeD)
  qed
  moreover have "\<not> list_ex (dedupe_clash (retried now b msg r)) (job_rows db)"
    using assms unfolding list_ex_iff jobs_inv_def no_clash_def dedupe_clash_def retried_simps by blast
  ultimately show ?thesis by (simp add: RetryJob_def Let_def)
qed

lemma execute_fails:
  assumes "jobs_inv db" "r \<in> set (job_rows db)" "live r" and "handlers (jb_Type r) = Some handler"
    and "handler (job_of r) = Some err" "\<not> je_Permanent err" "je_RetryAfter err = None"
  obtains msg where "execute handlers now (job_of r) db = db\<lparr>job_rows := map (\<lambda>u. if jb_ID u = jb_ID r
     then retried now (min 300 (2 ^ nat (max 1 (jb_Attempts r)) * 5)) msg r else u) (job_rows db)\<rparr>"
proof
  let ?t = "truncate_msg (je_Error err) 2000"
  let ?msg = "if sub32 (jb_MaxAttempts r) (jb_Attempts r) \<le> 0 then ''PERMANENT: '' @ ?t else ?t"
  show "execute handlers now (job_of r) db = db\<lparr>job_rows := map (\<lambda>u. if jb_ID u = jb_ID r
     then retried now (min 300 (2 ^ nat (max 1 (jb_Attempts r)) * 5)) ?msg r else u) (job_rows db)\<rparr>"
    using assms(4-7) by (simp add: execute_def fail_def Let_def retryIntervalOf_def RetryJob_live [OF assms(1-3)] backoff_seconds)
qed

text \<open>
  A claimed job whose handler fails with an ordinary error keeps its attempt count and its lock is
  released; with attempts left it is pending again, due five seconds times two to the number of attempts later and
  never more than five minutes later; with none left it is dead and no claim at any time sees it as
  due. No other job changes.
\<close>

theorem job_retry_schedule:
  assumes "job_step\<^sup>*\<^sup>* \<lparr>job_rows = [], next_job = n\<rparr> db" and "r \<in> set (job_rows db)" "jb_Status r = ''RUNNING''"
    and "handlers (jb_Type r) = Some handler" "handler (job_of r) = Some err" "\<not> je_Permanent err" "je_RetryAfter err = None"
  shows "\<exists>r'. job_rows (execute handlers now (job_of r) db) = map (\<lambda>u. if jb_ID u = jb_ID r then r' else u) (job_rows db)
    \<and> jb_ID r' = jb_ID r \<and> jb_Attempts r' = jb_Attempts r \<and> jb_MaxAttempts r' = jb_MaxAttempts r \<and> jb_LockedAt r' = None
    \<and> (if jb_Attempts r < jb_MaxAttempts r
        then jb_Status r' = ''PENDING'' \<and> jb_RunAt r' = now + min 300 (2 ^ nat (max 1 (jb_Attempts r)) * 5) * 1000000
        else jb_Status r' = ''DEAD'' \<and> (\<forall>t queues. \<not> due t queues r'))"
proof -
  have inv: "jobs_inv db" and l: "live r" using job_reach_inv assms(1,3) by (auto simp: live_def)
  let ?b = "min 300 (2 ^ nat (max 1 (jb_Attempts r)) * 5)"
  obtain msg where "execute handlers now (job_of r) db =
      db\<lparr>job_rows := map (\<lambda>u. if jb_ID u = jb_ID r then retried now ?b msg r else u) (job_rows db)\<rparr>"
    using execute_fails [where handlers = handlers and handler = handler, OF inv assms(2) l assms(4-7)] by blast
  thus ?thesis
    using retried_status [of r now ?b msg] by (intro exI [of _ "retried now ?b msg r"]) (auto simp: due_def not_less)
qed

subsection \<open>Permanent failures\<close>

lemma mem_map_upd: "r \<in> set rs \<Longrightarrow> jb_ID r' = jb_ID r \<Longrightarrow> r' \<in> set (map (\<lambda>u. if jb_ID u = jb_ID r then r' else u) rs)"
  by auto

lemma force_dead_pending:
  assumes "jobs_inv db" "r \<in> set (job_rows db)" "jb_Status r = ''PENDING''" "jb_Attempts r < jb_MaxAttempts r"
  shows "\<exists>r'\<in>set (job_rows (snd (force_dead (Suc k) now (jb_ID r) msg ''PENDING'' db))).
    jb_ID r' = jb_ID r \<and> jb_Status r' = ''PENDING'' \<and> jb_Attempts r' = jb_Attempts r \<and> jb_RunAt r' = now
    \<and> jb_Queue r' = jb_Queue r \<and> jb_LastError r' = Some msg"
  using assms
proof (induction k arbitrary: db r)
  case (0 db r)
  have "live r" using 0 by (simp add: live_def)
  thus ?case using 0 retried_status(1) [of r now 0 msg]
    by (intro bexI [of _ "retried now 0 msg r"]) (auto simp: RetryJob_live)
next
  case (Suc k db r)
  have l: "live r" using Suc.prems by (simp add: live_def)
  let ?r = "retried now 0 msg r"
  let ?db = "db\<lparr>job_rows := map (\<lambda>u. if jb_ID u = jb_ID r then ?r else u) (job_rows db)\<rparr>"
  have e: "RetryJob now (jb_ID r) 0 msg db = Inr (jb_Status ?r, ?db)" by (rule RetryJob_live [OF Suc.prems(1,2) l])
  have st: "jb_Status ?r = ''PENDING''" using retried_status Suc.prems by simp
  have step: "force_dead (Suc (Suc k)) now (jb_ID r) msg ''PENDING'' db = force_dead (Suc k) now (jb_ID r) msg ''PENDING'' ?db"
    by (subst force_dead.simps(2)) (simp only: e st, simp)
  have "?r \<in> set (job_rows ?db)" using mem_map_upd [OF Suc.prems(2)] by simp
  thus ?case using Suc.IH [of ?db ?r] RetryJob_inv [OF Suc.prems(1) e] st Suc.prems(4) by (simp only: step) simp
qed

text \<open>
  A job whose handler fails with a permanent error while attempts are left is not dead-lettered: after all the
  updates of the forcing loop it is pending and due at once, with the attempt count it had, though its
  recorded error says it is permanent; it will be run again until the attempts are used up.
\<close>

theorem permanent_failure_retried:
  assumes "job_step\<^sup>*\<^sup>* \<lparr>job_rows = [], next_job = n\<rparr> db" and "r \<in> set (job_rows db)" "jb_Status r = ''RUNNING''"
    and "handlers (jb_Type r) = Some handler" "handler (job_of r) = Some err" "je_Permanent err"
    and "jb_Attempts r < jb_MaxAttempts r"
  shows "\<exists>r'\<in>set (job_rows (execute handlers now (job_of r) db)).
    jb_ID r' = jb_ID r \<and> jb_Status r' = ''PENDING'' \<and> jb_Attempts r' = jb_Attempts r \<and> due now [jb_Queue r] r'
    \<and> jb_LastError r' = Some (''PERMANENT: '' @ truncate_msg (je_Error err) 2000)"
proof -
  have inv: "jobs_inv db" and l: "live r" using job_reach_inv assms(1,3) by (auto simp: live_def)
  let ?msg = "''PERMANENT: '' @ truncate_msg (je_Error err) 2000"
  obtain b where b: "wrap32 (quot64 (case je_RetryAfter err of None \<Rightarrow> retryBackoff (job_Attempts (job_of r)) | Some d \<Rightarrow> d) 1000000000) = b" by simp
  let ?r = "retried now b ?msg r"
  let ?db = "db\<lparr>job_rows := map (\<lambda>u. if jb_ID u = jb_ID r then ?r else u) (job_rows db)\<rparr>"
  have e: "RetryJob now (jb_ID r) b ?msg db = Inr (jb_Status ?r, ?db)" by (rule RetryJob_live [OF inv assms(2) l])
  have st: "jb_Status ?r = ''PENDING''" using retried_status(1) assms(7) by simp
  have "execute handlers now (job_of r) db = snd (force_dead (Suc 49) now (jb_ID ?r) ?msg ''PENDING'' ?db)"
    using assms(4-6) e st b by (simp add: execute_def fail_def Let_def retryIntervalOf_def attemptsMax_def del: force_dead.simps append.simps)
  moreover have "?r \<in> set (job_rows ?db)" using mem_map_upd [OF assms(2)] by simp
  ultimately show ?thesis
    using force_dead_pending [of ?db ?r 49 now ?msg] RetryJob_inv [OF inv e] st assms(7) by (auto simp: due_def)
qed


subsection \<open>A job that always fails\<close>







subsection \<open>A small queue\<close>

definition demo_opts :: "int \<Rightarrow> string \<Rightarrow> EnqueueOptions" where
  "demo_opts p key = \<lparr>eo_Queue = [], eo_OrganizationID = None, eo_Priority = p, eo_RunAt = None, eo_MaxAttempts = 2,
     eo_DedupeKey = key, eo_CreatedBy = None\<rparr>"

definition demo_row :: "int \<Rightarrow> int \<Rightarrow> string \<Rightarrow> JobRow" where
  "demo_row i p key = \<lparr>jb_ID = i, jb_PublicID = ''job'', jb_OrganizationID = None, jb_Queue = ''default'', jb_Type = ''platform.maintenance'',
     jb_Payload = ''{}'', jb_Status = ''PENDING'', jb_Priority = p, jb_RunAt = 5, jb_Attempts = 0, jb_MaxAttempts = 2, jb_LastError = None,
     jb_ErrorCount = 0, jb_DedupeKey = (if key = [] then None else Some key), jb_LockedAt = None, jb_LockedBy = None, jb_StartedAt = None, jb_CompletedAt = None, jb_CreatedBy = None\<rparr>"

definition demo_one :: JobDB where
  "demo_one = \<lparr>job_rows = [demo_row 1 100 ''nightly''], next_job = 2\<rparr>"

definition demo_two :: JobDB where
  "demo_two = \<lparr>job_rows = [demo_row 1 100 ''nightly'', demo_row 2 10 []], next_job = 3\<rparr>"

lemma demo_enqueue1: "enqueue Some ''job'' 5 ''platform.maintenance'' ''{}'' (demo_opts 0 ''nightly'') \<lparr>job_rows = [], next_job = 1\<rparr> = Inr (''job'', demo_one)"
  by code_simp

lemma demo_enqueue2: "enqueue Some ''job'' 5 ''platform.maintenance'' ''{}'' (demo_opts 10 []) demo_one = Inr (''job'', demo_two)"
  by code_simp

lemma demo_reach:
  "job_step\<^sup>*\<^sup>* \<lparr>job_rows = [], next_job = 1\<rparr> demo_one" "job_step\<^sup>*\<^sup>* \<lparr>job_rows = [], next_job = 1\<rparr> demo_two"
  "job_step\<^sup>*\<^sup>* \<lparr>job_rows = [], next_job = 1\<rparr> (snd (claim_jobs 6 [''default''] 1 ''w1'' (\<lambda>_. False) demo_one))"
  using job_step.enqueued [OF demo_enqueue1] job_step.enqueued [OF demo_enqueue2] job_step.claimed
  by (meson rtranclp.rtrancl_into_rtrancl rtranclp.rtrancl_refl)+

text \<open>A submission with the key of a pending job is a no-op.\<close>

lemma demo_dedupe: "enqueue Some ''job'' 5 ''platform.maintenance'' ''{}'' (demo_opts 0 ''nightly'') demo_two = Inr ([], demo_two)"
  by code_simp

definition demo_running :: JobRow where
  "demo_running = start 6 ''w1'' (demo_row 1 100 ''nightly'')"

lemma demo_claimed: "claim_jobs 6 [''default''] 1 ''w1'' (\<lambda>_. False) demo_one = ([job_of demo_running], demo_one\<lparr>job_rows := [demo_running]\<rparr>)"
  by code_simp

definition demo_handlers :: "bool \<Rightarrow> string \<Rightarrow> (Job \<Rightarrow> job_error option) option" where
  "demo_handlers permanent ty = (if ty = ''platform.maintenance''
     then Some (\<lambda>j. Some \<lparr>je_Error = ''boom'', je_Permanent = permanent, je_RetryAfter = None\<rparr>) else None)"


theorem job_retry_schedule_witness:
  "\<exists>r'. job_rows (execute (demo_handlers False) 7 (job_of demo_running) (demo_one\<lparr>job_rows := [demo_running]\<rparr>)) = [r']
     \<and> jb_Status r' = ''PENDING'' \<and> jb_RunAt r' = 10000007"
proof -
  have "demo_running \<in> set (job_rows (demo_one\<lparr>job_rows := [demo_running]\<rparr>))" by simp
  moreover have "jb_Status demo_running = ''RUNNING''" "jb_Attempts demo_running = 1" "jb_MaxAttempts demo_running = 2" by code_simp+
  moreover have "demo_handlers False (jb_Type demo_running) = Some (\<lambda>j. Some \<lparr>je_Error = ''boom'', je_Permanent = False, je_RetryAfter = None\<rparr>)"
    by (simp add: demo_handlers_def demo_running_def start_def demo_row_def)
  ultimately show ?thesis
    using job_retry_schedule [where handlers = "demo_handlers False" and handler = "\<lambda>j. Some \<lparr>je_Error = ''boom'', je_Permanent = False, je_RetryAfter = None\<rparr>"
      and r = demo_running and now = 7, OF demo_reach(3) [unfolded demo_claimed snd_conv]] by auto
qed

theorem permanent_failure_retried_witness:
  "\<exists>r'\<in>set (job_rows (execute (demo_handlers True) 7 (job_of demo_running) (demo_one\<lparr>job_rows := [demo_running]\<rparr>))).
     jb_Status r' = ''PENDING'' \<and> due 7 [''default''] r'"
proof -
  have "demo_running \<in> set (job_rows (demo_one\<lparr>job_rows := [demo_running]\<rparr>))" by simp
  moreover have "jb_Status demo_running = ''RUNNING''" "jb_Attempts demo_running < jb_MaxAttempts demo_running" "jb_Queue demo_running = ''default''" by code_simp+
  moreover have "demo_handlers True (jb_Type demo_running) = Some (\<lambda>j. Some \<lparr>je_Error = ''boom'', je_Permanent = True, je_RetryAfter = None\<rparr>)"
    by (simp add: demo_handlers_def demo_running_def start_def demo_row_def)
  ultimately show ?thesis
    using permanent_failure_retried [where handlers = "demo_handlers True" and handler = "\<lambda>j. Some \<lparr>je_Error = ''boom'', je_Permanent = True, je_RetryAfter = None\<rparr>"
      and r = demo_running and now = 7, OF demo_reach(3) [unfolded demo_claimed snd_conv]] by auto
qed


end
