(* ===== verification/Party_Balance.thy ===== *)
theory Party_Balance
  imports Ledger
begin

text \<open>
  \<^verbatim>\<open>PartyBalance\<close> of \<^verbatim>\<open>internal/ledger/reports.go\<close> and what a posting does to it. A client of the
  ledger that posts legs on control accounts with a party relies on three laws, stated as the locale
  \<open>party_ledger\<close> and discharged for \<open>Post\<close>: a posting keeps the chart of accounts sound, moves the balance of every party by
  its legs, and from then on its source has a live journal.
\<close>

subsection \<open>Balances of a party\<close>

text \<open>The signed entries of every account bound to a party.\<close>

definition party_account :: "int \<Rightarrow> string \<Rightarrow> int \<Rightarrow> LedgerAccount \<Rightarrow> bool" where
  "party_account org partyType partyID a \<longleftrightarrow> ac_OrganizationID a = org \<and> ac_PartyType a = Some partyType \<and> ac_PartyID a = Some partyID"

definition signed_balance :: "LedgerDB \<Rightarrow> int option \<Rightarrow> LedgerAccount \<Rightarrow> int" where
  "signed_balance l asOf a = sum_list (map (\<lambda>e. if ac_NormalBalance a = ''DEBIT'' then e_DebitMinor e - e_CreditMinor e
     else e_CreditMinor e - e_DebitMinor e) (account_entries l asOf (ac_ID a)))"

definition party_total :: "LedgerDB \<Rightarrow> int \<Rightarrow> string \<Rightarrow> int \<Rightarrow> int option \<Rightarrow> int" where
  "party_total l org partyType partyID asOf = sum_list (map (signed_balance l asOf) (filter (party_account org partyType partyID) (accounts l)))"

definition PartyBalance :: "LedgerDB \<Rightarrow> Principal \<Rightarrow> string \<Rightarrow> int \<Rightarrow> int option \<Rightarrow> int result" where
  "PartyBalance l p partyType partyID asOf =
     ensure (in64 (party_total l (OrganizationID p) partyType partyID asOf)) Internal (Inr (party_total l (OrganizationID p) partyType partyID asOf))"

subsection \<open>The interface\<close>

text \<open>What a list of legs adds to the balance of a party, and whether a source has a live journal.\<close>

definition leg_sum :: "Leg list \<Rightarrow> string \<Rightarrow> int \<Rightarrow> int" where
  "leg_sum legs partyType partyID = sum_list (map (\<lambda>l. Debit l - Credit l) (filter (\<lambda>l. PartyType l = partyType \<and> PartyType l \<noteq> [] \<and> PartyID l = partyID) legs))"

definition live_journal :: "LedgerDB \<Rightarrow> int \<Rightarrow> string \<Rightarrow> int \<Rightarrow> string \<Rightarrow> bool" where
  "live_journal l org sourceType sourceID purpose \<longleftrightarrow> list_ex (live_source org sourceType sourceID purpose) (journals l)"

locale party_ledger =
  fixes post :: "Principal \<Rightarrow> int \<Rightarrow> Posting \<Rightarrow> 'l \<Rightarrow> (PostResult \<times> 'l) result"
    and balance :: "'l \<Rightarrow> int \<Rightarrow> string \<Rightarrow> int \<Rightarrow> int"
    and journalled :: "'l \<Rightarrow> int \<Rightarrow> string \<Rightarrow> int \<Rightarrow> string \<Rightarrow> bool"
    and legs_ok :: "Leg list \<Rightarrow> bool"
    and sound :: "'l \<Rightarrow> bool"
  assumes post_sound: "post p now inp l = Inr (r, l') \<Longrightarrow> sound l \<Longrightarrow> legs_ok (Legs inp) \<Longrightarrow> sound l'"
    and post_moves: "post p now inp l = Inr (r, l') \<Longrightarrow> sound l \<Longrightarrow> legs_ok (Legs inp) \<Longrightarrow> SourceID inp = Some sid \<Longrightarrow>
      \<not> journalled l (OrganizationID p) (SourceType inp) sid (Purpose inp) \<Longrightarrow>
      balance l' org pt pid = balance l org pt pid + (if org = OrganizationID p then leg_sum (Legs inp) pt pid else 0)"
    and post_journalled: "post p now inp l = Inr (r, l') \<Longrightarrow> SourceID inp = Some sid \<Longrightarrow>
      journalled l' org st k pur \<longleftrightarrow>
        journalled l org st k pur \<or> (org = OrganizationID p \<and> st = SourceType inp \<and> k = sid \<and> pur = Purpose inp)"
begin

lemma post_bystander:
  assumes "post p now inp l = Inr (r, l')" "sound l" "legs_ok (Legs inp)" "SourceID inp = Some sid"
    "\<not> journalled l (OrganizationID p) (SourceType inp) sid (Purpose inp)"
    and "org \<noteq> OrganizationID p \<or> (\<forall>x\<in>set (Legs inp). PartyType x \<noteq> pt \<or> PartyID x \<noteq> pid \<or> PartyType x = [])"
  shows "balance l' org pt pid = balance l org pt pid"
proof -
  have "leg_sum (Legs inp) pt pid = 0" if "\<forall>x\<in>set (Legs inp). PartyType x \<noteq> pt \<or> PartyID x \<noteq> pid \<or> PartyType x = []"
  proof -
    have "filter (\<lambda>l. PartyType l = pt \<and> PartyType l \<noteq> [] \<and> PartyID l = pid) (Legs inp) = []"
      using that by (auto simp: filter_empty_conv)
    then show ?thesis by (simp only: leg_sum_def list.map sum_list.Nil)
  qed
  then show ?thesis using post_moves [OF assms(1-5)] assms(6) by auto
qed

text \<open>A posting between two parties: one owes what the other no longer owes.\<close>

lemma post_between:
  assumes "post p now inp l = Inr (r, l')" "sound l" "legs_ok (Legs inp)" "SourceID inp = Some sid"
    "\<not> journalled l (OrganizationID p) (SourceType inp) sid (Purpose inp)"
    and "Legs inp = [x, y] @ zs" "\<forall>z\<in>set zs. PartyType z = []" "PartyType x \<noteq> []" "PartyType y \<noteq> []" "Credit x = 0" "Debit y = 0"
  shows "balance l' org pt pid = balance l org pt pid
    + (if org = OrganizationID p \<and> pt = PartyType x \<and> pid = PartyID x then Debit x else 0)
    - (if org = OrganizationID p \<and> pt = PartyType y \<and> pid = PartyID y then Credit y else 0)"
proof -
  have "filter (\<lambda>l. PartyType l = pt \<and> PartyType l \<noteq> [] \<and> PartyID l = pid) zs = []"
    using assms(7) by (auto simp: filter_empty_conv)
  then have "leg_sum (Legs inp) pt pid = (if pt = PartyType x \<and> pid = PartyID x then Debit x else 0)
    - (if pt = PartyType y \<and> pid = PartyID y then Credit y else 0)"
    using assms(8-11) unfolding assms(6) leg_sum_def by auto
  then show ?thesis using post_moves [OF assms(1-5)] by auto
qed

end

subsection \<open>The chart of accounts\<close>

text \<open>The control accounts that may carry a party, and the ones that only appear without one.\<close>

definition party_codes :: "string list" where
  "party_codes = [''1100'', ''1110'', ''1120'', ''1200'', ''1400'']"

definition plain_codes :: "string list" where
  "plain_codes = [''1000'', ''2000'', ''2300'', ''2500'', ''4000'', ''4300'', ''5200'', ''5300'']"

definition party_legs :: "Leg list \<Rightarrow> bool" where
  "party_legs legs \<longleftrightarrow> (\<forall>x\<in>set legs. AccountCode x \<in> set party_codes \<or> AccountCode x \<in> set plain_codes \<and> PartyType x = [])"

definition chart_ok :: "LedgerAccount list \<Rightarrow> bool" where
  "chart_ok as \<longleftrightarrow> (\<forall>a\<in>set as. (ac_PartyType a \<noteq> None \<longrightarrow> ac_NormalBalance a = ''DEBIT'')
     \<and> (ac_Code a \<in> set (party_codes @ plain_codes) \<longrightarrow> ac_PartyType a = None)
     \<and> (ac_Code a \<in> set party_codes \<longrightarrow> ac_NormalBalance a = ''DEBIT''))"

definition books_sound :: "LedgerDB \<Rightarrow> bool" where
  "books_sound l \<longleftrightarrow> ledger_struct l \<and> chart_ok (accounts l)"

lemma sub_code_new: "c @ ''.'' @ s \<notin> set (party_codes @ plain_codes)" if "c \<in> set party_codes" for c s
  using that by (auto simp: party_codes_def plain_codes_def)

definition leg_account :: "int \<Rightarrow> Leg \<Rightarrow> LedgerAccount \<Rightarrow> bool" where
  "leg_account org x a \<longleftrightarrow> ac_OrganizationID a = org
     \<and> (if PartyType x = [] then ac_PartyType a = None else ac_PartyType a = Some (PartyType x) \<and> ac_PartyID a = Some (PartyID x))"

lemma resolveAccount_party:
  assumes "resolveAccount p x cur l = Inr (a, l')" "chart_ok (accounts l)" "party_legs [x]"
  shows "chart_ok (accounts l') \<and> a \<in> set (accounts l') \<and> leg_account (OrganizationID p) x a"
proof -
  obtain c where c: "GetAccountByCode l (OrganizationID p) (AccountCode x) = Some c"
    using assms(1) by (auto simp: resolveAccount_def res_simps)
  then have cc: "c \<in> set (accounts l)" "ac_Code c = AccountCode x" "ac_OrganizationID c = OrganizationID p"
    by (auto simp: GetAccountByCode_def dest!: find_SomeD)
  show ?thesis
  proof (cases "PartyType x = []")
    case True
    then have "a = c" "l' = l" using assms(1) c by (auto simp: resolveAccount_def res_simps)
    then show ?thesis using cc assms True by (auto simp: leg_account_def chart_ok_def party_legs_def)
  next
    case False
    then have code: "AccountCode x \<in> set party_codes" using assms(3) by (auto simp: party_legs_def)
    show ?thesis
    proof (cases "FindPartyAccount l (OrganizationID p) (ac_ID c) (PartyType x) (PartyID x)")
      case (Some u)
      then have "a = u" "l' = l" using assms(1) c False by (auto simp: resolveAccount_def)
      then show ?thesis using Some assms(2) False by (auto simp: FindPartyAccount_def leg_account_def dest!: find_SomeD)
    next
      case None
      have "ac_NormalBalance c = ''DEBIT''" using cc code assms(2) by (auto simp: chart_ok_def)
      moreover have "ac_Code c @ ''.'' @ s \<notin> set (party_codes @ plain_codes)" for s
        using sub_code_new code cc(2) by simp
      moreover obtain b where b: "CreateLedgerAccount l b = Inr (a, l')" "ac_OrganizationID b = OrganizationID p"
        "ac_PartyType b = Some (PartyType x)" "ac_PartyID b = Some (PartyID x)" "ac_NormalBalance b = ac_NormalBalance c"
        "ac_Code b = ac_Code c @ ''.'' @ shortParty (PartyType x) @ ''.'' @ FormatInt (PartyID x)"
        using assms(1) c False None by (auto simp: resolveAccount_def)
      moreover have "a = b\<lparr>ac_ID := next_account l\<rparr>" "accounts l' = accounts l @ [a]"
        using b(1) by (auto simp: CreateLedgerAccount_def res_simps Let_def)
      ultimately show ?thesis using assms(2) False by (auto simp: leg_account_def chart_ok_def)
    qed
  qed
qed

lemma write_legs_party:
  "write_legs p tid cur i legs acc l = Inr (es, l') \<Longrightarrow> chart_ok (accounts l) \<Longrightarrow> party_legs legs \<Longrightarrow>
   chart_ok (accounts l') \<and> (\<exists>new. es = acc @ new
     \<and> list_all2 (\<lambda>x e. \<exists>a\<in>set (accounts l'). ac_ID a = e_AccountID e \<and> leg_account (OrganizationID p) x a) legs new)"
proof (induction legs arbitrary: i acc l)
  case Nil
  then show ?case by simp
next
  case (Cons x legs)
  from Cons.prems obtain a l1 e l2 where
    a: "resolveAccount p x cur l = Inr (a, l1)" and e: "e = leg_entry p tid cur i a x"
    and l2: "l2 = l1\<lparr>entries := entries l1 @ [e]\<rparr>"
    and w: "write_legs p tid cur (i + 1) legs (acc @ [e]) l2 = Inr (es, l')"
    by (auto simp: res_simps CreateJournalEntry_Inr)
  have 1: "chart_ok (accounts l1)" "a \<in> set (accounts l1)" "leg_account (OrganizationID p) x a"
    using resolveAccount_party [OF a] Cons.prems by (auto simp: party_legs_def)
  have 2: "chart_ok (accounts l')" "\<exists>new. es = (acc @ [e]) @ new
     \<and> list_all2 (\<lambda>x e. \<exists>a\<in>set (accounts l'). ac_ID a = e_AccountID e \<and> leg_account (OrganizationID p) x a) legs new"
    using Cons.IH [OF w] 1 Cons.prems by (auto simp: l2 party_legs_def)
  have "set (accounts l1) \<subseteq> set (accounts l')"
    using write_legs_Inr [OF w] by (auto simp: l2)
  then have "\<exists>b\<in>set (accounts l'). ac_ID b = e_AccountID e \<and> leg_account (OrganizationID p) x b"
    using 1 by (auto simp: e leg_entry_def)
  then show ?case using 2 by auto
qed


text \<open>The balance of a party as one sum over the entries of its accounts.\<close>

definition party_ids :: "LedgerDB \<Rightarrow> int \<Rightarrow> string \<Rightarrow> int \<Rightarrow> int set" where
  "party_ids l org pt pid = ac_ID ` {a \<in> set (accounts l). party_account org pt pid a}"

lemma party_ids_iff:
  assumes "distinct (map ac_ID (accounts l))" "a \<in> set (accounts l)"
  shows "ac_ID a \<in> party_ids l org pt pid \<longleftrightarrow> party_account org pt pid a"
proof
  assume "ac_ID a \<in> party_ids l org pt pid"
  then obtain b where "b \<in> set (accounts l)" "party_account org pt pid b" "ac_ID b = ac_ID a"
    by (auto simp: party_ids_def)
  then show "party_account org pt pid a" using assms by (auto simp: distinct_map dest: inj_onD)
qed (use assms(2) in \<open>auto simp: party_ids_def\<close>)

lemma party_total_sum:
  assumes "books_sound l"
  shows "party_total l org pt pid None =
    sum_list (map (\<lambda>e. e_DebitMinor e - e_CreditMinor e) (filter (\<lambda>e. e_AccountID e \<in> party_ids l org pt pid \<and> counted l None e) (entries l)))"
proof -
  let ?as = "filter (party_account org pt pid) (accounts l)"
  have "distinct (map ac_ID (accounts l))" using assms by (simp add: books_sound_def ledger_struct_def accounts_ok_def)
  then have d: "distinct (map ac_ID ?as)" by (simp add: distinct_map_filter)
  have "signed_balance l None a =
      sum_list (map (\<lambda>e. e_DebitMinor e - e_CreditMinor e) (filter (\<lambda>e. e_AccountID e = ac_ID a \<and> counted l None e) (entries l)))"
    if "a \<in> set ?as" for a
  proof -
    have "ac_NormalBalance a = ''DEBIT''"
      using that assms by (auto simp: books_sound_def chart_ok_def party_account_def)
    then show ?thesis by (simp add: signed_balance_def account_entries_def)
  qed
  then have "party_total l org pt pid None = sum_list (map (\<lambda>a.
      sum_list (map (\<lambda>e. e_DebitMinor e - e_CreditMinor e) (filter (\<lambda>e. e_AccountID e = ac_ID a \<and> counted l None e) (entries l)))) ?as)"
    unfolding party_total_def by (intro arg_cong [of _ _ sum_list] map_cong) simp_all
  then show ?thesis using sum_list_group [OF d] by (simp add: party_ids_def)
qed

lemma party_legs_validated:
  assumes "validate now inp0 = Inr inp" "party_legs (Legs inp0)"
  shows "party_legs (Legs inp)"
  using assms validate_Inr by auto

lemma post_write_accounts:
  assumes "post_write p inp date l = Inr (r, l')" "chart_ok (accounts l)" "party_legs (Legs inp)"
  shows "chart_ok (accounts l') \<and> list_all2 (\<lambda>x e. \<exists>a\<in>set (accounts l'). ac_ID a = e_AccountID e
     \<and> leg_account (OrganizationID p) x a) (Legs inp) (rs_Entries r)"
proof -
  from assms(1) obtain number period tot l1 t l2 where
    n: "allocateNumber l (OrganizationID p) date = Inr (number, l1)"
    and c: "CreateJournalTransaction l1 (post_row p inp date number period tot) = Inr (t, l2)"
    and w: "write_legs p (j_ID t) (PCurrency inp) 0 (Legs inp) [] l2 = Inr (rs_Entries r, l')"
    by (auto simp: post_write_def res_simps)
  have "accounts l2 = accounts l" using allocateNumber_Inr [OF n] c by (auto simp: CreateJournalTransaction_Inr)
  then show ?thesis using write_legs_party [OF w] assms(2,3) by auto
qed

lemma filter_sum_all2:
  assumes "list_all2 (\<lambda>x e. f e = g x \<and> (P e \<longleftrightarrow> Q x)) xs es"
  shows "sum_list (map f (filter P es)) = sum_list (map g (filter Q xs))"
  using assms by (induction xs es rule: list_all2_induct) auto

lemma post_write_moves:
  assumes "post_write p inp date l = Inr (r, l')" "books_sound l" "books_sound l'" "party_legs (Legs inp)"
  shows "party_total l' org pt pid None = party_total l org pt pid None + (if org = OrganizationID p then leg_sum (Legs inp) pt pid else 0)"
  using assms(1)
proof (rule post_write_Inr)
  fix period number tot t new seqs as n
  assume t: "t = (post_row p inp date number period tot)\<lparr>j_ID := next_journal l\<rparr>"
    and r: "r = \<lparr>rs_Transaction = t, rs_Entries = new, rs_Replayed = False\<rparr>"
    and le: "leg_entries (OrganizationID p) (next_journal l) (PCurrency inp) (Legs inp) new"
    and d: "l' = l\<lparr>op_sequences := seqs, journals := journals l @ [t], next_journal := next_journal l + 1,
            accounts := accounts l @ as, next_account := n, entries := entries l @ new\<rparr>"
  let ?f = "\<lambda>e. e_DebitMinor e - e_CreditMinor e"
  let ?P = "\<lambda>l e. e_AccountID e \<in> party_ids l org pt pid \<and> counted l None e"
  have ds: "distinct (map ac_ID (accounts l'))" using assms(3) by (simp add: books_sound_def ledger_struct_def accounts_ok_def)
  have old: "?P l' e \<longleftrightarrow> ?P l e" if e: "e \<in> set (entries l)" for e
  proof -
    have ok: "entries_ok l" "journals_ok l" using assms(2) by (simp_all add: books_sound_def ledger_struct_def)
    obtain u a where u: "u \<in> set (journals l)" "j_ID u = e_TransactionID e" and a: "a \<in> set (accounts l)" "ac_ID a = e_AccountID e"
      using ok(1) e by (auto simp: entries_ok_def has_account_def)
    have "e_TransactionID e < next_journal l" using u ok(2) by (auto simp: journals_ok_def)
    then have "counted l' None e = counted l None e" by (auto simp: counted_def d t)
    moreover have "e_AccountID e \<in> party_ids l' org pt pid \<longleftrightarrow> e_AccountID e \<in> party_ids l org pt pid"
    proof -
      have "distinct (map ac_ID (accounts l))" using ds by (simp add: d)
      then show ?thesis
        using party_ids_iff [OF ds, of a] party_ids_iff [of l a] a by (simp add: d)
    qed
    ultimately show ?thesis by simp
  qed
  have "list_all2 (\<lambda>x e. ?f e = Debit x - Credit x
      \<and> (?P l' e \<longleftrightarrow> org = OrganizationID p \<and> PartyType x = pt \<and> PartyType x \<noteq> [] \<and> PartyID x = pid)) (Legs inp) new"
  proof -
    have "list_all2 (\<lambda>x e. \<exists>a\<in>set (accounts l'). ac_ID a = e_AccountID e \<and> leg_account (OrganizationID p) x a) (Legs inp) new"
      using post_write_accounts [OF assms(1)] assms(2,4) by (auto simp: books_sound_def r)
    moreover have "list_all2 (\<lambda>x e. e_TransactionID e = next_journal l \<and> e_DebitMinor e = Debit x \<and> e_CreditMinor e = Credit x) (Legs inp) new"
      using le unfolding leg_entries_def by (rule list_all2_mono) simp
    ultimately have "list_all2 (\<lambda>x e. (\<exists>a\<in>set (accounts l'). ac_ID a = e_AccountID e \<and> leg_account (OrganizationID p) x a)
        \<and> e_TransactionID e = next_journal l \<and> e_DebitMinor e = Debit x \<and> e_CreditMinor e = Credit x) (Legs inp) new"
      by (simp add: list_all2_conv_all_nth)
    then show ?thesis
    proof (rule list_all2_mono, elim conjE bexE)
      fix x :: Leg and e :: JournalEntry and a :: LedgerAccount
      assume a: "a \<in> set (accounts l')" "ac_ID a = e_AccountID e" "leg_account (OrganizationID p) x a"
        and e: "e_TransactionID e = next_journal l" "e_DebitMinor e = Debit x" "e_CreditMinor e = Credit x"
      have "counted l' None e" using e by (simp add: counted_def d t post_row_def)
      moreover have "e_AccountID e \<in> party_ids l' org pt pid \<longleftrightarrow> party_account org pt pid a"
        using party_ids_iff [OF ds a(1)] a(2) by simp
      ultimately show "?f e = Debit x - Credit x
          \<and> (?P l' e \<longleftrightarrow> org = OrganizationID p \<and> PartyType x = pt \<and> PartyType x \<noteq> [] \<and> PartyID x = pid)"
        using a(3) e by (auto simp: leg_account_def party_account_def split: if_splits)
    qed
  qed
  from filter_sum_all2 [OF this]
  have "sum_list (map ?f (filter (?P l') new)) = (if org = OrganizationID p then leg_sum (Legs inp) pt pid else 0)"
    by (auto simp: leg_sum_def)
  moreover have "filter (?P l') (entries l) = filter (?P l) (entries l)" using old by (rule filter_cong [OF refl])
  moreover have "entries l' = entries l @ new" by (simp add: d)
  ultimately show ?thesis by (simp add: party_total_sum [OF assms(2)] party_total_sum [OF assms(3)])
qed


lemma Post_sound:
  assumes "Post p now inp l = Inr (r, l')" "books_sound l" "party_legs (Legs inp)"
  shows "books_sound l'"
  using assms(1)
proof (cases rule: Post_cases)
  case replayed
  then show ?thesis using assms(2) by simp
next
  case (written inp' date)
  have "party_legs (Legs inp')" by (rule party_legs_validated [OF written(1) assms(3)])
  then show ?thesis
    using post_write_accounts [OF written(2)] Post_struct [OF assms(1)] assms(2) by (simp add: books_sound_def)
qed

lemma live_journal_find: "live_journal l org st sid pur \<longleftrightarrow> FindJournalBySource l org st sid pur \<noteq> None"
  by (auto simp: live_journal_def FindJournalBySource_def find_None_iff list_ex_iff)

lemma Post_moves:
  assumes "Post p now inp l = Inr (r, l')" "books_sound l" "party_legs (Legs inp)" "SourceID inp = Some sid"
    "\<not> live_journal l (OrganizationID p) (SourceType inp) sid (Purpose inp)"
  shows "party_total l' org pt pid None = party_total l org pt pid None + (if org = OrganizationID p then leg_sum (Legs inp) pt pid else 0)"
  using assms(1)
proof (cases rule: Post_cases)
  case replayed
  then show ?thesis using assms(4,5) by (simp add: live_journal_find)
next
  case (written inp' date)
  have "party_legs (Legs inp')" by (rule party_legs_validated [OF written(1) assms(3)])
  then show ?thesis
    using post_write_moves [OF written(2) assms(2) Post_sound [OF assms(1-3)]] validate_Inr [OF written(1)] by simp
qed

lemma Post_journalled:
  assumes "Post p now inp l = Inr (r, l')" "SourceID inp = Some sid"
  shows "live_journal l' org st k pur \<longleftrightarrow>
    live_journal l org st k pur \<or> (org = OrganizationID p \<and> st = SourceType inp \<and> k = sid \<and> pur = Purpose inp)"
  using assms(1)
proof (cases rule: Post_cases)
  case (replayed inp' sid' t)
  then show ?thesis using assms(2) by (auto simp: live_journal_find)
next
  case (written inp' date)
  note v = validate_Inr [OF written(1)]
  from written(2) show ?thesis
  proof (rule post_write_Inr)
    fix period number tot t new seqs as n
    assume "t = (post_row p inp' date number period tot)\<lparr>j_ID := next_journal l\<rparr>"
      and "l' = l\<lparr>op_sequences := seqs, journals := journals l @ [t], next_journal := next_journal l + 1,
            accounts := accounts l @ as, next_account := n, entries := entries l @ new\<rparr>"
    then show ?thesis using v assms(2) by (auto simp: live_journal_def live_source_def post_row_def)
  qed
qed

interpretation pl: party_ledger Post "\<lambda>l org pt pid. party_total l org pt pid None" live_journal party_legs books_sound
  by unfold_locales (rule Post_sound Post_moves Post_journalled; assumption)+

end
