(* ===== verification/COD.thy ===== *)
theory COD
  imports Party_Balance
begin

text \<open>
  \<^verbatim>\<open>internal/cod/cod.go\<close> and the custody position of \<^verbatim>\<open>reconciliation.go\<close>: who holds the cash taken at
  the door, over the tables of \<^verbatim>\<open>db/migrations/0022_cod.up.sql\<close> and the ledger. A call returns an
  error, which rolls its transaction back, or its result with the new database. A new public id, the
  date of the call and the table of franchises are arguments; times are days, as in the ledger. Audit
  rows, metrics, request ids and free-form metadata are left out, and a hook that observes
  collections is a function that may refuse one.
\<close>

subsection \<open>Tables\<close>

record CodObligation =
  co_ID :: int
  co_PublicID :: string
  co_OrganizationID :: int
  co_ShipmentID :: int
  co_Awb :: string
  co_ExpectedMinor :: int
  co_Currency :: string
  co_ConsignorCustomerID :: "int option"
  co_OriginFranchiseID :: "int option"
  co_DestinationFranchiseID :: "int option"
  co_Status :: string
  co_CustodianType :: "string option"
  co_CustodianID :: "int option"
  co_CollectedMinor :: int
  co_RemittedMinor :: int
  co_CollectedAt :: "int option"
  co_RemittedAt :: "int option"

record CodCollection =
  cl_ID :: int
  cl_PublicID :: string
  cl_OrganizationID :: int
  cl_ObligationID :: int
  cl_ShipmentID :: int
  cl_DeliveryAttemptID :: "int option"
  cl_AmountMinor :: int
  cl_Currency :: string
  cl_PaymentMode :: string
  cl_Reference :: "string option"
  cl_CollectedBy :: "int option"
  cl_CollectedAt :: int
  cl_OperatingUnitID :: "int option"
  cl_JournalTransactionID :: "int option"
  cl_DeviceID :: "string option"
  cl_DeviceEventID :: "string option"

record CodCustodyTransfer =
  ct_ID :: int
  ct_PublicID :: string
  ct_OrganizationID :: int
  ct_TransferCode :: string
  ct_FromType :: string
  ct_FromID :: int
  ct_ToType :: string
  ct_ToID :: int
  ct_DeclaredMinor :: int
  ct_AcceptedMinor :: "int option"
  ct_Currency :: string
  ct_ShipmentCount :: int
  ct_Status :: string
  ct_DeclaredBy :: "int option"
  ct_AcceptedBy :: "int option"
  ct_VarianceMinor :: int
  ct_VarianceReason :: "string option"
  ct_JournalTransactionID :: "int option"
  ct_Notes :: "string option"

record CodCustodyTransferItem =
  ti_TransferID :: int
  ti_ObligationID :: int
  ti_AmountMinor :: int
  ti_Status :: string

record CodRemittance =
  cr_ID :: int
  cr_PublicID :: string
  cr_OrganizationID :: int
  cr_RemittanceCode :: string
  cr_FromType :: string
  cr_FromID :: int
  cr_BeneficiaryType :: string
  cr_BeneficiaryID :: "int option"
  cr_AmountMinor :: int
  cr_Currency :: string
  cr_ShipmentCount :: int
  cr_PaymentMode :: string
  cr_Reference :: "string option"
  cr_PaidOn :: int
  cr_Status :: string
  cr_JournalTransactionID :: "int option"
  cr_CreatedBy :: "int option"
  cr_ConfirmedBy :: "int option"

record CodRemittanceItem =
  ri_RemittanceID :: int
  ri_ObligationID :: int
  ri_AmountMinor :: int

record CodAdjustment =
  ca_ID :: int
  ca_PublicID :: string
  ca_OrganizationID :: int
  ca_ObligationID :: "int option"
  ca_ReconciliationID :: "int option"
  ca_AdjustmentType :: string
  ca_AmountMinor :: int
  ca_Currency :: string
  ca_LiablePartyType :: "string option"
  ca_LiablePartyID :: "int option"
  ca_Reason :: string
  ca_Status :: string
  ca_RequestedBy :: int
  ca_ApprovedBy :: "int option"
  ca_JournalTransactionID :: "int option"

record CodDB =
  obligations :: "CodObligation list"
  collections :: "CodCollection list"
  transfers :: "CodCustodyTransfer list"
  transfer_items :: "CodCustodyTransferItem list"
  remittances :: "CodRemittance list"
  remittance_items :: "CodRemittanceItem list"
  adjustments :: "CodAdjustment list"
  next_obligation :: int
  next_collection :: int
  next_transfer :: int
  next_remittance :: int
  next_adjustment :: int
  cod_ledger :: LedgerDB

subsection \<open>Names\<close>

definition StatusExpected :: string where "StatusExpected = ''EXPECTED''"
definition StatusAgentCollected :: string where "StatusAgentCollected = ''AGENT_COLLECTED''"
definition StatusBranchReceived :: string where "StatusBranchReceived = ''BRANCH_RECEIVED''"
definition StatusFranchiseConfirmed :: string where "StatusFranchiseConfirmed = ''FRANCHISE_CONFIRMED''"
definition StatusReconciled :: string where "StatusReconciled = ''RECONCILED''"
definition StatusRemitted :: string where "StatusRemitted = ''REMITTED''"

definition receivableAccountFor :: "string \<Rightarrow> (string \<times> string) result" where
  "receivableAccountFor partyType =
     (if partyType = ''AGENT'' then Inr (AcctCODReceivableAgent, ''AGENT'')
      else if partyType = ''OPERATING_UNIT'' then Inr (AcctCODReceivableBranch, ''OPERATING_UNIT'')
      else if partyType = ''FRANCHISE'' then Inr (AcctCODReceivableFranchise, ''FRANCHISE'')
      else Inl (Validation ''Unknown COD custodian type.''))"

definition statusForCustodian :: "string \<Rightarrow> string result" where
  "statusForCustodian partyType =
     (if partyType = ''AGENT'' then Inr StatusAgentCollected
      else if partyType = ''OPERATING_UNIT'' then Inr StatusBranchReceived
      else if partyType = ''FRANCHISE'' then Inr StatusFranchiseConfirmed
      else Inl (Validation ''Unknown COD custodian type.''))"

subsection \<open>Obligations\<close>

definition GetObligationByShipment :: "CodDB \<Rightarrow> int \<Rightarrow> int \<Rightarrow> CodObligation option" where
  "GetObligationByShipment db org sid = find (\<lambda>ob. co_OrganizationID ob = org \<and> co_ShipmentID ob = sid) (obligations db)"

definition GetObligationByID :: "CodDB \<Rightarrow> int \<Rightarrow> int \<Rightarrow> CodObligation option" where
  "GetObligationByID db org oid = find (\<lambda>ob. co_OrganizationID ob = org \<and> co_ID ob = oid) (obligations db)"

definition GetObligationByPublicID :: "CodDB \<Rightarrow> int \<Rightarrow> string \<Rightarrow> CodObligation option" where
  "GetObligationByPublicID db org pid = find (\<lambda>ob. co_OrganizationID ob = org \<and> co_PublicID ob = pid) (obligations db)"

definition LockObligationsByIDs :: "CodDB \<Rightarrow> int \<Rightarrow> int list \<Rightarrow> CodObligation list" where
  "LockObligationsByIDs db org ids = sort_key co_ID (filter (\<lambda>ob. co_OrganizationID ob = org \<and> co_ID ob \<in> set ids) (obligations db))"

definition CreateCODObligation :: "CodDB \<Rightarrow> CodObligation \<Rightarrow> (CodObligation \<times> CodDB) result" where
  "CreateCODObligation db ob =
     ensure (0 < co_ExpectedMinor ob \<and> \<not> list_ex (\<lambda>u. co_ShipmentID u = co_ShipmentID ob \<or> co_PublicID u = co_PublicID ob) (obligations db))
       Internal
       (let ob' = ob\<lparr>co_ID := next_obligation db\<rparr>
        in Inr (ob', db\<lparr>obligations := obligations db @ [ob'], next_obligation := next_obligation db + 1\<rparr>))"

text \<open>An UPDATE of the obligation with an id that satisfies a guard; no row is \<^const>\<open>None\<close>.\<close>

definition update_obligation :: "int \<Rightarrow> int \<Rightarrow> (CodObligation \<Rightarrow> bool) \<Rightarrow> (CodObligation \<Rightarrow> CodObligation) \<Rightarrow> CodDB \<Rightarrow> (CodObligation \<times> CodDB) option" where
  "update_obligation org oid guard f db =
     (let hit = (\<lambda>ob. co_OrganizationID ob = org \<and> co_ID ob = oid \<and> guard ob)
      in case find hit (obligations db) of
           None \<Rightarrow> None
         | Some ob \<Rightarrow> Some (f ob, db\<lparr>obligations := map (\<lambda>ob. if hit ob then f ob else ob) (obligations db)\<rparr>))"

definition MarkObligationCollected :: "int \<Rightarrow> int \<Rightarrow> int \<Rightarrow> int \<Rightarrow> int \<Rightarrow> CodDB \<Rightarrow> (CodObligation \<times> CodDB) option" where
  "MarkObligationCollected org oid amount agent at = update_obligation org oid (\<lambda>ob. co_Status ob = ''EXPECTED'')
     (\<lambda>ob. ob\<lparr>co_Status := ''AGENT_COLLECTED'', co_CollectedMinor := co_CollectedMinor ob + amount, co_CustodianType := Some ''AGENT'',
           co_CustodianID := Some agent, co_CollectedAt := (case co_CollectedAt ob of None \<Rightarrow> Some at | Some t \<Rightarrow> Some t)\<rparr>)"

definition MoveObligationCustody :: "int \<Rightarrow> int \<Rightarrow> string \<Rightarrow> string \<Rightarrow> string \<Rightarrow> int \<Rightarrow> CodDB \<Rightarrow> (CodObligation \<times> CodDB) option" where
  "MoveObligationCustody org oid fromStatus toStatus custodianType custodianID = update_obligation org oid (\<lambda>ob. co_Status ob = fromStatus)
     (\<lambda>ob. ob\<lparr>co_Status := toStatus, co_CustodianType := Optional custodianType, co_CustodianID := Some custodianID\<rparr>)"

definition MarkObligationRemitted :: "int \<Rightarrow> int \<Rightarrow> int \<Rightarrow> int \<Rightarrow> CodDB \<Rightarrow> (CodObligation \<times> CodDB) option" where
  "MarkObligationRemitted org oid amount now = update_obligation org oid
     (\<lambda>ob. co_Status ob \<in> set [''BRANCH_RECEIVED'', ''FRANCHISE_CONFIRMED'', ''RECONCILED''])
     (\<lambda>ob. ob\<lparr>co_Status := ''REMITTED'', co_RemittedAt := Some now, co_RemittedMinor := co_RemittedMinor ob + amount,
           co_CustodianType := None, co_CustodianID := None\<rparr>)"

text \<open>The part of a shipment that booking hands over.\<close>

record CodShipment =
  sh_ID :: int
  sh_Awb :: string
  sh_CodAmountMinor :: int
  sh_Currency :: string
  sh_CustomerID :: int
  sh_OriginBranchID :: "int option"
  sh_DestinationBranchID :: "int option"

definition franchisesFor :: "(int \<Rightarrow> int \<Rightarrow> int option) \<Rightarrow> int \<Rightarrow> CodShipment \<Rightarrow> int option \<times> int option" where
  "franchisesFor franchiseByUnit org sh =
     (Option.bind (sh_OriginBranchID sh) (\<lambda>u. franchiseByUnit u org), Option.bind (sh_DestinationBranchID sh) (\<lambda>u. franchiseByUnit u org))"

definition OpenObligation :: "(int \<Rightarrow> int \<Rightarrow> int option) \<Rightarrow> string \<Rightarrow> Principal \<Rightarrow> CodShipment \<Rightarrow> CodDB \<Rightarrow> (CodObligation \<times> CodDB) result" where
  "OpenObligation franchiseByUnit newID p sh db =
     ensure (\<not> sh_CodAmountMinor sh \<le> 0) (Conflict ''COD_NOT_APPLICABLE'')
     (case GetObligationByShipment db (OrganizationID p) (sh_ID sh) of
        Some existing \<Rightarrow> Inr (existing, db)
      | None \<Rightarrow>
          let (originFranchise, destFranchise) = franchisesFor franchiseByUnit (OrganizationID p) sh
          in CreateCODObligation db \<lparr>co_ID = 0, co_PublicID = newID, co_OrganizationID = OrganizationID p, co_ShipmentID = sh_ID sh, co_Awb = sh_Awb sh,
               co_ExpectedMinor = sh_CodAmountMinor sh, co_Currency = sh_Currency sh, co_ConsignorCustomerID = Some (sh_CustomerID sh),
               co_OriginFranchiseID = originFranchise, co_DestinationFranchiseID = destFranchise, co_Status = StatusExpected,
               co_CustodianType = None, co_CustodianID = None, co_CollectedMinor = 0, co_RemittedMinor = 0, co_CollectedAt = None, co_RemittedAt = None\<rparr>)"

subsection \<open>Collection at the door\<close>

record CodDevice =
  dv_ID :: string
  dv_EventID :: string

record CollectRequest =
  cq_ShipmentID :: int
  cq_DeliveryAttemptID :: "int option"
  cq_AmountMinor :: int
  cq_PaymentMode :: string
  cq_Reference :: string
  cq_CollectedAt :: "int option"
  cq_OperatingUnitID :: "int option"
  cq_AgentUserID :: "int option"
  cq_Device :: CodDevice

record CollectResult =
  rc_Obligation :: CodObligation
  rc_Collection :: CodCollection
  rc_Duplicate :: bool

definition HasEventKey :: "CodDevice \<Rightarrow> bool" where
  "HasEventKey d \<longleftrightarrow> dv_ID d \<noteq> [] \<and> dv_EventID d \<noteq> []"

definition FindCollectionByAttempt :: "CodDB \<Rightarrow> int \<Rightarrow> int \<Rightarrow> CodCollection option" where
  "FindCollectionByAttempt db org attempt = find (\<lambda>c. cl_OrganizationID c = org \<and> cl_DeliveryAttemptID c = Some attempt) (collections db)"

definition FindCollectionByDeviceEvent :: "CodDB \<Rightarrow> int \<Rightarrow> string \<Rightarrow> string \<Rightarrow> CodCollection option" where
  "FindCollectionByDeviceEvent db org device event =
     find (\<lambda>c. cl_OrganizationID c = org \<and> cl_DeviceID c = Some device \<and> cl_DeviceEventID c = Some event) (collections db)"

text \<open>The checks of the table come before its unique indexes.\<close>

definition payment_modes :: "string list" where
  "payment_modes = [''CASH'', ''UPI'', ''CARD'', ''WALLET'', ''NET_BANKING'', ''CHEQUE'', ''DEMAND_DRAFT'', ''OTHER'']"

definition collection_checks :: "CodCollection \<Rightarrow> bool" where
  "collection_checks c \<longleftrightarrow> 0 < cl_AmountMinor c \<and> cl_PaymentMode c \<in> set payment_modes
     \<and> (cl_PaymentMode c = ''CASH'' \<or> (case cl_Reference c of None \<Rightarrow> False | Some r \<Rightarrow> btrim r \<noteq> []))"

definition collection_clash :: "CodCollection \<Rightarrow> CodCollection \<Rightarrow> bool" where
  "collection_clash c d \<longleftrightarrow>
     cl_DeliveryAttemptID c \<noteq> None \<and> cl_DeliveryAttemptID d = cl_DeliveryAttemptID c
     \<or> cl_DeviceEventID c \<noteq> None \<and> cl_DeviceID c \<noteq> None \<and> cl_OrganizationID d = cl_OrganizationID c
        \<and> cl_DeviceID d = cl_DeviceID c \<and> cl_DeviceEventID d = cl_DeviceEventID c"

definition CreateCODCollection :: "CodDB \<Rightarrow> CodCollection \<Rightarrow> (CodCollection \<times> CodDB) result" where
  "CreateCODCollection db c =
     ensure (collection_checks c \<and> \<not> list_ex (\<lambda>d. cl_PublicID d = cl_PublicID c) (collections db)) Internal
     (ensure (\<not> list_ex (collection_clash c) (collections db)) (Conflict ''COD_ALREADY_COLLECTED'')
       (let c' = c\<lparr>cl_ID := next_collection db\<rparr>
        in Inr (c', db\<lparr>collections := collections db @ [c'], next_collection := next_collection db + 1\<rparr>)))"

definition replay_collection :: "CodDB \<Rightarrow> int \<Rightarrow> CodCollection \<Rightarrow> (CollectResult \<times> CodDB) result" where
  "replay_collection db org existing =
     bindE (opt_or (GetObligationByID db org (cl_ObligationID existing)) Internal)
       (\<lambda>ob. Inr (\<lparr>rc_Obligation = ob, rc_Collection = existing, rc_Duplicate = True\<rparr>, db))"

definition collection_posting :: "CollectRequest \<Rightarrow> int \<Rightarrow> int \<Rightarrow> CodObligation \<Rightarrow> Posting" where
  "collection_posting inp at agentID ob =
     \<lparr>SourceType = ''COD'', SourceID = Some (co_ID ob), Purpose = ''COLLECTION'',
      PDescription = ''COD collected for '' @ co_Awb ob, Reason = [], PCurrency = co_Currency ob, PostingDate = Some at,
      Legs = [(leg AcctCODReceivableAgent (cq_AmountMinor inp) 0 ''AGENT'' agentID ''Cash held by the delivery agent'')
                 \<lparr>LegShipmentID := Some (co_ShipmentID ob), LegOperatingUnitID := cq_OperatingUnitID inp\<rparr>,
              (leg AcctCODPayableConsignor 0 (cq_AmountMinor inp) [] 0 ''Owed to the consignor'')
                 \<lparr>LegCustomerID := co_ConsignorCustomerID ob, LegShipmentID := Some (co_ShipmentID ob)\<rparr>]\<rparr>"

fun runCollectionObservers :: "(CollectResult \<Rightarrow> unit result) list \<Rightarrow> CollectResult \<Rightarrow> unit result" where
  "runCollectionObservers [] result = Inr ()"
| "runCollectionObservers (observer # observers) result = bindE (observer result) (\<lambda>_. runCollectionObservers observers result)"

text \<open>The part of \<^verbatim>\<open>RecordCollection\<close> after the replay probes.\<close>

definition collect_new :: "(CollectResult \<Rightarrow> unit result) list \<Rightarrow> string \<Rightarrow> int \<Rightarrow> Principal \<Rightarrow> CollectRequest \<Rightarrow> CodDB \<Rightarrow> (CollectResult \<times> CodDB) result" where
  "collect_new observers newID now p inp db =
     (let at = (case cq_CollectedAt inp of None \<Rightarrow> now | Some t \<Rightarrow> t);
          agentID = (case cq_AgentUserID inp of None \<Rightarrow> UserID p | Some u \<Rightarrow> u);
          org = OrganizationID p
      in bindE (opt_or (GetObligationByShipment db org (cq_ShipmentID inp)) (Conflict ''COD_NOT_APPLICABLE''))
         (\<lambda>ob. ensure (co_Status ob = StatusExpected) (Conflict ''COD_ALREADY_COLLECTED'')
         (ensure (in64 (co_CollectedMinor ob + cq_AmountMinor inp)) Internal
         (bindE (opt_or (MarkObligationCollected org (co_ID ob) (cq_AmountMinor inp) agentID at db) (Conflict ''COD_ALREADY_COLLECTED''))
         (\<lambda>(updated, db1). bindE (Post p now (collection_posting inp at agentID ob) (cod_ledger db1))
         (\<lambda>(posting, l). bindE (CreateCODCollection (db1\<lparr>cod_ledger := l\<rparr>)
               \<lparr>cl_ID = 0, cl_PublicID = newID, cl_OrganizationID = org, cl_ObligationID = co_ID ob, cl_ShipmentID = co_ShipmentID ob,
                cl_DeliveryAttemptID = cq_DeliveryAttemptID inp, cl_AmountMinor = cq_AmountMinor inp, cl_Currency = co_Currency ob,
                cl_PaymentMode = cq_PaymentMode inp, cl_Reference = Optional (cq_Reference inp), cl_CollectedBy = Some agentID, cl_CollectedAt = at,
                cl_OperatingUnitID = cq_OperatingUnitID inp, cl_JournalTransactionID = Some (j_ID (rs_Transaction posting)),
                cl_DeviceID = Optional (dv_ID (cq_Device inp)), cl_DeviceEventID = Optional (dv_EventID (cq_Device inp))\<rparr>)
         (\<lambda>(collection, db2).
            let result = \<lparr>rc_Obligation = updated, rc_Collection = collection, rc_Duplicate = False\<rparr>
            in bindE (runCollectionObservers observers result) (\<lambda>_. Inr (result, db2)))))))))"

definition RecordCollection :: "(CollectResult \<Rightarrow> unit result) list \<Rightarrow> string \<Rightarrow> int \<Rightarrow> Principal \<Rightarrow> CollectRequest \<Rightarrow> CodDB \<Rightarrow> (CollectResult \<times> CodDB) result" where
  "RecordCollection observers newID now p inp db =
     ensure (\<not> cq_AmountMinor inp \<le> 0) (Validation ''A COD collection must be for a positive amount.'')
     (case Option.bind (cq_DeliveryAttemptID inp) (FindCollectionByAttempt db (OrganizationID p)) of
        Some existing \<Rightarrow> replay_collection db (OrganizationID p) existing
      | None \<Rightarrow>
          (case (if HasEventKey (cq_Device inp)
                 then FindCollectionByDeviceEvent db (OrganizationID p) (dv_ID (cq_Device inp)) (dv_EventID (cq_Device inp)) else None) of
             Some existing \<Rightarrow> replay_collection db (OrganizationID p) existing
           | None \<Rightarrow> collect_new observers newID now p inp db))"

subsection \<open>Custody transfer\<close>

record DeclareTransferRequest =
  dq_FromType :: string
  dq_FromID :: int
  dq_ToType :: string
  dq_ToID :: int
  dq_ObligationIDs :: "string list"
  dq_Notes :: string

fun resolveObligationIDs :: "CodDB \<Rightarrow> int \<Rightarrow> string list \<Rightarrow> int list result" where
  "resolveObligationIDs db org [] = Inr []"
| "resolveObligationIDs db org (pid # pids) =
     bindE (opt_or (GetObligationByPublicID db org pid) (NotFound ''COD obligation''))
       (\<lambda>ob. bindE (resolveObligationIDs db org pids) (\<lambda>ids. Inr (co_ID ob # ids)))"

definition allocateCode :: "int \<Rightarrow> int \<Rightarrow> string \<Rightarrow> CodDB \<Rightarrow> (string \<times> CodDB) result" where
  "allocateCode now org kind db =
     bindE (opt_or (AllocateOperationalSequence (org, kind, format_200601 now) (op_sequences (cod_ledger db))) (Conflict ''CONFLICT''))
       (\<lambda>(n, t). Inr (kind @ ''-'' @ format_200601 now @ ''-'' @ format_0d 6 n,
                      db\<lparr>cod_ledger := (cod_ledger db)\<lparr>op_sequences := t\<rparr>\<rparr>))"

definition outstanding :: "CodObligation \<Rightarrow> int" where
  "outstanding ob = sub64 (co_CollectedMinor ob) (co_RemittedMinor ob)"

fun declare_checks :: "string \<Rightarrow> string \<Rightarrow> int \<Rightarrow> CodObligation list \<Rightarrow> int \<Rightarrow> string \<Rightarrow> (int \<times> string) result" where
  "declare_checks expectedStatus fromType fromID [] declared currency = Inr (declared, currency)"
| "declare_checks expectedStatus fromType fromID (ob # obs) declared currency =
     ensure (co_Status ob = expectedStatus) (Conflict ''COD_INVALID_STATE'')
     (ensure (co_CustodianType ob = Some fromType \<and> co_CustodianID ob = Some fromID) (Conflict ''COD_WRONG_CUSTODIAN'')
     (ensure (currency = [] \<or> currency = co_Currency ob) (Conflict ''LEDGER_CURRENCY_MISMATCH'')
     (declare_checks expectedStatus fromType fromID obs (add64 declared (outstanding ob)) (if currency = [] then co_Currency ob else currency))))"

definition custodian_types :: "string list" where
  "custodian_types = [''AGENT'', ''OPERATING_UNIT'', ''FRANCHISE'', ''HEAD_OFFICE'']"

definition CreateCustodyTransfer :: "CodDB \<Rightarrow> CodCustodyTransfer \<Rightarrow> (CodCustodyTransfer \<times> CodDB) result" where
  "CreateCustodyTransfer db t =
     ensure (ct_FromType t \<in> set custodian_types \<and> ct_ToType t \<in> set custodian_types \<and> 0 \<le> ct_DeclaredMinor t \<and> 0 \<le> ct_ShipmentCount t
        \<and> \<not> (ct_FromType t = ct_ToType t \<and> ct_FromID t = ct_ToID t)
        \<and> \<not> list_ex (\<lambda>u. ct_PublicID u = ct_PublicID t \<or> ct_OrganizationID u = ct_OrganizationID t \<and> ct_TransferCode u = ct_TransferCode t) (transfers db))
       Internal
       (let t' = t\<lparr>ct_ID := next_transfer db\<rparr>
        in Inr (t', db\<lparr>transfers := transfers db @ [t'], next_transfer := next_transfer db + 1\<rparr>))"

definition AddTransferItem :: "CodCustodyTransferItem \<Rightarrow> CodDB \<Rightarrow> CodDB result" where
  "AddTransferItem i db =
     ensure (0 \<le> ti_AmountMinor i) Internal
     (ensure (\<not> list_ex (\<lambda>u. ti_TransferID u = ti_TransferID i \<and> ti_ObligationID u = ti_ObligationID i) (transfer_items db)) Internal
     (ensure (\<not> list_ex (\<lambda>u. ti_ObligationID u = ti_ObligationID i \<and> ti_Status u \<in> set [''INCLUDED'', ''DISPUTED'']) (transfer_items db))
        (Conflict ''COD_INVALID_STATE'')
        (Inr (db\<lparr>transfer_items := transfer_items db @ [i]\<rparr>))))"

definition transfer_item :: "int \<Rightarrow> CodObligation \<Rightarrow> CodCustodyTransferItem" where
  "transfer_item tid ob = \<lparr>ti_TransferID = tid, ti_ObligationID = co_ID ob, ti_AmountMinor = outstanding ob, ti_Status = ''INCLUDED''\<rparr>"

definition ListTransferItems :: "CodDB \<Rightarrow> int \<Rightarrow> CodCustodyTransferItem list" where
  "ListTransferItems db tid = filter (\<lambda>i. ti_TransferID i = tid) (transfer_items db)"

definition DeclareTransfer :: "string \<Rightarrow> int \<Rightarrow> Principal \<Rightarrow> DeclareTransferRequest \<Rightarrow> CodDB \<Rightarrow> ((CodCustodyTransfer \<times> CodCustodyTransferItem list) \<times> CodDB) result" where
  "DeclareTransfer newID now p inp db =
     ensure (dq_ObligationIDs inp \<noteq> []) (Validation ''A custody transfer needs at least one COD shipment.'')
     (ensure (\<not> (dq_FromType inp = dq_ToType inp \<and> dq_FromID inp = dq_ToID inp)) (Validation ''A transfer cannot be to the same party it is from.'')
     (bindE (statusForCustodian (dq_FromType inp))
     (\<lambda>expectedStatus. bindE (resolveObligationIDs db (OrganizationID p) (dq_ObligationIDs inp))
     (\<lambda>ids. let locked = LockObligationsByIDs db (OrganizationID p) ids in
        ensure (length locked = length ids) (NotFound ''COD obligation'')
        (bindE (declare_checks expectedStatus (dq_FromType inp) (dq_FromID inp) locked 0 [])
        (\<lambda>(declared, currency). bindE (allocateCode now (OrganizationID p) ''CDT'' db)
        (\<lambda>(code, db1). bindE (CreateCustodyTransfer db1
              \<lparr>ct_ID = 0, ct_PublicID = newID, ct_OrganizationID = OrganizationID p, ct_TransferCode = code, ct_FromType = dq_FromType inp,
               ct_FromID = dq_FromID inp, ct_ToType = dq_ToType inp, ct_ToID = dq_ToID inp, ct_DeclaredMinor = declared, ct_AcceptedMinor = None,
               ct_Currency = currency, ct_ShipmentCount = wrap32 (int (length locked)), ct_Status = ''DECLARED'', ct_DeclaredBy = Some (UserID p), ct_AcceptedBy = None,
               ct_VarianceMinor = 0, ct_VarianceReason = None, ct_JournalTransactionID = None, ct_Notes = Optional (dq_Notes inp)\<rparr>)
        (\<lambda>(created, db2). bindE (foldE (\<lambda>ob. AddTransferItem (transfer_item (ct_ID created) ob)) locked db2)
        (\<lambda>db3. Inr ((created, ListTransferItems db3 (ct_ID created)), db3))))))))))"

record AcceptTransferRequest =
  aq_TransferID :: string
  aq_AcceptedMinor :: int
  aq_VarianceReason :: string

definition GetTransferByPublicID :: "CodDB \<Rightarrow> int \<Rightarrow> string \<Rightarrow> CodCustodyTransfer option" where
  "GetTransferByPublicID db org pid = find (\<lambda>t. ct_OrganizationID t = org \<and> ct_PublicID t = pid) (transfers db)"

definition LockTransfer :: "CodDB \<Rightarrow> int \<Rightarrow> int \<Rightarrow> CodCustodyTransfer option" where
  "LockTransfer db org tid = find (\<lambda>t. ct_OrganizationID t = org \<and> ct_ID t = tid) (transfers db)"

definition AcceptCustodyTransfer :: "int \<Rightarrow> int \<Rightarrow> int \<Rightarrow> int \<Rightarrow> int \<Rightarrow> string \<Rightarrow> int \<Rightarrow> CodDB \<Rightarrow> (CodCustodyTransfer \<times> CodDB) result" where
  "AcceptCustodyTransfer org tid accepted acceptedBy variance varianceReason journalID db =
     (let hit = (\<lambda>t. ct_OrganizationID t = org \<and> ct_ID t = tid \<and> ct_Status t = ''DECLARED'');
          f = (\<lambda>t. t\<lparr>ct_Status := ''ACCEPTED'', ct_AcceptedMinor := Some accepted, ct_AcceptedBy := Some acceptedBy, ct_VarianceMinor := variance,
                 ct_VarianceReason := Optional varianceReason, ct_JournalTransactionID := Some journalID\<rparr>)
      in case find hit (transfers db) of
           None \<Rightarrow> Inl (Conflict ''COD_TRANSFER_CLOSED'')
         | Some t \<Rightarrow> ensure (0 \<le> accepted \<and> (variance = 0 \<or> varianceReason \<noteq> [])) Internal
             (Inr (f t, db\<lparr>transfers := map (\<lambda>t. if hit t then f t else t) (transfers db)\<rparr>)))"

definition transfer_legs :: "CodCustodyTransfer \<Rightarrow> (string \<times> string) \<Rightarrow> (string \<times> string) \<Rightarrow> int \<Rightarrow> string \<Rightarrow> Leg list" where
  "transfer_legs t giver receiver accepted varianceReason =
     (let variance = sub64 accepted (ct_DeclaredMinor t)
      in [leg (fst receiver) accepted 0 (snd receiver) (ct_ToID t) (''COD accepted from '' @ ct_FromType t),
          leg (fst giver) 0 (ct_DeclaredMinor t) (snd giver) (ct_FromID t) (''COD handed to '' @ ct_ToType t)]
         @ (if variance < 0 then [leg AcctCODShortageRecoverable (neg64 variance) 0 (snd giver) (ct_FromID t) (''Shortfall on hand-in: '' @ varianceReason)]
            else if variance > 0 then [leg AcctCODExcessPayable 0 variance [] 0 (''Excess on hand-in: '' @ varianceReason)]
            else []))"

definition arrow :: string where
  "arrow = [CHR 0xE2, CHR 0x86, CHR 0x92]"

definition transfer_posting :: "CodCustodyTransfer \<Rightarrow> int \<Rightarrow> Leg list \<Rightarrow> Posting" where
  "transfer_posting t now legs =
     \<lparr>SourceType = ''COD'', SourceID = Some (ct_ID t), Purpose = ''CUSTODY_TRANSFER'',
      PDescription = ''COD custody '' @ ct_FromType t @ '' '' @ arrow @ '' '' @ ct_ToType t @ '' ('' @ ct_TransferCode t @ '')'', Reason = [],
      PCurrency = ct_Currency t, PostingDate = Some now, Legs = legs\<rparr>"

definition move_item :: "int \<Rightarrow> CodCustodyTransfer \<Rightarrow> string \<Rightarrow> string \<Rightarrow> CodCustodyTransferItem \<Rightarrow> CodDB \<Rightarrow> CodDB result" where
  "move_item org t fromStatus toStatus i db =
     bindE (opt_or (MoveObligationCustody org (ti_ObligationID i) fromStatus toStatus (ct_ToType t) (ct_ToID t) db)
              (Conflict ''COD_INVALID_STATE''))
       (\<lambda>(_, db'). Inr db')"

definition AcceptTransfer :: "int \<Rightarrow> Principal \<Rightarrow> AcceptTransferRequest \<Rightarrow> CodDB \<Rightarrow> (CodCustodyTransfer \<times> CodDB) result" where
  "AcceptTransfer now p inp db =
     bindE (opt_or (GetTransferByPublicID db (OrganizationID p) (aq_TransferID inp)) (NotFound ''Custody transfer''))
     (\<lambda>header. bindE (opt_or (LockTransfer db (OrganizationID p) (ct_ID header)) Internal)
     (\<lambda>locked. ensure (ct_Status locked = ''DECLARED'') (Conflict ''COD_TRANSFER_CLOSED'')
       (let variance = sub64 (aq_AcceptedMinor inp) (ct_DeclaredMinor locked); items = ListTransferItems db (ct_ID locked)
        in ensure (\<not> (variance \<noteq> 0 \<and> rune_count (aq_VarianceReason inp) < 3))
             (Validation ''The counted amount differs from the declaration, so a reason is required.'')
           (bindE (receivableAccountFor (ct_FromType locked))
           (\<lambda>giver. bindE (receivableAccountFor (ct_ToType locked))
           (\<lambda>receiver. bindE (statusForCustodian (ct_ToType locked))
           (\<lambda>toStatus. bindE (statusForCustodian (ct_FromType locked))
           (\<lambda>fromStatus. bindE (Post p now (transfer_posting locked now (transfer_legs locked giver receiver (aq_AcceptedMinor inp) (aq_VarianceReason inp))) (cod_ledger db))
           (\<lambda>(posting, l). bindE (AcceptCustodyTransfer (OrganizationID p) (ct_ID locked) (aq_AcceptedMinor inp) (UserID p) variance (aq_VarianceReason inp)
                   (j_ID (rs_Transaction posting)) (db\<lparr>cod_ledger := l\<rparr>))
           (\<lambda>(accepted, db1). bindE (foldE (move_item (OrganizationID p) locked fromStatus toStatus) items db1)
           (\<lambda>db2. Inr (accepted, db2))))))))))))"

subsection \<open>Remittance\<close>

record RemitRequest =
  mq_FromType :: string
  mq_FromID :: int
  mq_BeneficiaryType :: string
  mq_BeneficiaryID :: "int option"
  mq_ObligationIDs :: "string list"
  mq_PaymentMode :: string
  mq_Reference :: string
  mq_PaidOn :: "int option"

fun remit_checks :: "string \<Rightarrow> CodObligation list \<Rightarrow> int \<Rightarrow> string \<Rightarrow> (int \<times> string) result" where
  "remit_checks expectedStatus [] tot currency = Inr (tot, currency)"
| "remit_checks expectedStatus (ob # obs) tot currency =
     ensure (\<not> (co_Status ob \<noteq> expectedStatus \<and> co_Status ob \<noteq> StatusReconciled)) (Conflict ''COD_INVALID_STATE'')
     (remit_checks expectedStatus obs (add64 tot (outstanding ob)) (if currency = [] then co_Currency ob else currency))"

definition remittance_modes :: "string list" where
  "remittance_modes = [''BANK_TRANSFER'', ''UPI'', ''CHEQUE'', ''CASH_DEPOSIT'', ''ADJUSTMENT'', ''OTHER'']"

definition CreateCODRemittance :: "CodDB \<Rightarrow> CodRemittance \<Rightarrow> (CodRemittance \<times> CodDB) result" where
  "CreateCODRemittance db r =
     ensure (cr_FromType r \<in> set [''OPERATING_UNIT'', ''FRANCHISE'', ''HEAD_OFFICE'']
        \<and> cr_BeneficiaryType r \<in> set [''HEAD_OFFICE'', ''CONSIGNOR'', ''CUSTOMER''] \<and> 0 < cr_AmountMinor r \<and> cr_PaymentMode r \<in> set remittance_modes
        \<and> \<not> list_ex (\<lambda>u. cr_PublicID u = cr_PublicID r \<or> cr_OrganizationID u = cr_OrganizationID r \<and> cr_RemittanceCode u = cr_RemittanceCode r) (remittances db))
       Internal
       (let r' = r\<lparr>cr_ID := next_remittance db\<rparr>
        in Inr (r', db\<lparr>remittances := remittances db @ [r'], next_remittance := next_remittance db + 1\<rparr>))"

definition AddRemittanceItem :: "CodRemittanceItem \<Rightarrow> CodDB \<Rightarrow> CodDB result" where
  "AddRemittanceItem i db =
     ensure (0 < ri_AmountMinor i \<and> \<not> list_ex (\<lambda>u. ri_RemittanceID u = ri_RemittanceID i \<and> ri_ObligationID u = ri_ObligationID i) (remittance_items db))
       Internal (Inr (db\<lparr>remittance_items := remittance_items db @ [i]\<rparr>))"

definition CreateRemittance :: "string \<Rightarrow> int \<Rightarrow> Principal \<Rightarrow> RemitRequest \<Rightarrow> CodDB \<Rightarrow> (CodRemittance \<times> CodDB) result" where
  "CreateRemittance newID now p inp db =
     ensure (mq_ObligationIDs inp \<noteq> []) (Validation ''A remittance needs at least one COD shipment.'')
     (bindE (statusForCustodian (mq_FromType inp))
     (\<lambda>expectedStatus. bindE (resolveObligationIDs db (OrganizationID p) (mq_ObligationIDs inp))
     (\<lambda>ids. let locked = LockObligationsByIDs db (OrganizationID p) ids in
        bindE (remit_checks expectedStatus locked 0 [])
        (\<lambda>(tot, currency). ensure (\<not> tot \<le> 0) (Conflict ''COD_NOTHING_TO_REMIT'')
        (bindE (allocateCode now (OrganizationID p) ''CDM'' db)
        (\<lambda>(code, db1). bindE (CreateCODRemittance db1
              \<lparr>cr_ID = 0, cr_PublicID = newID, cr_OrganizationID = OrganizationID p, cr_RemittanceCode = code, cr_FromType = mq_FromType inp,
               cr_FromID = mq_FromID inp, cr_BeneficiaryType = mq_BeneficiaryType inp, cr_BeneficiaryID = mq_BeneficiaryID inp, cr_AmountMinor = tot,
               cr_Currency = currency, cr_ShipmentCount = wrap32 (int (length locked)), cr_PaymentMode = mq_PaymentMode inp, cr_Reference = Optional (mq_Reference inp),
               cr_PaidOn = (case mq_PaidOn inp of None \<Rightarrow> now | Some d \<Rightarrow> d), cr_Status = ''INITIATED'', cr_JournalTransactionID = None,
               cr_CreatedBy = Some (UserID p), cr_ConfirmedBy = None\<rparr>)
        (\<lambda>(created, db2). bindE (foldE (\<lambda>ob. AddRemittanceItem \<lparr>ri_RemittanceID = cr_ID created, ri_ObligationID = co_ID ob, ri_AmountMinor = outstanding ob\<rparr>) locked db2)
        (\<lambda>db3. Inr (created, db3)))))))))"

definition GetRemittanceByPublicID :: "CodDB \<Rightarrow> int \<Rightarrow> string \<Rightarrow> CodRemittance option" where
  "GetRemittanceByPublicID db org pid = find (\<lambda>r. cr_OrganizationID r = org \<and> cr_PublicID r = pid) (remittances db)"

definition LockRemittance :: "CodDB \<Rightarrow> int \<Rightarrow> int \<Rightarrow> CodRemittance option" where
  "LockRemittance db org rid = find (\<lambda>r. cr_OrganizationID r = org \<and> cr_ID r = rid) (remittances db)"

definition ConfirmCODRemittance :: "int \<Rightarrow> int \<Rightarrow> int \<Rightarrow> int \<Rightarrow> CodDB \<Rightarrow> (CodRemittance \<times> CodDB) option" where
  "ConfirmCODRemittance org rid confirmedBy journalID db =
     (let hit = (\<lambda>r. cr_OrganizationID r = org \<and> cr_ID r = rid \<and> cr_Status r = ''INITIATED'');
          f = (\<lambda>r. r\<lparr>cr_Status := ''CONFIRMED'', cr_ConfirmedBy := Some confirmedBy, cr_JournalTransactionID := Some journalID\<rparr>)
      in case find hit (remittances db) of
           None \<Rightarrow> None
         | Some r \<Rightarrow> Some (f r, db\<lparr>remittances := map (\<lambda>r. if hit r then f r else r) (remittances db)\<rparr>))"

definition ListRemittanceItems :: "CodDB \<Rightarrow> int \<Rightarrow> CodRemittanceItem list" where
  "ListRemittanceItems db rid = filter (\<lambda>i. ri_RemittanceID i = rid) (remittance_items db)"

definition remittance_legs :: "CodRemittance \<Rightarrow> (string \<times> string) \<Rightarrow> Leg list result" where
  "remittance_legs r giver =
     (if cr_BeneficiaryType r = ''HEAD_OFFICE'' then
        Inr [leg AcctCash (cr_AmountMinor r) 0 [] 0 ''COD banked at head office'',
             leg (fst giver) 0 (cr_AmountMinor r) (snd giver) (cr_FromID r) ''COD remitted to head office'']
      else if cr_BeneficiaryType r \<in> set [''CONSIGNOR'', ''CUSTOMER''] then
        Inr [(leg AcctCODPayableConsignor (cr_AmountMinor r) 0 [] 0 ''COD paid to the consignor'')\<lparr>LegCustomerID := cr_BeneficiaryID r\<rparr>,
             leg AcctCash 0 (cr_AmountMinor r) [] 0 ''Paid out to the consignor'']
      else Inl (Validation ''Unknown remittance beneficiary.''))"

definition remittance_posting :: "CodRemittance \<Rightarrow> Leg list \<Rightarrow> Posting" where
  "remittance_posting r legs =
     \<lparr>SourceType = ''COD'', SourceID = Some (cr_ID r), Purpose = ''REMITTANCE'',
      PDescription = ''COD remittance '' @ cr_RemittanceCode r @ '' to '' @ cr_BeneficiaryType r, Reason = [],
      PCurrency = cr_Currency r, PostingDate = Some (cr_PaidOn r), Legs = legs\<rparr>"

text \<open>A row that is no longer eligible is passed over.\<close>

definition remit_item :: "int \<Rightarrow> int \<Rightarrow> CodRemittanceItem \<Rightarrow> CodDB \<Rightarrow> CodDB result" where
  "remit_item org now i db =
     (case MarkObligationRemitted org (ri_ObligationID i) (ri_AmountMinor i) now db of
        None \<Rightarrow> Inr db
      | Some (ob, db') \<Rightarrow> ensure (in64 (co_RemittedMinor ob)) Internal (Inr db'))"

definition ConfirmRemittance :: "int \<Rightarrow> Principal \<Rightarrow> string \<Rightarrow> CodDB \<Rightarrow> (CodRemittance \<times> CodDB) result" where
  "ConfirmRemittance now p publicID db =
     bindE (opt_or (GetRemittanceByPublicID db (OrganizationID p) publicID) (NotFound ''COD remittance''))
     (\<lambda>header. bindE (opt_or (LockRemittance db (OrganizationID p) (cr_ID header)) Internal)
     (\<lambda>locked. ensure (cr_Status locked = ''INITIATED'') (Conflict ''COD_INVALID_STATE'')
       (bindE (receivableAccountFor (cr_FromType locked))
       (\<lambda>giver. bindE (remittance_legs locked giver)
       (\<lambda>legs. bindE (Post p now (remittance_posting locked legs) (cod_ledger db))
       (\<lambda>(posting, l). bindE (opt_or (ConfirmCODRemittance (OrganizationID p) (cr_ID locked) (UserID p) (j_ID (rs_Transaction posting)) (db\<lparr>cod_ledger := l\<rparr>))
                              (Conflict ''COD_INVALID_STATE''))
       (\<lambda>(confirmed, db1). bindE (foldE (remit_item (OrganizationID p) now) (ListRemittanceItems db1 (cr_ID locked)) db1)
       (\<lambda>db2. Inr (confirmed, db2)))))))))"

subsection \<open>Adjustments\<close>

record AdjustmentRequest =
  jq_ObligationID :: string
  jq_Type :: string
  jq_AmountMinor :: int
  jq_LiablePartyType :: string
  jq_LiablePartyID :: "int option"
  jq_Reason :: string

definition adjustment_types :: "string list" where
  "adjustment_types = [''SHORTAGE_RECOVERY'', ''SHORTAGE_WRITE_OFF'', ''EXCESS_REFUND'', ''EXCESS_RETAINED'', ''WAIVER'', ''CORRECTION'', ''DISPUTE_RESOLUTION'']"

definition CreateCODAdjustment :: "CodDB \<Rightarrow> CodAdjustment \<Rightarrow> (CodAdjustment \<times> CodDB) result" where
  "CreateCODAdjustment db a =
     ensure (ca_AdjustmentType a \<in> set adjustment_types
        \<and> (case ca_LiablePartyType a of None \<Rightarrow> True
            | Some t \<Rightarrow> t \<in> set [''AGENT'', ''OPERATING_UNIT'', ''FRANCHISE'', ''HEAD_OFFICE'', ''CUSTOMER''])
        \<and> 10 \<le> rune_count (btrim (ca_Reason a)) \<and> (ca_ObligationID a \<noteq> None \<or> ca_ReconciliationID a \<noteq> None)
        \<and> \<not> list_ex (\<lambda>u. ca_PublicID u = ca_PublicID a) (adjustments db))
       Internal
       (let a' = a\<lparr>ca_ID := next_adjustment db\<rparr>
        in Inr (a', db\<lparr>adjustments := adjustments db @ [a'], next_adjustment := next_adjustment db + 1\<rparr>))"

definition RequestAdjustment :: "string \<Rightarrow> Principal \<Rightarrow> AdjustmentRequest \<Rightarrow> CodDB \<Rightarrow> (CodAdjustment \<times> CodDB) result" where
  "RequestAdjustment newID p inp db =
     ensure (\<not> rune_count (jq_Reason inp) < 10) (Validation ''A COD adjustment requires a substantive reason.'')
     (ensure (jq_AmountMinor inp \<noteq> 0) (Validation ''An adjustment cannot be for zero.'')
     (bindE (if jq_ObligationID inp \<noteq> []
             then bindE (opt_or (GetObligationByPublicID db (OrganizationID p) (jq_ObligationID inp)) (NotFound ''COD obligation''))
                    (\<lambda>ob. Inr (Some (co_ID ob), co_Currency ob))
             else Inr (None, OrganizationCurrency p))
     (\<lambda>(obligationID, currency). CreateCODAdjustment db
        \<lparr>ca_ID = 0, ca_PublicID = newID, ca_OrganizationID = OrganizationID p, ca_ObligationID = obligationID, ca_ReconciliationID = None,
         ca_AdjustmentType = jq_Type inp, ca_AmountMinor = jq_AmountMinor inp, ca_Currency = currency,
         ca_LiablePartyType = Optional (jq_LiablePartyType inp), ca_LiablePartyID = jq_LiablePartyID inp, ca_Reason = jq_Reason inp,
         ca_Status = ''PENDING_APPROVAL'', ca_RequestedBy = UserID p, ca_ApprovedBy = None, ca_JournalTransactionID = None\<rparr>)))"

definition GetAdjustmentByPublicID :: "CodDB \<Rightarrow> int \<Rightarrow> string \<Rightarrow> CodAdjustment option" where
  "GetAdjustmentByPublicID db org pid = find (\<lambda>a. ca_OrganizationID a = org \<and> ca_PublicID a = pid) (adjustments db)"

definition update_adjustment :: "(CodAdjustment \<Rightarrow> bool) \<Rightarrow> (CodAdjustment \<Rightarrow> CodAdjustment) \<Rightarrow> CodDB \<Rightarrow> (CodAdjustment \<times> CodDB) option" where
  "update_adjustment hit f db =
     (case find hit (adjustments db) of
        None \<Rightarrow> None
      | Some a \<Rightarrow> Some (f a, db\<lparr>adjustments := map (\<lambda>a. if hit a then f a else a) (adjustments db)\<rparr>))"

definition ApproveCODAdjustment :: "int \<Rightarrow> int \<Rightarrow> int \<Rightarrow> CodDB \<Rightarrow> (CodAdjustment \<times> CodDB) option" where
  "ApproveCODAdjustment org aid approver = update_adjustment
     (\<lambda>a. ca_OrganizationID a = org \<and> ca_ID a = aid \<and> ca_Status a = ''PENDING_APPROVAL'' \<and> ca_RequestedBy a \<noteq> approver)
     (\<lambda>a. a\<lparr>ca_Status := ''APPROVED'', ca_ApprovedBy := Some approver\<rparr>)"

definition MarkAdjustmentPosted :: "int \<Rightarrow> int \<Rightarrow> int \<Rightarrow> CodDB \<Rightarrow> (CodAdjustment \<times> CodDB) option" where
  "MarkAdjustmentPosted org aid journalID = update_adjustment
     (\<lambda>a. ca_OrganizationID a = org \<and> ca_ID a = aid \<and> ca_Status a = ''APPROVED'')
     (\<lambda>a. a\<lparr>ca_Status := ''POSTED'', ca_JournalTransactionID := Some journalID\<rparr>)"

definition adjustmentLegs :: "CodAdjustment \<Rightarrow> Leg list result" where
  "adjustmentLegs a =
     (let amount = (if ca_AmountMinor a < 0 then neg64 (ca_AmountMinor a) else ca_AmountMinor a);
          partyType = (case ca_LiablePartyType a of None \<Rightarrow> ''FRANCHISE''
             | Some t \<Rightarrow> if t = ''AGENT'' then ''AGENT'' else if t = ''OPERATING_UNIT'' then ''OPERATING_UNIT'' else ''FRANCHISE'');
          partyID = (case ca_LiablePartyID a of None \<Rightarrow> 0 | Some i \<Rightarrow> i)
      in if ca_AdjustmentType a \<in> set [''SHORTAGE_WRITE_OFF'', ''WAIVER''] then
           Inr [leg AcctCODShortageWrittenOff amount 0 [] 0 ''Shortage written off'',
                leg AcctCODShortageRecoverable 0 amount partyType partyID ''Recoverable cleared'']
         else if ca_AdjustmentType a = ''SHORTAGE_RECOVERY'' then
           Inr [leg AcctCash amount 0 [] 0 ''Shortage recovered'',
                leg AcctCODShortageRecoverable 0 amount partyType partyID ''Recoverable settled'']
         else if ca_AdjustmentType a = ''EXCESS_REFUND'' then
           Inr [leg AcctCODExcessPayable amount 0 [] 0 ''Excess refunded'', leg AcctCash 0 amount [] 0 ''Paid out'']
         else if ca_AdjustmentType a = ''EXCESS_RETAINED'' then
           Inr [leg AcctCODExcessPayable amount 0 [] 0 ''Excess retained'', leg AcctOtherRevenue 0 amount [] 0 ''Unclaimed COD excess'']
         else if ca_AdjustmentType a \<in> set [''CORRECTION'', ''DISPUTE_RESOLUTION''] then
           (if ca_AmountMinor a > 0
            then Inr [leg AcctCODShortageRecoverable amount 0 partyType partyID (ca_Reason a),
                      leg AcctCODReceivableFranchise 0 amount partyType partyID (ca_Reason a)]
            else Inr [leg AcctCODReceivableFranchise amount 0 partyType partyID (ca_Reason a),
                      leg AcctCODShortageRecoverable 0 amount partyType partyID (ca_Reason a)])
         else Inl (Validation ''Unknown COD adjustment type.''))"

definition adjustment_posting :: "CodAdjustment \<Rightarrow> int \<Rightarrow> Leg list \<Rightarrow> Posting" where
  "adjustment_posting a now legs =
     \<lparr>SourceType = ''ADJUSTMENT'', SourceID = Some (ca_ID a), Purpose = ''COD_'' @ ca_AdjustmentType a,
      PDescription = ''COD adjustment: '' @ ca_AdjustmentType a, Reason = ca_Reason a, PCurrency = ca_Currency a, PostingDate = Some now, Legs = legs\<rparr>"

definition ApproveAdjustment :: "int \<Rightarrow> Principal \<Rightarrow> string \<Rightarrow> CodDB \<Rightarrow> (CodAdjustment \<times> CodDB) result" where
  "ApproveAdjustment now p publicID db =
     bindE (opt_or (GetAdjustmentByPublicID db (OrganizationID p) publicID) (NotFound ''COD adjustment''))
     (\<lambda>header. ensure (ca_RequestedBy header \<noteq> UserID p)
         (Forbidden ''A COD adjustment must be approved by someone other than the person who raised it.'')
       (bindE (opt_or (ApproveCODAdjustment (OrganizationID p) (ca_ID header) (UserID p) db) (Conflict ''COD_NOT_APPROVED''))
       (\<lambda>(approved, db1). bindE (adjustmentLegs approved)
       (\<lambda>legs. bindE (Post p now (adjustment_posting approved now legs) (cod_ledger db1))
       (\<lambda>(posting, l). opt_or (MarkAdjustmentPosted (OrganizationID p) (ca_ID approved) (j_ID (rs_Transaction posting)) (db1\<lparr>cod_ledger := l\<rparr>)) Internal)))))"

subsection \<open>The custody position\<close>

definition in_custody :: "int \<Rightarrow> string \<Rightarrow> int \<Rightarrow> CodObligation \<Rightarrow> bool" where
  "in_custody org partyType partyID ob \<longleftrightarrow> co_OrganizationID ob = org \<and> co_CustodianType ob = Some partyType \<and> co_CustodianID ob = Some partyID
     \<and> co_Status ob \<in> set [''AGENT_COLLECTED'', ''BRANCH_RECEIVED'', ''FRANCHISE_CONFIRMED'']"

definition held_minor :: "CodDB \<Rightarrow> int \<Rightarrow> string \<Rightarrow> int \<Rightarrow> int" where
  "held_minor db org partyType partyID =
     sum_list (map (\<lambda>ob. co_CollectedMinor ob - co_RemittedMinor ob) (filter (in_custody org partyType partyID) (obligations db)))"

definition SumCODInCustody :: "CodDB \<Rightarrow> int \<Rightarrow> string \<Rightarrow> int \<Rightarrow> (int \<times> int) result" where
  "SumCODInCustody db org partyType partyID =
     ensure (in64 (held_minor db org partyType partyID)) Internal
       (Inr (held_minor db org partyType partyID, int (length (filter (in_custody org partyType partyID) (obligations db)))))"

record CodPosition =
  cp_HeldMinor :: int
  cp_ObligationCount :: int
  cp_LedgerBalanceMinor :: int
  cp_Reconciled :: bool

definition CustodyPosition :: "Principal \<Rightarrow> string \<Rightarrow> int \<Rightarrow> CodDB \<Rightarrow> CodPosition result" where
  "CustodyPosition p partyType partyID db =
     bindE (SumCODInCustody db (OrganizationID p) partyType partyID)
     (\<lambda>(held, count). bindE (receivableAccountFor partyType)
     (\<lambda>(_, ledgerParty). bindE (PartyBalance (cod_ledger db) p ledgerParty partyID None)
     (\<lambda>balance. Inr \<lparr>cp_HeldMinor = held, cp_ObligationCount = count, cp_LedgerBalanceMinor = balance, cp_Reconciled = (held = balance)\<rparr>)))"

subsection \<open>Rows\<close>

lemma update_obligation_Some:
  assumes "update_obligation org oid guard f db = Some (ob', db')"
  obtains ob where "ob \<in> set (obligations db)" "co_OrganizationID ob = org" "co_ID ob = oid" "guard ob" "ob' = f ob"
    "db' = db\<lparr>obligations := map (\<lambda>u. if co_OrganizationID u = org \<and> co_ID u = oid \<and> guard u then f u else u) (obligations db)\<rparr>"
  using assms by (auto simp: update_obligation_def Let_def split: option.splits dest!: find_SomeD)

text \<open>The amount an obligation stands for.\<close>

abbreviation owing :: "CodObligation \<Rightarrow> int" where
  "owing ob \<equiv> co_CollectedMinor ob - co_RemittedMinor ob"

lemma held_minor_sum: "held_minor db org pt pid = sum_list (map (\<lambda>ob. if in_custody org pt pid ob then owing ob else 0) (obligations db))"
  unfolding held_minor_def by (induction "obligations db" arbitrary: db) (auto simp: sum_list_map_filter')

text \<open>A set of obligations that all change hands moves the sum of what they stand for.\<close>

lemma held_moved:
  assumes "obligations db' = map (\<lambda>ob. if P ob then g ob else ob) (obligations db)"
    and "\<And>ob. ob \<in> set (obligations db) \<Longrightarrow> P ob \<Longrightarrow> owing (g ob) = owing ob
      \<and> (in_custody org pt pid ob \<longleftrightarrow> A) \<and> (in_custody org pt pid (g ob) \<longleftrightarrow> B)"
  shows "held_minor db' org pt pid = held_minor db org pt pid
    + ((if B then 1 else 0) - (if A then 1 else 0)) * sum_list (map owing (filter P (obligations db)))"
proof -
  have "sum_list (map (\<lambda>ob. if in_custody org pt pid ob then owing ob else 0) (map (\<lambda>ob. if P ob then g ob else ob) obs))
    = sum_list (map (\<lambda>ob. if in_custody org pt pid ob then owing ob else 0) obs)
      + ((if B then 1 else 0) - (if A then 1 else 0)) * sum_list (map owing (filter P obs))" if "set obs \<subseteq> set (obligations db)" for obs
    using that
  proof (induction obs)
    case (Cons ob obs)
    have "owing (g ob) = owing ob \<and> (in_custody org pt pid ob \<longleftrightarrow> A) \<and> (in_custody org pt pid (g ob) \<longleftrightarrow> B)" if "P ob"
      using assms(2) [of ob] Cons.prems that by simp
    then show ?case using Cons by (auto simp: algebra_simps)
  qed simp
  then show ?thesis unfolding held_minor_sum assms(1) by blast
qed


subsection \<open>What each call changes\<close>

lemma OpenObligation_cases:
  assumes "OpenObligation fr newID p sh db = Inr (ob, db')"
  obtains (existing) "db' = db" "ob \<in> set (obligations db)"
  | (created) "ob = ob\<lparr>co_ID := next_obligation db, co_OrganizationID := OrganizationID p, co_Status := ''EXPECTED'', co_CustodianType := None, co_CustodianID := None,
        co_CollectedMinor := 0, co_RemittedMinor := 0\<rparr>" "co_ShipmentID ob \<notin> co_ShipmentID ` set (obligations db)"
      "db' = db\<lparr>obligations := obligations db @ [ob], next_obligation := next_obligation db + 1\<rparr>"
proof (cases "GetObligationByShipment db (OrganizationID p) (sh_ID sh)")
  case None
  then show ?thesis using assms
    by (intro created) (auto simp: OpenObligation_def CreateCODObligation_def res_simps Let_def StatusExpected_def list_ex_iff split: prod.splits)
next
  case (Some u)
  then show ?thesis using assms
    by (intro existing) (auto simp: OpenObligation_def GetObligationByShipment_def res_simps dest!: find_SomeD)
qed

lemma CreateCODCollection_Inr:
  assumes "CreateCODCollection db c = Inr (c', db')"
  shows "cl_ObligationID c' = cl_ObligationID c" "cl_AmountMinor c' = cl_AmountMinor c" "cl_OrganizationID c' = cl_OrganizationID c"
    "cl_DeliveryAttemptID c' = cl_DeliveryAttemptID c"
    "db' = db\<lparr>collections := collections db @ [c'], next_collection := next_collection db + 1\<rparr>"
  using assms by (auto simp: CreateCODCollection_def res_simps Let_def)

lemma collect_new_Inr:
  assumes "collect_new observers newID now p inp db = Inr (res, db')"
  obtains ob at agent posting l c where "ob \<in> set (obligations db)" "co_OrganizationID ob = OrganizationID p" "co_ShipmentID ob = cq_ShipmentID inp"
    "co_Status ob = ''EXPECTED''" "in64 (co_CollectedMinor ob + cq_AmountMinor inp)"
    "Post p now (collection_posting inp at agent ob) (cod_ledger db) = Inr (posting, l)"
    "db' = db\<lparr>obligations := map (\<lambda>u. if co_OrganizationID u = OrganizationID p \<and> co_ID u = co_ID ob \<and> co_Status u = ''EXPECTED''
          then u\<lparr>co_Status := ''AGENT_COLLECTED'', co_CollectedMinor := co_CollectedMinor u + cq_AmountMinor inp, co_CustodianType := Some ''AGENT'',
             co_CustodianID := Some agent, co_CollectedAt := (case co_CollectedAt u of None \<Rightarrow> Some at | Some t \<Rightarrow> Some t)\<rparr> else u) (obligations db),
        collections := collections db @ [c], next_collection := next_collection db + 1, cod_ledger := l\<rparr>"
    "cl_ObligationID c = co_ID ob" "cl_AmountMinor c = cq_AmountMinor inp" "cl_OrganizationID c = OrganizationID p"
    "\<not> rc_Duplicate res" "rc_Collection res = c"
proof -
  let ?at = "case cq_CollectedAt inp of None \<Rightarrow> now | Some t \<Rightarrow> t"
  let ?agent = "case cq_AgentUserID inp of None \<Rightarrow> UserID p | Some u \<Rightarrow> u"
  from assms obtain ob ob' db1 posting l c db2 where
    o: "GetObligationByShipment db (OrganizationID p) (cq_ShipmentID inp) = Some ob" "co_Status ob = ''EXPECTED''" "in64 (co_CollectedMinor ob + cq_AmountMinor inp)"
    and m: "MarkObligationCollected (OrganizationID p) (co_ID ob) (cq_AmountMinor inp) ?agent ?at db = Some (ob', db1)"
    and po: "Post p now (collection_posting inp ?at ?agent ob) (cod_ledger db1) = Inr (posting, l)"
    and c: "CreateCODCollection (db1\<lparr>cod_ledger := l\<rparr>)
               \<lparr>cl_ID = 0, cl_PublicID = newID, cl_OrganizationID = OrganizationID p, cl_ObligationID = co_ID ob, cl_ShipmentID = co_ShipmentID ob,
                cl_DeliveryAttemptID = cq_DeliveryAttemptID inp, cl_AmountMinor = cq_AmountMinor inp, cl_Currency = co_Currency ob,
                cl_PaymentMode = cq_PaymentMode inp, cl_Reference = Optional (cq_Reference inp), cl_CollectedBy = Some ?agent, cl_CollectedAt = ?at,
                cl_OperatingUnitID = cq_OperatingUnitID inp, cl_JournalTransactionID = Some (j_ID (rs_Transaction posting)),
                cl_DeviceID = Optional (dv_ID (cq_Device inp)), cl_DeviceEventID = Optional (dv_EventID (cq_Device inp))\<rparr> = Inr (c, db2)"
    and r: "db' = db2" "\<not> rc_Duplicate res" "rc_Collection res = c"
    unfolding collect_new_def Let_def by (auto simp: res_simps StatusExpected_def)
  have ob: "ob \<in> set (obligations db)" "co_OrganizationID ob = OrganizationID p" "co_ShipmentID ob = cq_ShipmentID inp"
    using o(1) by (auto simp: GetObligationByShipment_def dest!: find_SomeD)
  have db1: "db1 = db\<lparr>obligations := map (\<lambda>u. if co_OrganizationID u = OrganizationID p \<and> co_ID u = co_ID ob \<and> co_Status u = ''EXPECTED''
          then u\<lparr>co_Status := ''AGENT_COLLECTED'', co_CollectedMinor := co_CollectedMinor u + cq_AmountMinor inp, co_CustodianType := Some ''AGENT'',
             co_CustodianID := Some ?agent, co_CollectedAt := (case co_CollectedAt u of None \<Rightarrow> Some ?at | Some t \<Rightarrow> Some t)\<rparr> else u) (obligations db)\<rparr>"
    using m unfolding MarkObligationCollected_def by (rule update_obligation_Some) simp
  show thesis
    by (rule that [OF ob o(2,3), of ?at ?agent posting l c]) (use po CreateCODCollection_Inr [OF c] r in \<open>simp_all add: db1\<close>)
qed

lemma RecordCollection_cases:
  assumes "RecordCollection observers newID now p inp db = Inr (res, db')"
  obtains (duplicate) "rc_Duplicate res" "db' = db" "rc_Collection res \<in> set (collections db)"
  | (fresh) "0 < cq_AmountMinor inp" "collect_new observers newID now p inp db = Inr (res, db')"
proof -
  have rep: "db' = db \<and> rc_Duplicate res \<and> rc_Collection res = c" if "replay_collection db (OrganizationID p) c = Inr (res, db')" for c
    using that by (auto simp: replay_collection_def res_simps)
  have "0 < cq_AmountMinor inp" using assms by (auto simp: RecordCollection_def res_simps)
  then show thesis
    using assms duplicate fresh
    by (auto simp: RecordCollection_def FindCollectionByAttempt_def FindCollectionByDeviceEvent_def
        split: option.splits if_splits Option.bind_splits dest!: rep find_SomeD)
qed


lemma allocateCode_Inr:
  "allocateCode now org kind db = Inr (code, db') \<Longrightarrow> \<exists>seqs. db' = db\<lparr>cod_ledger := (cod_ledger db)\<lparr>op_sequences := seqs\<rparr>\<rparr>"
  by (auto simp: allocateCode_def res_simps)

lemma resolve_length: "resolveObligationIDs db org pids = Inr ids \<Longrightarrow> length ids = length pids"
  by (induction pids arbitrary: ids) (auto simp: res_simps)

lemma resolve_mem:
  "resolveObligationIDs db org pids = Inr ids \<Longrightarrow> pid \<in> set pids \<Longrightarrow> GetObligationByPublicID db org pid = Some ob \<Longrightarrow> co_ID ob \<in> set ids"
  by (induction pids arbitrary: ids) (auto simp: res_simps)

lemma declare_checks_Inr:
  assumes "declare_checks st ft fid obs d cur = Inr (d', cur')" "in64 d"
  shows "(\<forall>ob\<in>set obs. co_Status ob = st \<and> co_CustodianType ob = Some ft \<and> co_CustodianID ob = Some fid)
    \<and> d' = wrap64 (d + sum_list (map outstanding obs))"
  using assms
proof (induction obs arbitrary: d cur)
  case (Cons ob obs)
  from Cons.prems(1) have c: "co_Status ob = st" "co_CustodianType ob = Some ft" "co_CustodianID ob = Some fid"
    and r: "declare_checks st ft fid obs (add64 d (outstanding ob)) (if cur = [] then co_Currency ob else cur) = Inr (d', cur')"
    by (auto simp: res_simps)
  show ?case using Cons.IH [OF r] c by (simp add: add64_def add.assoc)
qed simp

lemma AddTransferItem_Inr:
  "AddTransferItem i db = Inr db' \<longleftrightarrow> 0 \<le> ti_AmountMinor i
     \<and> (\<forall>u\<in>set (transfer_items db). ti_ObligationID u = ti_ObligationID i \<longrightarrow> ti_TransferID u \<noteq> ti_TransferID i \<and> ti_Status u \<notin> {''INCLUDED'', ''DISPUTED''})
     \<and> db' = db\<lparr>transfer_items := transfer_items db @ [i]\<rparr>"
  by (auto simp: AddTransferItem_def res_simps list_ex_iff)

lemma add_items:
  "foldE (\<lambda>ob. AddTransferItem (transfer_item tid ob)) obs db = Inr db' \<Longrightarrow>
   db' = db\<lparr>transfer_items := transfer_items db @ map (transfer_item tid) obs\<rparr>
   \<and> (\<forall>ob\<in>set obs. \<forall>u\<in>set (transfer_items db). ti_ObligationID u = co_ID ob \<longrightarrow> ti_Status u \<notin> {''INCLUDED'', ''DISPUTED''})"
proof (induction obs arbitrary: db)
  case (Cons ob obs)
  then obtain db1 where a: "AddTransferItem (transfer_item tid ob) db = Inr db1"
    and f: "foldE (\<lambda>ob. AddTransferItem (transfer_item tid ob)) obs db1 = Inr db'" by (auto simp: res_simps)
  show ?case using Cons.IH [OF f] a by (auto simp: AddTransferItem_Inr transfer_item_def)
qed simp

lemma DeclareTransfer_Inr:
  assumes "DeclareTransfer newID now p inp db = Inr (res, db')"
  obtains st ids locked t seqs where "statusForCustodian (dq_FromType inp) = Inr st"
    "resolveObligationIDs db (OrganizationID p) (dq_ObligationIDs inp) = Inr ids" "locked = LockObligationsByIDs db (OrganizationID p) ids"
    "\<forall>ob\<in>set locked. co_Status ob = st \<and> co_CustodianType ob = Some (dq_FromType inp) \<and> co_CustodianID ob = Some (dq_FromID inp)"
    "\<forall>ob\<in>set locked. \<forall>u\<in>set (transfer_items db). ti_ObligationID u = co_ID ob \<longrightarrow> ti_Status u \<notin> {''INCLUDED'', ''DISPUTED''}"
    "ct_ID t = next_transfer db" "ct_OrganizationID t = OrganizationID p" "ct_FromType t = dq_FromType inp" "ct_FromID t = dq_FromID inp"
    "ct_ToType t = dq_ToType inp" "ct_ToID t = dq_ToID inp" "\<not> (ct_FromType t = ct_ToType t \<and> ct_FromID t = ct_ToID t)"
    "ct_Status t = ''DECLARED''" "ct_DeclaredMinor t = wrap64 (sum_list (map outstanding locked))"
    "db' = db\<lparr>transfers := transfers db @ [t], next_transfer := next_transfer db + 1,
        transfer_items := transfer_items db @ map (transfer_item (ct_ID t)) locked, cod_ledger := (cod_ledger db)\<lparr>op_sequences := seqs\<rparr>\<rparr>"
    "fst res = t"
proof -
  define mk where "mk declared currency code = (\<lparr>ct_ID = 0, ct_PublicID = newID, ct_OrganizationID = OrganizationID p, ct_TransferCode = code, ct_FromType = dq_FromType inp,
               ct_FromID = dq_FromID inp, ct_ToType = dq_ToType inp, ct_ToID = dq_ToID inp, ct_DeclaredMinor = declared, ct_AcceptedMinor = None,
               ct_Currency = currency, ct_ShipmentCount = wrap32 (int (length (LockObligationsByIDs db (OrganizationID p) (projr (resolveObligationIDs db (OrganizationID p) (dq_ObligationIDs inp)))))),
               ct_Status = ''DECLARED'', ct_DeclaredBy = Some (UserID p), ct_AcceptedBy = None,
               ct_VarianceMinor = 0, ct_VarianceReason = None, ct_JournalTransactionID = None, ct_Notes = Optional (dq_Notes inp)\<rparr> :: CodCustodyTransfer)"
    for declared :: int and currency code :: string
  from assms obtain st ids d cur code db1 t db2 db3 where
    st: "statusForCustodian (dq_FromType inp) = Inr st"
    and ids: "resolveObligationIDs db (OrganizationID p) (dq_ObligationIDs inp) = Inr ids"
    and chk: "declare_checks st (dq_FromType inp) (dq_FromID inp) (LockObligationsByIDs db (OrganizationID p) ids) 0 [] = Inr (d, cur)"
    and code: "allocateCode now (OrganizationID p) ''CDT'' db = Inr (code, db1)"
    and cr: "CreateCustodyTransfer db1 (mk d cur code) = Inr (t, db2)"
    and f: "foldE (\<lambda>ob. AddTransferItem (transfer_item (ct_ID t) ob)) (LockObligationsByIDs db (OrganizationID p) ids) db2 = Inr db3"
    and r: "db' = db3" "fst res = t"
    unfolding DeclareTransfer_def Let_def mk_def by (auto simp: res_simps)
  obtain seqs where db1: "db1 = db\<lparr>cod_ledger := (cod_ledger db)\<lparr>op_sequences := seqs\<rparr>\<rparr>" using allocateCode_Inr [OF code] by blast
  have t: "t = (mk d cur code)\<lparr>ct_ID := next_transfer db\<rparr>" "db2 = db1\<lparr>transfers := transfers db @ [t], next_transfer := next_transfer db + 1\<rparr>"
    "\<not> (dq_FromType inp = dq_ToType inp \<and> dq_FromID inp = dq_ToID inp)"
    using cr by (auto simp: CreateCustodyTransfer_def res_simps Let_def db1 mk_def)
  note c = declare_checks_Inr [OF chk, simplified]
  show thesis
    by (rule that [OF st ids refl, of t seqs]) (use c add_items [OF f] t r in \<open>simp_all add: mk_def db1\<close>)
qed


definition moved_to :: "string \<Rightarrow> string \<Rightarrow> int \<Rightarrow> CodObligation \<Rightarrow> CodObligation" where
  "moved_to st pt pid ob = ob\<lparr>co_Status := st, co_CustodianType := Optional pt, co_CustodianID := Some pid\<rparr>"

lemma moved_to_simps [simp]:
  "co_ID (moved_to st pt pid ob) = co_ID ob" "co_OrganizationID (moved_to st pt pid ob) = co_OrganizationID ob"
  "co_Status (moved_to st pt pid ob) = st" "co_CollectedMinor (moved_to st pt pid ob) = co_CollectedMinor ob"
  "co_RemittedMinor (moved_to st pt pid ob) = co_RemittedMinor ob" "co_CustodianType (moved_to st pt pid ob) = Optional pt"
  "co_CustodianID (moved_to st pt pid ob) = Some pid" "co_ShipmentID (moved_to st pt pid ob) = co_ShipmentID ob"
  by (simp_all add: moved_to_def)

lemma move_items:
  assumes "foldE (move_item org t st st') items db = Inr db'" "distinct (map ti_ObligationID items)"
  shows "db' = db\<lparr>obligations := map (\<lambda>ob. if co_OrganizationID ob = org \<and> co_ID ob \<in> ti_ObligationID ` set items \<and> co_Status ob = st
      then moved_to st' (ct_ToType t) (ct_ToID t) ob else ob) (obligations db)\<rparr>"
  using assms
proof (induction items arbitrary: db)
  case Nil
  then show ?case by (simp cong: map_cong)
next
  case (Cons i items)
  let ?g = "moved_to st' (ct_ToType t) (ct_ToID t)"
  obtain db1 where i: "move_item org t st st' i db = Inr db1" and f: "foldE (move_item org t st st') items db1 = Inr db'"
    using Cons.prems(1) by (auto simp: res_simps)
  obtain ob' where m: "MoveObligationCustody org (ti_ObligationID i) st st' (ct_ToType t) (ct_ToID t) db = Some (ob', db1)"
    using i by (auto simp: move_item_def res_simps)
  have db1: "db1 = db\<lparr>obligations := map (\<lambda>u. if co_OrganizationID u = org \<and> co_ID u = ti_ObligationID i \<and> co_Status u = st then ?g u else u) (obligations db)\<rparr>"
    using m unfolding MoveObligationCustody_def by (rule update_obligation_Some) (simp add: moved_to_def)
  have "ti_ObligationID i \<notin> ti_ObligationID ` set items" using Cons.prems(2) by simp
  then have "obligations db' = map (\<lambda>ob. if co_OrganizationID ob = org \<and> co_ID ob \<in> ti_ObligationID ` set (i # items) \<and> co_Status ob = st
      then ?g ob else ob) (obligations db)"
    using Cons.IH [OF f] Cons.prems(2) by (auto simp: db1)
  moreover have "db' = db\<lparr>obligations := obligations db'\<rparr>" using Cons.IH [OF f] Cons.prems(2) by (simp add: db1)
  ultimately show ?case by simp
qed

lemma AcceptTransfer_Inr:
  assumes "AcceptTransfer now p inp db = Inr (res, db')" "distinct (map ti_ObligationID (transfer_items db))" "distinct (map ct_ID (transfers db))"
  obtains t giver receiver st st' posting l where "t \<in> set (transfers db)" "ct_OrganizationID t = OrganizationID p" "ct_PublicID t = aq_TransferID inp"
    "ct_ID res = ct_ID t" "ct_FromType res = ct_FromType t" "ct_FromID res = ct_FromID t" "ct_ToType res = ct_ToType t" "ct_ToID res = ct_ToID t"
    "ct_DeclaredMinor res = ct_DeclaredMinor t" "ct_AcceptedMinor res = Some (aq_AcceptedMinor inp)" "ct_Status t = ''DECLARED''" "receivableAccountFor (ct_FromType t) = Inr giver" "receivableAccountFor (ct_ToType t) = Inr receiver"
    "statusForCustodian (ct_FromType t) = Inr st" "statusForCustodian (ct_ToType t) = Inr st'"
    "Post p now (transfer_posting t now (transfer_legs t giver receiver (aq_AcceptedMinor inp) (aq_VarianceReason inp))) (cod_ledger db) = Inr (posting, l)"
    "db' = db\<lparr>transfers := map (\<lambda>u. if ct_OrganizationID u = OrganizationID p \<and> ct_ID u = ct_ID t \<and> ct_Status u = ''DECLARED''
          then u\<lparr>ct_Status := ''ACCEPTED'', ct_AcceptedMinor := Some (aq_AcceptedMinor inp), ct_AcceptedBy := Some (UserID p),
             ct_VarianceMinor := sub64 (aq_AcceptedMinor inp) (ct_DeclaredMinor t), ct_VarianceReason := Optional (aq_VarianceReason inp),
             ct_JournalTransactionID := Some (j_ID (rs_Transaction posting))\<rparr> else u) (transfers db),
        obligations := map (\<lambda>ob. if co_OrganizationID ob = OrganizationID p \<and> co_ID ob \<in> ti_ObligationID ` set (ListTransferItems db (ct_ID t)) \<and> co_Status ob = st
          then moved_to st' (ct_ToType t) (ct_ToID t) ob else ob) (obligations db), cod_ledger := l\<rparr>"
proof -
  from assms(1) obtain h t giver receiver st st' posting l a db1 db2 where
    h: "GetTransferByPublicID db (OrganizationID p) (aq_TransferID inp) = Some h" "LockTransfer db (OrganizationID p) (ct_ID h) = Some t"
    and t: "ct_Status t = ''DECLARED''" and g: "receivableAccountFor (ct_FromType t) = Inr giver" and r: "receivableAccountFor (ct_ToType t) = Inr receiver"
    and st: "statusForCustodian (ct_FromType t) = Inr st" "statusForCustodian (ct_ToType t) = Inr st'"
    and po: "Post p now (transfer_posting t now (transfer_legs t giver receiver (aq_AcceptedMinor inp) (aq_VarianceReason inp))) (cod_ledger db) = Inr (posting, l)"
    and a: "AcceptCustodyTransfer (OrganizationID p) (ct_ID t) (aq_AcceptedMinor inp) (UserID p) (sub64 (aq_AcceptedMinor inp) (ct_DeclaredMinor t)) (aq_VarianceReason inp)
                   (j_ID (rs_Transaction posting)) (db\<lparr>cod_ledger := l\<rparr>) = Inr (a, db1)"
    and f: "foldE (move_item (OrganizationID p) t st st') (ListTransferItems db (ct_ID t)) db1 = Inr db2" and d: "db' = db2" "res = a"
    unfolding AcceptTransfer_def Let_def by (auto simp: res_simps)
  have uniq: "u = v" if "u \<in> set (transfers db)" "v \<in> set (transfers db)" "ct_ID u = ct_ID v" for u v
    using assms(3) that by (auto simp: distinct_map inj_on_def)
  have tm: "t \<in> set (transfers db)" "ct_OrganizationID t = OrganizationID p" "ct_PublicID t = aq_TransferID inp"
    using h uniq by (auto simp: LockTransfer_def GetTransferByPublicID_def dest!: find_SomeD)
  have di: "distinct (map ti_ObligationID (ListTransferItems db (ct_ID t)))"
    using assms(2) by (simp add: ListTransferItems_def distinct_map_filter)
  let ?hit = "\<lambda>u. ct_OrganizationID u = OrganizationID p \<and> ct_ID u = ct_ID t \<and> ct_Status u = ''DECLARED''"
  obtain u where u: "find ?hit (transfers db) = Some u" using a by (auto simp: AcceptCustodyTransfer_def Let_def split: option.splits)
  then have "u = t" using uniq tm(1) by (auto dest!: find_SomeD)
  then have ad: "a = t\<lparr>ct_Status := ''ACCEPTED'', ct_AcceptedMinor := Some (aq_AcceptedMinor inp), ct_AcceptedBy := Some (UserID p),
             ct_VarianceMinor := sub64 (aq_AcceptedMinor inp) (ct_DeclaredMinor t), ct_VarianceReason := Optional (aq_VarianceReason inp),
             ct_JournalTransactionID := Some (j_ID (rs_Transaction posting))\<rparr>"
    using a u by (simp add: AcceptCustodyTransfer_def Let_def res_simps)
  have db1: "db1 = db\<lparr>cod_ledger := l, transfers := map (\<lambda>u. if ?hit u
          then u\<lparr>ct_Status := ''ACCEPTED'', ct_AcceptedMinor := Some (aq_AcceptedMinor inp), ct_AcceptedBy := Some (UserID p),
             ct_VarianceMinor := sub64 (aq_AcceptedMinor inp) (ct_DeclaredMinor t), ct_VarianceReason := Optional (aq_VarianceReason inp),
             ct_JournalTransactionID := Some (j_ID (rs_Transaction posting))\<rparr> else u) (transfers db)\<rparr>"
    using a u by (auto simp: AcceptCustodyTransfer_def Let_def res_simps)
  show thesis
    by (rule that [OF tm _ _ _ _ _ _ _ t g r st po]) (use move_items [OF f di] d in \<open>simp_all add: ad db1\<close>)
qed


text \<open>Calls on remittances and adjustments leave the other tables as they are.\<close>

definition same_rows :: "CodDB \<Rightarrow> CodDB \<Rightarrow> bool" where
  "same_rows db db' \<longleftrightarrow> collections db' = collections db \<and> transfers db' = transfers db \<and> transfer_items db' = transfer_items db
     \<and> next_obligation db' = next_obligation db \<and> next_transfer db' = next_transfer db"

lemma CreateRemittance_Inr:
  assumes "CreateRemittance newID now p inp db = Inr (res, db')"
  shows "same_rows db db' \<and> obligations db' = obligations db \<and> (\<exists>seqs. cod_ledger db' = (cod_ledger db)\<lparr>op_sequences := seqs\<rparr>)"
proof -
  from assms obtain ids code db1 r0 t db2 where
    code: "allocateCode now (OrganizationID p) ''CDM'' db = Inr (code, db1)" and cr: "CreateCODRemittance db1 r0 = Inr (t, db2)"
    and f: "foldE (\<lambda>ob. AddRemittanceItem \<lparr>ri_RemittanceID = cr_ID t, ri_ObligationID = co_ID ob, ri_AmountMinor = outstanding ob\<rparr>)
       (LockObligationsByIDs db (OrganizationID p) ids) db2 = Inr db'"
    unfolding CreateRemittance_def Let_def by (auto simp: res_simps)
  have "same_rows db2 db' \<and> obligations db' = obligations db2 \<and> cod_ledger db' = cod_ledger db2"
    by (rule foldE_inv [OF f]) (auto simp: same_rows_def AddRemittanceItem_def res_simps)
  then show ?thesis using allocateCode_Inr [OF code] cr by (auto simp: CreateCODRemittance_def res_simps Let_def same_rows_def)
qed

lemma update_adjustment_Some: "update_adjustment hit f db = Some (a, db') \<Longrightarrow> \<exists>as. db' = db\<lparr>adjustments := as\<rparr>"
  by (auto simp: update_adjustment_def split: option.splits)

lemma RequestAdjustment_Inr:
  "RequestAdjustment newID p inp db = Inr (a, db') \<Longrightarrow> same_rows db db' \<and> obligations db' = obligations db \<and> cod_ledger db' = cod_ledger db"
  by (auto simp: RequestAdjustment_def CreateCODAdjustment_def same_rows_def res_simps Let_def split: if_splits)

lemma ApproveAdjustment_Inr:
  assumes "ApproveAdjustment now p publicID db = Inr (a, db')"
  shows "same_rows db db' \<and> obligations db' = obligations db"
proof -
  from assms obtain h :: CodAdjustment and u db1 and r :: PostResult and l where
    ap: "ApproveCODAdjustment (OrganizationID p) (ca_ID h) (UserID p) db = Some (u, db1)"
    and mk: "MarkAdjustmentPosted (OrganizationID p) (ca_ID u) (j_ID (rs_Transaction r)) (db1\<lparr>cod_ledger := l\<rparr>) = Some (a, db')"
    by (auto simp: ApproveAdjustment_def res_simps)
  show ?thesis
    using update_adjustment_Some [OF ap [unfolded ApproveCODAdjustment_def]] update_adjustment_Some [OF mk [unfolded MarkAdjustmentPosted_def]]
    by (auto simp: same_rows_def)
qed

text \<open>Rows of obligations that stand for the same cash; a status never goes back to expected.\<close>

definition same_cash :: "CodObligation \<Rightarrow> CodObligation \<Rightarrow> bool" where
  "same_cash ob ob' \<longleftrightarrow> co_ID ob' = co_ID ob \<and> co_OrganizationID ob' = co_OrganizationID ob \<and> co_ShipmentID ob' = co_ShipmentID ob
     \<and> co_CollectedMinor ob' = co_CollectedMinor ob \<and> (co_Status ob' = ''EXPECTED'' \<longrightarrow> co_Status ob = ''EXPECTED'')"

lemma same_cash_refl [simp]: "same_cash ob ob" by (simp add: same_cash_def)

lemma same_cash_list_refl [simp]: "list_all2 same_cash obs obs" by (simp add: list_all2_refl)

lemma same_cash_trans: "same_cash a b \<Longrightarrow> same_cash b c \<Longrightarrow> same_cash a c" by (simp add: same_cash_def)

lemma same_cash_map: "(\<And>ob. same_cash ob (g ob)) \<Longrightarrow> list_all2 same_cash obs (map g obs)"
  by (simp add: list_all2_conv_all_nth)

lemma remit_item_Inr:
  assumes "remit_item org now i db = Inr db'"
  shows "\<exists>obs. db' = db\<lparr>obligations := obs\<rparr> \<and> list_all2 same_cash (obligations db) obs"
proof (cases "MarkObligationRemitted org (ri_ObligationID i) (ri_AmountMinor i) now db")
  case None
  then have "db' = db" using assms by (simp add: remit_item_def)
  then show ?thesis by (intro exI [of _ "obligations db"]) simp
next
  case (Some r)
  then have "MarkObligationRemitted org (ri_ObligationID i) (ri_AmountMinor i) now db = Some (fst r, db')"
    using assms by (cases r) (auto simp: remit_item_def res_simps)
  then show ?thesis unfolding MarkObligationRemitted_def
    by (rule update_obligation_Some) (auto intro!: same_cash_map simp: same_cash_def)
qed

lemma ConfirmRemittance_Inr:
  assumes "ConfirmRemittance now p publicID db = Inr (res, db')"
  shows "same_rows db db' \<and> list_all2 same_cash (obligations db) (obligations db')"
proof -
  from assms obtain t :: CodRemittance and r :: PostResult and l c db1 where
    cf: "ConfirmCODRemittance (OrganizationID p) (cr_ID t) (UserID p) (j_ID (rs_Transaction r)) (db\<lparr>cod_ledger := l\<rparr>) = Some (c, db1)"
    and f: "foldE (remit_item (OrganizationID p) now) (ListRemittanceItems db1 (cr_ID t)) db1 = Inr db'"
    unfolding ConfirmRemittance_def Let_def by (auto simp: res_simps)
  have "\<exists>obs. db' = db1\<lparr>obligations := obs\<rparr> \<and> list_all2 same_cash (obligations db1) obs"
  proof (rule foldE_inv [OF f])
    show "\<exists>obs. db1 = db1\<lparr>obligations := obs\<rparr> \<and> list_all2 same_cash (obligations db1) obs"
      by (intro exI [of _ "obligations db1"]) simp
  next
    fix i s s' assume "\<exists>obs. s = db1\<lparr>obligations := obs\<rparr> \<and> list_all2 same_cash (obligations db1) obs" "remit_item (OrganizationID p) now i s = Inr s'"
    then show "\<exists>obs. s' = db1\<lparr>obligations := obs\<rparr> \<and> list_all2 same_cash (obligations db1) obs"
      using list_all2_trans [of same_cash same_cash same_cash] same_cash_trans by (fastforce dest!: remit_item_Inr)
  qed
  then show ?thesis using cf by (auto simp: ConfirmCODRemittance_def Let_def same_rows_def split: option.splits)
qed


subsection \<open>Any sequence of calls\<close>

inductive cod_call :: "CodDB \<Rightarrow> CodDB \<Rightarrow> bool" where
  opened: "OpenObligation franchiseByUnit newID p sh db = Inr (ob, db') \<Longrightarrow> cod_call db db'"
| collected: "RecordCollection observers newID now p cin db = Inr (cres, db') \<Longrightarrow> cod_call db db'"
| declared: "DeclareTransfer newID now p din db = Inr (dres, db') \<Longrightarrow> cod_call db db'"
| accepted: "AcceptTransfer now p ain db = Inr (ares, db') \<Longrightarrow> cod_call db db'"
| remitted: "CreateRemittance newID now p rin db = Inr (rres, db') \<Longrightarrow> cod_call db db'"
| confirmed: "ConfirmRemittance now p publicID db = Inr (rres, db') \<Longrightarrow> cod_call db db'"
| requested: "RequestAdjustment newID p jin db = Inr (jres, db') \<Longrightarrow> cod_call db db'"
| approved: "ApproveAdjustment now p publicID db = Inr (jres, db') \<Longrightarrow> cod_call db db'"

definition cod_empty :: "CodDB \<Rightarrow> bool" where
  "cod_empty db \<longleftrightarrow> obligations db = [] \<and> collections db = [] \<and> transfers db = [] \<and> transfer_items db = []"

definition collected_sum :: "CodDB \<Rightarrow> int \<Rightarrow> int" where
  "collected_sum db oid = sum_list (map cl_AmountMinor (filter (\<lambda>c. cl_ObligationID c = oid) (collections db)))"

definition cod_rows :: "CodDB \<Rightarrow> bool" where
  "cod_rows db \<longleftrightarrow> distinct (map co_ID (obligations db)) \<and> distinct (map co_ShipmentID (obligations db))
     \<and> (\<forall>ob\<in>set (obligations db). co_ID ob < next_obligation db \<and> co_CollectedMinor ob = collected_sum db (co_ID ob))
     \<and> distinct (map cl_ObligationID (collections db))
     \<and> (\<forall>c\<in>set (collections db). 0 < cl_AmountMinor c \<and> (\<exists>ob\<in>set (obligations db). co_ID ob = cl_ObligationID c
          \<and> co_OrganizationID ob = cl_OrganizationID c \<and> co_Status ob \<noteq> ''EXPECTED''))
     \<and> distinct (map ti_ObligationID (transfer_items db)) \<and> (\<forall>i\<in>set (transfer_items db). ti_Status i = ''INCLUDED'')
     \<and> distinct (map ct_ID (transfers db)) \<and> (\<forall>t\<in>set (transfers db). ct_ID t < next_transfer db)"

lemma cod_rows_same:
  assumes "cod_rows db" "collections db' = collections db" "next_obligation db' = next_obligation db" "list_all2 same_cash (obligations db) (obligations db')"
    and "distinct (map ti_ObligationID (transfer_items db'))" "\<forall>i\<in>set (transfer_items db'). ti_Status i = ''INCLUDED''"
    and "distinct (map ct_ID (transfers db'))" "\<forall>t\<in>set (transfers db'). ct_ID t < next_transfer db'"
  shows "cod_rows db'"
proof -
  have ids: "map co_ID (obligations db') = map co_ID (obligations db)" "map co_ShipmentID (obligations db') = map co_ShipmentID (obligations db)"
    using assms(4) by (induction rule: list_all2_induct) (simp_all add: same_cash_def)
  have bwd: "\<exists>ob\<in>set (obligations db). same_cash ob ob'" if "ob' \<in> set (obligations db')" for ob'
    using assms(4) that by (metis in_set_conv_nth list_all2_conv_all_nth)
  have fwd: "\<exists>ob'\<in>set (obligations db'). same_cash ob ob'" if "ob \<in> set (obligations db)" for ob
    using assms(4) that by (metis in_set_conv_nth list_all2_conv_all_nth)
  have sums: "collected_sum db' = collected_sum db" by (rule ext) (simp add: collected_sum_def assms(2))
  have "\<forall>ob\<in>set (obligations db'). co_ID ob < next_obligation db' \<and> co_CollectedMinor ob = collected_sum db' (co_ID ob)"
    using assms(1) bwd by (fastforce simp: cod_rows_def same_cash_def sums assms(3))
  moreover have "\<exists>ob\<in>set (obligations db'). co_ID ob = cl_ObligationID c
      \<and> co_OrganizationID ob = cl_OrganizationID c \<and> co_Status ob \<noteq> ''EXPECTED''" if c: "c \<in> set (collections db')" for c
  proof -
    obtain ob where "ob \<in> set (obligations db)" "co_ID ob = cl_ObligationID c" "co_OrganizationID ob = cl_OrganizationID c" "co_Status ob \<noteq> ''EXPECTED''"
      using assms(1,2) c by (auto simp: cod_rows_def)
    then show ?thesis using fwd [of ob] by (auto simp: same_cash_def)
  qed
  ultimately show ?thesis using assms ids by (simp add: cod_rows_def)
qed

lemma cod_rows_frame:
  "cod_rows db \<Longrightarrow> same_rows db db' \<Longrightarrow> list_all2 same_cash (obligations db) (obligations db') \<Longrightarrow> cod_rows db'"
  by (rule cod_rows_same) (auto simp: same_rows_def cod_rows_def)

lemma same_obligation:
  "cod_rows db \<Longrightarrow> a \<in> set (obligations db) \<Longrightarrow> b \<in> set (obligations db) \<Longrightarrow> co_ID a = co_ID b \<Longrightarrow> a = b"
  by (auto simp: cod_rows_def distinct_map inj_on_def)

lemma collect_rows:
  assumes "cod_rows db" "0 < cq_AmountMinor inp" "collect_new observers newID now p inp db = Inr (res, db')"
  shows "cod_rows db'"
  using assms(3)
proof (rule collect_new_Inr)
  fix ob at agent posting l c
  assume ob: "ob \<in> set (obligations db)" "co_OrganizationID ob = OrganizationID p" "co_Status ob = ''EXPECTED''"
    and d: "db' = db\<lparr>obligations := map (\<lambda>u. if co_OrganizationID u = OrganizationID p \<and> co_ID u = co_ID ob \<and> co_Status u = ''EXPECTED''
          then u\<lparr>co_Status := ''AGENT_COLLECTED'', co_CollectedMinor := co_CollectedMinor u + cq_AmountMinor inp, co_CustodianType := Some ''AGENT'',
             co_CustodianID := Some agent, co_CollectedAt := (case co_CollectedAt u of None \<Rightarrow> Some at | Some t \<Rightarrow> Some t)\<rparr> else u) (obligations db),
        collections := collections db @ [c], next_collection := next_collection db + 1, cod_ledger := l\<rparr>"
    and c: "cl_ObligationID c = co_ID ob" "cl_AmountMinor c = cq_AmountMinor inp" "cl_OrganizationID c = OrganizationID p"
  let ?g = "\<lambda>u. if co_OrganizationID u = OrganizationID p \<and> co_ID u = co_ID ob \<and> co_Status u = ''EXPECTED''
          then u\<lparr>co_Status := ''AGENT_COLLECTED'', co_CollectedMinor := co_CollectedMinor u + cq_AmountMinor inp, co_CustodianType := Some ''AGENT'',
             co_CustodianID := Some agent, co_CollectedAt := (case co_CollectedAt u of None \<Rightarrow> Some at | Some t \<Rightarrow> Some t)\<rparr> else u"
  have g: "co_ID (?g u) = co_ID u" "co_ShipmentID (?g u) = co_ShipmentID u" "co_Status u \<noteq> ''EXPECTED'' \<Longrightarrow> ?g u = u" for u by auto
  have new: "co_ID ob \<notin> cl_ObligationID ` set (collections db)"
  proof
    assume "co_ID ob \<in> cl_ObligationID ` set (collections db)"
    then obtain u where "u \<in> set (obligations db)" "co_ID u = co_ID ob" "co_Status u \<noteq> ''EXPECTED''"
      using assms(1) by (auto simp: cod_rows_def)
    then show False using same_obligation [OF assms(1) ob(1)] ob(3) by metis
  qed
  have cs: "collected_sum db' oid = collected_sum db oid + (if oid = co_ID ob then cq_AmountMinor inp else 0)" for oid
    by (simp add: collected_sum_def d c)
  have obs: "obligations db' = map ?g (obligations db)" by (simp add: d)
  have "co_CollectedMinor (?g u) = collected_sum db' (co_ID u)" if "u \<in> set (obligations db)" for u
    using that assms(1) ob same_obligation [OF assms(1) that ob(1)] by (auto simp: cs cod_rows_def)
  then have "\<forall>v\<in>set (obligations db'). co_ID v < next_obligation db' \<and> co_CollectedMinor v = collected_sum db' (co_ID v)"
    using assms(1) unfolding obs set_map ball_simps(9) g(1) by (simp add: cod_rows_def d)
  moreover have "\<exists>u\<in>set (obligations db'). co_ID u = cl_ObligationID k \<and> co_OrganizationID u = cl_OrganizationID k \<and> co_Status u \<noteq> ''EXPECTED''" if k: "k \<in> set (collections db')" for k
  proof (cases "k = c")
    case True
    have "?g ob \<in> set (obligations db')" using ob by (auto simp: d)
    moreover have "co_Status (?g ob) \<noteq> ''EXPECTED''" using ob by simp
    ultimately show ?thesis using True c(1,3) ob(2) by (intro bexI [of _ "?g ob"]) simp_all
  next
    case False
    then obtain u where u: "u \<in> set (obligations db)" "co_ID u = cl_ObligationID k" "co_OrganizationID u = cl_OrganizationID k" "co_Status u \<noteq> ''EXPECTED''"
      using k assms(1) by (auto simp: d cod_rows_def)
    then have "?g u \<in> set (obligations db')" unfolding d by simp
    then show ?thesis using u g(3) [of u] by auto
  qed
  moreover have "map co_ID (obligations db') = map co_ID (obligations db)" "map co_ShipmentID (obligations db') = map co_ShipmentID (obligations db)"
    by (simp_all add: d)
  moreover have "distinct (map cl_ObligationID (collections db'))" "\<forall>k\<in>set (collections db'). 0 < cl_AmountMinor k"
    using assms(1,2) new c by (auto simp: cod_rows_def d)
  moreover have "transfer_items db' = transfer_items db" "transfers db' = transfers db" "next_transfer db' = next_transfer db" by (simp_all add: d)
  ultimately show ?thesis using assms(1) by (simp add: cod_rows_def)
qed


lemma open_rows:
  assumes "cod_rows db" "OpenObligation fr newID p sh db = Inr (ob, db')"
  shows "cod_rows db'"
  using assms(2)
proof (cases rule: OpenObligation_cases)
  case existing
  then show ?thesis using assms(1) by simp
next
  case created
  have f: "co_ID ob = next_obligation db" "co_CollectedMinor ob = 0" by (subst created(1), simp)+
  have "collected_sum db (next_obligation db) = 0"
  proof -
    have "filter (\<lambda>c. cl_ObligationID c = next_obligation db) (collections db) = []"
      using assms(1) by (fastforce simp: cod_rows_def filter_empty_conv)
    then show ?thesis by (simp add: collected_sum_def)
  qed
  moreover have "collected_sum db' = collected_sum db" by (rule ext) (simp add: collected_sum_def created(3))
  moreover have "co_ID ob \<notin> co_ID ` set (obligations db)" using assms(1) f by (force simp: cod_rows_def)
  ultimately show ?thesis using assms(1) f created(2) by (fastforce simp: cod_rows_def created(3))
qed

lemma declare_rows:
  assumes "cod_rows db" "DeclareTransfer newID now p inp db = Inr (res, db')"
  shows "cod_rows db'"
  using assms(2)
proof (rule DeclareTransfer_Inr)
  fix st ids locked t seqs
  assume l: "locked = LockObligationsByIDs db (OrganizationID p) ids"
    and act: "\<forall>ob\<in>set locked. \<forall>u\<in>set (transfer_items db). ti_ObligationID u = co_ID ob \<longrightarrow> ti_Status u \<notin> {''INCLUDED'', ''DISPUTED''}"
    and t: "ct_ID t = next_transfer db"
    and d: "db' = db\<lparr>transfers := transfers db @ [t], next_transfer := next_transfer db + 1,
        transfer_items := transfer_items db @ map (transfer_item (ct_ID t)) locked, cod_ledger := (cod_ledger db)\<lparr>op_sequences := seqs\<rparr>\<rparr>"
  have dl: "distinct (map co_ID locked)"
  proof -
    have "distinct (map co_ID (filter (\<lambda>ob. co_OrganizationID ob = OrganizationID p \<and> co_ID ob \<in> set ids) (obligations db)))"
      using assms(1) by (simp add: cod_rows_def distinct_map_filter)
    then show ?thesis by (simp add: l LockObligationsByIDs_def distinct_map)
  qed
  show ?thesis
  proof (rule cod_rows_same [OF assms(1)])
    have "ti_ObligationID (transfer_item k ob) = co_ID ob" for k ob by (simp add: transfer_item_def)
    then have "map ti_ObligationID (map (transfer_item (ct_ID t)) locked) = map co_ID locked" by simp
    moreover have "set (map ti_ObligationID (transfer_items db)) \<inter> set (map co_ID locked) = {}"
      using act assms(1) by (auto simp: cod_rows_def)
    moreover have "map ti_ObligationID (transfer_items db') = map ti_ObligationID (transfer_items db) @ map ti_ObligationID (map (transfer_item (ct_ID t)) locked)"
      by (simp add: d)
    moreover have "distinct (map ti_ObligationID (transfer_items db))" using assms(1) by (simp add: cod_rows_def)
    ultimately show "distinct (map ti_ObligationID (transfer_items db'))" using dl by (simp only: distinct_append)
  qed (use assms(1) t in \<open>auto simp: d cod_rows_def transfer_item_def\<close>)
qed

lemma accept_rows:
  assumes "cod_rows db" "AcceptTransfer now p inp db = Inr (res, db')"
  shows "cod_rows db'"
proof -
  have "distinct (map ti_ObligationID (transfer_items db))" "distinct (map ct_ID (transfers db))"
    using assms(1) by (simp_all add: cod_rows_def)
  from assms(2) this show ?thesis
  proof (rule AcceptTransfer_Inr)
    fix t giver receiver st st' posting l
    assume st: "statusForCustodian (ct_ToType t) = Inr st'"
      and d: "db' = db\<lparr>transfers := map (\<lambda>u. if ct_OrganizationID u = OrganizationID p \<and> ct_ID u = ct_ID t \<and> ct_Status u = ''DECLARED''
          then u\<lparr>ct_Status := ''ACCEPTED'', ct_AcceptedMinor := Some (aq_AcceptedMinor inp), ct_AcceptedBy := Some (UserID p),
             ct_VarianceMinor := sub64 (aq_AcceptedMinor inp) (ct_DeclaredMinor t), ct_VarianceReason := Optional (aq_VarianceReason inp),
             ct_JournalTransactionID := Some (j_ID (rs_Transaction posting))\<rparr> else u) (transfers db),
        obligations := map (\<lambda>ob. if co_OrganizationID ob = OrganizationID p \<and> co_ID ob \<in> ti_ObligationID ` set (ListTransferItems db (ct_ID t)) \<and> co_Status ob = st
          then moved_to st' (ct_ToType t) (ct_ToID t) ob else ob) (obligations db), cod_ledger := l\<rparr>"
    have "st' \<noteq> ''EXPECTED''" using st
      by (auto simp: statusForCustodian_def StatusAgentCollected_def StatusBranchReceived_def StatusFranchiseConfirmed_def split: if_splits)
    then have "list_all2 same_cash (obligations db) (obligations db')"
      by (auto simp: d same_cash_def intro!: same_cash_map)
    moreover have "map ct_ID (transfers db') = map ct_ID (transfers db)" by (simp add: d)
    moreover have "\<forall>t\<in>set (transfers db'). ct_ID t < next_transfer db'"
    proof -
      have "\<forall>x\<in>set (map ct_ID (transfers db')). x < next_transfer db'"
        using assms(1) calculation(2) by (simp add: cod_rows_def d)
      then show ?thesis by simp
    qed
    moreover have "distinct (map ct_ID (transfers db'))" using assms(1) calculation(2) by (simp add: cod_rows_def)
    moreover have "collections db' = collections db" "next_obligation db' = next_obligation db" "transfer_items db' = transfer_items db"
      by (simp_all add: d)
    ultimately show ?thesis
      by (intro cod_rows_same [OF assms(1)]) (use assms(1) in \<open>simp_all add: cod_rows_def\<close>)
  qed
qed

lemma cod_call_rows: "cod_call db db' \<Longrightarrow> cod_rows db \<Longrightarrow> cod_rows db'"
proof (induction rule: cod_call.induct)
  case (collected observers newID now p cin db cres db')
  then show ?case by (cases rule: RecordCollection_cases) (auto intro: collect_rows)
qed (auto intro: open_rows declare_rows accept_rows cod_rows_frame dest!: CreateRemittance_Inr ConfirmRemittance_Inr RequestAdjustment_Inr ApproveAdjustment_Inr)

lemma cod_reach_rows: "cod_call\<^sup>*\<^sup>* db0 db \<Longrightarrow> cod_empty db0 \<Longrightarrow> cod_rows db"
proof (induction rule: rtranclp_induct)
  case base then show ?case by (simp add: cod_empty_def cod_rows_def)
next
  case (step y z) then show ?case using cod_call_rows by blast
qed



text \<open>
  \<^bold>\<open>Custody moves once.\<close> After any sequence of calls, an obligation that has ever been in a custody transfer, accepted
  or not, cannot be declared in another one: no second hop of the chain agent, branch, franchise
  is possible, because an item is included for ever and the index over included items refuses it.
\<close>

theorem second_hop_refused:
  assumes "cod_call\<^sup>*\<^sup>* db0 db" "cod_empty db0" and "i \<in> set (transfer_items db)"
    and "GetObligationByPublicID db (OrganizationID p) pid = Some ob" "co_ID ob = ti_ObligationID i" "pid \<in> set (dq_ObligationIDs inp)"
  shows "\<exists>e. DeclareTransfer newID now p inp db = Inl e"
proof (cases "DeclareTransfer newID now p inp db")
  case (Inr r)
  have rows: "cod_rows db" by (rule cod_reach_rows [OF assms(1,2)])
  from Inr have "DeclareTransfer newID now p inp db = Inr (fst r, snd r)" by simp
  then show ?thesis
  proof (rule DeclareTransfer_Inr)
    fix st ids locked t seqs
    assume ids: "resolveObligationIDs db (OrganizationID p) (dq_ObligationIDs inp) = Inr ids" and l: "locked = LockObligationsByIDs db (OrganizationID p) ids"
      and act: "\<forall>ob\<in>set locked. \<forall>u\<in>set (transfer_items db). ti_ObligationID u = co_ID ob \<longrightarrow> ti_Status u \<notin> {''INCLUDED'', ''DISPUTED''}"
    have "co_ID ob \<in> set ids" by (rule resolve_mem [OF ids assms(6,4)])
    moreover have "ob \<in> set (obligations db)" "co_OrganizationID ob = OrganizationID p"
      using assms(4) by (auto simp: GetObligationByPublicID_def dest!: find_SomeD)
    ultimately have "ob \<in> set locked" by (simp add: l LockObligationsByIDs_def)
    then have "ti_Status i \<noteq> ''INCLUDED''" using act assms(3,5) by auto
    then show ?thesis using rows assms(3) by (auto simp: cod_rows_def)
  qed
qed simp

subsection \<open>Obligations and books\<close>

text \<open>The obligations that travel in a transfer, and what the declaration says of them.\<close>

definition cargo :: "CodDB \<Rightarrow> int \<Rightarrow> CodObligation list" where
  "cargo db tid = filter (\<lambda>ob. co_ID ob \<in> ti_ObligationID ` set (ListTransferItems db tid)) (obligations db)"

definition declared_ok :: "CodDB \<Rightarrow> CodCustodyTransfer \<Rightarrow> bool" where
  "declared_ok db t \<longleftrightarrow> (\<forall>ob\<in>set (cargo db (ct_ID t)). co_OrganizationID ob = ct_OrganizationID t \<and> statusForCustodian (ct_FromType t) = Inr (co_Status ob)
       \<and> co_CustodianType ob = Some (ct_FromType t) \<and> co_CustodianID ob = Some (ct_FromID t))
     \<and> ct_DeclaredMinor t = sum_list (map owing (cargo db (ct_ID t)))"

definition books_agree :: "CodDB \<Rightarrow> bool" where
  "books_agree db \<longleftrightarrow> (\<forall>org pt pid. held_minor db org pt pid = party_total (cod_ledger db) org pt pid None)"

definition cash_ok :: "CodDB \<Rightarrow> CodObligation \<Rightarrow> bool" where
  "cash_ok db ob \<longleftrightarrow> co_RemittedMinor ob = 0 \<and> 0 \<le> co_CollectedMinor ob \<and> in64 (co_CollectedMinor ob)
     \<and> (co_Status ob = ''EXPECTED'' \<longrightarrow> co_CollectedMinor ob = 0 \<and> \<not> live_journal (cod_ledger db) (co_OrganizationID ob) ''COD'' (co_ID ob) ''COLLECTION'')"

definition transfer_ok :: "CodDB \<Rightarrow> CodCustodyTransfer \<Rightarrow> bool" where
  "transfer_ok db t \<longleftrightarrow> in64 (ct_DeclaredMinor t) \<and> \<not> (ct_FromType t = ct_ToType t \<and> ct_FromID t = ct_ToID t)
     \<and> (ct_Status t = ''DECLARED'' \<longrightarrow> \<not> live_journal (cod_ledger db) (ct_OrganizationID t) ''COD'' (ct_ID t) ''CUSTODY_TRANSFER'' \<and> declared_ok db t)"

definition unposted :: "CodDB \<Rightarrow> bool" where
  "unposted db \<longleftrightarrow> (\<forall>org k. (next_obligation db \<le> k \<longrightarrow> \<not> live_journal (cod_ledger db) org ''COD'' k ''COLLECTION'')
     \<and> (next_transfer db \<le> k \<longrightarrow> \<not> live_journal (cod_ledger db) org ''COD'' k ''CUSTODY_TRANSFER''))"

definition custody_inv :: "CodDB \<Rightarrow> bool" where
  "custody_inv db \<longleftrightarrow> cod_rows db \<and> books_sound (cod_ledger db) \<and> unposted db
     \<and> (\<forall>ob\<in>set (obligations db). cash_ok db ob) \<and> (\<forall>t\<in>set (transfers db). transfer_ok db t)
     \<and> (\<forall>i\<in>set (transfer_items db). ti_TransferID i < next_transfer db \<and> ti_ObligationID i < next_obligation db)"

lemma op_sequences_irrelevant [simp]:
  "books_sound (l\<lparr>op_sequences := s\<rparr>) = books_sound l" "live_journal (l\<lparr>op_sequences := s\<rparr>) = live_journal l"
  "party_total (l\<lparr>op_sequences := s\<rparr>) org pt pid asOf = party_total l org pt pid asOf"
proof -
  have "counted (l\<lparr>op_sequences := s\<rparr>) asOf = counted l asOf" for asOf by (rule ext) (simp add: counted_def)
  then have "signed_balance (l\<lparr>op_sequences := s\<rparr>) asOf = signed_balance l asOf" for asOf
    by (intro ext) (simp add: signed_balance_def account_entries_def)
  then show "party_total (l\<lparr>op_sequences := s\<rparr>) org pt pid asOf = party_total l org pt pid asOf" by (simp add: party_total_def)
  show "books_sound (l\<lparr>op_sequences := s\<rparr>) = books_sound l"
    by (simp add: books_sound_def ledger_struct_def accounts_ok_def journals_ok_def entries_ok_def has_account_def)
  show "live_journal (l\<lparr>op_sequences := s\<rparr>) = live_journal l" by (intro ext) (simp add: live_journal_def)
qed

text \<open>The postings of the component only touch its accounts.\<close>

lemma leg_fields [simp]:
  "AccountCode (leg a d c pt pid m) = a" "Debit (leg a d c pt pid m) = d" "Credit (leg a d c pt pid m) = c"
  "PartyType (leg a d c pt pid m) = pt" "PartyID (leg a d c pt pid m) = pid"
  by (simp_all add: leg_def)

lemma collection_legs_ok: "party_legs (Legs (collection_posting inp at agent ob))"
  by (simp add: collection_posting_def party_legs_def acct_defs party_codes_def plain_codes_def)

lemma receivable_cases:
  assumes "receivableAccountFor pt = Inr (a, q)"
  shows "q = pt \<and> a \<in> set party_codes \<and> pt \<in> {''AGENT'', ''OPERATING_UNIT'', ''FRANCHISE''}"
  using assms by (auto simp: receivableAccountFor_def acct_defs party_codes_def split: if_splits)

lemma transfer_legs_ok:
  assumes "receivableAccountFor ft = Inr giver" "receivableAccountFor tt = Inr receiver"
  shows "party_legs (transfer_legs t giver receiver accepted reason)"
  using receivable_cases [of ft "fst giver" "snd giver"] receivable_cases [of tt "fst receiver" "snd receiver"] assms
  by (auto simp: transfer_legs_def Let_def party_legs_def acct_defs party_codes_def plain_codes_def)

lemma status_cases:
  assumes "statusForCustodian pt = Inr st"
  shows "st \<in> {''AGENT_COLLECTED'', ''BRANCH_RECEIVED'', ''FRANCHISE_CONFIRMED''} \<and> pt \<noteq> []"
  using assms by (auto simp: statusForCustodian_def StatusAgentCollected_def StatusBranchReceived_def StatusFranchiseConfirmed_def split: if_splits)


lemma cargo_unchanged:
  assumes "obligations db' = map g (obligations db)" "\<And>u. co_ID (g u) = co_ID u" "\<And>u. u \<in> set (cargo db tid) \<Longrightarrow> g u = u"
    "ListTransferItems db' tid = ListTransferItems db tid"
  shows "cargo db' tid = cargo db tid"
proof -
  have "filter (\<lambda>ob. co_ID ob \<in> I) (map g obs) = filter (\<lambda>ob. co_ID ob \<in> I) obs"
    if "\<And>u. u \<in> set obs \<Longrightarrow> co_ID u \<in> I \<Longrightarrow> g u = u" for I obs
    using that by (induction obs) (auto simp: assms(2))
  then show ?thesis using assms(3) by (simp add: cargo_def assms(1,4))
qed

lemma sum_update_one:
  fixes f :: "'a \<Rightarrow> int"
  assumes "distinct xs" "x \<in> set xs" "\<And>u. u \<in> set xs \<Longrightarrow> u \<noteq> x \<Longrightarrow> g u = u"
  shows "sum_list (map f (map g xs)) = sum_list (map f xs) + f (g x) - f x"
  using assms
proof (induction xs)
  case (Cons y xs)
  show ?case
  proof (cases "y = x")
    case True
    then have "map g xs = xs" using Cons.prems by (auto intro: map_idI)
    then show ?thesis using True by simp
  next
    case False
    then show ?thesis using Cons by auto
  qed
qed simp

lemma rows_distinct: "cod_rows db \<Longrightarrow> distinct (obligations db)"
  by (simp add: cod_rows_def distinct_map)

lemma collect_custody:
  assumes inv: "custody_inv db" and agree: "books_agree db" and amount: "0 < cq_AmountMinor inp"
    and call: "collect_new observers newID now p inp db = Inr (res, db')"
  shows "custody_inv db' \<and> books_agree db'"
  using call
proof (rule collect_new_Inr)
  fix ob at agent posting l c
  assume ob: "ob \<in> set (obligations db)" "co_OrganizationID ob = OrganizationID p" "co_Status ob = ''EXPECTED''" "in64 (co_CollectedMinor ob + cq_AmountMinor inp)"
    and po: "Post p now (collection_posting inp at agent ob) (cod_ledger db) = Inr (posting, l)"
    and d: "db' = db\<lparr>obligations := map (\<lambda>u. if co_OrganizationID u = OrganizationID p \<and> co_ID u = co_ID ob \<and> co_Status u = ''EXPECTED''
          then u\<lparr>co_Status := ''AGENT_COLLECTED'', co_CollectedMinor := co_CollectedMinor u + cq_AmountMinor inp, co_CustodianType := Some ''AGENT'',
             co_CustodianID := Some agent, co_CollectedAt := (case co_CollectedAt u of None \<Rightarrow> Some at | Some t \<Rightarrow> Some t)\<rparr> else u) (obligations db),
        collections := collections db @ [c], next_collection := next_collection db + 1, cod_ledger := l\<rparr>"
  define g where "g u = (if co_OrganizationID u = OrganizationID p \<and> co_ID u = co_ID ob \<and> co_Status u = ''EXPECTED''
          then u\<lparr>co_Status := ''AGENT_COLLECTED'', co_CollectedMinor := co_CollectedMinor u + cq_AmountMinor inp, co_CustodianType := Some ''AGENT'',
             co_CustodianID := Some agent, co_CollectedAt := (case co_CollectedAt u of None \<Rightarrow> Some at | Some t \<Rightarrow> Some t)\<rparr> else u)" for u :: CodObligation
  have obs: "obligations db' = map g (obligations db)" by (simp add: d g_def)
  have rows: "cod_rows db" and cash: "cash_ok db ob" using inv ob by (auto simp: custody_inv_def)
  have other: "g u = u" if "u \<in> set (obligations db)" "u \<noteq> ob" for u
    using that same_obligation [OF rows that(1) ob(1)] by (auto simp: g_def)
  have gob: "g ob = ob\<lparr>co_Status := ''AGENT_COLLECTED'', co_CollectedMinor := co_CollectedMinor ob + cq_AmountMinor inp, co_CustodianType := Some ''AGENT'',
      co_CustodianID := Some agent, co_CollectedAt := (case co_CollectedAt ob of None \<Rightarrow> Some at | Some t \<Rightarrow> Some t)\<rparr>" using ob by (simp add: g_def)
  have gid: "co_ID (g u) = co_ID u" "co_OrganizationID (g u) = co_OrganizationID u" for u by (auto simp: g_def)
  let ?src = "collection_posting inp at agent ob"
  have src: "SourceID ?src = Some (co_ID ob)" "SourceType ?src = ''COD''" "Purpose ?src = ''COLLECTION''" by (simp_all add: collection_posting_def)
  have new: "\<not> live_journal (cod_ledger db) (OrganizationID p) (SourceType ?src) (co_ID ob) (Purpose ?src)"
    using cash ob src by (simp add: cash_ok_def)
  have sound: "books_sound (cod_ledger db)" using inv by (simp add: custody_inv_def)
  note live = pl.post_journalled [OF po src(1), unfolded src(2,3)]
  have rows': "cod_rows db'" by (rule collect_rows [OF rows amount call])
  have fields: "cod_ledger db' = l" "transfers db' = transfers db" "transfer_items db' = transfer_items db" "next_transfer db' = next_transfer db"
    "next_obligation db' = next_obligation db" by (simp_all add: d)
  have cash': "cash_ok db' v" if v: "v \<in> set (obligations db')" for v
  proof -
    obtain u where u: "u \<in> set (obligations db)" "v = g u" using v by (auto simp: obs)
    have cu: "cash_ok db u" using u inv by (simp add: custody_inv_def)
    show ?thesis
    proof (cases "u = ob")
      case True
      then show ?thesis using cash ob amount by (simp add: u gob cash_ok_def)
    next
      case False
      then have "co_ID u \<noteq> co_ID ob" using same_obligation [OF rows u(1) ob(1)] by blast
      then show ?thesis using cu False by (simp add: u other cash_ok_def fields live)
    qed
  qed
  have transfer': "transfer_ok db' t" if t: "t \<in> set (transfers db)" for t
  proof -
    have ok: "transfer_ok db t" using t inv by (simp add: custody_inv_def)
    have "cargo db' (ct_ID t) = cargo db (ct_ID t)" if dt: "ct_Status t = ''DECLARED''"
    proof (rule cargo_unchanged [OF obs gid(1)])
      fix u assume u: "u \<in> set (cargo db (ct_ID t))"
      have "statusForCustodian (ct_FromType t) = Inr (co_Status u)" using ok dt u by (simp add: transfer_ok_def declared_ok_def)
      then have "co_Status u \<noteq> ''EXPECTED''" using status_cases by fastforce
      then show "g u = u" by (simp add: g_def)
    qed (simp add: ListTransferItems_def fields)
    then show ?thesis using ok by (simp add: transfer_ok_def declared_ok_def fields live)
  qed
  have "ob \<in> set (obligations db)" "co_ID ob < next_obligation db" using ob rows by (simp_all add: cod_rows_def)
  then have "unposted db'" using inv by (auto simp: unposted_def custody_inv_def fields live)
  then have I: "custody_inv db'"
    using inv rows' cash' transfer' pl.post_sound [OF po sound collection_legs_ok] by (simp add: custody_inv_def fields)
  have "held_minor db' org pt pid = held_minor db org pt pid
      + (if org = OrganizationID p \<and> pt = ''AGENT'' \<and> pid = agent then cq_AmountMinor inp else 0)" for org pt pid
    using cash ob sum_update_one [OF rows_distinct [OF rows] ob(1) other, of "\<lambda>u. if in_custody org pt pid u then owing u else 0"]
    by (auto simp: held_minor_sum obs gob in_custody_def cash_ok_def)
  moreover have "leg_sum (Legs ?src) pt pid = (if pt = ''AGENT'' \<and> pid = agent then cq_AmountMinor inp else 0)" for pt pid
    by (auto simp: leg_sum_def collection_posting_def)
  ultimately have "books_agree db'"
    using agree pl.post_moves [OF po sound collection_legs_ok src(1) new] by (simp add: books_agree_def fields)
  with I show ?thesis by blast
qed


lemma Post_legs_nonneg:
  assumes "Post p now inp l = Inr (r, l')" "x \<in> set (Legs inp)"
  shows "0 \<le> Debit x \<and> 0 \<le> Credit x"
proof -
  obtain inp' where v: "validate now inp = Inr inp'" using assms(1) by (auto simp: Post_def res_simps)
  show ?thesis using validate_Inr [OF v] assms(2) by (simp add: check_legs_Inr)
qed

text \<open>What a hand-over adds to the balance of a party: the counted amount, the declared amount, and a shortfall.\<close>

lemma transfer_leg_sum:
  assumes "snd giver \<noteq> []" "snd receiver \<noteq> []" "0 \<le> A" "0 \<le> ct_DeclaredMinor t" "in64 A" "in64 (ct_DeclaredMinor t)"
  shows "leg_sum (transfer_legs t giver receiver A reason) pt pid =
    (if pt = snd receiver \<and> pid = ct_ToID t then A else 0)
    - (if pt = snd giver \<and> pid = ct_FromID t then min A (ct_DeclaredMinor t) else 0)"
proof -
  have v: "sub64 A (ct_DeclaredMinor t) = A - ct_DeclaredMinor t" "neg64 (A - ct_DeclaredMinor t) = ct_DeclaredMinor t - A"
    using assms(3-6) by (simp_all add: sub64_def neg64_def in64_def min64_def max64_def)
  show ?thesis using assms(1,2) by (auto simp: transfer_legs_def Let_def v leg_sum_def)
qed

lemma transfer_legs_heads: "\<exists>x y zs. transfer_legs t giver receiver A reason = x # y # zs \<and> Debit x = A \<and> Credit y = ct_DeclaredMinor t"
  by (simp add: transfer_legs_def Let_def)

lemma transfer_amounts:
  assumes "Post p now (transfer_posting t now (transfer_legs t giver receiver A reason)) l = Inr (r, l')"
  shows "0 \<le> A" "0 \<le> ct_DeclaredMinor t"
proof -
  obtain x y zs where "transfer_legs t giver receiver A reason = x # y # zs" "Debit x = A" "Credit y = ct_DeclaredMinor t"
    using transfer_legs_heads by blast
  then show "0 \<le> A" "0 \<le> ct_DeclaredMinor t"
    using Post_legs_nonneg [OF assms, of x] Post_legs_nonneg [OF assms, of y] by (simp_all add: transfer_posting_def)
qed

text \<open>The items of another transfer are other obligations.\<close>

lemma cargo_disjoint:
  assumes "cod_rows db" "ob \<in> set (cargo db a)" "co_ID ob \<in> ti_ObligationID ` set (ListTransferItems db b)"
  shows "a = b"
proof -
  obtain i j where i: "i \<in> set (transfer_items db)" "ti_TransferID i = a" "co_ID ob = ti_ObligationID i"
    and j: "j \<in> set (transfer_items db)" "ti_TransferID j = b" "co_ID ob = ti_ObligationID j"
    using assms(2,3) by (auto simp: cargo_def ListTransferItems_def)
  have "distinct (map ti_ObligationID (transfer_items db))" using assms(1) by (simp add: cod_rows_def)
  then have "i = j" using i j by (auto simp: distinct_map inj_on_def)
  then show ?thesis using i j by simp
qed

lemma accept_inv:
  assumes inv: "custody_inv db" and call: "AcceptTransfer now p inp db = Inr (res, db')"
  shows "custody_inv db'"
proof -
  have rows: "cod_rows db" using inv by (simp add: custody_inv_def)
  then have "distinct (map ti_ObligationID (transfer_items db))" "distinct (map ct_ID (transfers db))" by (simp_all add: cod_rows_def)
  from call this show ?thesis
  proof (rule AcceptTransfer_Inr)
    fix t giver receiver st st' posting l
    assume t: "t \<in> set (transfers db)" "ct_OrganizationID t = OrganizationID p" and dt: "ct_Status t = ''DECLARED''"
      and gr: "receivableAccountFor (ct_FromType t) = Inr giver" "receivableAccountFor (ct_ToType t) = Inr receiver"
      and st: "statusForCustodian (ct_FromType t) = Inr st" "statusForCustodian (ct_ToType t) = Inr st'"
      and po: "Post p now (transfer_posting t now (transfer_legs t giver receiver (aq_AcceptedMinor inp) (aq_VarianceReason inp))) (cod_ledger db) = Inr (posting, l)"
      and d: "db' = db\<lparr>transfers := map (\<lambda>u. if ct_OrganizationID u = OrganizationID p \<and> ct_ID u = ct_ID t \<and> ct_Status u = ''DECLARED''
          then u\<lparr>ct_Status := ''ACCEPTED'', ct_AcceptedMinor := Some (aq_AcceptedMinor inp), ct_AcceptedBy := Some (UserID p),
             ct_VarianceMinor := sub64 (aq_AcceptedMinor inp) (ct_DeclaredMinor t), ct_VarianceReason := Optional (aq_VarianceReason inp),
             ct_JournalTransactionID := Some (j_ID (rs_Transaction posting))\<rparr> else u) (transfers db),
        obligations := map (\<lambda>ob. if co_OrganizationID ob = OrganizationID p \<and> co_ID ob \<in> ti_ObligationID ` set (ListTransferItems db (ct_ID t)) \<and> co_Status ob = st
          then moved_to st' (ct_ToType t) (ct_ToID t) ob else ob) (obligations db), cod_ledger := l\<rparr>"
    let ?src = "transfer_posting t now (transfer_legs t giver receiver (aq_AcceptedMinor inp) (aq_VarianceReason inp))"
    define g where "g ob = (if co_OrganizationID ob = OrganizationID p \<and> co_ID ob \<in> ti_ObligationID ` set (ListTransferItems db (ct_ID t)) \<and> co_Status ob = st
          then moved_to st' (ct_ToType t) (ct_ToID t) ob else ob)" for ob
    have src: "SourceID ?src = Some (ct_ID t)" "SourceType ?src = ''COD''" "Purpose ?src = ''CUSTODY_TRANSFER''" by (simp_all add: transfer_posting_def)
    note live = pl.post_journalled [OF po src(1), unfolded src(2,3)]
    have legs: "party_legs (Legs ?src)" using transfer_legs_ok [OF gr] by (simp add: transfer_posting_def)
    have obs: "obligations db' = map g (obligations db)" by (simp add: d g_def)
    have gs: "co_ID (g u) = co_ID u" "co_OrganizationID (g u) = co_OrganizationID u" "co_CollectedMinor (g u) = co_CollectedMinor u" "co_RemittedMinor (g u) = co_RemittedMinor u"
      "co_Status (g u) = ''EXPECTED'' \<Longrightarrow> co_Status u = ''EXPECTED''" for u
      using status_cases [OF st(2)] by (auto simp: g_def split: if_splits)
    have fields: "cod_ledger db' = l" "transfer_items db' = transfer_items db" "next_transfer db' = next_transfer db" "next_obligation db' = next_obligation db"
      by (simp_all add: d)
    have cash': "cash_ok db' (g u)" if u: "u \<in> set (obligations db)" for u
      using inv u gs(5) [of u] by (auto simp: custody_inv_def cash_ok_def fields gs live)
    have transfer': "transfer_ok db' v" if v: "v \<in> set (transfers db')" for v
    proof (cases "ct_Status v = ''DECLARED''")
      case True
      obtain u where u0: "u \<in> set (transfers db)" "v = u \<and> \<not> (ct_OrganizationID u = OrganizationID p \<and> ct_ID u = ct_ID t \<and> ct_Status u = ''DECLARED'') \<or> ct_Status v = ''ACCEPTED''"
        using v by (auto simp: d)
      then have u: "v \<in> set (transfers db)" "v \<noteq> t" using True t dt by auto
      then have ids: "ct_ID v \<noteq> ct_ID t" using rows t by (auto simp: cod_rows_def distinct_map inj_on_def)
      have "cargo db' (ct_ID v) = cargo db (ct_ID v)"
        by (rule cargo_unchanged [OF obs gs(1)]) (use cargo_disjoint [OF rows] ids in \<open>auto simp: g_def ListTransferItems_def fields\<close>)
      then show ?thesis using inv u ids by (simp add: custody_inv_def transfer_ok_def declared_ok_def fields live)
    next
      case False
      obtain u where "u \<in> set (transfers db)" "ct_DeclaredMinor v = ct_DeclaredMinor u" "ct_FromType v = ct_FromType u" "ct_ToType v = ct_ToType u"
        "ct_FromID v = ct_FromID u" "ct_ToID v = ct_ToID u" using v by (auto simp: d)
      then show ?thesis using inv False by (auto simp: custody_inv_def transfer_ok_def)
    qed
    have "ct_ID t < next_transfer db" using t rows by (simp add: cod_rows_def)
    then have "unposted db'" using inv by (auto simp: unposted_def custody_inv_def fields live)
    moreover have "books_sound l" using pl.post_sound [OF po _ legs] inv by (simp add: custody_inv_def)
    ultimately show ?thesis
      using inv accept_rows [OF rows call] cash' transfer' by (simp add: custody_inv_def fields obs)
  qed
qed

lemma accept_custody:
  assumes inv: "custody_inv db" and call: "AcceptTransfer now p inp db = Inr (res, db')" and A: "in64 (aq_AcceptedMinor inp)"
  shows "custody_inv db' \<and> (\<forall>org pt pid.
      held_minor db' org pt pid = held_minor db org pt pid
        + ((if org = OrganizationID p \<and> pt = ct_ToType res \<and> pid = ct_ToID res then 1 else 0)
           - (if org = OrganizationID p \<and> pt = ct_FromType res \<and> pid = ct_FromID res then 1 else 0)) * ct_DeclaredMinor res
      \<and> party_total (cod_ledger db') org pt pid None = party_total (cod_ledger db) org pt pid None
        + (if org = OrganizationID p \<and> pt = ct_ToType res \<and> pid = ct_ToID res then aq_AcceptedMinor inp else 0)
        - (if org = OrganizationID p \<and> pt = ct_FromType res \<and> pid = ct_FromID res then min (aq_AcceptedMinor inp) (ct_DeclaredMinor res) else 0))
    \<and> \<not> (ct_FromType res = ct_ToType res \<and> ct_FromID res = ct_ToID res) \<and> ct_AcceptedMinor res = Some (aq_AcceptedMinor inp)"
proof -
  have rows: "cod_rows db" using inv by (simp add: custody_inv_def)
  then have "distinct (map ti_ObligationID (transfer_items db))" "distinct (map ct_ID (transfers db))" by (simp_all add: cod_rows_def)
  from call this show ?thesis
  proof (rule AcceptTransfer_Inr)
    fix t giver receiver st st' posting l
    assume t: "t \<in> set (transfers db)" "ct_OrganizationID t = OrganizationID p"
      and res: "ct_ID res = ct_ID t" "ct_FromType res = ct_FromType t" "ct_FromID res = ct_FromID t" "ct_ToType res = ct_ToType t" "ct_ToID res = ct_ToID t"
        "ct_DeclaredMinor res = ct_DeclaredMinor t" "ct_AcceptedMinor res = Some (aq_AcceptedMinor inp)" and dt: "ct_Status t = ''DECLARED''"
      and gr: "receivableAccountFor (ct_FromType t) = Inr giver" "receivableAccountFor (ct_ToType t) = Inr receiver"
      and st: "statusForCustodian (ct_FromType t) = Inr st" "statusForCustodian (ct_ToType t) = Inr st'"
      and po: "Post p now (transfer_posting t now (transfer_legs t giver receiver (aq_AcceptedMinor inp) (aq_VarianceReason inp))) (cod_ledger db) = Inr (posting, l)"
      and d: "db' = db\<lparr>transfers := map (\<lambda>u. if ct_OrganizationID u = OrganizationID p \<and> ct_ID u = ct_ID t \<and> ct_Status u = ''DECLARED''
          then u\<lparr>ct_Status := ''ACCEPTED'', ct_AcceptedMinor := Some (aq_AcceptedMinor inp), ct_AcceptedBy := Some (UserID p),
             ct_VarianceMinor := sub64 (aq_AcceptedMinor inp) (ct_DeclaredMinor t), ct_VarianceReason := Optional (aq_VarianceReason inp),
             ct_JournalTransactionID := Some (j_ID (rs_Transaction posting))\<rparr> else u) (transfers db),
        obligations := map (\<lambda>ob. if co_OrganizationID ob = OrganizationID p \<and> co_ID ob \<in> ti_ObligationID ` set (ListTransferItems db (ct_ID t)) \<and> co_Status ob = st
          then moved_to st' (ct_ToType t) (ct_ToID t) ob else ob) (obligations db), cod_ledger := l\<rparr>"
    let ?src = "transfer_posting t now (transfer_legs t giver receiver (aq_AcceptedMinor inp) (aq_VarianceReason inp))"
    let ?P = "\<lambda>ob. co_OrganizationID ob = OrganizationID p \<and> co_ID ob \<in> ti_ObligationID ` set (ListTransferItems db (ct_ID t)) \<and> co_Status ob = st"
    let ?g = "\<lambda>ob. if ?P ob then moved_to st' (ct_ToType t) (ct_ToID t) ob else ob"
    have ok: "transfer_ok db t" using t inv by (simp add: custody_inv_def)
    then have dec: "\<forall>ob\<in>set (cargo db (ct_ID t)). co_OrganizationID ob = OrganizationID p \<and> co_Status ob = st
        \<and> co_CustodianType ob = Some (ct_FromType t) \<and> co_CustodianID ob = Some (ct_FromID t)"
      and sum: "ct_DeclaredMinor t = sum_list (map owing (cargo db (ct_ID t)))"
      and new: "\<not> live_journal (cod_ledger db) (OrganizationID p) ''COD'' (ct_ID t) ''CUSTODY_TRANSFER''"
      using dt st(1) t(2) by (auto simp: transfer_ok_def declared_ok_def)
    have src: "SourceID ?src = Some (ct_ID t)" "SourceType ?src = ''COD''" "Purpose ?src = ''CUSTODY_TRANSFER''" by (simp_all add: transfer_posting_def)
    have legs: "party_legs (Legs ?src)" using transfer_legs_ok [OF gr] by (simp add: transfer_posting_def)
    have sound: "books_sound (cod_ledger db)" using inv by (simp add: custody_inv_def)
    note live = pl.post_journalled [OF po src(1), unfolded src(2,3)]
    have parts: "snd giver = ct_FromType t" "snd receiver = ct_ToType t" "ct_FromType t \<noteq> []" "ct_ToType t \<noteq> []"
      using receivable_cases [of "ct_FromType t" "fst giver" "snd giver"] receivable_cases [of "ct_ToType t" "fst receiver" "snd receiver"] gr by auto
    have nn: "0 \<le> aq_AcceptedMinor inp" "0 \<le> ct_DeclaredMinor t"
      by (rule transfer_amounts [OF po])+
    have obs: "obligations db' = map ?g (obligations db)" by (simp add: d)
    have carg: "cargo db (ct_ID t) = filter ?P (obligations db)"
      unfolding cargo_def by (rule filter_cong) (use dec in \<open>auto simp: cargo_def\<close>)
    have held: "held_minor db' org pt pid = held_minor db org pt pid
        + ((if org = OrganizationID p \<and> pt = ct_ToType t \<and> pid = ct_ToID t then 1 else 0)
           - (if org = OrganizationID p \<and> pt = ct_FromType t \<and> pid = ct_FromID t then 1 else 0)) * ct_DeclaredMinor t" for org pt pid
      unfolding sum carg
    proof (rule held_moved [OF obs])
      fix ob assume "ob \<in> set (obligations db)" "?P ob"
      then have "ob \<in> set (cargo db (ct_ID t))" by (simp add: carg)
      then show "owing (moved_to st' (ct_ToType t) (ct_ToID t) ob) = owing ob
         \<and> in_custody org pt pid ob = (org = OrganizationID p \<and> pt = ct_FromType t \<and> pid = ct_FromID t)
         \<and> in_custody org pt pid (moved_to st' (ct_ToType t) (ct_ToID t) ob) = (org = OrganizationID p \<and> pt = ct_ToType t \<and> pid = ct_ToID t)"
        using dec status_cases [OF st(1)] status_cases [OF st(2)] by (auto simp: in_custody_def Optional_def)
    qed
    show ?thesis
      using accept_inv [OF inv call] held pl.post_moves [OF po sound legs src(1) new [folded src(2,3)]] ok
        transfer_leg_sum [of giver receiver "aq_AcceptedMinor inp" t] nn A parts
      by (auto simp: res transfer_ok_def d transfer_posting_def)
  qed
qed


lemma open_custody:
  assumes inv: "custody_inv db" and agree: "books_agree db" and call: "OpenObligation fr newID p sh db = Inr (ob, db')"
  shows "custody_inv db' \<and> books_agree db'"
  using call
proof (cases rule: OpenObligation_cases)
  case existing
  then show ?thesis using inv agree by simp
next
  case created
  have f: "co_ID ob = next_obligation db" "co_CollectedMinor ob = 0" "co_RemittedMinor ob = 0" "co_Status ob = ''EXPECTED''" by (subst created(1), simp)+
  have fields: "cod_ledger db' = cod_ledger db" "transfers db' = transfers db" "transfer_items db' = transfer_items db" "next_transfer db' = next_transfer db"
    "obligations db' = obligations db @ [ob]" "next_obligation db' = next_obligation db + 1" by (simp_all add: created(3))
  have "cargo db' tid = cargo db tid" for tid
    using inv f(1) by (fastforce simp: cargo_def ListTransferItems_def fields custody_inv_def)
  then have "\<forall>t\<in>set (transfers db'). transfer_ok db' t"
    using inv by (simp add: custody_inv_def transfer_ok_def declared_ok_def fields)
  moreover have "cash_ok db' ob" "\<forall>u\<in>set (obligations db). cash_ok db' u" "unposted db'"
    using inv f by (auto simp: custody_inv_def cash_ok_def unposted_def fields in64_def min64_def max64_def)
  ultimately have "custody_inv db'" using inv open_rows [OF _ call] by (auto simp: custody_inv_def fields)
  moreover have "books_agree db'" using agree f by (simp add: books_agree_def held_minor_def fields in_custody_def)
  ultimately show ?thesis by blast
qed

lemma sum_list_filter_le:
  fixes f :: "'a \<Rightarrow> int"
  assumes "\<And>x. x \<in> set xs \<Longrightarrow> 0 \<le> f x" "\<And>x. x \<in> set xs \<Longrightarrow> P x \<Longrightarrow> Q x"
  shows "sum_list (map f (filter P xs)) \<le> sum_list (map f (filter Q xs)) \<and> 0 \<le> sum_list (map f (filter P xs))"
  using assms by (induction xs) fastforce+

lemma sum_list_sort_key: "sum_list (map (f :: 'a \<Rightarrow> int) (sort_key k xs)) = sum_list (map f xs)"
  by (metis mset_map mset_sort sum_mset_sum_list)

lemma declare_custody:
  assumes inv: "custody_inv db" and agree: "books_agree db" and call: "DeclareTransfer newID now p inp db = Inr (res, db')"
    and fits: "in64 (held_minor db (OrganizationID p) (dq_FromType inp) (dq_FromID inp))"
  shows "custody_inv db' \<and> books_agree db'"
  using call
proof (rule DeclareTransfer_Inr)
  fix st ids locked t seqs
  assume st: "statusForCustodian (dq_FromType inp) = Inr st" and l: "locked = LockObligationsByIDs db (OrganizationID p) ids"
    and chk: "\<forall>ob\<in>set locked. co_Status ob = st \<and> co_CustodianType ob = Some (dq_FromType inp) \<and> co_CustodianID ob = Some (dq_FromID inp)"
    and t: "ct_ID t = next_transfer db" "ct_OrganizationID t = OrganizationID p" "ct_FromType t = dq_FromType inp" "ct_FromID t = dq_FromID inp"
      "\<not> (ct_FromType t = ct_ToType t \<and> ct_FromID t = ct_ToID t)" "ct_DeclaredMinor t = wrap64 (sum_list (map outstanding locked))"
    and d: "db' = db\<lparr>transfers := transfers db @ [t], next_transfer := next_transfer db + 1,
        transfer_items := transfer_items db @ map (transfer_item (ct_ID t)) locked, cod_ledger := (cod_ledger db)\<lparr>op_sequences := seqs\<rparr>\<rparr>"
  let ?Q = "\<lambda>ob. co_OrganizationID ob = OrganizationID p \<and> co_ID ob \<in> set ids"
  have rows: "cod_rows db" using inv by (simp add: custody_inv_def)
  have mem: "set locked = {ob \<in> set (obligations db). ?Q ob}" by (auto simp: l LockObligationsByIDs_def)
  have cash: "co_RemittedMinor ob = 0" "0 \<le> co_CollectedMinor ob" "in64 (co_CollectedMinor ob)" if "ob \<in> set (obligations db)" for ob
    using inv that by (auto simp: custody_inv_def cash_ok_def)
  have items: "ListTransferItems db' (ct_ID t) = map (transfer_item (ct_ID t)) locked"
  proof -
    have "filter (\<lambda>i. ti_TransferID i = next_transfer db) (transfer_items db) = []"
      using inv by (fastforce simp: custody_inv_def filter_empty_conv)
    then show ?thesis by (simp add: ListTransferItems_def d t(1) transfer_item_def filter_map comp_def)
  qed
  have cargo: "cargo db' (ct_ID t) = filter ?Q (obligations db)"
  proof -
    have "co_ID ob \<in> co_ID ` set locked \<longleftrightarrow> ?Q ob" if "ob \<in> set (obligations db)" for ob
      using that same_obligation [OF rows] by (auto simp: mem image_iff)
    moreover have "ti_ObligationID ` set (ListTransferItems db' (ct_ID t)) = co_ID ` set locked"
      by (simp add: items image_image transfer_item_def)
    moreover have "obligations db' = obligations db" by (simp add: d)
    ultimately show ?thesis unfolding cargo_def by (simp cong: filter_cong)
  qed
  have out: "map outstanding locked = map owing locked"
    using cash by (auto simp: mem outstanding_def sub64_def)
  have sums: "sum_list (map owing locked) = sum_list (map owing (filter ?Q (obligations db)))"
    by (simp add: l LockObligationsByIDs_def sum_list_sort_key)
  have "in_custody (OrganizationID p) (dq_FromType inp) (dq_FromID inp) ob" if "ob \<in> set (obligations db)" "?Q ob" for ob
    using chk that status_cases [OF st] by (auto simp: mem in_custody_def)
  then have "sum_list (map owing (filter ?Q (obligations db))) \<le> held_minor db (OrganizationID p) (dq_FromType inp) (dq_FromID inp)
     \<and> 0 \<le> sum_list (map owing (filter ?Q (obligations db)))"
    unfolding held_minor_def using cash by (intro sum_list_filter_le) auto
  then have dec: "ct_DeclaredMinor t = sum_list (map owing (filter ?Q (obligations db)))" "in64 (ct_DeclaredMinor t)"
    using fits by (auto simp: t(6) out sums in64_def min64_def max64_def)
  have fields: "obligations db' = obligations db" "next_obligation db' = next_obligation db" "next_transfer db' = next_transfer db + 1"
    "cod_ledger db' = (cod_ledger db)\<lparr>op_sequences := seqs\<rparr>" by (simp_all add: d)
  have "declared_ok db' t"
    unfolding declared_ok_def cargo using dec(1) chk st by (auto simp: mem t(2-4))
  then have "transfer_ok db' t"
    using inv t(1,5) dec(2) by (auto simp: transfer_ok_def fields custody_inv_def unposted_def)
  moreover have "transfer_ok db' v" if v: "v \<in> set (transfers db)" for v
  proof -
    have "ct_ID v < next_transfer db" using v rows by (simp add: cod_rows_def)
    then have "ListTransferItems db' (ct_ID v) = ListTransferItems db (ct_ID v)" using t(1) by (simp add: ListTransferItems_def d transfer_item_def)
    then have "cargo db' (ct_ID v) = cargo db (ct_ID v)" by (simp add: cargo_def fields)
    then show ?thesis using inv v by (simp add: custody_inv_def transfer_ok_def declared_ok_def fields)
  qed
  ultimately have "\<forall>v\<in>set (transfers db'). transfer_ok db' v" by (simp add: d)
  moreover have "\<forall>i\<in>set (transfer_items db'). ti_TransferID i < next_transfer db' \<and> ti_ObligationID i < next_obligation db'"
    using inv t(1) rows by (fastforce simp: d custody_inv_def transfer_item_def mem cod_rows_def)
  moreover have "\<forall>ob\<in>set (obligations db'). cash_ok db' ob" "unposted db'"
    using inv by (auto simp: custody_inv_def cash_ok_def unposted_def fields)
  ultimately show ?thesis
    using inv agree declare_rows [OF rows call] by (simp add: custody_inv_def books_agree_def held_minor_def fields)
qed


text \<open>
  Calls that keep the cash whole: obligations, collections, declarations by a party whose holding is representable,
  hand-overs counted as declared, and the drafting of remittances and adjustments.
\<close>

inductive even_call :: "CodDB \<Rightarrow> CodDB \<Rightarrow> bool" where
  opened: "OpenObligation franchiseByUnit newID p sh db = Inr (ob, db') \<Longrightarrow> even_call db db'"
| collected: "RecordCollection observers newID now p cin db = Inr (cres, db') \<Longrightarrow> even_call db db'"
| declared: "DeclareTransfer newID now p din db = Inr (dres, db') \<Longrightarrow>
    in64 (held_minor db (OrganizationID p) (dq_FromType din) (dq_FromID din)) \<Longrightarrow> even_call db db'"
| accepted: "AcceptTransfer now p ain db = Inr (ares, db') \<Longrightarrow> ct_AcceptedMinor ares = Some (ct_DeclaredMinor ares) \<Longrightarrow> even_call db db'"
| drafted: "CreateRemittance newID now p rin db = Inr (rres, db') \<Longrightarrow> even_call db db'"
| requested: "RequestAdjustment newID p jin db = Inr (jres, db') \<Longrightarrow> even_call db db'"

definition cod_start :: "CodDB \<Rightarrow> bool" where
  "cod_start db \<longleftrightarrow> cod_empty db \<and> books_sound (cod_ledger db) \<and> journals (cod_ledger db) = [] \<and> entries (cod_ledger db) = []"

lemma frame_custody:
  assumes "custody_inv db" "books_agree db" "same_rows db db'" "obligations db' = obligations db" "cod_ledger db' = (cod_ledger db)\<lparr>op_sequences := seqs\<rparr>"
  shows "custody_inv db' \<and> books_agree db'"
proof -
  have "cargo db' tid = cargo db tid" for tid using assms(3,4) by (simp add: cargo_def ListTransferItems_def same_rows_def)
  then have "\<forall>t\<in>set (transfers db'). transfer_ok db' t" "\<forall>ob\<in>set (obligations db'). cash_ok db' ob" "unposted db'"
    using assms by (auto simp: custody_inv_def transfer_ok_def declared_ok_def cash_ok_def unposted_def same_rows_def)
  moreover have "cod_rows db'" using cod_rows_frame [of db db'] assms by (simp add: custody_inv_def)
  ultimately show ?thesis using assms by (simp add: custody_inv_def same_rows_def books_agree_def held_minor_def)
qed

lemma declared_in64:
  assumes "custody_inv db" "AcceptTransfer now p inp db = Inr (res, db')"
  shows "in64 (ct_DeclaredMinor res)"
proof -
  have "distinct (map ti_ObligationID (transfer_items db))" "distinct (map ct_ID (transfers db))"
    using assms(1) by (simp_all add: custody_inv_def cod_rows_def)
  from assms(2) this show ?thesis
    by (rule AcceptTransfer_Inr) (use assms(1) in \<open>auto simp: custody_inv_def transfer_ok_def\<close>)
qed

lemma accept_even:
  assumes "custody_inv db" "books_agree db" "AcceptTransfer now p inp db = Inr (res, db')" "ct_AcceptedMinor res = Some (ct_DeclaredMinor res)"
  shows "custody_inv db' \<and> books_agree db'"
proof -
  have A: "aq_AcceptedMinor inp = ct_DeclaredMinor res" "in64 (aq_AcceptedMinor inp)"
  proof -
    have "distinct (map ti_ObligationID (transfer_items db))" "distinct (map ct_ID (transfers db))"
      using assms(1) by (simp_all add: custody_inv_def cod_rows_def)
    from assms(3) this show "aq_AcceptedMinor inp = ct_DeclaredMinor res"
      by (rule AcceptTransfer_Inr) (use assms(4) in auto)
    then show "in64 (aq_AcceptedMinor inp)" using declared_in64 [OF assms(1,3)] by simp
  qed
  from accept_custody [OF assms(1,3) A(2)] show ?thesis
    using assms(2) A(1) by (auto simp: books_agree_def)
qed

lemma even_call_inv: "even_call db db' \<Longrightarrow> custody_inv db \<and> books_agree db \<Longrightarrow> custody_inv db' \<and> books_agree db'"
proof (induction rule: even_call.induct)
  case (opened franchiseByUnit newID p sh db ob db')
  then show ?case using open_custody by blast
next
  case (collected observers newID now p cin db cres db')
  from collected(1) show ?case
    by (cases rule: RecordCollection_cases) (use collected(2) collect_custody in blast)+
next
  case (declared newID now p din db dres db')
  then show ?case using declare_custody by blast
next
  case (accepted now p ain db ares db')
  then show ?case using accept_even by blast
next
  case (drafted newID now p rin db rres db')
  then show ?case using CreateRemittance_Inr frame_custody by metis
next
  case (requested newID p jin db jres db')
  have "cod_ledger db' = (cod_ledger db)\<lparr>op_sequences := op_sequences (cod_ledger db)\<rparr>" using RequestAdjustment_Inr [OF requested(1)] by simp
  then show ?case using requested RequestAdjustment_Inr [OF requested(1)] frame_custody by metis
qed

lemma start_inv:
  assumes "cod_start db"
  shows "custody_inv db \<and> books_agree db"
proof -
  have "live_journal (cod_ledger db) org st k pur \<longleftrightarrow> False" for org st k pur using assms by (simp add: live_journal_def cod_start_def)
  moreover have "party_total (cod_ledger db) org pt pid None = 0" for org pt pid
    using assms by (simp add: party_total_sum cod_start_def)
  ultimately show ?thesis using assms
    by (auto simp: custody_inv_def cod_start_def cod_empty_def cod_rows_def unposted_def books_agree_def held_minor_def)
qed

lemma even_reach: "even_call\<^sup>*\<^sup>* db0 db \<Longrightarrow> cod_start db0 \<Longrightarrow> custody_inv db \<and> books_agree db"
proof (induction rule: rtranclp_induct)
  case base then show ?case by (rule start_inv)
next
  case (step y z) then show ?case using even_call_inv by blast
qed

lemma CustodyPosition_Inr:
  "CustodyPosition p pt pid db = Inr pos \<Longrightarrow>
     cp_HeldMinor pos = held_minor db (OrganizationID p) pt pid \<and> cp_LedgerBalanceMinor pos = party_total (cod_ledger db) (OrganizationID p) pt pid None
     \<and> (cp_Reconciled pos \<longleftrightarrow> cp_HeldMinor pos = cp_LedgerBalanceMinor pos)"
  by (auto simp: CustodyPosition_def SumCODInCustody_def PartyBalance_def res_simps dest: receivable_cases)

text \<open>
  C5: \<^bold>\<open>What the rows say a party holds is what the books say it owes.\<close> From empty tables and books with a sound chart of accounts, after any sequence of
  bookings, collections and hand-overs counted as declared, the cash in the custody of every
  party, summed over the obligations, equals its ledger balance; the cross-check of the custody
  position answers for every kind of custodian and reports agreement.
\<close>

theorem custody_agrees:
  assumes "even_call\<^sup>*\<^sup>* db0 db" "cod_start db0"
  shows "held_minor db org pt pid = party_total (cod_ledger db) org pt pid None
    \<and> (in64 (held_minor db (OrganizationID p) pt pid) \<and> pt \<in> {''AGENT'', ''OPERATING_UNIT'', ''FRANCHISE''} \<longrightarrow>
        (\<exists>pos. CustodyPosition p pt pid db = Inr pos \<and> cp_Reconciled pos))"
proof (intro conjI impI)
  have agree: "books_agree db" using even_reach [OF assms] by simp
  then show "held_minor db org pt pid = party_total (cod_ledger db) org pt pid None" by (simp add: books_agree_def)
  assume pt: "in64 (held_minor db (OrganizationID p) pt pid) \<and> pt \<in> {''AGENT'', ''OPERATING_UNIT'', ''FRANCHISE''}"
  then obtain a where "receivableAccountFor pt = Inr (a, pt)" by (auto simp: receivableAccountFor_def)
  then show "\<exists>pos. CustodyPosition p pt pid db = Inr pos \<and> cp_Reconciled pos"
    using pt agree by (simp add: CustodyPosition_def SumCODInCustody_def PartyBalance_def books_agree_def)
qed

text \<open>
  C37: \<^bold>\<open>A miscounted hand-over breaks the cross-check.\<close> When rows and books agree and a transfer is accepted for an amount that
  differs from the declaration, the obligations move at their declared value while the receiver is
  debited with what was counted: afterwards the books of the receiver differ from its rows by
  exactly the variance, and those of the giver exceed its rows by the shortfall, so
  the custody position of the receiver reports a divergence although every step was regular.
\<close>

theorem accept_variance_gap:
  assumes "even_call\<^sup>*\<^sup>* db0 db" "cod_start db0" "AcceptTransfer now p inp db = Inr (res, db')" "in64 (aq_AcceptedMinor inp)"
  shows "party_total (cod_ledger db') (OrganizationID p) (ct_ToType res) (ct_ToID res) None - held_minor db' (OrganizationID p) (ct_ToType res) (ct_ToID res)
        = aq_AcceptedMinor inp - ct_DeclaredMinor res
    \<and> party_total (cod_ledger db') (OrganizationID p) (ct_FromType res) (ct_FromID res) None - held_minor db' (OrganizationID p) (ct_FromType res) (ct_FromID res)
        = max 0 (ct_DeclaredMinor res - aq_AcceptedMinor inp)
    \<and> (CustodyPosition p (ct_ToType res) (ct_ToID res) db' = Inr pos \<longrightarrow> (cp_Reconciled pos \<longleftrightarrow> aq_AcceptedMinor inp = ct_DeclaredMinor res))"
proof -
  have agree: "held_minor db org pt pid = party_total (cod_ledger db) org pt pid None" for org pt pid
    using even_reach [OF assms(1,2)] by (simp add: books_agree_def)
  note eff = accept_custody [OF conjunct1 [OF even_reach [OF assms(1,2)]] assms(3,4)]
  then have "party_total (cod_ledger db') (OrganizationID p) (ct_ToType res) (ct_ToID res) None - held_minor db' (OrganizationID p) (ct_ToType res) (ct_ToID res)
        = aq_AcceptedMinor inp - ct_DeclaredMinor res"
    using agree by auto
  moreover have "party_total (cod_ledger db') (OrganizationID p) (ct_FromType res) (ct_FromID res) None - held_minor db' (OrganizationID p) (ct_FromType res) (ct_FromID res)
        = max 0 (ct_DeclaredMinor res - aq_AcceptedMinor inp)"
    using eff agree by (auto simp: min_def max_def)
  ultimately show ?thesis using CustodyPosition_Inr [of p "ct_ToType res" "ct_ToID res" db' pos] by auto
qed

subsection \<open>A parcel changes hands\<close>

definition cod_chart :: LedgerDB where
  "cod_chart = demo_ledger\<lparr>accounts := [demo_account 1 ''1000'' ''ASSET'' ''DEBIT'', demo_account 2 ''1100'' ''ASSET'' ''DEBIT'',
     demo_account 3 ''1110'' ''ASSET'' ''DEBIT'', demo_account 4 ''1400'' ''ASSET'' ''DEBIT'', demo_account 5 ''2000'' ''LIABILITY'' ''CREDIT''],
     next_account := 6\<rparr>"

definition cod_0 :: CodDB where
  "cod_0 = \<lparr>obligations = [], collections = [], transfers = [], transfer_items = [], remittances = [], remittance_items = [], adjustments = [],
     next_obligation = 1, next_collection = 1, next_transfer = 1, next_remittance = 1, next_adjustment = 1, cod_ledger = cod_chart\<rparr>"

definition cod_parcel :: CodShipment where
  "cod_parcel = \<lparr>sh_ID = 40, sh_Awb = ''QYN1'', sh_CodAmountMinor = 500, sh_Currency = ''INR'', sh_CustomerID = 3, sh_OriginBranchID = Some 5, sh_DestinationBranchID = None\<rparr>"

definition cod_doorstep :: CollectRequest where
  "cod_doorstep = \<lparr>cq_ShipmentID = 40, cq_DeliveryAttemptID = Some 9, cq_AmountMinor = 500, cq_PaymentMode = ''CASH'', cq_Reference = [], cq_CollectedAt = None,
     cq_OperatingUnitID = Some 5, cq_AgentUserID = None, cq_Device = \<lparr>dv_ID = [], dv_EventID = []\<rparr>\<rparr>"

definition cod_hand_in :: DeclareTransferRequest where
  "cod_hand_in = \<lparr>dq_FromType = ''AGENT'', dq_FromID = 11, dq_ToType = ''OPERATING_UNIT'', dq_ToID = 5, dq_ObligationIDs = [''cod_1''], dq_Notes = []\<rparr>"

definition cod_count :: "int \<Rightarrow> AcceptTransferRequest" where
  "cod_count a = \<lparr>aq_TransferID = ''cdt_1'', aq_AcceptedMinor = a, aq_VarianceReason = ''short''\<rparr>"

definition cod_obligation :: "string \<Rightarrow> string option \<Rightarrow> int option \<Rightarrow> int \<Rightarrow> int option \<Rightarrow> CodObligation" where
  "cod_obligation st ct cid amount at = \<lparr>co_ID = 1, co_PublicID = ''cod_1'', co_OrganizationID = 7, co_ShipmentID = 40, co_Awb = ''QYN1'', co_ExpectedMinor = 500,
     co_Currency = ''INR'', co_ConsignorCustomerID = Some 3, co_OriginFranchiseID = None, co_DestinationFranchiseID = None, co_Status = st, co_CustodianType = ct,
     co_CustodianID = cid, co_CollectedMinor = amount, co_RemittedMinor = 0, co_CollectedAt = at, co_RemittedAt = None\<rparr>"

definition cod_1 :: CodDB where
  "cod_1 = cod_0\<lparr>obligations := [cod_obligation ''EXPECTED'' None None 0 None], next_obligation := 2\<rparr>"

lemma cod_open: "OpenObligation (\<lambda>u org. None) ''cod_1'' demo_principal cod_parcel cod_0 = Inr (cod_obligation ''EXPECTED'' None None 0 None, cod_1)"
  by (simp add: OpenObligation_def cod_parcel_def cod_0_def cod_1_def cod_obligation_def demo_principal_def GetObligationByShipment_def
      franchisesFor_def CreateCODObligation_def StatusExpected_def Let_def)

definition cod_agent_account :: LedgerAccount where
  "cod_agent_account = \<lparr>ac_ID = 6, ac_OrganizationID = 7, ac_Code = ''1100.AGT.11'', ac_Name = ''1100 '' @ em_dash @ '' agent 11'', ac_AccountType = ''ASSET'',
     ac_NormalBalance = ''DEBIT'', ac_Currency = ''INR'', ac_PartyType = Some ''AGENT'', ac_PartyID = Some 11, ac_ParentID = Some 2\<rparr>"

definition cod_collection_journal :: JournalTransaction where
  "cod_collection_journal = \<lparr>j_ID = 1, j_OrganizationID = 7, j_TransactionNumber = ''JV-202608-000001'', j_PeriodID = 5, j_PostingDate = 20260808,
     j_Status = ''POSTED'', j_Currency = ''INR'', j_SourceType = ''COD'', j_SourceID = Some 1, j_Purpose = ''COLLECTION'',
     j_Description = ''COD collected for QYN1'', j_Reason = None, j_ReversesID = None, j_ReversedByID = None, j_TotalMinor = 500, j_EntryCount = 2\<rparr>"

definition cod_collection_entries :: "JournalEntry list" where
  "cod_collection_entries = [\<lparr>e_OrganizationID = 7, e_TransactionID = 1, e_AccountID = 6, e_LineNo = 1, e_DebitMinor = 500, e_CreditMinor = 0, e_Currency = ''INR'',
     e_FranchiseID = None, e_OperatingUnitID = Some 5, e_CustomerID = None, e_ShipmentID = Some 40, e_Memo = Some ''Cash held by the delivery agent''\<rparr>,
     \<lparr>e_OrganizationID = 7, e_TransactionID = 1, e_AccountID = 5, e_LineNo = 2, e_DebitMinor = 0, e_CreditMinor = 500, e_Currency = ''INR'',
     e_FranchiseID = None, e_OperatingUnitID = None, e_CustomerID = Some 3, e_ShipmentID = Some 40, e_Memo = Some ''Owed to the consignor''\<rparr>]"

definition cod_books :: LedgerDB where
  "cod_books = cod_chart\<lparr>accounts := accounts cod_chart @ [cod_agent_account], next_account := 7, journals := [cod_collection_journal], next_journal := 2,
     entries := cod_collection_entries, op_sequences := [(7, ''JRN'', ''202608'') \<mapsto> (1, 999999)]\<rparr>"

lemma cod_numbers: "FormatInt 11 = ''11''" "FormatInt 5 = ''5''" "format_200601 20260808 = ''202608''" "format_200601 20260809 = ''202608''" "format_200601 20260810 = ''202608''"
  "format_0d 6 1 = ''000001''" "format_0d 6 2 = ''000002''"
  by (simp_all add: FormatInt_def format_200601_def format_0d_def pad_dec_def dec.simps replicate_num)

lemmas cod_post_eval = post_eval cod_numbers

lemma cod_collect_post:
  "Post demo_principal 20260808 (collection_posting cod_doorstep 20260808 11 (cod_obligation ''EXPECTED'' None None 0 None)) cod_chart
     = Inr (\<lparr>rs_Transaction = cod_collection_journal, rs_Entries = cod_collection_entries, rs_Replayed = False\<rparr>, cod_books)"
  by (simp add: cod_post_eval collection_posting_def cod_doorstep_def cod_obligation_def cod_chart_def cod_books_def cod_collection_journal_def
      cod_collection_entries_def cod_agent_account_def demo_principal_def demo_ledger_def demo_account_def)


definition cod_receipt :: CodCollection where
  "cod_receipt = \<lparr>cl_ID = 1, cl_PublicID = ''cdc_1'', cl_OrganizationID = 7, cl_ObligationID = 1, cl_ShipmentID = 40, cl_DeliveryAttemptID = Some 9, cl_AmountMinor = 500,
     cl_Currency = ''INR'', cl_PaymentMode = ''CASH'', cl_Reference = None, cl_CollectedBy = Some 11, cl_CollectedAt = 20260808, cl_OperatingUnitID = Some 5,
     cl_JournalTransactionID = Some 1, cl_DeviceID = None, cl_DeviceEventID = None\<rparr>"

definition cod_2 :: CodDB where
  "cod_2 = cod_1\<lparr>obligations := [cod_obligation ''AGENT_COLLECTED'' (Some ''AGENT'') (Some 11) 500 (Some 20260808)], collections := [cod_receipt],
     next_collection := 2, cod_ledger := cod_books\<rparr>"

lemma cod_collect: "\<exists>res. RecordCollection [] ''cdc_1'' 20260808 demo_principal cod_doorstep cod_1 = Inr (res, cod_2)"
proof -
  have s: "cod_ledger cod_1 = cod_chart" "collections cod_1 = []" "obligations cod_1 = [cod_obligation ''EXPECTED'' None None 0 None]" "next_collection cod_1 = 1"
    by (simp_all add: cod_1_def cod_0_def)
  have q: "UserID demo_principal = 11" "OrganizationID demo_principal = 7" by (simp_all add: demo_principal_def)
  show ?thesis
    using cod_collect_post
    by (simp add: RecordCollection_def FindCollectionByAttempt_def HasEventKey_def collect_new_def GetObligationByShipment_def Let_def s q
        MarkObligationCollected_def update_obligation_def CreateCODCollection_def collection_checks_def payment_modes_def cod_2_def cod_receipt_def
        cod_collection_journal_def StatusExpected_def Optional_def in64_def min64_def max64_def cod_doorstep_def cod_obligation_def)
qed

definition cod_transfer :: CodCustodyTransfer where
  "cod_transfer = \<lparr>ct_ID = 1, ct_PublicID = ''cdt_1'', ct_OrganizationID = 7, ct_TransferCode = ''CDT-202608-000001'', ct_FromType = ''AGENT'', ct_FromID = 11,
     ct_ToType = ''OPERATING_UNIT'', ct_ToID = 5, ct_DeclaredMinor = 500, ct_AcceptedMinor = None, ct_Currency = ''INR'', ct_ShipmentCount = 1, ct_Status = ''DECLARED'',
     ct_DeclaredBy = Some 11, ct_AcceptedBy = None, ct_VarianceMinor = 0, ct_VarianceReason = None, ct_JournalTransactionID = None, ct_Notes = None\<rparr>"

definition cod_3 :: CodDB where
  "cod_3 = cod_2\<lparr>transfers := [cod_transfer], next_transfer := 2, transfer_items := [\<lparr>ti_TransferID = 1, ti_ObligationID = 1, ti_AmountMinor = 500, ti_Status = ''INCLUDED''\<rparr>],
     cod_ledger := cod_books\<lparr>op_sequences := [(7, ''JRN'', ''202608'') \<mapsto> (1, 999999), (7, ''CDT'', ''202608'') \<mapsto> (1, 999999)]\<rparr>\<rparr>"

lemma cod_declare: "\<exists>res. DeclareTransfer ''cdt_1'' 20260809 demo_principal cod_hand_in cod_2 = Inr (res, cod_3)"
proof -
  have s: "op_sequences cod_books = [(7, ''JRN'', ''202608'') \<mapsto> (1, 999999)]" "cod_ledger cod_2 = cod_books" "transfers cod_2 = []" "transfer_items cod_2 = []"
    "obligations cod_2 = [cod_obligation ''AGENT_COLLECTED'' (Some ''AGENT'') (Some 11) 500 (Some 20260808)]" "next_transfer cod_2 = 1"
    by (simp_all add: cod_2_def cod_1_def cod_0_def cod_books_def)
  have q: "UserID demo_principal = 11" "OrganizationID demo_principal = 7" by (simp_all add: demo_principal_def)
  show ?thesis
    by (simp add: DeclareTransfer_def cod_hand_in_def statusForCustodian_def StatusAgentCollected_def GetObligationByPublicID_def LockObligationsByIDs_def Let_def s q
        allocateCode_def AllocateOperationalSequence_def CreateCustodyTransfer_def custodian_types_def AddTransferItem_def transfer_item_def
        ListTransferItems_def cod_3_def cod_transfer_def cod_numbers Optional_def outstanding_def sub64_def add64_def width_defs cod_obligation_def)
qed


lemma cod_accept: "\<exists>res db'. AcceptTransfer 20260810 demo_principal (cod_count 400) cod_3 = Inr (res, db') \<and> ct_ToType res = ''OPERATING_UNIT'' \<and> ct_ToID res = 5
   \<and> ct_FromType res = ''AGENT'' \<and> ct_FromID res = 11 \<and> ct_DeclaredMinor res = 500"
proof -
  let ?legs = "transfer_legs cod_transfer (''1100'', ''AGENT'') (''1110'', ''OPERATING_UNIT'') 400 ''short''"
  have legs: "?legs = [leg ''1110'' 400 0 ''OPERATING_UNIT'' 5 ''COD accepted from AGENT'', leg ''1100'' 0 500 ''AGENT'' 11 ''COD handed to OPERATING_UNIT'',
      leg ''1400'' 100 0 ''AGENT'' 11 ''Shortfall on hand-in: short'']"
    by (simp add: transfer_legs_def cod_transfer_def Let_def sub64_def neg64_def width_defs acct_defs)
  have "\<exists>r l. Post demo_principal 20260810 (transfer_posting cod_transfer 20260810 ?legs) (cod_ledger cod_3) = Inr (r, l)"
    unfolding legs
    by (simp add: cod_post_eval transfer_posting_def cod_transfer_def cod_3_def cod_chart_def cod_books_def cod_collection_journal_def
      cod_collection_entries_def cod_agent_account_def demo_principal_def demo_ledger_def demo_account_def)
  then obtain r l where po: "Post demo_principal 20260810 (transfer_posting cod_transfer 20260810 ?legs) (cod_ledger cod_3) = Inr (r, l)" by blast
  have s: "transfers cod_3 = [cod_transfer]" "transfer_items cod_3 = [\<lparr>ti_TransferID = 1, ti_ObligationID = 1, ti_AmountMinor = 500, ti_Status = ''INCLUDED''\<rparr>]"
    "obligations cod_3 = [cod_obligation ''AGENT_COLLECTED'' (Some ''AGENT'') (Some 11) 500 (Some 20260808)]"
    by (simp_all add: cod_3_def cod_2_def)
  have q: "UserID demo_principal = 11" "OrganizationID demo_principal = 7" by (simp_all add: demo_principal_def)
  have t: "ct_ID cod_transfer = 1" "ct_PublicID cod_transfer = ''cdt_1''" "ct_OrganizationID cod_transfer = 7" "ct_Status cod_transfer = ''DECLARED''"
    "ct_FromType cod_transfer = ''AGENT''" "ct_ToType cod_transfer = ''OPERATING_UNIT''" "ct_DeclaredMinor cod_transfer = 500" "ct_ToID cod_transfer = 5" "ct_FromID cod_transfer = 11"
    by (simp_all add: cod_transfer_def)
  show ?thesis
    using po
    by (simp add: AcceptTransfer_def cod_count_def GetTransferByPublicID_def LockTransfer_def Let_def s q t receivableAccountFor_def statusForCustodian_def acct_defs
        AcceptCustodyTransfer_def ListTransferItems_def rune_count_def move_item_def MoveObligationCustody_def update_obligation_def
        StatusAgentCollected_def StatusBranchReceived_def sub64_def width_defs cod_obligation_def)
qed


lemma cod_0_start: "cod_start cod_0"
proof -
  have "books_sound cod_chart"
    by (simp add: books_sound_def ledger_struct_def accounts_ok_def journals_ok_def entries_ok_def chart_ok_def cod_chart_def demo_ledger_def demo_account_def
        party_codes_def plain_codes_def)
  then show ?thesis by (simp add: cod_start_def cod_empty_def cod_0_def) (simp add: cod_chart_def demo_ledger_def)
qed

lemma cod_2_held: "held_minor cod_2 7 ''AGENT'' 11 = 500"
  by (simp add: held_minor_def in_custody_def cod_2_def cod_obligation_def)

lemma cod_path: "even_call\<^sup>*\<^sup>* cod_0 cod_2" "even_call\<^sup>*\<^sup>* cod_0 cod_3" "cod_call\<^sup>*\<^sup>* cod_0 cod_3"
proof -
  obtain r2 r3 where c: "RecordCollection [] ''cdc_1'' 20260808 demo_principal cod_doorstep cod_1 = Inr (r2, cod_2)"
    and d: "DeclareTransfer ''cdt_1'' 20260809 demo_principal cod_hand_in cod_2 = Inr (r3, cod_3)" using cod_collect cod_declare by blast
  have "in64 (held_minor cod_2 (OrganizationID demo_principal) (dq_FromType cod_hand_in) (dq_FromID cod_hand_in))"
    using cod_2_held by (simp add: demo_principal_def cod_hand_in_def in64_def min64_def max64_def)
  then have "even_call cod_0 cod_1" "even_call cod_1 cod_2" "even_call cod_2 cod_3"
    using even_call.opened [OF cod_open] even_call.collected [OF c] even_call.declared [OF d] by blast+
  then show "even_call\<^sup>*\<^sup>* cod_0 cod_2" "even_call\<^sup>*\<^sup>* cod_0 cod_3" by auto
  have "cod_call cod_0 cod_1" "cod_call cod_1 cod_2" "cod_call cod_2 cod_3"
    using cod_call.opened [OF cod_open] cod_call.collected [OF c] cod_call.declared [OF d] by blast+
  then show "cod_call\<^sup>*\<^sup>* cod_0 cod_3" by auto
qed

theorem custody_agrees_witness: "party_total (cod_ledger cod_2) 7 ''AGENT'' 11 None = 500"
  using custody_agrees [OF cod_path(1) cod_0_start, of 7 "''AGENT''" 11] cod_2_held by simp

theorem accept_variance_gap_witness:
  "\<exists>db'. party_total (cod_ledger db') 7 ''OPERATING_UNIT'' 5 None - held_minor db' 7 ''OPERATING_UNIT'' 5 = - 100
     \<and> party_total (cod_ledger db') 7 ''AGENT'' 11 None - held_minor db' 7 ''AGENT'' 11 = 100"
proof -
  obtain res db' where a: "AcceptTransfer 20260810 demo_principal (cod_count 400) cod_3 = Inr (res, db')"
    "ct_ToType res = ''OPERATING_UNIT''" "ct_ToID res = 5" "ct_FromType res = ''AGENT''" "ct_FromID res = 11" "ct_DeclaredMinor res = 500"
    using cod_accept by blast
  have "in64 (aq_AcceptedMinor (cod_count 400))" by (simp add: cod_count_def in64_def min64_def max64_def)
  from accept_variance_gap [OF cod_path(2) cod_0_start a(1) this] show ?thesis
    by (intro exI [of _ db']) (simp add: a(2-6) demo_principal_def cod_count_def)
qed


theorem second_hop_refused_witness:
  "\<exists>e. DeclareTransfer ''cdt_2'' 20260810 demo_principal (cod_hand_in\<lparr>dq_FromType := ''OPERATING_UNIT'', dq_FromID := 5, dq_ToType := ''FRANCHISE'', dq_ToID := 2\<rparr>) cod_3 = Inl e"
proof (rule second_hop_refused [OF cod_path(3)])
  let ?i = "\<lparr>ti_TransferID = 1, ti_ObligationID = 1, ti_AmountMinor = 500, ti_Status = ''INCLUDED''\<rparr>"
  let ?ob = "cod_obligation ''AGENT_COLLECTED'' (Some ''AGENT'') (Some 11) 500 (Some 20260808)"
  show "cod_empty cod_0" using cod_0_start by (simp add: cod_start_def)
  show "?i \<in> set (transfer_items cod_3)" by (simp add: cod_3_def)
  show "GetObligationByPublicID cod_3 (OrganizationID demo_principal) ''cod_1'' = Some ?ob"
    by (simp add: GetObligationByPublicID_def cod_3_def cod_2_def cod_obligation_def demo_principal_def)
  show "co_ID ?ob = ti_ObligationID ?i" by (simp add: cod_obligation_def)
qed (simp add: cod_hand_in_def)

end
