(* ===== verification/Calendar.thy ===== *)
theory Calendar
  imports Main
begin

text \<open>
  Dates as the ledger writes them, one number \<^verbatim>\<open>yyyymmdd\<close>, and the day after and before: Go's
  \<^verbatim>\<open>AddDate(0, 0, 1)\<close> and the \<^verbatim>\<open>date - 1\<close> of the database. The order of dates is the order of the
  numbers.
\<close>

definition leap_year :: "int \<Rightarrow> bool" where
  "leap_year y \<longleftrightarrow> y mod 4 = 0 \<and> (y mod 100 \<noteq> 0 \<or> y mod 400 = 0)"

definition days_in_month :: "int \<Rightarrow> int \<Rightarrow> int" where
  "days_in_month y m = (if m = 2 then if leap_year y then 29 else 28 else if m \<in> set [4, 6, 9, 11] then 30 else 31)"

definition ymd :: "int \<Rightarrow> int \<Rightarrow> int \<Rightarrow> int" where
  "ymd y m d = y * 10000 + m * 100 + d"

definition valid_date :: "int \<Rightarrow> bool" where
  "valid_date t \<longleftrightarrow> 0 \<le> t \<and> 1 \<le> t div 100 mod 100 \<and> t div 100 mod 100 \<le> 12
     \<and> 1 \<le> t mod 100 \<and> t mod 100 \<le> days_in_month (t div 10000) (t div 100 mod 100)"

definition next_day :: "int \<Rightarrow> int" where
  "next_day t = (let y = t div 10000; m = t div 100 mod 100; d = t mod 100
     in if d < days_in_month y m then t + 1 else if m < 12 then ymd y (m + 1) 1 else ymd (y + 1) 1 1)"

definition prev_day :: "int \<Rightarrow> int" where
  "prev_day t = (let y = t div 10000; m = t div 100 mod 100; d = t mod 100
     in if 1 < d then t - 1 else if 1 < m then ymd y (m - 1) (days_in_month y (m - 1)) else ymd (y - 1) 12 31)"

lemma days_in_month_bounds: "28 \<le> days_in_month y m" "days_in_month y m \<le> 31"
  by (auto simp: days_in_month_def)

lemma ymd_parts:
  assumes "0 \<le> m" "m < 100" "0 \<le> d" "d < 100"
  shows "ymd y m d div 10000 = y" "ymd y m d div 100 mod 100 = m" "ymd y m d mod 100 = d"
proof -
  show "ymd y m d div 10000 = y" using assms unfolding ymd_def by (intro int_div_pos_eq [of _ _ _ "m * 100 + d"]) auto
  have "ymd y m d div 100 = y * 100 + m"
    using assms unfolding ymd_def by (intro int_div_pos_eq [of _ _ _ d]) auto
  then show "ymd y m d div 100 mod 100 = m" using assms by simp
  show "ymd y m d mod 100 = d"
    using assms unfolding ymd_def by (intro int_mod_pos_eq [of _ _ "y * 100 + m"]) auto
qed

lemma ymd_split: "t = ymd (t div 10000) (t div 100 mod 100) (t mod 100)"
proof -
  have "t div 10000 = t div 100 div 100" using zdiv_zmult2_eq [of 100 t 100] by simp
  then show ?thesis
    using mult_div_mod_eq [of 100 t] mult_div_mod_eq [of 100 "t div 100"] unfolding ymd_def by linarith
qed

lemma valid_dateE:
  assumes "valid_date t"
  obtains y m d where "t = ymd y m d" "0 \<le> y" "1 \<le> m" "m \<le> 12" "1 \<le> d" "d \<le> days_in_month y m"
proof
  show "t = ymd (t div 10000) (t div 100 mod 100) (t mod 100)" by (rule ymd_split)
qed (use assms in \<open>auto simp: valid_date_def pos_imp_zdiv_nonneg_iff\<close>)

lemma valid_ymd: "0 \<le> y \<Longrightarrow> 1 \<le> m \<Longrightarrow> m \<le> 12 \<Longrightarrow> 1 \<le> d \<Longrightarrow> d \<le> days_in_month y m \<Longrightarrow> valid_date (ymd y m d)"
  using days_in_month_bounds [of y m] unfolding valid_date_def by (simp add: ymd_parts) (simp add: ymd_def)

text \<open>The order of the parts is the order of the numbers.\<close>

lemma ymd_less:
  assumes "1 \<le> m" "m \<le> 12" "1 \<le> d" "d \<le> 31" "1 \<le> m'" "m' \<le> 12" "1 \<le> d'" "d' \<le> 31"
  shows "ymd y m d < ymd y' m' d' \<longleftrightarrow> y < y' \<or> y = y' \<and> (m < m' \<or> m = m' \<and> d < d')"
  using assms unfolding ymd_def by linarith

lemma next_day_ymd:
  assumes "1 \<le> m" "m \<le> 12" "1 \<le> d" "d \<le> days_in_month y m"
  shows "next_day (ymd y m d) = (if d < days_in_month y m then ymd y m (d + 1) else if m < 12 then ymd y (m + 1) 1 else ymd (y + 1) 1 1)"
  using assms days_in_month_bounds [of y m] by (simp add: next_day_def Let_def ymd_parts) (simp add: ymd_def)

text \<open>The day after is the least valid date above.\<close>

lemma next_day_valid: "valid_date t \<Longrightarrow> valid_date (next_day t)"
proof (elim valid_dateE)
  fix y m d
  assume t: "t = ymd y m d" "0 \<le> y" "1 \<le> m" "m \<le> 12" "1 \<le> d" "d \<le> days_in_month y m"
  have "1 \<le> days_in_month y' m'" for y' m' using days_in_month_bounds(1) [of y' m'] by linarith
  then show "valid_date (next_day t)" using t by (auto simp: next_day_ymd intro!: valid_ymd)
qed

lemma less_next_day_iff:
  assumes "valid_date s" "valid_date t"
  shows "s < next_day t \<longleftrightarrow> s \<le> t"
proof -
  obtain y m d where t: "t = ymd y m d" "1 \<le> m" "m \<le> 12" "1 \<le> d" "d \<le> days_in_month y m"
    using assms(2) by (elim valid_dateE)
  obtain y' m' d' where s: "s = ymd y' m' d'" "1 \<le> m'" "m' \<le> 12" "1 \<le> d'" "d' \<le> days_in_month y' m'"
    using assms(1) by (elim valid_dateE)
  have b: "d \<le> 31" "d' \<le> 31" "d + 1 \<le> 31 \<or> d = 31"
    using t(5) s(5) days_in_month_bounds(2) [of y m] days_in_month_bounds(2) [of y' m'] by linarith+
  have "s \<le> t \<longleftrightarrow> \<not> t < s" by auto
  also have "\<dots> \<longleftrightarrow> \<not> (y < y' \<or> y = y' \<and> (m < m' \<or> m = m' \<and> d < d'))"
    unfolding t(1) s(1) using t s b by (subst ymd_less) auto
  also have "\<dots> \<longleftrightarrow> s < next_day t"
  proof (cases "d < days_in_month y m")
    case True
    then have "s < next_day t \<longleftrightarrow> y' < y \<or> y' = y \<and> (m' < m \<or> m' = m \<and> d' < d + 1)"
      unfolding t(1) s(1) using t s b days_in_month_bounds(2) [of y m] by (simp add: next_day_ymd, subst ymd_less) auto
    then show ?thesis by auto
  next
    case last: False
    then have d: "d = days_in_month y m" using t by simp
    show ?thesis
    proof (cases "m < 12")
      case True
      then have "s < next_day t \<longleftrightarrow> y' < y \<or> y' = y \<and> m' < m + 1"
        unfolding t(1) s(1) using t s b last by (simp add: next_day_ymd, subst ymd_less) auto
      then show ?thesis using d s(5) by auto
    next
      case False
      then have "m = 12" "s < next_day t \<longleftrightarrow> y' < y + 1"
        unfolding t(1) s(1) using t s b last by (simp_all add: next_day_ymd, subst ymd_less) auto
      then show ?thesis using d s(3,5) by auto
    qed
  qed
  finally show ?thesis by simp
qed

lemma prev_next_day:
  assumes "valid_date t"
  shows "prev_day (next_day t) = t"
proof -
  obtain y m d where t: "t = ymd y m d" "1 \<le> m" "m \<le> 12" "1 \<le> d" "d \<le> days_in_month y m"
    using assms by (elim valid_dateE)
  have prev: "prev_day (ymd y m d) = (if 1 < d then ymd y m (d - 1) else if 1 < m then ymd y (m - 1) (days_in_month y (m - 1)) else ymd (y - 1) 12 31)"
    if "1 \<le> m" "m \<le> 12" "1 \<le> d" "d \<le> 31" for y m d
    using that by (simp add: prev_day_def Let_def ymd_parts) (simp add: ymd_def)
  show ?thesis
    using t days_in_month_bounds(2) [of y m] by (auto simp: next_day_ymd prev days_in_month_def [of y 12])
qed

end
