(* ===== verification/Journal_Book.thy ===== *)
theory Journal_Book
  imports Ledger
begin

text \<open>
  What a client of the ledger relies on when it posts under a source of its own. The abstract ledger
  is a map: the live journal of every source, with its id and its total. A posting adds its source to
  the map once and returns the entry that is there from then on; a reversal removes it.
\<close>

type_synonym source = "int \<times> string \<times> int \<times> string"

definition book :: "LedgerDB \<Rightarrow> source \<Rightarrow> (int \<times> int) option" where
  "book l = (\<lambda>(org, st, sid, purpose). map_option (\<lambda>t. (j_ID t, j_TotalMinor t)) (FindJournalBySource l org st sid purpose))"

locale journal_book =
  fixes post :: "Principal \<Rightarrow> int \<Rightarrow> Posting \<Rightarrow> 'l \<Rightarrow> (PostResult \<times> 'l) result"
    and rev_journal :: "Principal \<Rightarrow> int \<Rightarrow> int \<Rightarrow> string \<Rightarrow> int option \<Rightarrow> 'l \<Rightarrow> (PostResult \<times> 'l) result"
    and live :: "'l \<Rightarrow> source \<Rightarrow> (int \<times> int) option"
    and wf :: "'l \<Rightarrow> bool"
  assumes post_wf: "post p now inp l = Inr (r, l') \<Longrightarrow> wf l \<Longrightarrow> wf l'"
    and rev_wf: "rev_journal p now tid reason date l = Inr (r, l') \<Longrightarrow> wf l \<Longrightarrow> wf l'"
    and post_fresh: "post p now inp l = Inr (r, l') \<Longrightarrow> wf l \<Longrightarrow> SourceID inp = Some sid \<Longrightarrow>
      live l (OrganizationID p, SourceType inp, sid, Purpose inp) = None \<Longrightarrow>
      live l' = (live l)((OrganizationID p, SourceType inp, sid, Purpose inp) \<mapsto>
        (j_ID (rs_Transaction r), wrap64 (sum_list (map Debit (Legs inp)))))"
    and post_again: "post p now inp l = Inr (r, l') \<Longrightarrow> wf l \<Longrightarrow> SourceID inp = Some sid \<Longrightarrow>
      live l (OrganizationID p, SourceType inp, sid, Purpose inp) = Some (j, tot) \<Longrightarrow>
      l' = l \<and> j_ID (rs_Transaction r) = j"
    and rev_removes: "rev_journal p now tid reason date l = Inr (r, l') \<Longrightarrow> wf l \<Longrightarrow>
      live l (org, st, sid, purpose) = Some (tid, tot) \<Longrightarrow> st \<noteq> ''REVERSAL'' \<Longrightarrow>
      live l' = (live l)((org, st, sid, purpose) := None,
        (org, ''REVERSAL'', tid, ''REVERSAL:'' @ purpose) \<mapsto> (j_ID (rs_Transaction r), tot))"
begin

text \<open>A client sees only its own sources change.\<close>

lemma post_other:
  assumes "post p now inp l = Inr (r, l')" "wf l" "SourceID inp = Some sid"
    and "k \<noteq> (OrganizationID p, SourceType inp, sid, Purpose inp)"
  shows "live l' k = live l k"
proof (cases "live l (OrganizationID p, SourceType inp, sid, Purpose inp)")
  case None
  then show ?thesis using post_fresh [OF assms(1-3)] assms(4) by simp
next
  case (Some a)
  then show ?thesis using post_again [OF assms(1-3)] by (cases a) auto
qed

text \<open>After a posting its source is in the map with the journal that was returned.\<close>

lemma post_live:
  assumes "post p now inp l = Inr (r, l')" "wf l" "SourceID inp = Some sid"
  shows "\<exists>tot. live l' (OrganizationID p, SourceType inp, sid, Purpose inp) = Some (j_ID (rs_Transaction r), tot)"
proof (cases "live l (OrganizationID p, SourceType inp, sid, Purpose inp)")
  case None
  then show ?thesis using post_fresh [OF assms(1-3)] by simp
next
  case (Some a)
  then show ?thesis using post_again [OF assms(1-3)] by (cases a) auto
qed

lemma rev_other:
  assumes "rev_journal p now tid reason date l = Inr (r, l')" "wf l"
    and "live l (org, st, sid, purpose) = Some (tid, tot)" "st \<noteq> ''REVERSAL''"
    and "k \<noteq> (org, st, sid, purpose)" "fst (snd k) \<noteq> ''REVERSAL''"
  shows "live l' k = live l k"
  using rev_removes [OF assms(1-4)] assms(5,6) by auto

lemma rev_gone:
  assumes "rev_journal p now tid reason date l = Inr (r, l')" "wf l"
    and "live l (org, st, sid, purpose) = Some (tid, tot)" "st \<noteq> ''REVERSAL''"
  shows "live l' (org, st, sid, purpose) = None"
  using rev_removes [OF assms(1-4)] assms(4) by auto

end

lemma book_Some:
  assumes "journals_ok l"
  shows "book l (org, st, sid, pu) = Some (j, tot) \<longleftrightarrow>
    (\<exists>t\<in>set (journals l). live_source org st sid pu t \<and> j_ID t = j \<and> j_TotalMinor t = tot)"
  using find_live [OF assms] by (force simp: book_def FindJournalBySource_def dest!: find_SomeD)

lemma book_eqI:
  assumes "\<And>org st sid pu j tot. f (org, st, sid, pu) = Some (j, tot) \<longleftrightarrow> g (org, st, sid, pu) = Some (j, tot)"
  shows "f = (g :: source \<Rightarrow> (int \<times> int) option)"
proof
  fix k :: source
  obtain org st sid pu where k: "k = (org, st, sid, pu)" by (cases k) auto
  show "f k = g k"
    using assms [of org st sid pu] unfolding k by (cases "f (org, st, sid, pu)"; cases "g (org, st, sid, pu)") auto
qed

lemma Post_fresh:
  assumes "Post p now inp l = Inr (r, l')" "ledger_struct l" "SourceID inp = Some sid"
    and "book l (OrganizationID p, SourceType inp, sid, Purpose inp) = None"
  shows "book l' = (book l)((OrganizationID p, SourceType inp, sid, Purpose inp) \<mapsto>
    (j_ID (rs_Transaction r), wrap64 (sum_list (map Debit (Legs inp)))))"
  using assms(1)
proof (cases rule: Post_cases)
  case (replayed inp' sid' t)
  then show ?thesis using assms(3,4) by (simp add: book_def)
next
  case (written inp' date)
  note v = validate_Inr [OF written(1)]
  have ok: "journals_ok l" "journals_ok l'"
    using assms(2) Post_struct [OF assms(1,2)] by (auto simp: ledger_struct_def)
  from written(2) show ?thesis
  proof (rule post_write_Inr)
    fix period number tot t new seqs as n
    assume tot: "totalOf (Legs inp') = Inr tot"
      and t: "t = (post_row p inp' date number period tot)\<lparr>j_ID := next_journal l\<rparr>"
      and r: "r = \<lparr>rs_Transaction = t, rs_Entries = new, rs_Replayed = False\<rparr>"
      and l': "l' = l\<lparr>op_sequences := seqs, journals := journals l @ [t], next_journal := next_journal l + 1,
            accounts := accounts l @ as, next_account := n, entries := entries l @ new\<rparr>"
    have live: "live_source org st k pu t \<longleftrightarrow> (org, st, k, pu) = (OrganizationID p, SourceType inp, sid, Purpose inp)"
      for org st k pu
      using t v assms(3) by (auto simp: live_source_def post_row_def)
    have total: "j_TotalMinor t = wrap64 (sum_list (map Debit (Legs inp)))"
      using t tot v by (simp add: post_row_def totalOf_Inr)
    show ?thesis
    proof (rule book_eqI)
      fix org st k pu j tt
      have "book l' (org, st, k, pu) = Some (j, tt) \<longleftrightarrow>
          book l (org, st, k, pu) = Some (j, tt) \<or> (live_source org st k pu t \<and> j_ID t = j \<and> j_TotalMinor t = tt)"
        unfolding book_Some [OF ok(1)] book_Some [OF ok(2)] by (auto simp: l')
      then show "book l' (org, st, k, pu) = Some (j, tt) \<longleftrightarrow>
        ((book l)((OrganizationID p, SourceType inp, sid, Purpose inp) \<mapsto>
           (j_ID (rs_Transaction r), wrap64 (sum_list (map Debit (Legs inp)))))) (org, st, k, pu) = Some (j, tt)"
        using assms(4) by (auto simp: live total r)
    qed
  qed
qed

lemma Reverse_removes:
  assumes "Reverse p now tid reason date l = Inr (r, l')" "ledger_struct l"
    and k: "book l (org, st, sid, pu) = Some (tid, tot)" "st \<noteq> ''REVERSAL''"
  shows "book l' = (book l)((org, st, sid, pu) := None, (org, ''REVERSAL'', tid, ''REVERSAL:'' @ pu) \<mapsto> (j_ID (rs_Transaction r), tot))"
proof -
  have ok: "journals_ok l" "journals_ok l'"
    using assms(2) Reverse_struct [OF assms(1,2)] by (auto simp: ledger_struct_def)
  obtain u where u: "u \<in> set (journals l)" "live_source org st sid pu u" "j_ID u = tid" "j_TotalMinor u = tot"
    using k(1) unfolding book_Some [OF ok(1)] by blast
  from assms(1) ok(1) show ?thesis
  proof (rule Reverse_Inr)
    fix orig t new seqs period number d
    assume orig: "orig \<in> set (journals l)" "j_ID orig = tid" "j_OrganizationID orig = OrganizationID p"
      and t: "t = (reversal_row p orig reason d number period (length (ListJournalEntries l tid)))\<lparr>j_ID := next_journal l\<rparr>"
      and r: "r = \<lparr>rs_Transaction = t, rs_Entries = new, rs_Replayed = False\<rparr>"
      and l': "l' = l\<lparr>op_sequences := seqs, journals := map (reversed tid (next_journal l)) (journals l) @ [t],
       next_journal := next_journal l + 1, entries := entries l @ new,
       ledger_audit := ledger_audit l @ [(''ledger.journal.reversed'', tid)]\<rparr>"
      and con: "journal_constraints l (reversal_row p orig reason d number period (length (ListJournalEntries l tid)))"
    have ou: "orig = u" using same_id [OF ok(1) orig(1) u(1)] orig(2) u(3) by simp
    have live_t: "live_source o' s' k' p' t \<longleftrightarrow> (o', s', k', p') = (org, ''REVERSAL'', tid, ''REVERSAL:'' @ pu)" for o' s' k' p'
      using u(2,3) orig(3) by (auto simp: t reversal_row_def live_source_def ou)
    have total: "j_TotalMinor (reversed tid (next_journal l) v) = j_TotalMinor v" for v by (simp add: reversed_def)
    have none: "book l (org, ''REVERSAL'', tid, ''REVERSAL:'' @ pu) = None"
    proof -
      have "\<not> list_ex (live_source org ''REVERSAL'' tid (''REVERSAL:'' @ pu)) (journals l)"
        using con u(2,3) orig(3) by (auto simp: journal_constraints_def reversal_row_def ou live_source_def)
      then show ?thesis by (auto simp: book_def FindJournalBySource_def find_None_iff list_ex_iff)
    qed
    have old: "live_source o' s' k' p' (reversed tid (next_journal l) v) \<longleftrightarrow> live_source o' s' k' p' v \<and> v \<noteq> u"
      if "v \<in> set (journals l)" for v o' s' k' p'
      using same_id [OF ok(1) that u(1)] u(3) by (auto simp: reversed_def live_source_def)
    show ?thesis
    proof (rule book_eqI)
      fix o' s' k' p' j tt
      have "book l' (o', s', k', p') = Some (j, tt) \<longleftrightarrow>
          (\<exists>v\<in>set (journals l). live_source o' s' k' p' v \<and> v \<noteq> u \<and> j_ID v = j \<and> j_TotalMinor v = tt)
          \<or> (live_source o' s' k' p' t \<and> j_ID t = j \<and> j_TotalMinor t = tt)" (is "_ \<longleftrightarrow> ?rhs")
      proof -
        have "book l' (o', s', k', p') = Some (j, tt) \<longleftrightarrow>
            (\<exists>v\<in>set (journals l). live_source o' s' k' p' (reversed tid (next_journal l) v) \<and> j_ID v = j \<and> j_TotalMinor v = tt)
            \<or> (live_source o' s' k' p' t \<and> j_ID t = j \<and> j_TotalMinor t = tt)"
          unfolding book_Some [OF ok(2)] by (simp add: l' bex_Un reversed_fields total disj_commute)
        also have "\<dots> \<longleftrightarrow> ?rhs" using old by blast
        finally show ?thesis .
      qed
      moreover have "(\<exists>v\<in>set (journals l). live_source o' s' k' p' v \<and> v \<noteq> u \<and> j_ID v = j \<and> j_TotalMinor v = tt) \<longleftrightarrow>
          book l (o', s', k', p') = Some (j, tt) \<and> (o', s', k', p') \<noteq> (org, st, sid, pu)"
      proof -
        have "v = u" if "v \<in> set (journals l)" "live_source org st sid pu v" for v
          using find_live [OF ok(1) that] find_live [OF ok(1) u(1,2)] by simp
        moreover have "live_source o' s' k' p' u \<Longrightarrow> (o', s', k', p') = (org, st, sid, pu)"
          using u(2) by (auto simp: live_source_def)
        ultimately show ?thesis unfolding book_Some [OF ok(1)] by blast
      qed
      moreover have "j_TotalMinor t = tot" using u(4) by (simp add: t reversal_row_def ou)
      ultimately show "book l' (o', s', k', p') = Some (j, tt) \<longleftrightarrow>
        ((book l)((org, st, sid, pu) := None, (org, ''REVERSAL'', tid, ''REVERSAL:'' @ pu) \<mapsto> (j_ID (rs_Transaction r), tot))) (o', s', k', p') = Some (j, tt)"
        using none k(2) by (auto simp: live_t r)
    qed
  qed
qed

interpretation jb: journal_book Post Reverse book ledger_struct
proof
  fix p now inp l r l' sid j tot
  assume "Post p now inp l = Inr (r, l')" "ledger_struct l" "SourceID inp = Some sid"
    "book l (OrganizationID p, SourceType inp, sid, Purpose inp) = Some (j, tot)"
  moreover from this obtain inp' where "validate now inp = Inr inp'" by (auto simp: Post_def res_simps)
  ultimately show "l' = l \<and> j_ID (rs_Transaction r) = j"
    using validate_Inr [of now inp inp'] by (auto simp: Post_def Let_def book_def)
qed (fact Post_struct Reverse_struct Post_fresh Reverse_removes)+

end
