(* ===== verification/Commission.thy ===== *)
theory Commission
  imports Commission_Calc Journal_Book Calendar
begin

text \<open>
  \<^verbatim>\<open>internal/commission/commission.go\<close> and \<^verbatim>\<open>config.go\<close>: rules with effective-dated versions, the choice
  of the rule that governs an event, the calculation that is stored, its posting and its reversal,
  over the tables of \<^verbatim>\<open>db/migrations/0021_commission.up.sql\<close> and \<^verbatim>\<open>0034\<close>. Times are dates. A slab table is
  stored as it was given (the program writes and reads it as JSON), and a stored trace is the list of
  its steps. The tables of franchises and services are lookup functions; audit rows, metrics, request
  ids and the stored inputs are left out.
\<close>

subsection \<open>Tables\<close>

record CommissionScheme =
  sc_ID :: int
  sc_OrganizationID :: int
  sc_Code :: string
  sc_Status :: string

record CommissionRule =
  cu_ID :: int
  cu_PublicID :: string
  cu_OrganizationID :: int
  cu_SchemeID :: int
  cu_Code :: string
  cu_Name :: string
  cu_CommissionType :: string
  cu_RecipientRole :: string
  cu_FranchiseID :: "int option"
  cu_FranchiseCategory :: "string option"
  cu_OperatingUnitID :: "int option"
  cu_ServiceID :: "int option"
  cu_OriginZoneID :: "int option"
  cu_DestinationZoneID :: "int option"
  cu_CustomerCategory :: "string option"
  cu_PaymentMode :: "string option"
  cu_Specificity :: int
  cu_Priority :: int
  cu_Status :: string
  cu_Description :: "string option"

record CommissionRuleVersion =
  cv_ID :: int
  cv_PublicID :: string
  cv_OrganizationID :: int
  cv_RuleID :: int
  cv_VersionNo :: int
  cv_CalculationMethod :: string
  cv_Currency :: string
  cv_FixedAmountMinor :: "int option"
  cv_RateBp :: "int option"
  cv_Basis :: "string option"
  cv_Slabs :: "Slab list"
  cv_MinAmountMinor :: "int option"
  cv_MaxAmountMinor :: "int option"
  cv_EffectiveFrom :: int
  cv_EffectiveTo :: "int option"
  cv_Status :: string
  cv_Notes :: "string option"

record CommissionCalculation =
  cc_ID :: int
  cc_PublicID :: string
  cc_OrganizationID :: int
  cc_CommissionType :: string
  cc_ShipmentID :: "int option"
  cc_QualifyingEvent :: string
  cc_QualifyingEventID :: "int option"
  cc_QualifiedAt :: int
  cc_RecipientType :: string
  cc_RecipientID :: int
  cc_FranchiseID :: "int option"
  cc_OperatingUnitID :: "int option"
  cc_RuleID :: int
  cc_RuleVersionID :: int
  cc_RuleCode :: string
  cc_RuleVersionNo :: int
  cc_CalculationMethod :: string
  cc_Basis :: "string option"
  cc_BaseAmountMinor :: int
  cc_RateBp :: "int option"
  cc_GrossAmountMinor :: int
  cc_AmountMinor :: int
  cc_Currency :: string
  cc_CalculationTrace :: "Step list"
  cc_Status :: string
  cc_JournalTransactionID :: "int option"
  cc_SettlementID :: "int option"
  cc_ReversedByID :: "int option"

record CommissionEntry =
  ce_OrganizationID :: int
  ce_CalculationID :: int
  ce_FranchiseID :: "int option"
  ce_OperatingUnitID :: "int option"
  ce_EntryType :: string
  ce_CommissionType :: string
  ce_AmountMinor :: int
  ce_Currency :: string
  ce_ShipmentID :: "int option"
  ce_EarnedOn :: int
  ce_Memo :: "string option"

record CommissionDB =
  schemes :: "CommissionScheme list"
  rules :: "CommissionRule list"
  versions :: "CommissionRuleVersion list"
  calculations :: "CommissionCalculation list"
  commission_entries :: "CommissionEntry list"
  next_rule :: int
  next_version :: int
  next_calculation :: int
  comm_ledger :: LedgerDB

subsection \<open>Rules\<close>

definition commission_types :: "string list" where
  "commission_types = [''BOOKING'', ''PICKUP'', ''ORIGIN_HANDLING'', ''TRANSIT_HANDLING'', ''DESTINATION_HANDLING'',
     ''DELIVERY'', ''COD'', ''VOLUME_INCENTIVE'', ''CUSTOM'']"

definition recipient_roles :: "string list" where
  "recipient_roles = [''ORIGIN_FRANCHISE'', ''DESTINATION_FRANCHISE'', ''PICKUP_AGENT'', ''DELIVERY_AGENT'', ''ORIGIN_UNIT'',
     ''TRANSIT_UNIT'', ''DESTINATION_UNIT'', ''CUSTOM'']"

text \<open>The trigger that derives the specificity of a rule.\<close>

definition specificity :: "CommissionRule \<Rightarrow> int" where
  "specificity r = (if cu_FranchiseID r \<noteq> None then 32 else 0) + (if cu_OperatingUnitID r \<noteq> None then 16 else 0)
     + (if cu_FranchiseCategory r \<noteq> None then 8 else 0) + (if cu_ServiceID r \<noteq> None then 4 else 0)
     + (if cu_OriginZoneID r \<noteq> None then 2 else 0) + (if cu_DestinationZoneID r \<noteq> None then 2 else 0)
     + (if cu_CustomerCategory r \<noteq> None then 1 else 0) + (if cu_PaymentMode r \<noteq> None then 1 else 0)"

definition rule_checks :: "CommissionRule \<Rightarrow> bool" where
  "rule_checks r \<longleftrightarrow> cu_CommissionType r \<in> set commission_types \<and> cu_RecipientRole r \<in> set recipient_roles
     \<and> (case cu_PaymentMode r of None \<Rightarrow> True | Some m \<Rightarrow> m \<in> set [''PREPAID'', ''COD'', ''CREDIT'', ''TO_PAY''])"

definition CreateCommissionRule :: "CommissionRule \<Rightarrow> CommissionDB \<Rightarrow> (CommissionRule \<times> CommissionDB) result" where
  "CreateCommissionRule r db =
     (let r' = r\<lparr>cu_ID := next_rule db, cu_Specificity := specificity r\<rparr>
      in ensure (rule_checks r) Internal
         (ensure (\<not> list_ex (\<lambda>u. cu_OrganizationID u = cu_OrganizationID r \<and> cu_Code u = cu_Code r) (rules db)) (Conflict ''CONFLICT'')
           (Inr (r', db\<lparr>rules := rules db @ [r'], next_rule := next_rule db + 1\<rparr>))))"

record RuleInput =
  ri_SchemeCode :: string
  ri_Code :: string
  ri_Name :: string
  ri_CommissionType :: string
  ri_RecipientRole :: string
  ri_FranchisePublicID :: string
  ri_FranchiseCategory :: string
  ri_ServiceCode :: string
  ri_CustomerCategory :: string
  ri_PaymentMode :: string
  ri_Priority :: int
  ri_Description :: string

definition resolveFranchise :: "(int \<Rightarrow> string \<Rightarrow> int option) \<Rightarrow> Principal \<Rightarrow> string \<Rightarrow> int option result" where
  "resolveFranchise franchiseOf p publicID =
     (if publicID = '''' then Inr None else bindE (opt_or (franchiseOf (OrganizationID p) publicID) (NotFound ''Franchise'')) (\<lambda>f. Inr (Some f)))"

definition resolveService :: "(int \<Rightarrow> string \<Rightarrow> int option) \<Rightarrow> Principal \<Rightarrow> string \<Rightarrow> int option result" where
  "resolveService serviceOf p code =
     (if code = '''' then Inr None else bindE (opt_or (serviceOf (OrganizationID p) code) (NotFound ''Courier service'')) (\<lambda>s. Inr (Some s)))"

definition GetSchemeByCode :: "CommissionDB \<Rightarrow> int \<Rightarrow> string \<Rightarrow> CommissionScheme option" where
  "GetSchemeByCode db org code = find (\<lambda>s. sc_OrganizationID s = org \<and> sc_Code s = code) (schemes db)"

definition CreateRule :: "(int \<Rightarrow> string \<Rightarrow> int option) \<Rightarrow> (int \<Rightarrow> string \<Rightarrow> int option) \<Rightarrow> string \<Rightarrow> Principal \<Rightarrow> RuleInput \<Rightarrow> CommissionDB \<Rightarrow>
    (CommissionRule \<times> CommissionDB) result" where
  "CreateRule franchiseOf serviceOf newID p inp db =
     ensure (\<not> (ri_Code inp = '''' \<or> ri_Name inp = '''' \<or> ri_CommissionType inp = '''' \<or> ri_RecipientRole inp = ''''))
       (Validation ''A rule needs a code, a name, a commission type and a recipient role.'')
     (bindE (opt_or (GetSchemeByCode db (OrganizationID p) (if ri_SchemeCode inp = '''' then ''STANDARD'' else ri_SchemeCode inp)) (NotFound ''Commission scheme''))
     (\<lambda>scheme. bindE (resolveFranchise franchiseOf p (ri_FranchisePublicID inp))
     (\<lambda>franchiseID. bindE (resolveService serviceOf p (ri_ServiceCode inp))
     (\<lambda>serviceID. CreateCommissionRule
        \<lparr>cu_ID = 0, cu_PublicID = newID, cu_OrganizationID = OrganizationID p, cu_SchemeID = sc_ID scheme, cu_Code = ri_Code inp, cu_Name = ri_Name inp,
         cu_CommissionType = ri_CommissionType inp, cu_RecipientRole = ri_RecipientRole inp, cu_FranchiseID = franchiseID,
         cu_FranchiseCategory = Optional (ri_FranchiseCategory inp), cu_OperatingUnitID = None, cu_ServiceID = serviceID, cu_OriginZoneID = None,
         cu_DestinationZoneID = None, cu_CustomerCategory = Optional (ri_CustomerCategory inp), cu_PaymentMode = Optional (ri_PaymentMode inp),
         cu_Specificity = 0, cu_Priority = ri_Priority inp, cu_Status = ''ACTIVE'', cu_Description = Optional (ri_Description inp)\<rparr> db))))"

subsection \<open>Versions\<close>

record VersionInput =
  vi_Method :: string
  vi_FixedAmountMinor :: "int option"
  vi_RateBp :: "int option"
  vi_Basis :: string
  vi_Slabs :: "Slab list"
  vi_MinAmountMinor :: "int option"
  vi_MaxAmountMinor :: "int option"
  vi_EffectiveFrom :: "int option"
  vi_Notes :: string

definition bases :: "string list" where
  "bases = [''FREIGHT'', ''SURCHARGE'', ''FREIGHT_PLUS_SURCHARGE'', ''TOTAL_BEFORE_TAX'', ''TOTAL'', ''COD_AMOUNT'', ''CHARGEABLE_WEIGHT'', ''SHIPMENT_COUNT'']"

definition nonneg_opt :: "int option \<Rightarrow> bool" where
  "nonneg_opt v = (case v of None \<Rightarrow> True | Some x \<Rightarrow> 0 \<le> x)"

definition version_checks :: "CommissionRuleVersion \<Rightarrow> bool" where
  "version_checks v \<longleftrightarrow> 0 < cv_VersionNo v \<and> nonneg_opt (cv_FixedAmountMinor v)
     \<and> (case cv_RateBp v of None \<Rightarrow> True | Some r \<Rightarrow> 0 \<le> r \<and> r \<le> 1000000)
     \<and> (case cv_Basis v of None \<Rightarrow> True | Some b \<Rightarrow> b \<in> set bases)
     \<and> nonneg_opt (cv_MinAmountMinor v) \<and> nonneg_opt (cv_MaxAmountMinor v)
     \<and> (case (cv_MinAmountMinor v, cv_MaxAmountMinor v) of (Some a, Some b) \<Rightarrow> a \<le> b | _ \<Rightarrow> True)
     \<and> (cv_CalculationMethod v = MethodFixed \<and> cv_FixedAmountMinor v \<noteq> None
        \<or> cv_CalculationMethod v = MethodPercentage \<and> cv_RateBp v \<noteq> None \<and> cv_Basis v \<noteq> None
        \<or> cv_CalculationMethod v = MethodSlab \<and> cv_Slabs v \<noteq> [] \<and> cv_Basis v \<noteq> None)"

definition NextRuleVersionNumber :: "CommissionDB \<Rightarrow> int \<Rightarrow> int" where
  "NextRuleVersionNumber db rule = fold max (map cv_VersionNo (filter (\<lambda>v. cv_RuleID v = rule) (versions db))) 0 + 1"

definition CreateRuleVersion :: "CommissionRuleVersion \<Rightarrow> CommissionDB \<Rightarrow> (CommissionRuleVersion \<times> CommissionDB) result" where
  "CreateRuleVersion v db =
     (let v' = v\<lparr>cv_ID := next_version db\<rparr>
      in ensure (version_checks v) Internal
         (ensure (\<not> list_ex (\<lambda>u. cv_RuleID u = cv_RuleID v \<and> cv_VersionNo u = cv_VersionNo v) (versions db)) Internal
           (Inr (v', db\<lparr>versions := versions db @ [v'], next_version := next_version db + 1\<rparr>))))"

definition superseded :: "int \<Rightarrow> int \<Rightarrow> int \<Rightarrow> CommissionRuleVersion \<Rightarrow> bool" where
  "superseded rule newID effectiveFrom v \<longleftrightarrow> cv_RuleID v = rule \<and> cv_ID v \<noteq> newID \<and> cv_Status v = ''ACTIVE''
     \<and> cv_EffectiveFrom v < effectiveFrom \<and> (case cv_EffectiveTo v of None \<Rightarrow> True | Some e \<Rightarrow> effectiveFrom \<le> e)"

definition SupersedePriorVersions :: "int \<Rightarrow> int \<Rightarrow> int \<Rightarrow> CommissionDB \<Rightarrow> CommissionDB" where
  "SupersedePriorVersions rule newID effectiveFrom db =
     db\<lparr>versions := map (\<lambda>v. if superseded rule newID effectiveFrom v
        then v\<lparr>cv_EffectiveTo := Some (prev_day effectiveFrom), cv_Status := ''SUPERSEDED''\<rparr> else v) (versions db)\<rparr>"

definition GetRuleByPublicID :: "CommissionDB \<Rightarrow> int \<Rightarrow> string \<Rightarrow> CommissionRule option" where
  "GetRuleByPublicID db org publicID =
     find (\<lambda>r. cu_OrganizationID r = org \<and> cu_PublicID r = publicID \<and> list_ex (\<lambda>s. sc_ID s = cu_SchemeID r) (schemes db)) (rules db)"

definition CreateVersion :: "string \<Rightarrow> Principal \<Rightarrow> string \<Rightarrow> VersionInput \<Rightarrow> CommissionDB \<Rightarrow> (CommissionRuleVersion \<times> CommissionDB) result" where
  "CreateVersion newID p rulePublicID inp db =
     bindE (opt_or (vi_EffectiveFrom inp) (Validation ''A version needs an effective date.''))
     (\<lambda>effectiveFrom. bindE (if vi_Method inp = MethodSlab then ValidateSlabs (vi_Slabs inp) else Inr ())
     (\<lambda>_. bindE (opt_or (GetRuleByPublicID db (OrganizationID p) rulePublicID) (NotFound ''Commission rule''))
     (\<lambda>rule. bindE (CreateRuleVersion
        \<lparr>cv_ID = 0, cv_PublicID = newID, cv_OrganizationID = OrganizationID p, cv_RuleID = cu_ID rule,
         cv_VersionNo = wrap32 (NextRuleVersionNumber db (cu_ID rule)), cv_CalculationMethod = vi_Method inp, cv_Currency = OrganizationCurrency p,
         cv_FixedAmountMinor = vi_FixedAmountMinor inp, cv_RateBp = vi_RateBp inp, cv_Basis = Optional (vi_Basis inp), cv_Slabs = vi_Slabs inp,
         cv_MinAmountMinor = vi_MinAmountMinor inp, cv_MaxAmountMinor = vi_MaxAmountMinor inp, cv_EffectiveFrom = effectiveFrom,
         cv_EffectiveTo = None, cv_Status = ''ACTIVE'', cv_Notes = Optional (vi_Notes inp)\<rparr> db)
     (\<lambda>(created, db1). Inr (created, SupersedePriorVersions (cu_ID rule) (cv_ID created) effectiveFrom db1)))))"

subsection \<open>Which rule governs an event\<close>

record Facts =
  fa_CommissionType :: string
  fa_FranchiseID :: "int option"
  fa_FranchiseCategory :: string
  fa_OperatingUnitID :: "int option"
  fa_ServiceID :: "int option"
  fa_OriginZoneID :: "int option"
  fa_DestinationZoneID :: "int option"
  fa_CustomerCategory :: string
  fa_PaymentMode :: string
  fa_SchemeID :: "int option"

definition scope_fits :: "'a option \<Rightarrow> 'a option \<Rightarrow> bool" where
  "scope_fits bound actual \<longleftrightarrow> bound = None \<or> bound = actual"

definition rule_matches :: "CommissionDB \<Rightarrow> int \<Rightarrow> Facts \<Rightarrow> CommissionRule \<Rightarrow> bool" where
  "rule_matches db org f r \<longleftrightarrow> cu_OrganizationID r = org \<and> cu_Status r = ''ACTIVE''
     \<and> list_ex (\<lambda>s. sc_ID s = cu_SchemeID r \<and> sc_Status s = ''ACTIVE'') (schemes db)
     \<and> cu_CommissionType r = fa_CommissionType f
     \<and> (fa_SchemeID f = None \<or> Some (cu_SchemeID r) = fa_SchemeID f)
     \<and> scope_fits (cu_FranchiseID r) (fa_FranchiseID f) \<and> scope_fits (cu_FranchiseCategory r) (Optional (fa_FranchiseCategory f))
     \<and> scope_fits (cu_OperatingUnitID r) (fa_OperatingUnitID f) \<and> scope_fits (cu_ServiceID r) (fa_ServiceID f)
     \<and> scope_fits (cu_OriginZoneID r) (fa_OriginZoneID f) \<and> scope_fits (cu_DestinationZoneID r) (fa_DestinationZoneID f)
     \<and> scope_fits (cu_CustomerCategory r) (Optional (fa_CustomerCategory f)) \<and> scope_fits (cu_PaymentMode r) (Optional (fa_PaymentMode f))"

definition ResolveCommissionRule :: "CommissionDB \<Rightarrow> int \<Rightarrow> Facts \<Rightarrow> CommissionRule list" where
  "ResolveCommissionRule db org f =
     sort_key (\<lambda>r. - cu_Specificity r) (sort_key (\<lambda>r. - cu_Priority r) (sort_key cu_ID (filter (rule_matches db org f) (rules db))))"

definition in_force :: "int \<Rightarrow> int \<Rightarrow> CommissionRuleVersion \<Rightarrow> bool" where
  "in_force rule asOf v \<longleftrightarrow> cv_RuleID v = rule \<and> cv_Status v = ''ACTIVE'' \<and> cv_EffectiveFrom v \<le> asOf
     \<and> (case cv_EffectiveTo v of None \<Rightarrow> True | Some e \<Rightarrow> asOf \<le> e)"

definition GetEffectiveRuleVersion :: "CommissionDB \<Rightarrow> int \<Rightarrow> int \<Rightarrow> CommissionRuleVersion option" where
  "GetEffectiveRuleVersion db rule asOf =
     (case sort_key (\<lambda>v. - cv_EffectiveFrom v) (sort_key (\<lambda>v. - cv_ID v) (filter (in_force rule asOf) (versions db))) of
        [] \<Rightarrow> None | v # _ \<Rightarrow> Some v)"

record Resolution =
  re_Rule :: CommissionRule
  re_Version :: CommissionRuleVersion
  re_Candidates :: "CommissionRule list"

definition ResolveRule :: "int \<Rightarrow> Facts \<Rightarrow> int \<Rightarrow> CommissionDB \<Rightarrow> Resolution result" where
  "ResolveRule org f on_date db =
     (case ResolveCommissionRule db org f of
        [] \<Rightarrow> Inl (Conflict ''COMMISSION_NO_RULE'')
      | winner # rest \<Rightarrow>
          bindE (opt_or (GetEffectiveRuleVersion db (cu_ID winner) on_date) (Conflict ''COMMISSION_NO_VERSION''))
            (\<lambda>version. Inr \<lparr>re_Rule = winner, re_Version = version, re_Candidates = winner # rest\<rparr>))"

definition ruleFromVersion :: "CommissionRuleVersion \<Rightarrow> Rule" where
  "ruleFromVersion v = \<lparr>ru_Method = cv_CalculationMethod v, ru_Currency = cv_Currency v, ru_FixedAmountMinor = cv_FixedAmountMinor v,
     ru_RateBp = cv_RateBp v, ru_BasisName = (case cv_Basis v of None \<Rightarrow> '''' | Some b \<Rightarrow> b), ru_Slabs = cv_Slabs v,
     ru_MinAmountMinor = cv_MinAmountMinor v, ru_MaxAmountMinor = cv_MaxAmountMinor v\<rparr>"

subsection \<open>Simulation\<close>

record SimulateResult =
  sm_Matched :: bool
  sm_RuleCode :: string
  sm_VersionNo :: int
  sm_Outcome :: "Outcome option"
  sm_Candidates :: "(string \<times> int \<times> int \<times> bool) list"

definition candidate_views :: "CommissionRule list \<Rightarrow> (string \<times> int \<times> int \<times> bool) list" where
  "candidate_views cs = map (\<lambda>(i, c). (cu_Code c, cu_Specificity c, cu_Priority c, i = 0)) (enumerate 0 cs)"

definition Simulate :: "int \<Rightarrow> Principal \<Rightarrow> Facts \<Rightarrow> Basis \<Rightarrow> int option \<Rightarrow> CommissionDB \<Rightarrow> SimulateResult result" where
  "Simulate now p f basis onDate db =
     (let on_date = (case onDate of None \<Rightarrow> now | Some d \<Rightarrow> d) in
      case ResolveRule (OrganizationID p) f on_date db of
        Inl e \<Rightarrow> if e \<in> set [Conflict ''COMMISSION_NO_RULE'', Conflict ''COMMISSION_NO_VERSION'']
          then Inr \<lparr>sm_Matched = False, sm_RuleCode = '''', sm_VersionNo = 0, sm_Outcome = None, sm_Candidates = []\<rparr> else Inl e
      | Inr res \<Rightarrow> bindE (Calculate (ruleFromVersion (re_Version res)) basis)
          (\<lambda>outcome. Inr \<lparr>sm_Matched = True, sm_RuleCode = cu_Code (re_Rule res), sm_VersionNo = cv_VersionNo (re_Version res),
             sm_Outcome = Some outcome, sm_Candidates = candidate_views (re_Candidates res)\<rparr>))"

subsection \<open>Calculations\<close>

record CalculateRequest =
  crq_Facts :: Facts
  crq_Basis :: Basis
  crq_ShipmentID :: "int option"
  crq_QualifyingEvent :: string
  crq_QualifyingEventID :: "int option"
  crq_QualifiedAt :: "int option"
  crq_RecipientType :: string
  crq_RecipientID :: int
  crq_FranchiseID :: "int option"
  crq_UnitID :: "int option"
  crq_PostImmediately :: bool

definition live_for :: "int \<Rightarrow> int \<Rightarrow> string \<Rightarrow> string \<Rightarrow> int \<Rightarrow> CommissionCalculation \<Rightarrow> bool" where
  "live_for org shipment ctype recipientType recipientID c \<longleftrightarrow> cc_OrganizationID c = org \<and> cc_ShipmentID c = Some shipment
     \<and> cc_CommissionType c = ctype \<and> cc_RecipientType c = recipientType \<and> cc_RecipientID c = recipientID
     \<and> cc_Status c \<in> set [''CALCULATED'', ''POSTED'']"

definition FindCalculationForShipment :: "CommissionDB \<Rightarrow> int \<Rightarrow> int \<Rightarrow> string \<Rightarrow> string \<Rightarrow> int \<Rightarrow> CommissionCalculation option" where
  "FindCalculationForShipment db org shipment ctype recipientType recipientID =
     find (live_for org shipment ctype recipientType recipientID) (calculations db)"

definition calculation_clash :: "CommissionDB \<Rightarrow> CommissionCalculation \<Rightarrow> bool" where
  "calculation_clash db c \<longleftrightarrow> (case cc_ShipmentID c of None \<Rightarrow> False
     | Some sh \<Rightarrow> cc_Status c \<in> set [''CALCULATED'', ''POSTED''] \<and>
         list_ex (live_for (cc_OrganizationID c) sh (cc_CommissionType c) (cc_RecipientType c) (cc_RecipientID c)) (calculations db))"

text \<open>
  The insert with its CHECK constraints and the unique index over live calculations. A violation of
  the index aborts the transaction, so that the re-read of the winner fails as well.
\<close>

definition CreateCommissionCalculation :: "CommissionCalculation \<Rightarrow> CommissionDB \<Rightarrow> (CommissionCalculation \<times> CommissionDB) result" where
  "CreateCommissionCalculation c db =
     (let c' = c\<lparr>cc_ID := next_calculation db\<rparr>
      in ensure (cc_CommissionType c \<in> set commission_types \<and> cc_RecipientType c \<in> set [''FRANCHISE'', ''OPERATING_UNIT'', ''AGENT'']
           \<and> cc_CalculationMethod c \<in> set [MethodFixed, MethodPercentage, MethodSlab]
           \<and> cc_Status c \<in> set [''CALCULATED'', ''POSTED'', ''REVERSED'', ''CANCELLED''] \<and> \<not> calculation_clash db c) Internal
         (Inr (c', db\<lparr>calculations := calculations db @ [c'], next_calculation := next_calculation db + 1\<rparr>)))"

definition update_calculation :: "(CommissionCalculation \<Rightarrow> bool) \<Rightarrow> (CommissionCalculation \<Rightarrow> CommissionCalculation) \<Rightarrow> CommissionDB \<Rightarrow>
    (CommissionCalculation \<times> CommissionDB) option" where
  "update_calculation guard f db =
     (case find guard (calculations db) of None \<Rightarrow> None
      | Some c \<Rightarrow> Some (f c, db\<lparr>calculations := map (\<lambda>u. if guard u then f u else u) (calculations db)\<rparr>))"

definition MarkCalculationPosted :: "int \<Rightarrow> int \<Rightarrow> int \<Rightarrow> CommissionDB \<Rightarrow> (CommissionCalculation \<times> CommissionDB) option" where
  "MarkCalculationPosted org cid journal =
     update_calculation (\<lambda>c. cc_OrganizationID c = org \<and> cc_ID c = cid \<and> cc_Status c = ''CALCULATED'')
       (\<lambda>c. c\<lparr>cc_Status := ''POSTED'', cc_JournalTransactionID := Some journal\<rparr>)"

definition MarkCalculationReversed :: "int \<Rightarrow> int \<Rightarrow> CommissionDB \<Rightarrow> (CommissionCalculation \<times> CommissionDB) option" where
  "MarkCalculationReversed org cid =
     update_calculation (\<lambda>c. cc_OrganizationID c = org \<and> cc_ID c = cid \<and> cc_Status c = ''POSTED'')
       (\<lambda>c. c\<lparr>cc_Status := ''REVERSED'', cc_ReversedByID := None\<rparr>)"

definition CreateCommissionEntry :: "CommissionEntry \<Rightarrow> CommissionDB \<Rightarrow> CommissionDB" where
  "CreateCommissionEntry e db = db\<lparr>commission_entries := commission_entries db @ [e]\<rparr>"

definition commission_entry :: "Principal \<Rightarrow> CommissionCalculation \<Rightarrow> string \<Rightarrow> int \<Rightarrow> int \<Rightarrow> string \<Rightarrow> CommissionEntry" where
  "commission_entry p c entryType amount earnedOn memo =
     \<lparr>ce_OrganizationID = OrganizationID p, ce_CalculationID = cc_ID c, ce_FranchiseID = cc_FranchiseID c, ce_OperatingUnitID = cc_OperatingUnitID c,
      ce_EntryType = entryType, ce_CommissionType = cc_CommissionType c, ce_AmountMinor = amount, ce_Currency = cc_Currency c,
      ce_ShipmentID = cc_ShipmentID c, ce_EarnedOn = earnedOn, ce_Memo = Optional memo\<rparr>"

definition commission_posting :: "CommissionCalculation \<Rightarrow> Posting" where
  "commission_posting c =
     \<lparr>SourceType = ''COMMISSION'', SourceID = Some (cc_ID c), Purpose = cc_CommissionType c,
      PDescription = cc_CommissionType c @ '' commission, rule '' @ cc_RuleCode c @ '' v'' @ FormatInt (cc_RuleVersionNo c), Reason = '''',
      PCurrency = cc_Currency c, PostingDate = Some (cc_QualifiedAt c),
      Legs = [(leg (if cc_CommissionType c = ''VOLUME_INCENTIVE'' then AcctIncentiveExpense else AcctCommissionExpense) (cc_AmountMinor c) 0 '''' 0
          ''Commission earned by the network'')\<lparr>LegFranchiseID := cc_FranchiseID c, LegShipmentID := cc_ShipmentID c\<rparr>,
        (leg AcctCommissionPayable 0 (cc_AmountMinor c) '''' 0 (''Accrued '' @ cc_CommissionType c @ '' commission''))
          \<lparr>LegFranchiseID := cc_FranchiseID c, LegShipmentID := cc_ShipmentID c\<rparr>]\<rparr>"

definition post_commission :: "int \<Rightarrow> Principal \<Rightarrow> CommissionCalculation \<Rightarrow> CommissionDB \<Rightarrow> (CommissionCalculation \<times> CommissionDB) result" where
  "post_commission now p calc db =
     ensure (cc_Status calc = ''CALCULATED'') (Conflict ''COMMISSION_ALREADY_POSTED'')
     (if cc_AmountMinor calc = 0 then Inr (calc, db)
      else bindE (Post p now (commission_posting calc) (comm_ledger db))
        (\<lambda>(result, l). bindE (opt_or (MarkCalculationPosted (OrganizationID p) (cc_ID calc) (j_ID (rs_Transaction result)) (db\<lparr>comm_ledger := l\<rparr>))
            (Conflict ''COMMISSION_ALREADY_POSTED''))
        (\<lambda>(updated, db1). Inr (updated, CreateCommissionEntry (commission_entry p calc ''EARNED'' (cc_AmountMinor calc) (cc_QualifiedAt calc)
            (''Rule '' @ cc_RuleCode calc @ '' v'' @ FormatInt (cc_RuleVersionNo calc))) db1))))"

definition new_calculation :: "string \<Rightarrow> int \<Rightarrow> Principal \<Rightarrow> CalculateRequest \<Rightarrow> Resolution \<Rightarrow> Outcome \<Rightarrow> CommissionCalculation" where
  "new_calculation newID qualifiedAt p inp res outcome =
     \<lparr>cc_ID = 0, cc_PublicID = newID, cc_OrganizationID = OrganizationID p, cc_CommissionType = fa_CommissionType (crq_Facts inp),
      cc_ShipmentID = crq_ShipmentID inp, cc_QualifyingEvent = crq_QualifyingEvent inp, cc_QualifyingEventID = crq_QualifyingEventID inp,
      cc_QualifiedAt = qualifiedAt, cc_RecipientType = crq_RecipientType inp, cc_RecipientID = crq_RecipientID inp, cc_FranchiseID = crq_FranchiseID inp,
      cc_OperatingUnitID = crq_UnitID inp, cc_RuleID = cu_ID (re_Rule res), cc_RuleVersionID = cv_ID (re_Version res), cc_RuleCode = cu_Code (re_Rule res),
      cc_RuleVersionNo = cv_VersionNo (re_Version res), cc_CalculationMethod = out_Method outcome, cc_Basis = Optional (out_BasisName outcome),
      cc_BaseAmountMinor = out_BasisValue outcome, cc_RateBp = out_RateBp outcome, cc_GrossAmountMinor = out_GrossMinor outcome,
      cc_AmountMinor = out_AmountMinor outcome, cc_Currency = out_Currency outcome, cc_CalculationTrace = out_Steps outcome, cc_Status = ''CALCULATED'',
      cc_JournalTransactionID = None, cc_SettlementID = None, cc_ReversedByID = None\<rparr>"

text \<open>The part of \<^verbatim>\<open>Calculate\<close> after its idempotency probe.\<close>

definition calculate_new :: "string \<Rightarrow> int \<Rightarrow> int \<Rightarrow> Principal \<Rightarrow> CalculateRequest \<Rightarrow> CommissionDB \<Rightarrow>
    ((CommissionCalculation \<times> bool) \<times> CommissionDB) result" where
  "calculate_new newID now qualifiedAt p inp db =
     bindE (ResolveRule (OrganizationID p) (crq_Facts inp) qualifiedAt db)
     (\<lambda>res. bindE (Calculate (ruleFromVersion (re_Version res)) (crq_Basis inp))
     (\<lambda>outcome. bindE (CreateCommissionCalculation (new_calculation newID qualifiedAt p inp res outcome) db)
     (\<lambda>(calc, db1). if crq_PostImmediately inp
        then bindE (post_commission now p calc db1) (\<lambda>(posted, db2). Inr ((posted, False), db2))
        else Inr ((calc, False), db1))))"

definition Calculate_commission :: "string \<Rightarrow> int \<Rightarrow> Principal \<Rightarrow> CalculateRequest \<Rightarrow> CommissionDB \<Rightarrow>
    ((CommissionCalculation \<times> bool) \<times> CommissionDB) result" where
  "Calculate_commission newID now p inp db =
     (let qualifiedAt = (case crq_QualifiedAt inp of None \<Rightarrow> now | Some d \<Rightarrow> d) in
      ensure (\<not> (crq_RecipientType inp = '''' \<or> crq_RecipientID inp = 0)) (Conflict ''COMMISSION_NO_RECIPIENT'')
      (case crq_ShipmentID inp of
         None \<Rightarrow> calculate_new newID now qualifiedAt p inp db
       | Some sh \<Rightarrow>
           (case FindCalculationForShipment db (OrganizationID p) sh (fa_CommissionType (crq_Facts inp)) (crq_RecipientType inp) (crq_RecipientID inp) of
              Some existing \<Rightarrow> Inr ((existing, True), db)
            | None \<Rightarrow> calculate_new newID now qualifiedAt p inp db)))"

subsection \<open>Posting later, and reversal\<close>

definition GetCalculationByPublicID :: "CommissionDB \<Rightarrow> int \<Rightarrow> string \<Rightarrow> CommissionCalculation option" where
  "GetCalculationByPublicID db org publicID = find (\<lambda>c. cc_OrganizationID c = org \<and> cc_PublicID c = publicID) (calculations db)"

text \<open>\<^verbatim>\<open>Post\<close> copies the columns that posting reads and leaves the others zero.\<close>

definition posting_copy :: "CommissionCalculation \<Rightarrow> CommissionCalculation" where
  "posting_copy c = c\<lparr>cc_QualifyingEvent := '''', cc_QualifyingEventID := None, cc_RuleID := 0, cc_RuleVersionID := 0, cc_CalculationMethod := '''',
     cc_Basis := None, cc_BaseAmountMinor := 0, cc_RateBp := None, cc_GrossAmountMinor := 0, cc_CalculationTrace := [], cc_JournalTransactionID := None,
     cc_SettlementID := None, cc_ReversedByID := None\<rparr>"

definition Post_commission :: "int \<Rightarrow> Principal \<Rightarrow> string \<Rightarrow> CommissionDB \<Rightarrow> (CommissionCalculation \<times> CommissionDB) result" where
  "Post_commission now p publicID db =
     bindE (opt_or (GetCalculationByPublicID db (OrganizationID p) publicID) (NotFound ''Commission calculation''))
       (\<lambda>calc. post_commission now p (posting_copy calc) db)"

definition Reverse_commission :: "int \<Rightarrow> Principal \<Rightarrow> string \<Rightarrow> string \<Rightarrow> CommissionDB \<Rightarrow> (CommissionCalculation \<times> CommissionDB) result" where
  "Reverse_commission now p publicID reason db =
     ensure (\<not> rune_count reason < 10) (Validation ''Reversing a commission requires a substantive reason.'')
     (bindE (opt_or (GetCalculationByPublicID db (OrganizationID p) publicID) (NotFound ''Commission calculation''))
     (\<lambda>calc. ensure (cc_Status calc \<noteq> ''REVERSED'') (Conflict ''COMMISSION_ALREADY_REVERSED'')
     (ensure (cc_Status calc \<noteq> ''CALCULATED'') (Conflict ''COMMISSION_NOT_CALCULATED'')
     (bindE (opt_or (cc_JournalTransactionID calc) (Conflict ''COMMISSION_NOT_CALCULATED''))
     (\<lambda>journal. bindE (Reverse p now journal reason (Some now) (comm_ledger db))
     (\<lambda>(_, l). bindE (opt_or (MarkCalculationReversed (OrganizationID p) (cc_ID calc) (db\<lparr>comm_ledger := l\<rparr>)) (Conflict ''COMMISSION_ALREADY_REVERSED''))
     (\<lambda>(updated, db1). Inr (updated, CreateCommissionEntry (commission_entry p calc ''REVERSAL'' (neg64 (cc_AmountMinor calc)) now
         (''Reversal: '' @ reason)) db1))))))))"

section \<open>What the commission service guarantees\<close>

subsection \<open>The governing rule\<close>

text \<open>The precedence of the resolution query: more specific first, then higher priority, then older.\<close>

definition rule_before :: "CommissionRule \<Rightarrow> CommissionRule \<Rightarrow> bool" where
  "rule_before a b \<longleftrightarrow> cu_Specificity b < cu_Specificity a \<or> cu_Specificity a = cu_Specificity b \<and>
     (cu_Priority b < cu_Priority a \<or> cu_Priority a = cu_Priority b \<and> cu_ID a \<le> cu_ID b)"

lemma ResolveCommissionRule_set [simp]: "set (ResolveCommissionRule db org f) = {r \<in> set (rules db). rule_matches db org f r}"
  by (auto simp: ResolveCommissionRule_def)

lemma ResolveCommissionRule_sorted: "sorted_wrt rule_before (ResolveCommissionRule db org f)"
proof -
  let ?M = "filter (rule_matches db org f) (rules db)"
  have "sorted_wrt (\<lambda>a b. cu_ID a \<le> cu_ID b) (sort_key cu_ID ?M)"
    using sorted_sort_key [of cu_ID ?M] by (simp add: sorted_map)
  from sort_key_lex [OF sort_key_lex [OF this, of "\<lambda>r. - cu_Priority r"], of "\<lambda>r. - cu_Specificity r"]
  show ?thesis unfolding ResolveCommissionRule_def rule_before_def by (rule sorted_wrt_mono_rel [rotated]) auto
qed

lemma rule_before_antisym: "rule_before a b \<Longrightarrow> rule_before b a \<Longrightarrow> cu_ID a = cu_ID b"
  by (auto simp: rule_before_def)

lemma ResolveRule_winner:
  assumes "ResolveRule org f d db = Inr res"
  shows "re_Rule res \<in> set (rules db)" "rule_matches db org f (re_Rule res)"
    "\<And>r. r \<in> set (rules db) \<Longrightarrow> rule_matches db org f r \<Longrightarrow> r = re_Rule res \<or> rule_before (re_Rule res) r"
    "GetEffectiveRuleVersion db (cu_ID (re_Rule res)) d = Some (re_Version res)"
proof -
  obtain rest where c: "ResolveCommissionRule db org f = re_Rule res # rest"
    and v: "GetEffectiveRuleVersion db (cu_ID (re_Rule res)) d = Some (re_Version res)"
    using assms by (auto simp: ResolveRule_def res_simps split: list.splits)
  have s: "set (re_Rule res # rest) = {r \<in> set (rules db). rule_matches db org f r}"
    using ResolveCommissionRule_set [of db org f] unfolding c .
  then show "re_Rule res \<in> set (rules db)" "rule_matches db org f (re_Rule res)" by auto
  show "r = re_Rule res \<or> rule_before (re_Rule res) r" if "r \<in> set (rules db)" "rule_matches db org f r" for r
  proof -
    have "r \<in> set (re_Rule res # rest)" unfolding s using that by simp
    then show ?thesis using ResolveCommissionRule_sorted [of db org f] unfolding c by auto
  qed
  show "GetEffectiveRuleVersion db (cu_ID (re_Rule res)) d = Some (re_Version res)" by (fact v)
qed

lemma GetEffectiveRuleVersion_Some:
  assumes "GetEffectiveRuleVersion db rule d = Some v"
  shows "v \<in> set (versions db)" "in_force rule d v"
    "\<And>w. w \<in> set (versions db) \<Longrightarrow> in_force rule d w \<Longrightarrow> cv_EffectiveFrom w \<le> cv_EffectiveFrom v"
proof -
  let ?V = "sort_key (\<lambda>v. - cv_ID v) (filter (in_force rule d) (versions db))"
  obtain rest where c: "sort_key (\<lambda>v. - cv_EffectiveFrom v) ?V = v # rest"
    using assms by (auto simp: GetEffectiveRuleVersion_def split: list.splits)
  have s: "set (v # rest) = {w \<in> set (versions db). in_force rule d w}"
    unfolding c [symmetric] by auto
  then show "v \<in> set (versions db)" "in_force rule d v" by auto
  show "cv_EffectiveFrom w \<le> cv_EffectiveFrom v" if "w \<in> set (versions db)" "in_force rule d w" for w
  proof -
    have "w \<in> set (v # rest)" unfolding s using that by simp
    then show ?thesis using sorted_sort_key [of "\<lambda>v. - cv_EffectiveFrom v" ?V] unfolding c by (auto simp: sorted_wrt_map)
  qed
qed

text \<open>
  C19: \<^bold>\<open>Exactly one rule governs an event.\<close> A resolution returns a rule that matches the facts and comes strictly
  before every other matching rule in the order of specificity, priority and age, in the version that is in force on the date with
  the latest start; and the choice does not depend on the order in which the rules are stored.
\<close>

theorem governing_rule:
  assumes res: "ResolveRule org f d db = Inr res" and ids: "distinct (map cu_ID (rules db))"
  shows "rule_matches db org f (re_Rule res) \<and> re_Rule res \<in> set (rules db)
    \<and> (\<forall>r \<in> set (rules db). rule_matches db org f r \<and> r \<noteq> re_Rule res \<longrightarrow> rule_before (re_Rule res) r \<and> \<not> rule_before r (re_Rule res))
    \<and> in_force (cu_ID (re_Rule res)) d (re_Version res)
    \<and> (\<forall>v \<in> set (versions db). in_force (cu_ID (re_Rule res)) d v \<longrightarrow> cv_EffectiveFrom v \<le> cv_EffectiveFrom (re_Version res))
    \<and> (\<forall>rs. set rs = set (rules db) \<longrightarrow>
        (\<exists>res'. ResolveRule org f d (db\<lparr>rules := rs\<rparr>) = Inr res' \<and> re_Rule res' = re_Rule res \<and> re_Version res' = re_Version res))"
proof -
  note w = ResolveRule_winner [OF res] and v = GetEffectiveRuleVersion_Some [OF ResolveRule_winner(4) [OF res]]
  have eq: "r = re_Rule res" if "r \<in> set (rules db)" "cu_ID r = cu_ID (re_Rule res)" for r
    using that w(1) ids by (auto simp: distinct_map dest: inj_onD)
  have before: "\<not> rule_before r (re_Rule res)" if "r \<in> set (rules db)" "r \<noteq> re_Rule res" "rule_before (re_Rule res) r" for r
    using that eq rule_before_antisym by blast
  have "\<exists>res'. ResolveRule org f d (db\<lparr>rules := rs\<rparr>) = Inr res' \<and> re_Rule res' = re_Rule res \<and> re_Version res' = re_Version res"
    if rs: "set rs = set (rules db)" for rs
  proof -
    let ?db = "db\<lparr>rules := rs\<rparr>"
    have m: "rule_matches ?db org f = rule_matches db org f" by (simp add: rule_matches_def fun_eq_iff)
    have "re_Rule res \<in> set (ResolveCommissionRule ?db org f)" using w rs m by simp
    then obtain x rest where c: "ResolveCommissionRule ?db org f = x # rest" by (cases "ResolveCommissionRule ?db org f") auto
    have x: "x \<in> set (rules db)" "rule_matches db org f x"
      using ResolveCommissionRule_set [of ?db org f] unfolding c m by (auto simp: rs)
    have "x = re_Rule res"
    proof (rule ccontr)
      assume "x \<noteq> re_Rule res"
      moreover from this have "rule_before x (re_Rule res)"
        using \<open>re_Rule res \<in> set (ResolveCommissionRule ?db org f)\<close> ResolveCommissionRule_sorted [of ?db org f] unfolding c by auto
      ultimately show False using w(3) [OF x] before [OF x(1)] by auto
    qed
    moreover have "GetEffectiveRuleVersion ?db = GetEffectiveRuleVersion db" by (simp add: GetEffectiveRuleVersion_def fun_eq_iff)
    ultimately show ?thesis using c w(4) by (simp add: ResolveRule_def)
  qed
  then show ?thesis using w v before by blast
qed

lemma CreateVersion_Inr:
  assumes "CreateVersion newID p rulePublicID inp db = Inr (created, db')"
    "GetRuleByPublicID db (OrganizationID p) rulePublicID = Some rule" "vi_EffectiveFrom inp = Some e"
  shows "cv_ID created = next_version db \<and> cv_RuleID created = cu_ID rule \<and> cv_EffectiveFrom created = e
    \<and> cv_FixedAmountMinor created = vi_FixedAmountMinor inp \<and> cv_Slabs created = vi_Slabs inp
    \<and> cv_MinAmountMinor created = vi_MinAmountMinor inp \<and> cv_MaxAmountMinor created = vi_MaxAmountMinor inp
    \<and> db' = SupersedePriorVersions (cu_ID rule) (next_version db) e (db\<lparr>versions := versions db @ [created], next_version := next_version db + 1\<rparr>)"
  using assms by (auto simp: CreateVersion_def CreateRuleVersion_def res_simps Let_def)

text \<open>
  C40: \<^bold>\<open>A superseded rate is lost for its own past.\<close> When a new version of a rule starts on a date and every version that was in force
  on an earlier day was open-ended, no version is in force on that day any more: an event of that day, which resolved before,
  is refused afterwards, although the superseded version still covers the day.
\<close>

theorem superseded_rate_lost:
  assumes new: "CreateVersion newID p rulePublicID inp db = Inr (created, db')" and "GetRuleByPublicID db (OrganizationID p) rulePublicID = Some rule"
    and e: "vi_EffectiveFrom inp = Some e" "d < e"
    and opn: "\<forall>v \<in> set (versions db). in_force (cu_ID rule) d v \<longrightarrow> cv_EffectiveTo v = None"
    and fresh: "\<forall>v \<in> set (versions db). cv_ID v < next_version db"
    and res: "ResolveRule org f d db = Inr res" "re_Rule res = rule"
  shows "ResolveRule org f d db' = Inl (Conflict ''COMMISSION_NO_VERSION'')
    \<and> (\<exists>w \<in> set (versions db'). cv_RuleID w = cu_ID rule \<and> cv_EffectiveFrom w \<le> d \<and> cv_Status w = ''SUPERSEDED'')"
proof -
  let ?db1 = "db\<lparr>versions := versions db @ [created], next_version := next_version db + 1\<rparr>"
  note c = CreateVersion_Inr [OF new assms(2) e(1)]
  have db': "db' = SupersedePriorVersions (cu_ID rule) (next_version db) e ?db1" using c by blast
  have rules: "rules db' = rules db" "schemes db' = schemes db" using db' by (simp_all add: SupersedePriorVersions_def)
  have sup: "superseded (cu_ID rule) (next_version db) e v" if "v \<in> set (versions db)" "in_force (cu_ID rule) d v" for v
    using that opn fresh e(2) by (auto simp: superseded_def in_force_def)
  have "\<not> in_force (cu_ID rule) d w" if "w \<in> set (versions db')" for w
    using that sup c e(2) unfolding db' SupersedePriorVersions_def by (auto simp: in_force_def superseded_def)
  then have none: "GetEffectiveRuleVersion db' (cu_ID rule) d = None"
    by (simp add: GetEffectiveRuleVersion_def filter_empty_conv split: list.split)
  have "rule_matches db' = rule_matches db" using rules by (simp add: rule_matches_def fun_eq_iff)
  then have "ResolveCommissionRule db' = ResolveCommissionRule db" using rules by (intro ext) (simp add: ResolveCommissionRule_def)
  then have "ResolveRule org f d db' = Inl (Conflict ''COMMISSION_NO_VERSION'')"
    using res none by (auto simp: ResolveRule_def res_simps split: list.splits)
  moreover
  let ?v = "re_Version res"
  note v = GetEffectiveRuleVersion_Some [OF ResolveRule_winner(4) [OF res(1)]]
  have "?v\<lparr>cv_EffectiveTo := Some (prev_day e), cv_Status := ''SUPERSEDED''\<rparr> \<in> set (versions db')"
    using v(1) sup [OF v(1)] v(2) res(2) unfolding db' SupersedePriorVersions_def by force
  then have "\<exists>w \<in> set (versions db'). cv_RuleID w = cu_ID rule \<and> cv_EffectiveFrom w \<le> d \<and> cv_Status w = ''SUPERSEDED''"
    using v(2) res(2) by (intro bexI [rotated]) (auto simp: in_force_def)
  ultimately show ?thesis by blast
qed

subsection \<open>Amounts\<close>

text \<open>The columns of a version are 64-bit integers, and so is what the calculator makes of them.\<close>

definition typed_rule :: "Rule \<Rightarrow> bool" where
  "typed_rule r \<longleftrightarrow> (\<forall>a. ru_FixedAmountMinor r = Some a \<longrightarrow> in64 a) \<and> (\<forall>a. ru_MinAmountMinor r = Some a \<longrightarrow> in64 a)
     \<and> (\<forall>a. ru_MaxAmountMinor r = Some a \<longrightarrow> in64 a) \<and> (\<forall>s\<in>set (ru_Slabs r). in64 (sl_AmountMinor s))"

lemma in64_neg64 [simp]: "in64 (neg64 a)"
  by (simp add: neg64_def)

lemma in64_abs64: "in64 a \<Longrightarrow> in64 (abs64 a)"
  by (simp add: abs64_def neg64_def)

lemma ApplyBP_in64: "ApplyBP a bp = Inr q \<Longrightarrow> in64 q"
  by (auto simp: ApplyBP_def divRoundHalfUp_def res_simps Let_def quot64_def split: if_splits)

lemma first_band_mem: "first_band i ss v = Some (s, k) \<Longrightarrow> s \<in> set ss"
  by (induction i ss v rule: first_band.induct) (auto split: if_splits option.splits)

lemma selectSlab_mem: "selectSlab ss v = Inr (s, k) \<Longrightarrow> s \<in> set ss"
  by (auto simp: selectSlab_def res_simps split: if_splits dest!: first_band_mem)

lemma Calculate_in64:
  assumes "Calculate r b = Inr out" "typed_rule r"
  shows "in64 (out_AmountMinor out) \<and> 0 \<le> out_AmountMinor out"
proof -
  obtain g where g: "calculate_gross r b = Inr g" "out = clamp_outcome r g" "0 \<le> out_AmountMinor out"
    using assms(1) by (auto simp: Calculate_def res_simps Let_def)
  have "in64 (out_GrossMinor g)"
    using g(1) assms(2) unfolding calculate_gross_def typed_rule_def
    by (auto simp: Let_def res_simps dest!: ApplyBP_in64 selectSlab_mem split: if_splits option.splits)
  moreover have "in64 (Clamp v (ru_MinAmountMinor r) (ru_MaxAmountMinor r))" if "in64 v" for v
    using that assms(2) by (auto simp: Clamp_def Let_def typed_rule_def split: option.splits)
  ultimately show ?thesis using g(2,3) by (simp add: clamp_outcome_facts)
qed

subsection \<open>The invariant\<close>

abbreviation source_of :: "CommissionCalculation \<Rightarrow> source" where
  "source_of c \<equiv> (cc_OrganizationID c, ''COMMISSION'', cc_ID c, cc_CommissionType c)"

definition entry_sum :: "CommissionEntry list \<Rightarrow> int \<Rightarrow> int" where
  "entry_sum es i = sum_list (map ce_AmountMinor (filter (\<lambda>e. ce_CalculationID e = i) es))"

text \<open>
  A posted calculation has one live journal of its amount, and its entries add up to it; any other has
  no live journal and its entries cancel.
\<close>

definition accrued :: "LedgerDB \<Rightarrow> CommissionEntry list \<Rightarrow> CommissionCalculation \<Rightarrow> bool" where
  "accrued l es c \<longleftrightarrow>
     (if cc_Status c = ''POSTED''
      then entry_sum es (cc_ID c) = cc_AmountMinor c \<and> (\<exists>j. cc_JournalTransactionID c = Some j \<and> book l (source_of c) = Some (j, cc_AmountMinor c))
      else entry_sum es (cc_ID c) = 0 \<and> book l (source_of c) = None)"

definition live_calculation :: "CommissionCalculation \<Rightarrow> bool" where
  "live_calculation c \<longleftrightarrow> cc_Status c \<in> {''CALCULATED'', ''POSTED''}"

definition same_event :: "CommissionCalculation \<Rightarrow> CommissionCalculation \<Rightarrow> bool" where
  "same_event c d \<longleftrightarrow> cc_OrganizationID c = cc_OrganizationID d \<and> cc_ShipmentID c \<noteq> None \<and> cc_ShipmentID c = cc_ShipmentID d
     \<and> cc_CommissionType c = cc_CommissionType d \<and> cc_RecipientType c = cc_RecipientType d \<and> cc_RecipientID c = cc_RecipientID d"

definition calcs_ok :: "CommissionCalculation list \<Rightarrow> int \<Rightarrow> bool" where
  "calcs_ok cs n \<longleftrightarrow> distinct (map cc_ID cs) \<and> (\<forall>c\<in>set cs. cc_ID c < n \<and> cc_Status c \<in> {''CALCULATED'', ''POSTED'', ''REVERSED''}
       \<and> in64 (cc_AmountMinor c) \<and> 0 \<le> cc_AmountMinor c)
     \<and> (\<forall>c\<in>set cs. \<forall>d\<in>set cs. live_calculation c \<and> live_calculation d \<and> same_event c d \<longrightarrow> c = d)"

definition entries_for :: "CommissionEntry list \<Rightarrow> CommissionCalculation list \<Rightarrow> bool" where
  "entries_for es cs \<longleftrightarrow> (\<forall>e\<in>set es. \<exists>c\<in>set cs. cc_ID c = ce_CalculationID e \<and> cc_OrganizationID c = ce_OrganizationID e \<and> cc_FranchiseID c = ce_FranchiseID e)"

text \<open>No commission journal without its calculation.\<close>

definition booked_for :: "LedgerDB \<Rightarrow> CommissionCalculation list \<Rightarrow> bool" where
  "booked_for l cs \<longleftrightarrow> (\<forall>org i pu. book l (org, ''COMMISSION'', i, pu) \<noteq> None \<longrightarrow>
     (\<exists>c\<in>set cs. cc_OrganizationID c = org \<and> cc_ID c = i \<and> cc_CommissionType c = pu))"

definition comm_inv :: "CommissionDB \<Rightarrow> bool" where
  "comm_inv db \<longleftrightarrow> calcs_ok (calculations db) (next_calculation db) \<and> ledger_struct (comm_ledger db)
     \<and> (\<forall>v\<in>set (versions db). typed_rule (ruleFromVersion v))
     \<and> (\<forall>c\<in>set (calculations db). accrued (comm_ledger db) (commission_entries db) c)
     \<and> booked_for (comm_ledger db) (calculations db)
     \<and> entries_for (commission_entries db) (calculations db)"

lemma calc_same: "calcs_ok cs n \<Longrightarrow> c \<in> set cs \<Longrightarrow> d \<in> set cs \<Longrightarrow> cc_ID c = cc_ID d \<Longrightarrow> c = d"
  by (auto simp: calcs_ok_def distinct_map dest: inj_onD)

lemma entry_sum_append [simp]: "entry_sum (es @ [e]) i = entry_sum es i + (if ce_CalculationID e = i then ce_AmountMinor e else 0)"
  by (simp add: entry_sum_def)

lemma entry_sum_new: "entries_for es cs \<Longrightarrow> \<forall>c\<in>set cs. cc_ID c < n \<Longrightarrow> n \<le> i \<Longrightarrow> entry_sum es i = 0"
proof -
  assume "entries_for es cs" "\<forall>c\<in>set cs. cc_ID c < n" "n \<le> i"
  then have "filter (\<lambda>e. ce_CalculationID e = i) es = []" unfolding entries_for_def filter_empty_conv by force
  then show "entry_sum es i = 0" by (simp add: entry_sum_def)
qed

text \<open>A new row, not posted, that clashes with no live row.\<close>

lemma comm_inv_new:
  assumes "comm_inv db" "CreateCommissionCalculation c db = Inr (c', db')" "cc_Status c = ''CALCULATED''"
    and "in64 (cc_AmountMinor c)" "0 \<le> cc_AmountMinor c"
  shows "comm_inv db' \<and> c' \<in> set (calculations db')"
proof -
  have c': "c' = c\<lparr>cc_ID := next_calculation db\<rparr>" "db' = db\<lparr>calculations := calculations db @ [c'], next_calculation := next_calculation db + 1\<rparr>"
    and nc: "\<not> calculation_clash db c"
    using assms(2) by (auto simp: CreateCommissionCalculation_def res_simps Let_def)
  have lt: "\<forall>d\<in>set (calculations db). cc_ID d < next_calculation db" using assms(1) by (simp add: comm_inv_def calcs_ok_def)
  have no: "\<not> (live_calculation d \<and> same_event d c')" if "d \<in> set (calculations db)" for d
    using nc that assms(3) by (auto simp: calculation_clash_def c'(1) same_event_def live_calculation_def list_ex_iff live_for_def)
  have "calcs_ok (calculations db @ [c']) (next_calculation db + 1)"
    using assms(1,3-5) no lt unfolding comm_inv_def calcs_ok_def
    by (auto simp: c'(1) same_event_def) fastforce+
  moreover have "entry_sum (commission_entries db) (next_calculation db) = 0"
    using assms(1) lt by (intro entry_sum_new) (auto simp: comm_inv_def)
  moreover have "book (comm_ledger db) (org, ''COMMISSION'', next_calculation db, pu) = None" for org pu
    using assms(1) lt unfolding comm_inv_def booked_for_def by fastforce
  ultimately show ?thesis using assms(1,3) unfolding comm_inv_def by (auto simp: c' accrued_def entries_for_def booked_for_def)
qed

text \<open>One row changes its status and gets an entry, and the ledger changes at most its source.\<close>

lemma comm_inv_step:
  assumes inv: "comm_inv db" and c: "c \<in> set (calculations db)"
    and f: "c' = c\<lparr>cc_Status := s, cc_JournalTransactionID := j, cc_ReversedByID := rv\<rparr>" "s \<in> {''POSTED'', ''REVERSED''}"
      "s = ''POSTED'' \<longrightarrow> live_calculation c"
    and db': "db' = db\<lparr>comm_ledger := l, calculations := map (\<lambda>u. if cc_ID u = cc_ID c then c' else u) (calculations db),
      commission_entries := commission_entries db @ [e]\<rparr>"
    and e: "ce_CalculationID e = cc_ID c" "ce_OrganizationID e = cc_OrganizationID c" "ce_FranchiseID e = cc_FranchiseID c"
    and l: "ledger_struct l" "\<And>org i pu. (org, i, pu) \<noteq> (cc_OrganizationID c, cc_ID c, cc_CommissionType c) \<Longrightarrow>
      book l (org, ''COMMISSION'', i, pu) = book (comm_ledger db) (org, ''COMMISSION'', i, pu)"
    and acc: "accrued l (commission_entries db @ [e]) c'"
  shows "comm_inv db'"
proof -
  let ?u = "\<lambda>u. if cc_ID u = cc_ID c then c' else u"
  have ok: "calcs_ok (calculations db) (next_calculation db)" using inv by (simp add: comm_inv_def)
  have same: "same_event (?u a) (?u b) = same_event a b" if "a \<in> set (calculations db)" "b \<in> set (calculations db)" for a b
    using calc_same [OF ok that(1) c] calc_same [OF ok that(2) c] by (auto simp: f(1) same_event_def)
  have live: "live_calculation (?u a) \<Longrightarrow> live_calculation a" if "a \<in> set (calculations db)" for a
    using calc_same [OF ok that c] f by (auto simp: live_calculation_def split: if_splits)
  have ids: "map cc_ID (map ?u (calculations db)) = map cc_ID (calculations db)" by (auto simp: f(1))
  have fields: "cc_ID (?u a) = cc_ID a" "cc_AmountMinor (?u a) = cc_AmountMinor a" "cc_OrganizationID (?u a) = cc_OrganizationID a"
    "cc_FranchiseID (?u a) = cc_FranchiseID a" "cc_CommissionType (?u a) = cc_CommissionType a" if "a \<in> set (calculations db)" for a
    using calc_same [OF ok that c] by (auto simp: f(1))
  have "calcs_ok (map ?u (calculations db)) (next_calculation db)"
    unfolding calcs_ok_def ids
  proof (intro conjI ballI impI)
    show "distinct (map cc_ID (calculations db))" using ok by (simp add: calcs_ok_def)
    fix x assume "x \<in> set (map ?u (calculations db))"
    then obtain a where a: "a \<in> set (calculations db)" "x = ?u a" by auto
    then show "cc_ID x < next_calculation db" "in64 (cc_AmountMinor x)" "0 \<le> cc_AmountMinor x"
      using ok fields [OF a(1)] by (auto simp: calcs_ok_def)
    show "cc_Status x \<in> {''CALCULATED'', ''POSTED'', ''REVERSED''}"
      using a ok f by (auto simp: calcs_ok_def)
    fix y assume "y \<in> set (map ?u (calculations db))" "live_calculation x \<and> live_calculation y \<and> same_event x y"
    then obtain b where b: "b \<in> set (calculations db)" "y = ?u b" "live_calculation (?u a)" "live_calculation (?u b)" "same_event (?u a) (?u b)"
      using a by auto
    then have "a = b" using ok live a(1) same [OF a(1) b(1)] unfolding calcs_ok_def by blast
    then show "x = y" using a b by simp
  qed
  moreover have "\<forall>x\<in>set (map ?u (calculations db)). accrued l (commission_entries db @ [e]) x"
  proof
    fix x assume "x \<in> set (map ?u (calculations db))"
    then obtain a where a: "a \<in> set (calculations db)" "x = ?u a" by auto
    show "accrued l (commission_entries db @ [e]) x"
    proof (cases "cc_ID a = cc_ID c")
      case True
      then show ?thesis using a acc by simp
    next
      case False
      then show ?thesis using a inv l(2) e(1) by (auto simp: comm_inv_def accrued_def)
    qed
  qed
  moreover have "entries_for (commission_entries db @ [e]) (map ?u (calculations db))"
    unfolding entries_for_def
  proof
    fix x assume "x \<in> set (commission_entries db @ [e])"
    then obtain a where a: "a \<in> set (calculations db)" "cc_ID a = ce_CalculationID x" "cc_OrganizationID a = ce_OrganizationID x"
      "cc_FranchiseID a = ce_FranchiseID x"
      using inv e c unfolding comm_inv_def entries_for_def by (metis in_set_conv_decomp rotate1.simps(2) set_ConsD set_rotate1)
    have "?u a \<in> set (map ?u (calculations db))" using a(1) by (simp only: set_map) (rule imageI)
    then show "\<exists>y\<in>set (map ?u (calculations db)). cc_ID y = ce_CalculationID x \<and> cc_OrganizationID y = ce_OrganizationID x \<and> cc_FranchiseID y = ce_FranchiseID x"
      using fields [OF a(1)] a(2-4) by (metis (lifting))
  qed
  moreover have "booked_for l (map ?u (calculations db))"
    unfolding booked_for_def
  proof (intro allI impI)
    fix org i pu assume b: "book l (org, ''COMMISSION'', i, pu) \<noteq> None"
    have "booked_for (comm_ledger db) (calculations db)" using inv by (simp add: comm_inv_def)
    then obtain a where a: "a \<in> set (calculations db)" "cc_OrganizationID a = org \<and> cc_ID a = i \<and> cc_CommissionType a = pu"
      using b l(2) [of org i pu] c unfolding booked_for_def by (metis prod.inject)
    have "?u a \<in> set (map ?u (calculations db))" using a(1) by (simp only: set_map) (rule imageI)
    then show "\<exists>y\<in>set (map ?u (calculations db)). cc_OrganizationID y = org \<and> cc_ID y = i \<and> cc_CommissionType y = pu"
      using fields [OF a(1)] a(2) by (metis (lifting))
  qed
  ultimately show ?thesis using inv l(1) unfolding comm_inv_def by (simp add: db')
qed

subsection \<open>What the calls keep\<close>

lemma update_calculation_id:
  assumes "update_calculation guard f db = Some (c', db')" "calcs_ok (calculations db) n"
    and "c \<in> set (calculations db)" "\<And>u. guard u \<Longrightarrow> cc_ID u = cc_ID c"
  shows "guard c \<and> c' = f c \<and> db' = db\<lparr>calculations := map (\<lambda>u. if cc_ID u = cc_ID c then f c else u) (calculations db)\<rparr>"
proof -
  obtain d where d: "find guard (calculations db) = Some d" "c' = f d"
    "db' = db\<lparr>calculations := map (\<lambda>u. if guard u then f u else u) (calculations db)\<rparr>"
    using assms(1) by (auto simp: update_calculation_def split: option.splits)
  then have "d = c" using find_SomeD [OF d(1)] assms(4) calc_same [OF assms(2)] assms(3) by blast
  then have "guard c" using find_SomeD [OF d(1)] by simp
  have "(if guard u then f u else u) = (if cc_ID u = cc_ID c then f c else u)" if u: "u \<in> set (calculations db)" for u
  proof (cases "cc_ID u = cc_ID c")
    case True
    then have "u = c" by (rule calc_same [OF assms(2) u assms(3)])
    then show ?thesis using \<open>guard c\<close> by simp
  next
    case False
    then have "\<not> guard u" using assms(4) [of u] by blast
    then show ?thesis using False by simp
  qed
  then have "map (\<lambda>u. if guard u then f u else u) (calculations db) = map (\<lambda>u. if cc_ID u = cc_ID c then f c else u) (calculations db)" by (rule map_cong [OF refl])
  then show ?thesis using d(2,3) \<open>d = c\<close> \<open>guard c\<close> by simp
qed

lemma posting_copy_same: "commission_posting (posting_copy c) = commission_posting c"
    "commission_entry p (posting_copy c) = commission_entry p c" "cc_ID (posting_copy c) = cc_ID c" "cc_AmountMinor (posting_copy c) = cc_AmountMinor c"
    "cc_Status (posting_copy c) = cc_Status c" "cc_QualifiedAt (posting_copy c) = cc_QualifiedAt c" "cc_RuleCode (posting_copy c) = cc_RuleCode c"
    "cc_RuleVersionNo (posting_copy c) = cc_RuleVersionNo c"
  by (simp_all add: posting_copy_def commission_posting_def commission_entry_def fun_eq_iff)

lemma post_commission_copy:
  assumes "post_commission now p calc db = Inr (r, db')" "calc = c \<or> calc = posting_copy c"
  shows "\<exists>r'. post_commission now p c db = Inr (r', db') \<and> (cc_AmountMinor c \<noteq> 0 \<longrightarrow> r' = r)"
  using assms by (auto simp: post_commission_def posting_copy_same res_simps split: if_splits)

lemma post_commission_inv:
  assumes inv: "comm_inv db" and c: "c \<in> set (calculations db)" "cc_OrganizationID c = OrganizationID p"
    and post: "post_commission now p c db = Inr (r, db')"
  shows "comm_inv db' \<and> r \<in> set (calculations db') \<and> cc_ID r = cc_ID c \<and> cc_AmountMinor r = cc_AmountMinor c"
proof (cases "cc_AmountMinor c = 0")
  case True
  then show ?thesis using assms by (auto simp: post_commission_def res_simps)
next
  case False
  obtain rs l db1 where st: "cc_Status c = ''CALCULATED''" and l: "Post p now (commission_posting c) (comm_ledger db) = Inr (rs, l)"
    and m: "MarkCalculationPosted (OrganizationID p) (cc_ID c) (j_ID (rs_Transaction rs)) (db\<lparr>comm_ledger := l\<rparr>) = Some (r, db1)"
    and db': "db' = CreateCommissionEntry (commission_entry p c ''EARNED'' (cc_AmountMinor c) (cc_QualifiedAt c)
      (''Rule '' @ cc_RuleCode c @ '' v'' @ FormatInt (cc_RuleVersionNo c))) db1"
    using post False by (auto simp: post_commission_def res_simps)
  let ?j = "j_ID (rs_Transaction rs)"
  have struct: "ledger_struct (comm_ledger db)" "accrued (comm_ledger db) (commission_entries db) c" "calcs_ok (calculations db) (next_calculation db)"
    using inv c by (auto simp: comm_inv_def)
  have amt: "in64 (cc_AmountMinor c)" using struct(3) c by (auto simp: calcs_ok_def)
  have none: "book (comm_ledger db) (source_of c) = None" "entry_sum (commission_entries db) (cc_ID c) = 0"
    using struct(2) st by (auto simp: accrued_def)
  have book: "book l = (book (comm_ledger db))(source_of c \<mapsto> (?j, cc_AmountMinor c))"
    using jb.post_fresh [OF l struct(1), of "cc_ID c"] none c(2) amt by (simp add: commission_posting_def leg_def)
  have "r = c\<lparr>cc_Status := ''POSTED'', cc_JournalTransactionID := Some ?j\<rparr> \<and> db1 = db\<lparr>comm_ledger := l,
      calculations := map (\<lambda>u. if cc_ID u = cc_ID c then r else u) (calculations db)\<rparr>"
    using update_calculation_id [OF m [unfolded MarkCalculationPosted_def], of "next_calculation db" c] struct(3) c by simp
  then have r: "r = c\<lparr>cc_Status := ''POSTED'', cc_JournalTransactionID := Some ?j\<rparr>" and db1: "db1 = db\<lparr>comm_ledger := l,
      calculations := map (\<lambda>u. if cc_ID u = cc_ID c then r else u) (calculations db)\<rparr>" by blast+
  have "comm_inv db'"
  proof (rule comm_inv_step [OF inv c(1), where c' = r and s = "''POSTED''" and j = "Some ?j" and rv = "cc_ReversedByID c"])
    show "accrued l (commission_entries db @ [commission_entry p c ''EARNED'' (cc_AmountMinor c) (cc_QualifiedAt c)
        (''Rule '' @ cc_RuleCode c @ '' v'' @ FormatInt (cc_RuleVersionNo c))]) r"
      using none book by (simp add: accrued_def r commission_entry_def)
    show "ledger_struct l" by (rule jb.post_wf [OF l struct(1)])
    show "book l (org, ''COMMISSION'', i, pu) = book (comm_ledger db) (org, ''COMMISSION'', i, pu)"
      if "(org, i, pu) \<noteq> (cc_OrganizationID c, cc_ID c, cc_CommissionType c)" for org i pu using that c(2) by (auto simp: book)
  qed (use st c(2) in \<open>simp_all add: r db' db1 CreateCommissionEntry_def commission_entry_def live_calculation_def\<close>)
  moreover have "r \<in> set (calculations db')" using c(1) by (force simp: db' db1 CreateCommissionEntry_def)
  ultimately show ?thesis by (simp add: r)
qed

lemma reverse_commission_inv:
  assumes inv: "comm_inv db" and rev: "Reverse_commission now p publicID reason db = Inr (r, db')"
  shows "comm_inv db'"
proof -
  obtain c j rs l db1 where g: "GetCalculationByPublicID db (OrganizationID p) publicID = Some c"
    and st: "cc_Status c \<noteq> ''REVERSED''" "cc_Status c \<noteq> ''CALCULATED''" and j: "cc_JournalTransactionID c = Some j"
    and l: "Reverse p now j reason (Some now) (comm_ledger db) = Inr (rs, l)"
    and m: "MarkCalculationReversed (OrganizationID p) (cc_ID c) (db\<lparr>comm_ledger := l\<rparr>) = Some (r, db1)"
    and db': "db' = CreateCommissionEntry (commission_entry p c ''REVERSAL'' (neg64 (cc_AmountMinor c)) now (''Reversal: '' @ reason)) db1"
    using rev by (auto simp: Reverse_commission_def res_simps)
  have c: "c \<in> set (calculations db)" "cc_OrganizationID c = OrganizationID p"
    using g by (auto simp: GetCalculationByPublicID_def dest!: find_SomeD)
  have struct: "ledger_struct (comm_ledger db)" "accrued (comm_ledger db) (commission_entries db) c" "calcs_ok (calculations db) (next_calculation db)"
    using inv c by (auto simp: comm_inv_def)
  have posted: "cc_Status c = ''POSTED''" and amt: "in64 (cc_AmountMinor c)" "0 \<le> cc_AmountMinor c"
    using struct(3) c st by (auto simp: calcs_ok_def)
  have old: "book (comm_ledger db) (source_of c) = Some (j, cc_AmountMinor c)" "entry_sum (commission_entries db) (cc_ID c) = cc_AmountMinor c"
    using struct(2) posted j by (auto simp: accrued_def)
  have neg: "neg64 (cc_AmountMinor c) = - cc_AmountMinor c"
    using amt by (simp add: neg64_def width_defs)
  have "r = c\<lparr>cc_Status := ''REVERSED'', cc_ReversedByID := None\<rparr> \<and> db1 = db\<lparr>comm_ledger := l,
      calculations := map (\<lambda>u. if cc_ID u = cc_ID c then r else u) (calculations db)\<rparr>"
    using update_calculation_id [OF m [unfolded MarkCalculationReversed_def], of "next_calculation db" c] struct(3) c by simp
  then have r: "r = c\<lparr>cc_Status := ''REVERSED'', cc_JournalTransactionID := cc_JournalTransactionID c, cc_ReversedByID := None\<rparr>" and db1: "db1 = db\<lparr>comm_ledger := l,
      calculations := map (\<lambda>u. if cc_ID u = cc_ID c then r else u) (calculations db)\<rparr>" by simp_all
  show ?thesis
  proof (rule comm_inv_step [OF inv c(1), where c' = r and s = "''REVERSED''" and j = "cc_JournalTransactionID c" and rv = None])
    show "accrued l (commission_entries db @ [commission_entry p c ''REVERSAL'' (neg64 (cc_AmountMinor c)) now (''Reversal: '' @ reason)]) r"
      using old neg jb.rev_gone [OF l struct(1) old(1)] by (simp add: accrued_def r commission_entry_def)
    show "ledger_struct l" by (rule jb.rev_wf [OF l struct(1)])
    fix org i pu assume "(org, i, pu) \<noteq> (cc_OrganizationID c, cc_ID c, cc_CommissionType c)"
    then show "book l (org, ''COMMISSION'', i, pu) = book (comm_ledger db) (org, ''COMMISSION'', i, pu)"
      using jb.rev_other [OF l struct(1) old(1)] by simp
  qed (use c(2) in \<open>simp_all add: r db' db1 CreateCommissionEntry_def commission_entry_def\<close>)
qed

lemma calculate_new_inv:
  assumes inv: "comm_inv db" and calc: "calculate_new newID now d p inp db = Inr ((c, b), db')"
  shows "comm_inv db' \<and> c \<in> set (calculations db') \<and> \<not> b \<and> cc_ID c = next_calculation db
    \<and> (\<exists>res out. ResolveRule (OrganizationID p) (crq_Facts inp) d db = Inr res \<and> Calculate (ruleFromVersion (re_Version res)) (crq_Basis inp) = Inr out
        \<and> cc_AmountMinor c = out_AmountMinor out)"
proof -
  obtain res out n db1 where res: "ResolveRule (OrganizationID p) (crq_Facts inp) d db = Inr res"
    and out: "Calculate (ruleFromVersion (re_Version res)) (crq_Basis inp) = Inr out"
    and n: "CreateCommissionCalculation (new_calculation newID d p inp res out) db = Inr (n, db1)"
    and rest: "(if crq_PostImmediately inp then bindE (post_commission now p n db1) (\<lambda>(posted, db2). Inr ((posted, False), db2)) else Inr ((n, False), db1)) = Inr ((c, b), db')"
    using calc by (auto simp: calculate_new_def res_simps)
  have "typed_rule (ruleFromVersion (re_Version res))"
    using inv GetEffectiveRuleVersion_Some(1) [OF ResolveRule_winner(4) [OF res]] by (auto simp: comm_inv_def)
  then have amt: "in64 (out_AmountMinor out)" "0 \<le> out_AmountMinor out" using Calculate_in64 [OF out] by auto
  have 1: "comm_inv db1" "n \<in> set (calculations db1)"
    using comm_inv_new [OF inv n] amt by (auto simp: new_calculation_def)
  have 2: "cc_ID n = next_calculation db" "cc_AmountMinor n = out_AmountMinor out" "cc_OrganizationID n = OrganizationID p"
    using n by (auto simp: CreateCommissionCalculation_def res_simps Let_def new_calculation_def)
  have "comm_inv db' \<and> c \<in> set (calculations db') \<and> \<not> b \<and> cc_ID c = cc_ID n \<and> cc_AmountMinor c = cc_AmountMinor n"
    using rest 1 post_commission_inv [OF 1 2(3)] by (auto simp: res_simps split: if_splits)
  then show ?thesis using res out 2 by auto
qed

subsection \<open>Claims by settlements\<close>

text \<open>What a settlement does to the commission table: it sweeps, claims and releases rows.\<close>

definition SweepCommissionForSettlement :: "CommissionDB \<Rightarrow> int \<Rightarrow> int \<Rightarrow> int \<Rightarrow> int \<Rightarrow> int \<Rightarrow> CommissionCalculation list" where
  "SweepCommissionForSettlement db org franchise settlement periodStart periodEnd =
     sort_key cc_QualifiedAt (sort_key cc_ID (filter (\<lambda>c. cc_OrganizationID c = org \<and> cc_FranchiseID c = Some franchise \<and> cc_Status c = ''POSTED''
       \<and> (cc_SettlementID c = None \<or> cc_SettlementID c = Some settlement) \<and> periodStart \<le> cc_QualifiedAt c \<and> cc_QualifiedAt c < periodEnd) (calculations db)))"

definition AttachCalculationsToSettlement :: "int \<Rightarrow> int \<Rightarrow> int list \<Rightarrow> CommissionDB \<Rightarrow> CommissionDB" where
  "AttachCalculationsToSettlement org settlement ids db =
     db\<lparr>calculations := map (\<lambda>c. if cc_OrganizationID c = org \<and> cc_ID c \<in> set ids then c\<lparr>cc_SettlementID := Some settlement\<rparr> else c) (calculations db)\<rparr>"

definition DetachCalculationsFromSettlement :: "int \<Rightarrow> int \<Rightarrow> CommissionDB \<Rightarrow> CommissionDB" where
  "DetachCalculationsFromSettlement org settlement db =
     db\<lparr>calculations := map (\<lambda>c. if cc_OrganizationID c = org \<and> cc_SettlementID c = Some settlement then c\<lparr>cc_SettlementID := None\<rparr> else c) (calculations db)\<rparr>"

text \<open>A claim changes nothing that the accrual depends on.\<close>

definition unclaimed :: "CommissionCalculation \<Rightarrow> CommissionCalculation" where
  "unclaimed c = c\<lparr>cc_SettlementID := None\<rparr>"

definition same_but_claims :: "CommissionDB \<Rightarrow> CommissionDB \<Rightarrow> bool" where
  "same_but_claims db db' \<longleftrightarrow> map unclaimed (calculations db') = map unclaimed (calculations db) \<and> db' = db\<lparr>calculations := calculations db'\<rparr>"

lemma unclaimed_fields [simp]: "cc_ID (unclaimed c) = cc_ID c" "cc_OrganizationID (unclaimed c) = cc_OrganizationID c" "cc_Status (unclaimed c) = cc_Status c"
    "cc_AmountMinor (unclaimed c) = cc_AmountMinor c" "cc_CommissionType (unclaimed c) = cc_CommissionType c" "cc_FranchiseID (unclaimed c) = cc_FranchiseID c"
    "cc_JournalTransactionID (unclaimed c) = cc_JournalTransactionID c" "cc_ShipmentID (unclaimed c) = cc_ShipmentID c"
    "cc_RecipientType (unclaimed c) = cc_RecipientType c" "cc_RecipientID (unclaimed c) = cc_RecipientID c"
  by (simp_all add: unclaimed_def)

lemma claims_kept:
  "same_but_claims db (AttachCalculationsToSettlement org s ids db)" "same_but_claims db (DetachCalculationsFromSettlement org s db)"
  by (auto simp: same_but_claims_def AttachCalculationsToSettlement_def DetachCalculationsFromSettlement_def unclaimed_def)

lemma same_but_claims_mem:
  assumes "same_but_claims db db'" "c' \<in> set (calculations db')"
  obtains c where "c \<in> set (calculations db)" "unclaimed c = unclaimed c'"
proof -
  have "unclaimed c' \<in> set (map unclaimed (calculations db))"
    using assms unfolding same_but_claims_def by (metis image_eqI set_map)
  then show ?thesis using that by auto
qed

lemma calcs_ok_unclaimed:
  assumes "map unclaimed cs' = map unclaimed cs" "calcs_ok cs n"
  shows "calcs_ok cs' n"
proof -
  have len: "length cs' = length cs" using assms(1) by (metis length_map)
  have eq: "unclaimed (cs' ! i) = unclaimed (cs ! i)" if "i < length cs" for i
    using arg_cong [OF assms(1), of "\<lambda>xs. xs ! i"] that len by simp
  have f: "cc_ID (cs' ! i) = cc_ID (cs ! i)" "cc_OrganizationID (cs' ! i) = cc_OrganizationID (cs ! i)" "cc_Status (cs' ! i) = cc_Status (cs ! i)"
    "cc_AmountMinor (cs' ! i) = cc_AmountMinor (cs ! i)" "cc_CommissionType (cs' ! i) = cc_CommissionType (cs ! i)"
    "cc_ShipmentID (cs' ! i) = cc_ShipmentID (cs ! i)" "cc_RecipientType (cs' ! i) = cc_RecipientType (cs ! i)"
    "cc_RecipientID (cs' ! i) = cc_RecipientID (cs ! i)" if "i < length cs" for i
    using eq [OF that] by (metis unclaimed_fields)+
  have ids: "map cc_ID cs' = map cc_ID cs" using f(1) len by (intro nth_equalityI) auto
  have "cs' ! i = cs' ! j" if "i < length cs" "j < length cs" "live_calculation (cs' ! i)" "live_calculation (cs' ! j)" "same_event (cs' ! i) (cs' ! j)" for i j
  proof -
    have "cs ! i = cs ! j" using that f assms(2) unfolding calcs_ok_def live_calculation_def same_event_def by (metis nth_mem)
    then have "i = j" using that(1,2) assms(2) unfolding calcs_ok_def by (metis distinct_map nth_eq_iff_index_eq)
    then show ?thesis by simp
  qed
  then show ?thesis using assms(2) ids f len unfolding calcs_ok_def all_set_conv_all_nth by metis
qed

lemma comm_inv_claims:
  assumes "comm_inv db" "same_but_claims db db'"
  shows "comm_inv db'"
proof -
  have db': "db' = db\<lparr>calculations := calculations db'\<rparr>" and m: "map unclaimed (calculations db') = map unclaimed (calculations db)"
    using assms(2) by (auto simp: same_but_claims_def)
  have s: "comm_ledger db' = comm_ledger db" "commission_entries db' = commission_entries db" "versions db' = versions db" "next_calculation db' = next_calculation db"
    by (subst db', simp)+
  have "accrued l es c' = accrued l es c" if "unclaimed c = unclaimed c'" for l es c c'
    unfolding accrued_def using that by (metis unclaimed_fields)
  then have "\<forall>c\<in>set (calculations db'). accrued (comm_ledger db) (commission_entries db) c"
    using assms by (metis comm_inv_def same_but_claims_mem)
  moreover have "entries_for (commission_entries db) (calculations db')"
    unfolding entries_for_def
  proof
    fix e assume "e \<in> set (commission_entries db)"
    then obtain c where c: "c \<in> set (calculations db)" "cc_ID c = ce_CalculationID e" "cc_OrganizationID c = ce_OrganizationID e" "cc_FranchiseID c = ce_FranchiseID e"
      using assms(1) by (auto simp: comm_inv_def entries_for_def)
    then have "unclaimed c \<in> set (map unclaimed (calculations db'))" unfolding m by auto
    then obtain c' where "c' \<in> set (calculations db')" "unclaimed c = unclaimed c'" by auto
    then show "\<exists>c\<in>set (calculations db'). cc_ID c = ce_CalculationID e \<and> cc_OrganizationID c = ce_OrganizationID e \<and> cc_FranchiseID c = ce_FranchiseID e"
      using c by (metis unclaimed_fields)
  qed
  moreover have "booked_for (comm_ledger db) (calculations db')"
    unfolding booked_for_def
  proof (intro allI impI)
    fix org i pu assume "book (comm_ledger db) (org, ''COMMISSION'', i, pu) \<noteq> None"
    then obtain c where c: "c \<in> set (calculations db)" "cc_OrganizationID c = org \<and> cc_ID c = i \<and> cc_CommissionType c = pu"
      using assms(1) unfolding comm_inv_def booked_for_def by blast
    then have "unclaimed c \<in> set (map unclaimed (calculations db'))" unfolding m by auto
    then obtain c' where "c' \<in> set (calculations db')" "unclaimed c = unclaimed c'" by auto
    then show "\<exists>c\<in>set (calculations db'). cc_OrganizationID c = org \<and> cc_ID c = i \<and> cc_CommissionType c = pu"
      using c(2) by (metis unclaimed_fields)
  qed
  ultimately show ?thesis using assms(1) calcs_ok_unclaimed [OF m] unfolding comm_inv_def s by blast
qed

lemma comm_inv_other_post:
  assumes inv: "comm_inv db" and post: "Post p now inp (comm_ledger db) = Inr (r, l)" "SourceID inp = Some sid" "SourceType inp \<noteq> ''COMMISSION''"
  shows "comm_inv (db\<lparr>comm_ledger := l\<rparr>)"
proof -
  have struct: "ledger_struct (comm_ledger db)" using inv by (simp add: comm_inv_def)
  have "book l (org, ''COMMISSION'', i, pu) = book (comm_ledger db) (org, ''COMMISSION'', i, pu)" for org i pu
    using jb.post_other [OF post(1) struct post(2)] post(3) by simp
  then show ?thesis using inv jb.post_wf [OF post(1) struct] by (auto simp: comm_inv_def accrued_def booked_for_def)
qed

subsection \<open>Reachable states\<close>

text \<open>
  The calls of the service, the postings of the other services in the same ledger, and the claims of
  settlements. A version input is typed: its amounts are 64-bit integers.
\<close>

definition typed_input :: "VersionInput \<Rightarrow> bool" where
  "typed_input inp \<longleftrightarrow> (\<forall>a. vi_FixedAmountMinor inp = Some a \<longrightarrow> in64 a) \<and> (\<forall>a. vi_MinAmountMinor inp = Some a \<longrightarrow> in64 a)
     \<and> (\<forall>a. vi_MaxAmountMinor inp = Some a \<longrightarrow> in64 a) \<and> (\<forall>s\<in>set (vi_Slabs inp). in64 (sl_AmountMinor s))"

inductive commission_service_call :: "CommissionDB \<Rightarrow> CommissionDB \<Rightarrow> bool" where
  create_rule: "CreateRule fo so newID p inp db = Inr (r, db') \<Longrightarrow> commission_service_call db db'"
| create_version: "CreateVersion newID p rid vinp db = Inr (v, db') \<Longrightarrow> typed_input vinp \<Longrightarrow> commission_service_call db db'"
| calculate: "Calculate_commission newID now p cinp db = Inr (cb, db') \<Longrightarrow> commission_service_call db db'"
| post: "Post_commission now p cid db = Inr (c, db') \<Longrightarrow> commission_service_call db db'"
| reverse: "Reverse_commission now p cid reason db = Inr (c, db') \<Longrightarrow> commission_service_call db db'"

inductive commission_call :: "CommissionDB \<Rightarrow> CommissionDB \<Rightarrow> bool" where
  service: "commission_service_call db db' \<Longrightarrow> commission_call db db'"
| other_posting: "Post p now inp (comm_ledger db) = Inr (r, l) \<Longrightarrow> SourceID inp = Some sid \<Longrightarrow> SourceType inp \<noteq> ''COMMISSION'' \<Longrightarrow>
    commission_call db (db\<lparr>comm_ledger := l\<rparr>)"
| attach: "commission_call db (AttachCalculationsToSettlement org s ids db)"
| detach: "commission_call db (DetachCalculationsFromSettlement org s db)"

definition commission_start :: "CommissionDB \<Rightarrow> bool" where
  "commission_start db \<longleftrightarrow> calculations db = [] \<and> commission_entries db = [] \<and> ledger_struct (comm_ledger db)
     \<and> (\<forall>t\<in>set (journals (comm_ledger db)). j_SourceType t \<noteq> ''COMMISSION'') \<and> (\<forall>v\<in>set (versions db). typed_rule (ruleFromVersion v))"

lemma commission_start_inv:
  assumes "commission_start db"
  shows "comm_inv db"
proof -
  have "book (comm_ledger db) (org, ''COMMISSION'', i, pu) = None" for org i pu
    using assms unfolding commission_start_def book_def FindJournalBySource_def by (auto simp: find_None_iff live_source_def)
  then show ?thesis using assms by (auto simp: commission_start_def comm_inv_def calcs_ok_def entries_for_def booked_for_def)
qed

lemma CreateRule_inv: "CreateRule fo so newID p inp db = Inr (r, db') \<Longrightarrow> comm_inv db \<Longrightarrow> comm_inv db'"
  by (auto simp: CreateRule_def CreateCommissionRule_def res_simps Let_def comm_inv_def)

lemma CreateVersion_inv:
  assumes "CreateVersion newID p rid inp db = Inr (v, db')" "typed_input inp" "comm_inv db"
  shows "comm_inv db'"
proof -
  obtain rule e where g: "GetRuleByPublicID db (OrganizationID p) rid = Some rule" "vi_EffectiveFrom inp = Some e"
    using assms(1) by (auto simp: CreateVersion_def res_simps)
  note c = CreateVersion_Inr [OF assms(1) g]
  have t: "typed_rule (ruleFromVersion v)" using assms(2) c by (auto simp: typed_input_def typed_rule_def ruleFromVersion_def)
  have "typed_rule (ruleFromVersion w)" if "w \<in> set (versions db')" for w
  proof -
    let ?f = "\<lambda>u. if superseded (cu_ID rule) (next_version db) e u then u\<lparr>cv_EffectiveTo := Some (prev_day e), cv_Status := ''SUPERSEDED''\<rparr> else u"
    have "versions db' = map ?f (versions db @ [v])" using c by (simp add: SupersedePriorVersions_def)
    then have "w \<in> ?f ` set (versions db @ [v])" using that by (simp only: set_map)
    then obtain u where u: "u \<in> set (versions db @ [v])" "w = ?f u" by blast
    then have "ruleFromVersion w = ruleFromVersion u" by (simp add: ruleFromVersion_def)
    then show ?thesis using u(1) t assms(3) by (auto simp: comm_inv_def)
  qed
  moreover have "db' = db\<lparr>versions := versions db', next_version := next_version db'\<rparr>" using c by (simp add: SupersedePriorVersions_def)
  then have "calculations db' = calculations db" "comm_ledger db' = comm_ledger db" "commission_entries db' = commission_entries db"
    "next_calculation db' = next_calculation db" using c by (simp_all add: SupersedePriorVersions_def)
  ultimately show ?thesis using assms(3) by (simp add: comm_inv_def)
qed

lemma Calculate_commission_inv:
  assumes "Calculate_commission newID now p inp db = Inr ((c, b), db')" "comm_inv db"
  shows "comm_inv db' \<and> c \<in> set (calculations db')"
proof -
  have "(\<exists>sh. FindCalculationForShipment db (OrganizationID p) sh (fa_CommissionType (crq_Facts inp)) (crq_RecipientType inp) (crq_RecipientID inp) = Some c \<and> db' = db)
      \<or> (\<exists>d. calculate_new newID now d p inp db = Inr ((c, b), db'))"
    using assms(1) by (auto simp: Calculate_commission_def res_simps Let_def split: option.splits)
  then show ?thesis
    using assms(2) calculate_new_inv [OF assms(2)] by (auto simp: FindCalculationForShipment_def dest!: find_SomeD)
qed

lemma Post_commission_inv:
  assumes "Post_commission now p cid db = Inr (r, db')" "comm_inv db"
  shows "comm_inv db'"
proof -
  obtain c where g: "GetCalculationByPublicID db (OrganizationID p) cid = Some c" and post: "post_commission now p (posting_copy c) db = Inr (r, db')"
    using assms(1) by (auto simp: Post_commission_def res_simps)
  have c: "c \<in> set (calculations db)" "cc_OrganizationID c = OrganizationID p"
    using g by (auto simp: GetCalculationByPublicID_def dest!: find_SomeD)
  obtain r' where "post_commission now p c db = Inr (r', db')" using post_commission_copy [OF post, of c] by blast
  then show ?thesis using post_commission_inv [OF assms(2) c] by blast
qed

lemma commission_service_inv: "commission_service_call db db' \<Longrightarrow> comm_inv db \<Longrightarrow> comm_inv db'"
proof (induction rule: commission_service_call.induct)
  case (calculate newID now p cinp db cb db')
  then show ?case using Calculate_commission_inv [of newID now p cinp db "fst cb" "snd cb" db'] by simp
qed (auto intro: CreateRule_inv CreateVersion_inv Post_commission_inv reverse_commission_inv)

lemma commission_call_inv: "commission_call db db' \<Longrightarrow> comm_inv db \<Longrightarrow> comm_inv db'"
proof (induction rule: commission_call.induct)
  case (other_posting p now inp db r l sid)
  then show ?case by (rule comm_inv_other_post [rotated])
qed (auto intro: commission_service_inv comm_inv_claims claims_kept)

text \<open>What the service leaves alone: the claims of settlements, and the journals of everyone else.\<close>

definition claims_stay :: "CommissionDB \<Rightarrow> CommissionDB \<Rightarrow> bool" where
  "claims_stay db db' \<longleftrightarrow> (\<forall>c\<in>set (calculations db). \<exists>c'\<in>set (calculations db'). cc_ID c' = cc_ID c \<and> cc_OrganizationID c' = cc_OrganizationID c
     \<and> cc_SettlementID c' = cc_SettlementID c)"

definition others_stay :: "CommissionDB \<Rightarrow> CommissionDB \<Rightarrow> bool" where
  "others_stay db db' \<longleftrightarrow> (\<forall>org st i pu. st \<noteq> ''COMMISSION'' \<and> st \<noteq> ''REVERSAL'' \<longrightarrow>
     book (comm_ledger db') (org, st, i, pu) = book (comm_ledger db) (org, st, i, pu))"

lemma stays_refl: "claims_stay db db" "others_stay db db"
  by (auto simp: claims_stay_def others_stay_def)

lemma update_calculation_Some:
  "update_calculation g f db = Some (c, db') \<Longrightarrow> calculations db' = map (\<lambda>u. if g u then f u else u) (calculations db) \<and> comm_ledger db' = comm_ledger db"
  by (auto simp: update_calculation_def split: option.splits)

lemma claims_stay_update:
  assumes "update_calculation g f (db\<lparr>comm_ledger := l\<rparr>) = Some (r, db1)" "calculations db' = calculations db1"
    and "\<And>c. cc_ID (f c) = cc_ID c \<and> cc_OrganizationID (f c) = cc_OrganizationID c \<and> cc_SettlementID (f c) = cc_SettlementID c"
  shows "claims_stay db db'"
  unfolding claims_stay_def
proof
  fix c assume "c \<in> set (calculations db)"
  then have "(if g c then f c else c) \<in> set (calculations db')" using update_calculation_Some [OF assms(1)] assms(2) by simp
  then show "\<exists>c'\<in>set (calculations db'). cc_ID c' = cc_ID c \<and> cc_OrganizationID c' = cc_OrganizationID c \<and> cc_SettlementID c' = cc_SettlementID c"
    using assms(3) by (metis (full_types))
qed

lemma post_commission_stays:
  assumes "post_commission now p c db = Inr (r, db')" "ledger_struct (comm_ledger db)"
  shows "claims_stay db db' \<and> others_stay db db'"
proof (cases "db' = db")
  case True
  then show ?thesis by (simp add: stays_refl)
next
  case False
  then obtain rs l db1 e where l: "Post p now (commission_posting c) (comm_ledger db) = Inr (rs, l)"
    and m: "MarkCalculationPosted (OrganizationID p) (cc_ID c) (j_ID (rs_Transaction rs)) (db\<lparr>comm_ledger := l\<rparr>) = Some (r, db1)" and db': "db' = CreateCommissionEntry e db1"
    using assms(1) by (auto simp: post_commission_def res_simps split: if_splits)
  note u = update_calculation_Some [OF m [unfolded MarkCalculationPosted_def]]
  have "claims_stay db db'" by (rule claims_stay_update [OF m [unfolded MarkCalculationPosted_def]]) (simp_all add: db' CreateCommissionEntry_def)
  moreover have "comm_ledger db' = l" using u by (simp add: db' CreateCommissionEntry_def)
  then have "others_stay db db'"
    using jb.post_other [OF l assms(2), of "cc_ID c"] by (auto simp: others_stay_def commission_posting_def)
  ultimately show ?thesis ..
qed

lemma commission_service_stays:
  assumes "commission_service_call db db'" "comm_inv db"
  shows "claims_stay db db' \<and> others_stay db db'"
  using assms
proof (induction rule: commission_service_call.induct)
  case (create_rule fo so newID p inp db r db')
  then show ?case by (auto simp: CreateRule_def CreateCommissionRule_def res_simps Let_def claims_stay_def others_stay_def)
next
  case (create_version newID p rid vinp db v db')
  then show ?case by (auto simp: CreateVersion_def CreateRuleVersion_def SupersedePriorVersions_def res_simps Let_def claims_stay_def others_stay_def)
next
  case (calculate newID now p cinp db cb db')
  have new: "claims_stay db db' \<and> others_stay db db'" if cn: "calculate_new newID now d p cinp db = Inr (cb, db')" for d
  proof -
    obtain n res out db1 where n: "CreateCommissionCalculation (new_calculation newID d p cinp res out) db = Inr (n, db1)"
      and rest: "db' = db1 \<or> (\<exists>r. post_commission now p n db1 = Inr (r, db'))"
      using cn by (cases cb) (auto simp: calculate_new_def res_simps split: if_splits)
    have 1: "calculations db1 = calculations db @ [n]" "comm_ledger db1 = comm_ledger db"
      using n by (auto simp: CreateCommissionCalculation_def res_simps Let_def)
    then have "claims_stay db1 db' \<and> others_stay db1 db'"
      using rest post_commission_stays [of now p n db1 _ db'] calculate.prems by (auto simp: stays_refl comm_inv_def)
    then show ?thesis using 1 by (auto simp: claims_stay_def others_stay_def)
  qed
  then show ?case using calculate by (auto simp: Calculate_commission_def res_simps Let_def stays_refl split: option.splits)
next
  case (post now p cid db c db')
  then show ?case using post_commission_stays by (auto simp: Post_commission_def res_simps comm_inv_def)
next
  case (reverse now p cid reason db r db')
  then obtain c j rs l db1 e where g: "GetCalculationByPublicID db (OrganizationID p) cid = Some c" and st: "cc_Status c \<noteq> ''REVERSED''" "cc_Status c \<noteq> ''CALCULATED''"
    and j: "cc_JournalTransactionID c = Some j" and l: "Reverse p now j reason (Some now) (comm_ledger db) = Inr (rs, l)"
    and m: "MarkCalculationReversed (OrganizationID p) (cc_ID c) (db\<lparr>comm_ledger := l\<rparr>) = Some (r, db1)" and db': "db' = CreateCommissionEntry e db1"
    by (auto simp: Reverse_commission_def res_simps)
  note u = update_calculation_Some [OF m [unfolded MarkCalculationReversed_def]]
  have "c \<in> set (calculations db)" using g by (auto simp: GetCalculationByPublicID_def dest!: find_SomeD)
  then have "cc_Status c \<in> {''CALCULATED'', ''POSTED'', ''REVERSED''}" "accrued (comm_ledger db) (commission_entries db) c" "ledger_struct (comm_ledger db)"
    using reverse.prems unfolding comm_inv_def calcs_ok_def by blast+
  then have "book (comm_ledger db) (source_of c) = Some (j, cc_AmountMinor c)" "ledger_struct (comm_ledger db)"
    using st j by (auto simp: accrued_def)
  then have "book l (org, s, i, pu) = book (comm_ledger db) (org, s, i, pu)" if "s \<noteq> ''COMMISSION''" "s \<noteq> ''REVERSAL''" for org s i pu
    using jb.rev_other [OF l] that by simp
  then have "others_stay db db'" using u by (simp add: others_stay_def db' CreateCommissionEntry_def)
  moreover have "claims_stay db db'" by (rule claims_stay_update [OF m [unfolded MarkCalculationReversed_def]]) (simp_all add: db' CreateCommissionEntry_def)
  ultimately show ?case by simp
qed

lemma commission_reach_inv: "commission_call\<^sup>*\<^sup>* db0 db \<Longrightarrow> commission_start db0 \<Longrightarrow> comm_inv db"
  by (erule rtranclp_induct) (auto intro: commission_start_inv commission_call_inv)

subsection \<open>The guarantees\<close>






text \<open>
  C18: \<^bold>\<open>A commission is earned once.\<close> In every reachable state at most one live calculation exists for a shipment, commission type and
  recipient, and asking for it again returns that row, says so, and changes nothing, whatever rules, rates and dates say by then.
\<close>

theorem commission_once:
  assumes "commission_start db0" "commission_call\<^sup>*\<^sup>* db0 db" and c: "c \<in> set (calculations db)" "live_calculation c" "cc_ShipmentID c = Some sh"
  shows "(\<forall>d\<in>set (calculations db). live_calculation d \<and> same_event c d \<longrightarrow> d = c)
    \<and> (\<forall>newID now p inp. OrganizationID p = cc_OrganizationID c \<and> crq_ShipmentID inp = Some sh \<and> fa_CommissionType (crq_Facts inp) = cc_CommissionType c
        \<and> crq_RecipientType inp = cc_RecipientType c \<and> crq_RecipientID inp = cc_RecipientID c \<and> cc_RecipientType c \<noteq> '''' \<and> cc_RecipientID c \<noteq> 0
        \<longrightarrow> Calculate_commission newID now p inp db = Inr ((c, True), db))"
proof -
  have ok: "calcs_ok (calculations db) (next_calculation db)" using commission_reach_inv [OF assms(2,1)] by (simp add: comm_inv_def)
  then have one: "\<forall>d\<in>set (calculations db). live_calculation d \<and> same_event c d \<longrightarrow> d = c"
    using c unfolding calcs_ok_def by metis
  have "FindCalculationForShipment db (cc_OrganizationID c) sh (cc_CommissionType c) (cc_RecipientType c) (cc_RecipientID c) = Some c"
  proof -
    let ?P = "live_for (cc_OrganizationID c) sh (cc_CommissionType c) (cc_RecipientType c) (cc_RecipientID c)"
    have "?P c" using c by (auto simp: live_for_def live_calculation_def)
    then obtain d where d: "find ?P (calculations db) = Some d" using c(1) by (cases "find ?P (calculations db)") (auto simp: find_None_iff)
    then have "d = c" using one c(3) find_SomeD [OF d] by (auto simp: live_for_def live_calculation_def same_event_def)
    then show ?thesis using d by (simp add: FindCalculationForShipment_def)
  qed
  then show ?thesis using one by (auto simp: Calculate_commission_def)
qed

lemma post_commission_row:
  "post_commission now p c db = Inr (r, db') \<Longrightarrow>
     r = c \<or> (\<exists>j l db1. MarkCalculationPosted (OrganizationID p) (cc_ID c) j (db\<lparr>comm_ledger := l\<rparr>) = Some (r, db1))"
  by (auto simp: post_commission_def res_simps split: if_splits)

text \<open>
  \<^bold>\<open>The simulator foretells the calculation.\<close> Whenever a new commission is calculated, simulating the same facts, base amounts and date
  beforehand reports a match with the same rule, version, amount, currency and trace of steps.
\<close>

theorem simulation_faithful:
  assumes "Calculate_commission newID now p inp db = Inr ((c, False), db')" "comm_inv db"
  shows "\<exists>r out. Simulate now p (crq_Facts inp) (crq_Basis inp) (crq_QualifiedAt inp) db = Inr r \<and> sm_Matched r \<and> sm_Outcome r = Some out
    \<and> sm_RuleCode r = cc_RuleCode c \<and> sm_VersionNo r = cc_RuleVersionNo c \<and> out_AmountMinor out = cc_AmountMinor c
    \<and> out_Currency out = cc_Currency c \<and> out_Steps out = cc_CalculationTrace c"
proof -
  let ?d = "case crq_QualifiedAt inp of None \<Rightarrow> now | Some d \<Rightarrow> d"
  have "calculate_new newID now ?d p inp db = Inr ((c, False), db')"
    using assms(1) by (auto simp: Calculate_commission_def res_simps Let_def split: option.splits)
  then obtain res out n db1 where res: "ResolveRule (OrganizationID p) (crq_Facts inp) ?d db = Inr res"
    and out: "Calculate (ruleFromVersion (re_Version res)) (crq_Basis inp) = Inr out"
    and n: "CreateCommissionCalculation (new_calculation newID ?d p inp res out) db = Inr (n, db1)"
    and rest: "c = n \<or> post_commission now p n db1 = Inr (c, db')"
    by (auto simp: calculate_new_def res_simps split: if_splits)
  have n': "n = (new_calculation newID ?d p inp res out)\<lparr>cc_ID := next_calculation db\<rparr>" "db1 = db\<lparr>calculations := calculations db @ [n], next_calculation := next_calculation db + 1\<rparr>"
    using n by (auto simp: CreateCommissionCalculation_def res_simps Let_def)
  have "calcs_ok (calculations db1) (next_calculation db1)"
  proof -
    have "typed_rule (ruleFromVersion (re_Version res))"
      using assms(2) GetEffectiveRuleVersion_Some(1) [OF ResolveRule_winner(4) [OF res]] by (auto simp: comm_inv_def)
    then show ?thesis using comm_inv_new [OF assms(2) n] Calculate_in64 [OF out] by (auto simp: new_calculation_def comm_inv_def)
  qed
  then have "c = n \<or> (\<exists>j. c = n\<lparr>cc_Status := ''POSTED'', cc_JournalTransactionID := Some j\<rparr>)"
  proof (cases "c = n")
    case False
    then obtain j l db2 where m: "MarkCalculationPosted (OrganizationID p) (cc_ID n) j (db1\<lparr>comm_ledger := l\<rparr>) = Some (c, db2)"
      using rest post_commission_row by blast
    have "n \<in> set (calculations db1)" by (simp add: n'(2))
    then have "c = n\<lparr>cc_Status := ''POSTED'', cc_JournalTransactionID := Some j\<rparr>"
      using update_calculation_id [OF m [unfolded MarkCalculationPosted_def], of "next_calculation db1" n]
        \<open>calcs_ok (calculations db1) (next_calculation db1)\<close> by simp
    then show ?thesis by blast
  qed simp
  then have f: "cc_RuleCode c = cu_Code (re_Rule res)" "cc_RuleVersionNo c = cv_VersionNo (re_Version res)" "cc_AmountMinor c = out_AmountMinor out"
    "cc_Currency c = out_Currency out" "cc_CalculationTrace c = out_Steps out"
    unfolding n'(1) by (auto simp: new_calculation_def)
  show ?thesis using res out f by (simp add: Simulate_def Let_def)
qed


subsection \<open>A delivery earns its commission\<close>

definition com_rule :: "int \<Rightarrow> string \<Rightarrow> int option \<Rightarrow> CommissionRule" where
  "com_rule i code f = \<lparr>cu_ID = i, cu_PublicID = code, cu_OrganizationID = 7, cu_SchemeID = 1, cu_Code = code, cu_Name = code, cu_CommissionType = ''DELIVERY'',
     cu_RecipientRole = ''DESTINATION_FRANCHISE'', cu_FranchiseID = f, cu_FranchiseCategory = None, cu_OperatingUnitID = None, cu_ServiceID = None, cu_OriginZoneID = None,
     cu_DestinationZoneID = None, cu_CustomerCategory = None, cu_PaymentMode = None, cu_Specificity = (if f = None then 0 else 32), cu_Priority = 100,
     cu_Status = ''ACTIVE'', cu_Description = None\<rparr>"

definition com_version :: CommissionRuleVersion where
  "com_version = \<lparr>cv_ID = 1, cv_PublicID = ''crv_1'', cv_OrganizationID = 7, cv_RuleID = 2, cv_VersionNo = 1, cv_CalculationMethod = ''FIXED'', cv_Currency = ''INR'',
     cv_FixedAmountMinor = Some 5500, cv_RateBp = None, cv_Basis = None, cv_Slabs = [], cv_MinAmountMinor = None, cv_MaxAmountMinor = None,
     cv_EffectiveFrom = 20260101, cv_EffectiveTo = None, cv_Status = ''ACTIVE'', cv_Notes = None\<rparr>"

definition com_chart :: LedgerDB where
  "com_chart = demo_ledger\<lparr>accounts := [demo_account 1 ''5000'' ''EXPENSE'' ''DEBIT'', demo_account 2 ''2100'' ''LIABILITY'' ''CREDIT'',
     demo_account 3 ''2200'' ''LIABILITY'' ''CREDIT'', demo_account 4 ''1000'' ''ASSET'' ''DEBIT''], next_account := 5\<rparr>"

definition com_0 :: CommissionDB where
  "com_0 = \<lparr>schemes = [\<lparr>sc_ID = 1, sc_OrganizationID = 7, sc_Code = ''STANDARD'', sc_Status = ''ACTIVE''\<rparr>], rules = [com_rule 1 ''BASE'' None, com_rule 2 ''KOL'' (Some 4)],
     versions = [com_version], calculations = [], commission_entries = [], next_rule = 3, next_version = 2, next_calculation = 1, comm_ledger = com_chart\<rparr>"

definition com_facts :: Facts where
  "com_facts = \<lparr>fa_CommissionType = ''DELIVERY'', fa_FranchiseID = Some 4, fa_FranchiseCategory = [], fa_OperatingUnitID = None, fa_ServiceID = None,
     fa_OriginZoneID = None, fa_DestinationZoneID = None, fa_CustomerCategory = [], fa_PaymentMode = [], fa_SchemeID = None\<rparr>"

definition com_request :: CalculateRequest where
  "com_request = \<lparr>crq_Facts = com_facts, crq_Basis = demo_basis 200000, crq_ShipmentID = Some 40, crq_QualifyingEvent = ''DELIVERED'', crq_QualifyingEventID = None,
     crq_QualifiedAt = None, crq_RecipientType = ''FRANCHISE'', crq_RecipientID = 4, crq_FranchiseID = Some 4, crq_UnitID = None, crq_PostImmediately = True\<rparr>"

definition com_change :: VersionInput where
  "com_change = \<lparr>vi_Method = ''FIXED'', vi_FixedAmountMinor = Some 6000, vi_RateBp = None, vi_Basis = [], vi_Slabs = [], vi_MinAmountMinor = None,
     vi_MaxAmountMinor = None, vi_EffectiveFrom = Some 20260901, vi_Notes = []\<rparr>"

lemma com_resolve: "ResolveRule 7 com_facts 20260808 com_0 =
    Inr \<lparr>re_Rule = com_rule 2 ''KOL'' (Some 4), re_Version = com_version, re_Candidates = [com_rule 2 ''KOL'' (Some 4), com_rule 1 ''BASE'' None]\<rparr>"
  by (simp add: ResolveRule_def ResolveCommissionRule_def rule_matches_def scope_fits_def GetEffectiveRuleVersion_def in_force_def com_0_def com_rule_def com_version_def com_facts_def)

theorem governing_rule_witness:
  "rule_before (com_rule 2 ''KOL'' (Some 4)) (com_rule 1 ''BASE'' None)
   \<and> (\<exists>res'. ResolveRule 7 com_facts 20260808 (com_0\<lparr>rules := rev (rules com_0)\<rparr>) = Inr res' \<and> re_Rule res' = com_rule 2 ''KOL'' (Some 4))"
proof -
  have "distinct (map cu_ID (rules com_0))" by (simp add: com_0_def com_rule_def)
  note g = governing_rule [OF com_resolve this]
  have "com_rule 1 ''BASE'' None \<in> set (rules com_0)" "rule_matches com_0 7 com_facts (com_rule 1 ''BASE'' None)" "com_rule 1 ''BASE'' None \<noteq> com_rule 2 ''KOL'' (Some 4)"
    by (simp_all add: com_0_def rule_matches_def scope_fits_def com_rule_def com_facts_def)
  then have "rule_before (com_rule 2 ''KOL'' (Some 4)) (com_rule 1 ''BASE'' None)" using g by simp
  moreover have "\<exists>res'. ResolveRule 7 com_facts 20260808 (com_0\<lparr>rules := rev (rules com_0)\<rparr>) = Inr res' \<and> re_Rule res' = com_rule 2 ''KOL'' (Some 4)"
    using g [THEN conjunct2, THEN conjunct2, THEN conjunct2, THEN conjunct2, THEN conjunct2, THEN spec, of "rev (rules com_0)"] by auto
  ultimately show ?thesis ..
qed

lemma com_create_version: "\<exists>v db'. CreateVersion ''crv_2'' demo_principal ''KOL'' com_change com_0 = Inr (v, db')"
  by (simp add: CreateVersion_def com_change_def com_0_def demo_principal_def GetRuleByPublicID_def com_rule_def CreateRuleVersion_def version_checks_def
      NextRuleVersionNumber_def com_version_def Optional_def nonneg_opt_def method_defs wrap32_def Let_def)

theorem superseded_rate_lost_witness:
  "\<exists>v db'. CreateVersion ''crv_2'' demo_principal ''KOL'' com_change com_0 = Inr (v, db') \<and> ResolveRule 7 com_facts 20260808 db' = Inl (Conflict ''COMMISSION_NO_VERSION'')"
proof -
  obtain v db' where v: "CreateVersion ''crv_2'' demo_principal ''KOL'' com_change com_0 = Inr (v, db')" using com_create_version by blast
  have "GetRuleByPublicID com_0 (OrganizationID demo_principal) ''KOL'' = Some (com_rule 2 ''KOL'' (Some 4))"
    by (simp add: GetRuleByPublicID_def com_0_def com_rule_def demo_principal_def)
  from superseded_rate_lost [OF v this _ _ _ _ com_resolve, of 20260901] show ?thesis
    using v by (auto simp: com_change_def com_0_def com_version_def)
qed

definition com_outcome :: Outcome where
  "com_outcome = \<lparr>out_Method = ''FIXED'', out_BasisName = [], out_BasisValue = 0, out_RateBp = None, out_GrossMinor = 5500, out_AmountMinor = 5500, out_Currency = ''INR'',
     out_Clamped = False, out_Steps = [mkStep ''Fixed amount per qualifying event'' 5500 []]\<rparr>"

lemma com_calculated: "Calculate (ruleFromVersion com_version) (demo_basis 200000) = Inr com_outcome"
  by (simp add: Calculate_def calculate_gross_def ruleFromVersion_def com_version_def com_outcome_def method_defs clamp_outcome_def Clamp_def Let_def)

lemma com_numbers: "FormatInt 1 = ''1''" "format_200601 20260808 = ''202608''" "format_0d 6 1 = ''000001''"
  by (simp_all add: FormatInt_def format_200601_def format_0d_def pad_dec_def dec.simps replicate_num)

lemma com_calculate:
  "\<exists>c db'. Calculate_commission ''ccl_1'' 20260808 demo_principal com_request com_0 = Inr ((c, False), db') \<and> calculations db' = [c] \<and> cc_OrganizationID c = 7
     \<and> cc_ID c = 1 \<and> cc_CommissionType c = ''DELIVERY'' \<and> cc_Status c = ''POSTED'' \<and> cc_JournalTransactionID c = Some 1 \<and> cc_AmountMinor c = 5500
     \<and> cc_ShipmentID c = Some 40 \<and> cc_RecipientType c = ''FRANCHISE'' \<and> cc_RecipientID c = 4 \<and> cc_FranchiseID c = Some 4 \<and> cc_RuleCode c = ''KOL''"
proof -
  have r: "ResolveRule (OrganizationID demo_principal) (crq_Facts com_request) 20260808 com_0 =
      Inr \<lparr>re_Rule = com_rule 2 ''KOL'' (Some 4), re_Version = com_version, re_Candidates = [com_rule 2 ''KOL'' (Some 4), com_rule 1 ''BASE'' None]\<rparr>"
    using com_resolve by (simp add: demo_principal_def com_request_def)
  have c: "Calculate (ruleFromVersion com_version) (crq_Basis com_request) = Inr com_outcome" using com_calculated by (simp add: com_request_def)
  have s: "calculations com_0 = []" "next_calculation com_0 = 1" "comm_ledger com_0 = com_chart" "commission_entries com_0 = []" by (simp_all add: com_0_def)
  have q: "crq_ShipmentID com_request = Some 40" "crq_RecipientType com_request = ''FRANCHISE''" "crq_RecipientID com_request = 4" "crq_QualifiedAt com_request = None"
    "crq_PostImmediately com_request = True" by (simp_all add: com_request_def)
  show ?thesis
    by (simp add: Calculate_commission_def calculate_new_def r c q Let_def FindCalculationForShipment_def s CreateCommissionCalculation_def calculation_clash_def)
      (simp add: post_eval com_numbers post_commission_def commission_posting_def new_calculation_def com_outcome_def com_request_def com_facts_def com_rule_def com_version_def
        commission_types_def method_defs MarkCalculationPosted_def update_calculation_def CreateCommissionEntry_def com_chart_def demo_defs s)
qed

lemma com_start: "commission_start com_0"
  by (simp add: commission_start_def com_0_def com_chart_def demo_ledger_def demo_account_def ledger_struct_def accounts_ok_def journals_ok_def entries_ok_def
      typed_rule_def ruleFromVersion_def com_version_def width_defs)


theorem commission_once_witness:
  "\<exists>c db. commission_call\<^sup>*\<^sup>* com_0 db \<and> Calculate_commission ''ccl_2'' 20261231 demo_principal com_request db = Inr ((c, True), db)"
proof -
  obtain c db where c: "Calculate_commission ''ccl_1'' 20260808 demo_principal com_request com_0 = Inr ((c, False), db)" "calculations db = [c]"
    "cc_OrganizationID c = 7" "cc_CommissionType c = ''DELIVERY''" "cc_Status c = ''POSTED''" "cc_ShipmentID c = Some 40" "cc_RecipientType c = ''FRANCHISE''" "cc_RecipientID c = 4"
    using com_calculate by blast
  have r: "commission_call\<^sup>*\<^sup>* com_0 db" using c(1) by (blast intro: commission_call.service commission_service_call.calculate)
  from commission_once [OF com_start r, of c 40] show ?thesis
    using r c by (intro exI [of _ c] exI [of _ db]) (simp add: live_calculation_def demo_principal_def com_request_def com_facts_def)
qed

theorem simulation_faithful_witness:
  "\<exists>r out. Simulate 20260808 demo_principal com_facts (demo_basis 200000) None com_0 = Inr r \<and> sm_RuleCode r = ''KOL'' \<and> sm_Outcome r = Some out \<and> out_AmountMinor out = 5500"
proof -
  obtain c db where c: "Calculate_commission ''ccl_1'' 20260808 demo_principal com_request com_0 = Inr ((c, False), db)" "cc_RuleCode c = ''KOL''" "cc_AmountMinor c = 5500"
    using com_calculate by blast
  from simulation_faithful [OF c(1) commission_start_inv [OF com_start]] show ?thesis
    using c(2,3) by (auto simp: com_request_def)
qed

end
