(* ===== verification/Settlement.thy ===== *)
theory Settlement
  imports Commission COD
begin

text \<open>
  \<^verbatim>\<open>internal/settlement/settlement.go\<close> and \<^verbatim>\<open>adjustment.go\<close>: the period statement between head office and one
  franchise, from its calculation out of commissions, COD and counter collections to approval, payment and
  correction, over the tables of \<^verbatim>\<open>db/migrations/0023_settlement.up.sql\<close> and \<^verbatim>\<open>0035\<close> with their triggers; and
  \<^verbatim>\<open>internal/collection/collection.go\<close>, the money a franchise counter takes for prepaid shipments. Times are
  dates. The commission tables and the ledger are those of the commission service, the COD obligations the rows
  of the custody service. Franchises, shipments and SHA-256 are parameters; audit rows, metrics, request ids and
  the public ids of lines, approvals and payments are left out.
\<close>

subsection \<open>Tables\<close>

record Settlement =
  st_ID :: int
  st_PublicID :: string
  st_OrganizationID :: int
  st_SettlementNumber :: string
  st_FranchiseID :: int
  st_PeriodType :: string
  st_PeriodStart :: int
  st_PeriodEnd :: int
  st_Status :: string
  st_Currency :: string
  st_CommissionMinor :: int
  st_IncentiveMinor :: int
  st_CodLiabilityMinor :: int
  st_ChargesMinor :: int
  st_PenaltiesMinor :: int
  st_AdjustmentsMinor :: int
  st_TaxMinor :: int
  st_WithholdingMinor :: int
  st_CollectionsMinor :: int
  st_OpeningBalanceMinor :: int
  st_NetAmountMinor :: int
  st_PaidMinor :: int
  st_CalculationHash :: "string option"
  st_CalculatedBy :: "int option"
  st_SubmittedBy :: "int option"
  st_ApprovedBy :: "int option"
  st_CancelReason :: "string option"
  st_JournalTransactionID :: "int option"
  st_Notes :: "string option"
  st_CreatedBy :: "int option"

record SettlementLine =
  ln_OrganizationID :: int
  ln_SettlementID :: int
  ln_LineNo :: int
  ln_Category :: string
  ln_Description :: string
  ln_AmountMinor :: int
  ln_Currency :: string
  ln_Quantity :: int
  ln_SourceType :: string
  ln_SourceID :: "int option"
  ln_SourcePublicID :: "string option"
  ln_ShipmentID :: "int option"

record SettlementAdjustment =
  sa_ID :: int
  sa_PublicID :: string
  sa_OrganizationID :: int
  sa_SettlementID :: int
  sa_AdjustmentType :: string
  sa_AmountMinor :: int
  sa_Currency :: string
  sa_Reason :: string
  sa_Status :: string
  sa_RequestedBy :: int
  sa_ApprovedBy :: "int option"
  sa_RejectionReason :: "string option"
  sa_JournalTransactionID :: "int option"

record SettlementApproval =
  sv_OrganizationID :: int
  sv_SettlementID :: int
  sv_Action :: string
  sv_NetAmountMinor :: int
  sv_Currency :: string
  sv_Comment :: "string option"
  sv_ActorID :: int

record SettlementPayment =
  sy_OrganizationID :: int
  sy_SettlementID :: int
  sy_PaymentNumber :: string
  sy_Direction :: string
  sy_AmountMinor :: int
  sy_Currency :: string
  sy_PaymentMode :: string
  sy_Reference :: "string option"
  sy_PaidOn :: int
  sy_Status :: string
  sy_JournalTransactionID :: "int option"
  sy_RecordedBy :: int

record FranchiseCollection =
  fc_ID :: int
  fc_PublicID :: string
  fc_OrganizationID :: int
  fc_ShipmentID :: int
  fc_FranchiseID :: int
  fc_OperatingUnitID :: int
  fc_CustomerID :: int
  fc_AmountMinor :: int
  fc_Currency :: string
  fc_PaymentMode :: string
  fc_Reference :: "string option"
  fc_Status :: string
  fc_CollectedAt :: int
  fc_CollectedBy :: int
  fc_SettlementID :: "int option"
  fc_Notes :: "string option"

record SettlementDB =
  settlements :: "Settlement list"
  settlement_lines :: "SettlementLine list"
  settlement_adjustments :: "SettlementAdjustment list"
  settlement_approvals :: "SettlementApproval list"
  settlement_payments :: "SettlementPayment list"
  franchise_collections :: "FranchiseCollection list"
  cod_obligations :: "CodObligation list"
  next_settlement :: int
  next_settlement_adjustment :: int
  next_franchise_collection :: int
  commission :: CommissionDB

subsection \<open>Queries on settlements\<close>

definition working_states :: "string list" where
  "working_states = [''DRAFT'', ''CALCULATED'', ''UNDER_REVIEW'']"

definition GetSettlementByPublicID :: "SettlementDB \<Rightarrow> int \<Rightarrow> string \<Rightarrow> Settlement option" where
  "GetSettlementByPublicID db org publicID = find (\<lambda>s. st_OrganizationID s = org \<and> st_PublicID s = publicID) (settlements db)"

definition LockSettlement :: "SettlementDB \<Rightarrow> int \<Rightarrow> int \<Rightarrow> Settlement option" where
  "LockSettlement db org sid = find (\<lambda>s. st_OrganizationID s = org \<and> st_ID s = sid) (settlements db)"

definition FindSettlementForPeriod :: "SettlementDB \<Rightarrow> int \<Rightarrow> int \<Rightarrow> int \<Rightarrow> int \<Rightarrow> Settlement option" where
  "FindSettlementForPeriod db org franchise periodStart periodEnd =
     find (\<lambda>s. st_OrganizationID s = org \<and> st_FranchiseID s = franchise \<and> st_PeriodStart s = periodStart \<and> st_PeriodEnd s = periodEnd
       \<and> st_Status s \<noteq> ''CANCELLED'') (settlements db)"

text \<open>The carry forward is a difference of 64-bit columns: out of range, the query fails.\<close>

definition GetPreviousSettlementBalance :: "SettlementDB \<Rightarrow> int \<Rightarrow> int \<Rightarrow> int \<Rightarrow> (int \<times> string) option result" where
  "GetPreviousSettlementBalance db org franchise before =
     (case sort_key (\<lambda>s. - st_PeriodEnd s) (sort_key (\<lambda>s. - st_ID s) (filter (\<lambda>s. st_OrganizationID s = org \<and> st_FranchiseID s = franchise \<and> st_PeriodEnd s < before
         \<and> st_Status s \<in> set [''APPROVED'', ''PARTIALLY_PAID'', ''PAID'', ''CLOSED'']) (settlements db))) of
        [] \<Rightarrow> Inr None
      | s # _ \<Rightarrow> ensure (in64 (st_NetAmountMinor s - st_PaidMinor s)) Internal (Inr (Some (st_NetAmountMinor s - st_PaidMinor s, st_SettlementNumber s))))"

definition CreateSettlement :: "Settlement \<Rightarrow> SettlementDB \<Rightarrow> (Settlement \<times> SettlementDB) result" where
  "CreateSettlement s db =
     (let s' = s\<lparr>st_ID := next_settlement db\<rparr>
      in ensure (st_PeriodType s \<in> set [''WEEKLY'', ''FORTNIGHTLY'', ''MONTHLY'', ''CUSTOM''] \<and> st_PeriodStart s \<le> st_PeriodEnd s
           \<and> \<not> list_ex (\<lambda>u. st_OrganizationID u = st_OrganizationID s \<and> st_SettlementNumber u = st_SettlementNumber s) (settlements db)
           \<and> FindSettlementForPeriod db (st_OrganizationID s) (st_FranchiseID s) (st_PeriodStart s) (st_PeriodEnd s) = None) Internal
         (Inr (s', db\<lparr>settlements := settlements db @ [s'], next_settlement := next_settlement db + 1\<rparr>)))"

definition update_settlement :: "(Settlement \<Rightarrow> bool) \<Rightarrow> (Settlement \<Rightarrow> Settlement) \<Rightarrow> SettlementDB \<Rightarrow> (Settlement \<times> SettlementDB) option" where
  "update_settlement guard f db =
     (case find guard (settlements db) of None \<Rightarrow> None
      | Some s \<Rightarrow> Some (f s, db\<lparr>settlements := map (\<lambda>u. if guard u then f u else u) (settlements db)\<rparr>))"

definition SubmitSettlement :: "int \<Rightarrow> int \<Rightarrow> int \<Rightarrow> SettlementDB \<Rightarrow> (Settlement \<times> SettlementDB) option" where
  "SubmitSettlement org sid user =
     update_settlement (\<lambda>s. st_OrganizationID s = org \<and> st_ID s = sid \<and> st_Status s = ''CALCULATED'')
       (\<lambda>s. s\<lparr>st_Status := ''UNDER_REVIEW'', st_SubmittedBy := Some user\<rparr>)"

definition ApproveSettlement :: "int \<Rightarrow> int \<Rightarrow> int \<Rightarrow> int option \<Rightarrow> SettlementDB \<Rightarrow> (Settlement \<times> SettlementDB) option" where
  "ApproveSettlement org sid approver journal =
     update_settlement (\<lambda>s. st_OrganizationID s = org \<and> st_ID s = sid \<and> st_Status s \<in> set [''CALCULATED'', ''UNDER_REVIEW'']
         \<and> st_CalculatedBy s \<noteq> Some approver)
       (\<lambda>s. s\<lparr>st_Status := ''APPROVED'', st_ApprovedBy := Some approver, st_JournalTransactionID := journal\<rparr>)"

definition RecordSettlementPaid :: "int \<Rightarrow> int \<Rightarrow> int \<Rightarrow> SettlementDB \<Rightarrow> (Settlement \<times> SettlementDB) option" where
  "RecordSettlementPaid org sid amount =
     update_settlement (\<lambda>s. st_OrganizationID s = org \<and> st_ID s = sid \<and> st_Status s \<in> set [''APPROVED'', ''PARTIALLY_PAID''])
       (\<lambda>s. s\<lparr>st_PaidMinor := st_PaidMinor s + amount,
              st_Status := (if \<bar>st_NetAmountMinor s\<bar> \<le> st_PaidMinor s + amount then ''PAID'' else ''PARTIALLY_PAID'')\<rparr>)"

definition CancelSettlement :: "int \<Rightarrow> int \<Rightarrow> string \<Rightarrow> SettlementDB \<Rightarrow> (Settlement \<times> SettlementDB) option" where
  "CancelSettlement org sid reason =
     update_settlement (\<lambda>s. st_OrganizationID s = org \<and> st_ID s = sid \<and> st_Status s \<in> set working_states)
       (\<lambda>s. s\<lparr>st_Status := ''CANCELLED'', st_CancelReason := Some reason\<rparr>)"

text \<open>The deferred trigger that compares a statement with its lines when the transaction commits.\<close>

definition assert_settlement_totals :: "SettlementDB \<Rightarrow> int \<Rightarrow> bool" where
  "assert_settlement_totals db sid \<longleftrightarrow>
     (case find (\<lambda>s. st_ID s = sid) (settlements db) of None \<Rightarrow> True
      | Some s \<Rightarrow> st_Status s \<in> set [''DRAFT'', ''CANCELLED''] \<or>
          sum_list (map ln_AmountMinor (filter (\<lambda>l. ln_SettlementID l = sid) (settlement_lines db))) = st_NetAmountMinor s)"

definition commit_settlement :: "int \<Rightarrow> 'a \<times> SettlementDB \<Rightarrow> ('a \<times> SettlementDB) result" where
  "commit_settlement sid r = ensure (assert_settlement_totals (snd r) sid) Internal (Inr r)"

subsection \<open>What a statement is made of\<close>

record lineDraft =
  ld_Category :: string
  ld_Description :: string
  ld_AmountMinor :: int
  ld_Quantity :: int
  ld_SourceType :: string
  ld_SourceID :: "int option"
  ld_SourcePubID :: string
  ld_ShipmentID :: "int option"

definition SweepCODForSettlement :: "CodObligation list \<Rightarrow> int \<Rightarrow> int \<Rightarrow> int \<Rightarrow> int \<Rightarrow> CodObligation list" where
  "SweepCODForSettlement obs org franchise periodStart periodEnd =
     sort_key (\<lambda>ob. the (co_CollectedAt ob)) (sort_key co_ID (filter (\<lambda>ob. co_OrganizationID ob = org \<and> co_DestinationFranchiseID ob = Some franchise
       \<and> co_Status ob \<in> set [''FRANCHISE_CONFIRMED'', ''RECONCILED'']
       \<and> (case co_CollectedAt ob of None \<Rightarrow> False | Some d \<Rightarrow> periodStart \<le> d \<and> d < periodEnd)) obs))"

text \<open>The query adds a day of its own to the end of the period.\<close>

definition SweepFranchiseCollectionsForSettlement :: "FranchiseCollection list \<Rightarrow> int \<Rightarrow> int \<Rightarrow> int \<Rightarrow> int \<Rightarrow> FranchiseCollection list" where
  "SweepFranchiseCollectionsForSettlement fcs org franchise periodStart periodEnd =
     sort_key fc_CollectedAt (sort_key fc_ID (filter (\<lambda>c. fc_OrganizationID c = org \<and> fc_FranchiseID c = franchise \<and> fc_Status c = ''COLLECTED''
       \<and> fc_SettlementID c = None \<and> periodStart \<le> fc_CollectedAt c \<and> fc_CollectedAt c < next_day periodEnd) fcs))"

definition ListPendingAdjustmentsForSettlement :: "SettlementDB \<Rightarrow> int \<Rightarrow> SettlementAdjustment list" where
  "ListPendingAdjustmentsForSettlement db sid =
     sort_key sa_ID (filter (\<lambda>a. sa_SettlementID a = sid \<and> sa_Status a \<in> set [''APPROVED'', ''APPLIED'']) (settlement_adjustments db))"

definition categoryForCommission :: "string \<Rightarrow> string" where
  "categoryForCommission ty =
     (if ty = ''BOOKING'' then ''BOOKING_COMMISSION'' else if ty = ''PICKUP'' then ''PICKUP_COMMISSION'' else if ty = ''ORIGIN_HANDLING'' then ''ORIGIN_HANDLING''
      else if ty = ''TRANSIT_HANDLING'' then ''TRANSIT_HANDLING'' else if ty = ''DESTINATION_HANDLING'' then ''DESTINATION_HANDLING''
      else if ty = ''DELIVERY'' then ''DELIVERY_COMMISSION'' else if ty = ''COD'' then ''COD_COMMISSION''
      else if ty = ''VOLUME_INCENTIVE'' then ''VOLUME_INCENTIVE'' else ''CUSTOM_COMMISSION'')"

definition opening_drafts :: "(int \<times> string) option \<Rightarrow> lineDraft list" where
  "opening_drafts prev = (case prev of None \<Rightarrow> []
     | Some (balance, number) \<Rightarrow> if balance = 0 then [] else
        [\<lparr>ld_Category = ''OPENING_BALANCE'', ld_Description = ''Balance carried forward from '' @ number, ld_AmountMinor = balance, ld_Quantity = 1,
          ld_SourceType = ''PREVIOUS_SETTLEMENT'', ld_SourceID = None, ld_SourcePubID = number, ld_ShipmentID = None\<rparr>])"

definition commission_draft :: "CommissionCalculation \<Rightarrow> lineDraft" where
  "commission_draft c =
     \<lparr>ld_Category = categoryForCommission (cc_CommissionType c),
      ld_Description = cc_CommissionType c @ '' commission, rule '' @ cc_RuleCode c @ '' v'' @ FormatInt (cc_RuleVersionNo c), ld_AmountMinor = cc_AmountMinor c,
      ld_Quantity = 1, ld_SourceType = ''COMMISSION_CALCULATION'', ld_SourceID = Some (cc_ID c), ld_SourcePubID = cc_PublicID c, ld_ShipmentID = cc_ShipmentID c\<rparr>"

definition held_cod :: "CodObligation \<Rightarrow> int" where
  "held_cod ob = sub64 (co_CollectedMinor ob) (co_RemittedMinor ob)"

definition cod_draft :: "CodObligation \<Rightarrow> lineDraft" where
  "cod_draft ob =
     \<lparr>ld_Category = ''COD_LIABILITY'', ld_Description = ''COD held for '' @ co_Awb ob, ld_AmountMinor = neg64 (held_cod ob), ld_Quantity = 1,
      ld_SourceType = ''COD_OBLIGATION'', ld_SourceID = Some (co_ID ob), ld_SourcePubID = co_PublicID ob, ld_ShipmentID = Some (co_ShipmentID ob)\<rparr>"

definition collection_draft :: "(int \<Rightarrow> string) \<Rightarrow> FranchiseCollection \<Rightarrow> lineDraft" where
  "collection_draft awbOf c =
     \<lparr>ld_Category = ''CUSTOMER_COLLECTION'', ld_Description = ''Prepaid customer collection for '' @ awbOf (fc_ShipmentID c), ld_AmountMinor = neg64 (fc_AmountMinor c),
      ld_Quantity = 1, ld_SourceType = ''FRANCHISE_COLLECTION'', ld_SourceID = Some (fc_ID c), ld_SourcePubID = fc_PublicID c, ld_ShipmentID = Some (fc_ShipmentID c)\<rparr>"

definition adjustment_draft :: "SettlementAdjustment \<Rightarrow> lineDraft" where
  "adjustment_draft a =
     \<lparr>ld_Category = (if sa_AdjustmentType a = ''PENALTY'' then ''PENALTY'' else if sa_AdjustmentType a = ''INCENTIVE'' then ''INCENTIVE'' else ''ADJUSTMENT''),
      ld_Description = sa_AdjustmentType a @ '': '' @ sa_Reason a, ld_AmountMinor = sa_AmountMinor a, ld_Quantity = 1, ld_SourceType = ''SETTLEMENT_ADJUSTMENT'',
      ld_SourceID = Some (sa_ID a), ld_SourcePubID = sa_PublicID a, ld_ShipmentID = None\<rparr>"

text \<open>\<^verbatim>\<open>strings.TrimRight(s, "0")\<close> on a rendered percentage.\<close>

definition formatBP_withholding :: "int \<Rightarrow> string" where
  "formatBP_withholding bp =
     (let whole = bp sdiv 100; frac = bp smod 100
      in if frac = 0 then FormatInt whole
         else rev (dropWhile (\<lambda>c. c = CHR ''0'') (rev (FormatInt whole @ ''.'' @ format_0d 2 frac))))"

definition withholding_drafts :: "int \<Rightarrow> int \<Rightarrow> int \<Rightarrow> lineDraft list" where
  "withholding_drafts bp earnings withholding =
     (if 0 < bp \<and> 0 < earnings then
       [\<lparr>ld_Category = ''WITHHOLDING'', ld_Description = ''Withholding tax at '' @ formatBP_withholding bp @ ''% on earnings'', ld_AmountMinor = neg64 withholding,
         ld_Quantity = 1, ld_SourceType = ''TAX_RULE'', ld_SourceID = None, ld_SourcePubID = '''', ld_ShipmentID = None\<rparr>]
      else [])"

text \<open>\<^verbatim>\<open>sort.SliceStable\<close> by category, then source, then amount.\<close>

definition sort_drafts :: "lineDraft list \<Rightarrow> lineDraft list" where
  "sort_drafts ds = sort_key ld_Category (sort_key ld_SourcePubID (sort_key ld_AmountMinor ds))"

definition hashDrafts :: "(string \<Rightarrow> string) \<Rightarrow> lineDraft list \<Rightarrow> string" where
  "hashDrafts sha256hex ds = take 32 (sha256hex (concat (map (\<lambda>d. ld_Category d @ ''|'' @ ld_SourceType d @ ''|'' @ FormatInt (ld_AmountMinor d) @ ''|''
     @ ld_SourcePubID d @ ''|'' @ ld_Description d @ [CHR 10]) ds)))"

text \<open>The figures of a statement, as the sweeps produced them: the drafts in their order and the totals of the header.\<close>

record Figures =
  fg_Drafts :: "lineDraft list"
  fg_Commission :: int
  fg_Incentive :: int
  fg_Cod :: int
  fg_Collections :: int
  fg_Penalties :: int
  fg_Adjustments :: int
  fg_Withholding :: int
  fg_Opening :: int

definition figures :: "(int \<Rightarrow> string) \<Rightarrow> int \<Rightarrow> (int \<times> string) option \<Rightarrow> CommissionCalculation list \<Rightarrow> CodObligation list \<Rightarrow> FranchiseCollection list \<Rightarrow>
    SettlementAdjustment list \<Rightarrow> Figures result" where
  "figures awbOf withholdingBp prev cs obs fcs adjs =
     (let incentive = sum64 0 (map cc_AmountMinor (filter (\<lambda>c. categoryForCommission (cc_CommissionType c) = ''VOLUME_INCENTIVE'') cs));
          commissionTotal = sum64 0 (map cc_AmountMinor (filter (\<lambda>c. categoryForCommission (cc_CommissionType c) \<noteq> ''VOLUME_INCENTIVE'') cs));
          held = filter (\<lambda>ob. held_cod ob \<noteq> 0) obs;
          incentiveAdj = sum64 0 (map sa_AmountMinor (filter (\<lambda>a. sa_AdjustmentType a = ''INCENTIVE'') adjs));
          incentiveTotal = add64 incentive incentiveAdj;
          earnings = add64 commissionTotal incentiveTotal
      in bindE (if 0 < withholdingBp \<and> 0 < earnings then ApplyBP earnings withholdingBp else Inr 0)
         (\<lambda>withholding. Inr
           \<lparr>fg_Drafts = opening_drafts prev @ map commission_draft cs @ map cod_draft held @ map (collection_draft awbOf) fcs @ map adjustment_draft adjs
              @ withholding_drafts withholdingBp earnings withholding,
            fg_Commission = commissionTotal, fg_Incentive = incentiveTotal, fg_Cod = foldl sub64 0 (map held_cod held),
            fg_Collections = foldl sub64 0 (map fc_AmountMinor fcs),
            fg_Penalties = sum64 0 (map sa_AmountMinor (filter (\<lambda>a. sa_AdjustmentType a = ''PENALTY'') adjs)),
            fg_Adjustments = sum64 0 (map sa_AmountMinor (filter (\<lambda>a. sa_AdjustmentType a \<notin> {''PENALTY'', ''INCENTIVE''}) adjs)),
            fg_Withholding = withholding, fg_Opening = (case prev of None \<Rightarrow> 0 | Some (balance, _) \<Rightarrow> balance)\<rparr>))"

subsection \<open>Writing a statement\<close>

definition parent_working :: "SettlementDB \<Rightarrow> int \<Rightarrow> bool" where
  "parent_working db sid \<longleftrightarrow> (case find (\<lambda>s. st_ID s = sid) (settlements db) of None \<Rightarrow> True | Some s \<Rightarrow> st_Status s \<in> set working_states)"

definition DeleteSettlementLines :: "int \<Rightarrow> SettlementDB \<Rightarrow> SettlementDB result" where
  "DeleteSettlementLines sid db =
     ensure (list_ex (\<lambda>l. ln_SettlementID l = sid) (settlement_lines db) \<longrightarrow> parent_working db sid) Internal
       (Inr (db\<lparr>settlement_lines := filter (\<lambda>l. ln_SettlementID l \<noteq> sid) (settlement_lines db)\<rparr>))"

definition line_categories :: "string list" where
  "line_categories = [''BOOKING_COMMISSION'', ''PICKUP_COMMISSION'', ''ORIGIN_HANDLING'', ''TRANSIT_HANDLING'', ''DESTINATION_HANDLING'', ''DELIVERY_COMMISSION'',
     ''COD_COMMISSION'', ''VOLUME_INCENTIVE'', ''CUSTOM_COMMISSION'', ''COD_LIABILITY'', ''CUSTOMER_COLLECTION'', ''CHARGE'', ''PENALTY'', ''INCENTIVE'', ''ADJUSTMENT'',
     ''TAX'', ''WITHHOLDING'', ''OPENING_BALANCE'']"

definition line_sources :: "string list" where
  "line_sources = [''COMMISSION_CALCULATION'', ''COD_OBLIGATION'', ''COD_ADJUSTMENT'', ''FRANCHISE_COLLECTION'', ''SETTLEMENT_ADJUSTMENT'', ''PREVIOUS_SETTLEMENT'',
     ''TAX_RULE'', ''MANUAL'']"

definition CreateSettlementLine :: "SettlementLine \<Rightarrow> SettlementDB \<Rightarrow> SettlementDB result" where
  "CreateSettlementLine l db =
     ensure (parent_working db (ln_SettlementID l) \<and> 0 < ln_LineNo l \<and> ln_Category l \<in> set line_categories \<and> ln_SourceType l \<in> set line_sources
       \<and> \<not> list_ex (\<lambda>m. ln_SettlementID m = ln_SettlementID l \<and> ln_LineNo m = ln_LineNo l) (settlement_lines db)) Internal
     (ensure (\<not> (ln_SourceID l \<noteq> None \<and> list_ex (\<lambda>m. ln_SettlementID m = ln_SettlementID l \<and> ln_SourceType m = ln_SourceType l \<and> ln_SourceID m = ln_SourceID l)
         (settlement_lines db))) (Conflict ''SETTLEMENT_INVALID_STATE'')
       (Inr (db\<lparr>settlement_lines := settlement_lines db @ [l]\<rparr>)))"

definition draft_line :: "int \<Rightarrow> Settlement \<Rightarrow> nat \<Rightarrow> lineDraft \<Rightarrow> SettlementLine" where
  "draft_line org stl i d =
     \<lparr>ln_OrganizationID = org, ln_SettlementID = st_ID stl, ln_LineNo = wrap32 (int i + 1), ln_Category = ld_Category d, ln_Description = ld_Description d,
      ln_AmountMinor = ld_AmountMinor d, ln_Currency = st_Currency stl, ln_Quantity = max (ld_Quantity d) 1, ln_SourceType = ld_SourceType d,
      ln_SourceID = ld_SourceID d, ln_SourcePublicID = Optional (ld_SourcePubID d), ln_ShipmentID = ld_ShipmentID d\<rparr>"

definition with_totals :: "int \<Rightarrow> Figures \<Rightarrow> int \<Rightarrow> string \<Rightarrow> Settlement \<Rightarrow> Settlement" where
  "with_totals user fg net hash s =
     s\<lparr>st_Status := ''CALCULATED'', st_CommissionMinor := fg_Commission fg, st_IncentiveMinor := fg_Incentive fg, st_CodLiabilityMinor := fg_Cod fg,
        st_ChargesMinor := 0, st_PenaltiesMinor := fg_Penalties fg, st_AdjustmentsMinor := fg_Adjustments fg, st_TaxMinor := 0,
        st_WithholdingMinor := neg64 (fg_Withholding fg), st_CollectionsMinor := fg_Collections fg, st_OpeningBalanceMinor := fg_Opening fg,
        st_NetAmountMinor := net, st_CalculationHash := Optional hash, st_CalculatedBy := Some user\<rparr>"

definition ApplySettlementTotals :: "int \<Rightarrow> int \<Rightarrow> int \<Rightarrow> Figures \<Rightarrow> int \<Rightarrow> string \<Rightarrow> SettlementDB \<Rightarrow> (Settlement \<times> SettlementDB) option" where
  "ApplySettlementTotals org sid user fg net hash =
     update_settlement (\<lambda>s. st_OrganizationID s = org \<and> st_ID s = sid \<and> st_Status s \<in> set [''DRAFT'', ''CALCULATED'']) (with_totals user fg net hash)"

definition AttachFranchiseCollectionsToSettlement :: "int \<Rightarrow> int \<Rightarrow> int list \<Rightarrow> FranchiseCollection list \<Rightarrow> FranchiseCollection list" where
  "AttachFranchiseCollectionsToSettlement org sid ids =
     map (\<lambda>c. if fc_OrganizationID c = org \<and> fc_ID c \<in> set ids \<and> fc_SettlementID c = None \<and> fc_Status c = ''COLLECTED''
        then c\<lparr>fc_SettlementID := Some sid, fc_Status := ''IN_SETTLEMENT''\<rparr> else c)"

definition ReleaseFranchiseCollectionsFromSettlement :: "int \<Rightarrow> int \<Rightarrow> FranchiseCollection list \<Rightarrow> FranchiseCollection list" where
  "ReleaseFranchiseCollectionsFromSettlement org sid =
     map (\<lambda>c. if fc_OrganizationID c = org \<and> fc_SettlementID c = Some sid \<and> fc_Status c = ''IN_SETTLEMENT''
        then c\<lparr>fc_SettlementID := None, fc_Status := ''COLLECTED''\<rparr> else c)"

definition MarkFranchiseCollectionsRemitted :: "int \<Rightarrow> int \<Rightarrow> FranchiseCollection list \<Rightarrow> FranchiseCollection list" where
  "MarkFranchiseCollectionsRemitted org sid =
     map (\<lambda>c. if fc_OrganizationID c = org \<and> fc_SettlementID c = Some sid \<and> fc_Status c = ''IN_SETTLEMENT'' then c\<lparr>fc_Status := ''REMITTED''\<rparr> else c)"

definition ListSettlementLines :: "SettlementDB \<Rightarrow> int \<Rightarrow> SettlementLine list" where
  "ListSettlementLines db sid = sort_key ln_LineNo (filter (\<lambda>l. ln_SettlementID l = sid) (settlement_lines db))"

record SettlementResult =
  sr_Settlement :: Settlement
  sr_Lines :: "SettlementLine list"
  sr_Replayed :: bool

subsection \<open>Calculation\<close>

text \<open>
  The end of the period the sweeps get is already the day after it. An \<^verbatim>\<open>UPDATE\<close> over an empty list of ids
  changes nothing, so the two claims are unconditional.
\<close>

definition calculate_settlement :: "(string \<Rightarrow> string) \<Rightarrow> (int \<Rightarrow> string) \<Rightarrow> int \<Rightarrow> Principal \<Rightarrow> Settlement \<Rightarrow> int \<Rightarrow> SettlementDB \<Rightarrow> (SettlementResult \<times> SettlementDB) result" where
  "calculate_settlement sha256hex awbOf withholdingBp p stl franchiseID db =
     bindE (DeleteSettlementLines (st_ID stl) db)
     (\<lambda>db1. let org = OrganizationID p; periodStart = st_PeriodStart stl; periodEnd = next_day (st_PeriodEnd stl) in
     bindE (GetPreviousSettlementBalance db1 org franchiseID periodStart)
     (\<lambda>prev. let commissions = SweepCommissionForSettlement (commission db1) org franchiseID (st_ID stl) periodStart periodEnd;
                 obs = SweepCODForSettlement (cod_obligations db1) org franchiseID periodStart periodEnd;
                 fcs = SweepFranchiseCollectionsForSettlement (franchise_collections db1) org franchiseID periodStart periodEnd;
                 adjs = ListPendingAdjustmentsForSettlement db1 (st_ID stl) in
     bindE (figures awbOf withholdingBp prev commissions obs fcs adjs)
     (\<lambda>fg. let drafts = sort_drafts (fg_Drafts fg); net = sum64 0 (map ld_AmountMinor drafts) in
     bindE (foldE (\<lambda>(i, d). CreateSettlementLine (draft_line org stl i d)) (enumerate 0 drafts) db1)
     (\<lambda>db2. bindE (opt_or (ApplySettlementTotals org (st_ID stl) (UserID p) fg net (hashDrafts sha256hex drafts) db2) (Conflict ''SETTLEMENT_FROZEN''))
     (\<lambda>(updated, db3). let db4 = db3\<lparr>commission := AttachCalculationsToSettlement org (st_ID updated) (map cc_ID commissions) (commission db3),
                                franchise_collections := AttachFranchiseCollectionsToSettlement org (st_ID updated) (map fc_ID fcs) (franchise_collections db3)\<rparr> in
       Inr (\<lparr>sr_Settlement = updated, sr_Lines = ListSettlementLines db4 (st_ID updated), sr_Replayed = False\<rparr>, db4))))))"

definition AllocateSettlementNumber :: "int \<Rightarrow> string \<Rightarrow> int \<Rightarrow> SettlementDB \<Rightarrow> (string \<times> SettlementDB) result" where
  "AllocateSettlementNumber org kind day db =
     (let l = comm_ledger (commission db); scope = format_200601 day in
      bindE (opt_or (AllocateOperationalSequence (org, kind, scope) (op_sequences l)) (Conflict ''CONFLICT''))
        (\<lambda>(n, t). Inr (kind @ ''-'' @ scope @ ''-'' @ format_0d 5 n, db\<lparr>commission := (commission db)\<lparr>comm_ledger := l\<lparr>op_sequences := t\<rparr>\<rparr>\<rparr>)))"

record GenerateRequest =
  gq_FranchiseID :: string
  gq_PeriodType :: string
  gq_PeriodStart :: int
  gq_PeriodEnd :: int
  gq_Notes :: string

definition Generate :: "(string \<Rightarrow> string) \<Rightarrow> (int \<Rightarrow> string) \<Rightarrow> int \<Rightarrow> (int \<Rightarrow> string \<Rightarrow> int option) \<Rightarrow> string \<Rightarrow> Principal \<Rightarrow> GenerateRequest \<Rightarrow> SettlementDB \<Rightarrow>
    (SettlementResult \<times> SettlementDB) result" where
  "Generate sha256hex awbOf withholdingBp franchiseOf newID p inp db =
     ensure (\<not> gq_PeriodEnd inp < gq_PeriodStart inp) (Validation ''The period ends before it starts.'')
     (bindE (opt_or (franchiseOf (OrganizationID p) (gq_FranchiseID inp)) (NotFound ''Franchise''))
     (\<lambda>franchise.
       (case FindSettlementForPeriod db (OrganizationID p) franchise (gq_PeriodStart inp) (gq_PeriodEnd inp) of
          Some existing \<Rightarrow>
            if st_Status existing \<noteq> ''DRAFT'' \<and> st_Status existing \<noteq> ''CALCULATED''
            then Inr (\<lparr>sr_Settlement = existing, sr_Lines = ListSettlementLines db (st_ID existing), sr_Replayed = True\<rparr>, db)
            else bindE (calculate_settlement sha256hex awbOf withholdingBp p existing franchise db)
              (\<lambda>(res, db1). commit_settlement (st_ID existing) (res\<lparr>sr_Replayed := True\<rparr>, db1))
        | None \<Rightarrow>
            bindE (AllocateSettlementNumber (OrganizationID p) ''STL'' (gq_PeriodEnd inp) db)
            (\<lambda>(number, db1). bindE (CreateSettlement
               \<lparr>st_ID = 0, st_PublicID = newID, st_OrganizationID = OrganizationID p, st_SettlementNumber = number, st_FranchiseID = franchise,
                st_PeriodType = (if gq_PeriodType inp = '''' then ''MONTHLY'' else gq_PeriodType inp), st_PeriodStart = gq_PeriodStart inp,
                st_PeriodEnd = gq_PeriodEnd inp, st_Status = ''DRAFT'', st_Currency = OrganizationCurrency p, st_CommissionMinor = 0, st_IncentiveMinor = 0,
                st_CodLiabilityMinor = 0, st_ChargesMinor = 0, st_PenaltiesMinor = 0, st_AdjustmentsMinor = 0, st_TaxMinor = 0, st_WithholdingMinor = 0,
                st_CollectionsMinor = 0, st_OpeningBalanceMinor = 0, st_NetAmountMinor = 0, st_PaidMinor = 0, st_CalculationHash = None, st_CalculatedBy = None,
                st_SubmittedBy = None, st_ApprovedBy = None, st_CancelReason = None, st_JournalTransactionID = None, st_Notes = Optional (gq_Notes inp),
                st_CreatedBy = Some (UserID p)\<rparr> db1)
            (\<lambda>(created, db2). bindE (calculate_settlement sha256hex awbOf withholdingBp p created franchise db2) (commit_settlement (st_ID created)))))))"

definition Recalculate :: "(string \<Rightarrow> string) \<Rightarrow> (int \<Rightarrow> string) \<Rightarrow> int \<Rightarrow> Principal \<Rightarrow> string \<Rightarrow> SettlementDB \<Rightarrow> (SettlementResult \<times> SettlementDB) result" where
  "Recalculate sha256hex awbOf withholdingBp p publicID db =
     bindE (opt_or (GetSettlementByPublicID db (OrganizationID p) publicID) (NotFound ''Settlement''))
     (\<lambda>header. bindE (opt_or (LockSettlement db (OrganizationID p) (st_ID header)) Internal)
     (\<lambda>locked. ensure (\<not> (st_Status locked \<noteq> ''DRAFT'' \<and> st_Status locked \<noteq> ''CALCULATED'')) (Conflict ''SETTLEMENT_FROZEN'')
       (bindE (calculate_settlement sha256hex awbOf withholdingBp p locked (st_FranchiseID locked) db) (commit_settlement (st_ID locked)))))"

subsection \<open>Review, approval, payment, cancellation\<close>

definition RecordSettlementApproval :: "Principal \<Rightarrow> Settlement \<Rightarrow> string \<Rightarrow> string \<Rightarrow> SettlementDB \<Rightarrow> SettlementDB" where
  "RecordSettlementApproval p s action comment db =
     db\<lparr>settlement_approvals := settlement_approvals db @
       [\<lparr>sv_OrganizationID = OrganizationID p, sv_SettlementID = st_ID s, sv_Action = action, sv_NetAmountMinor = st_NetAmountMinor s, sv_Currency = st_Currency s,
         sv_Comment = Optional comment, sv_ActorID = UserID p\<rparr>]\<rparr>"

definition Submit :: "Principal \<Rightarrow> string \<Rightarrow> string \<Rightarrow> SettlementDB \<Rightarrow> (Settlement \<times> SettlementDB) result" where
  "Submit p publicID comment db =
     bindE (opt_or (GetSettlementByPublicID db (OrganizationID p) publicID) (NotFound ''Settlement''))
     (\<lambda>header. bindE (opt_or (SubmitSettlement (OrganizationID p) (st_ID header) (UserID p) db) (Conflict ''SETTLEMENT_INVALID_STATE''))
     (\<lambda>(submitted, db1). commit_settlement (st_ID header) (submitted, RecordSettlementApproval p submitted ''SUBMITTED'' comment db1)))"

text \<open>A leg of the franchise: its sub-account when it is the party, its dimension in any case.\<close>

definition franchise_leg :: "string \<Rightarrow> int \<Rightarrow> int \<Rightarrow> bool \<Rightarrow> int \<Rightarrow> string \<Rightarrow> Leg" where
  "franchise_leg account debit credit party franchise memo =
     (leg account debit credit (if party then ''FRANCHISE'' else '''') (if party then franchise else 0) memo)\<lparr>LegFranchiseID := Some franchise\<rparr>"

definition approval_posting :: "Settlement \<Rightarrow> Posting" where
  "approval_posting s =
     (let amount = st_NetAmountMinor s; f = st_FranchiseID s; number = st_SettlementNumber s in
      \<lparr>SourceType = ''SETTLEMENT'', SourceID = Some (st_ID s), Purpose = ''APPROVAL'', PDescription = ''Settlement '' @ number, Reason = '''',
       PCurrency = st_Currency s, PostingDate = Some (st_PeriodEnd s),
       Legs = (if 0 < amount
         then [franchise_leg AcctCommissionPayable amount 0 False f ''Accrued commission settled'',
               franchise_leg AcctFranchisePayable 0 amount True f (''Net payable for '' @ number)]
         else [franchise_leg AcctFranchiseReceivable (neg64 amount) 0 True f (''Net receivable for '' @ number),
               franchise_leg AcctCommissionPayable 0 (neg64 amount) False f ''Settled against accrued commission''])\<rparr>)"

definition post_settlement :: "Principal \<Rightarrow> int \<Rightarrow> Posting \<Rightarrow> SettlementDB \<Rightarrow> (int \<times> SettlementDB) result" where
  "post_settlement p now posting db =
     bindE (Post p now posting (comm_ledger (commission db)))
       (\<lambda>(r, l). Inr (j_ID (rs_Transaction r), db\<lparr>commission := (commission db)\<lparr>comm_ledger := l\<rparr>\<rparr>))"

definition Approve :: "int \<Rightarrow> Principal \<Rightarrow> string \<Rightarrow> string \<Rightarrow> SettlementDB \<Rightarrow> (Settlement \<times> SettlementDB) result" where
  "Approve now p publicID comment db =
     bindE (opt_or (GetSettlementByPublicID db (OrganizationID p) publicID) (NotFound ''Settlement''))
     (\<lambda>header. bindE (opt_or (LockSettlement db (OrganizationID p) (st_ID header)) Internal)
     (\<lambda>locked. ensure (st_CalculatedBy locked \<noteq> Some (UserID p))
         (Forbidden ''A settlement must be approved by someone other than the person who calculated it.'')
     (ensure (\<not> (st_Status locked \<noteq> ''CALCULATED'' \<and> st_Status locked \<noteq> ''UNDER_REVIEW'')) (Conflict ''SETTLEMENT_INVALID_STATE'')
     (bindE (if st_NetAmountMinor locked = 0 then Inr (None, db)
         else bindE (post_settlement p now (approval_posting locked) db) (\<lambda>(j, db1). Inr (Some j, db1)))
     (\<lambda>(journal, db1). bindE (opt_or (ApproveSettlement (OrganizationID p) (st_ID locked) (UserID p) journal db1) (Conflict ''SETTLEMENT_INVALID_STATE''))
     (\<lambda>(approved, db2). commit_settlement (st_ID locked) (approved, RecordSettlementApproval p approved ''APPROVED'' comment
        (db2\<lparr>franchise_collections := MarkFranchiseCollectionsRemitted (OrganizationID p) (st_ID locked) (franchise_collections db2)\<rparr>))))))))"

record PayRequest =
  pq_SettlementID :: string
  pq_AmountMinor :: int
  pq_PaymentMode :: string
  pq_Reference :: string
  pq_PaidOn :: "int option"

definition payment_posting :: "Settlement \<Rightarrow> int \<Rightarrow> string \<Rightarrow> int \<Rightarrow> Posting" where
  "payment_posting s amount number paidOn =
     (let f = st_FranchiseID s in
      \<lparr>SourceType = ''PAYMENT'', SourceID = Some (st_ID s), Purpose = ''SETTLEMENT_PAYMENT:'' @ number,
       PDescription = ''Payment '' @ number @ '' against '' @ st_SettlementNumber s, Reason = '''', PCurrency = st_Currency s, PostingDate = Some paidOn,
       Legs = (if 0 < st_NetAmountMinor s
         then [franchise_leg AcctFranchisePayable amount 0 True f (''Settlement payment '' @ st_SettlementNumber s), leg AcctCash 0 amount '''' 0 ''Paid to franchise'']
         else [leg AcctCash amount 0 '''' 0 ''Received from franchise'',
               franchise_leg AcctFranchiseReceivable 0 amount True f (''Settlement recovery '' @ st_SettlementNumber s)])\<rparr>)"

definition CreateSettlementPayment :: "SettlementPayment \<Rightarrow> SettlementDB \<Rightarrow> SettlementDB result" where
  "CreateSettlementPayment y db =
     ensure (0 < sy_AmountMinor y \<and> sy_PaymentMode y \<in> set [''BANK_TRANSFER'', ''UPI'', ''CHEQUE'', ''CASH'', ''ADJUSTMENT'', ''OTHER'']
       \<and> \<not> list_ex (\<lambda>u. sy_OrganizationID u = sy_OrganizationID y \<and> sy_PaymentNumber u = sy_PaymentNumber y) (settlement_payments db)) Internal
       (Inr (db\<lparr>settlement_payments := settlement_payments db @ [y]\<rparr>))"

definition payable :: "string \<Rightarrow> bool" where
  "payable status \<longleftrightarrow> \<not> (status \<noteq> ''APPROVED'' \<and> status \<noteq> ''PARTIALLY_PAID'')"

definition Pay :: "int \<Rightarrow> Principal \<Rightarrow> PayRequest \<Rightarrow> SettlementDB \<Rightarrow> ((SettlementPayment \<times> Settlement) \<times> SettlementDB) result" where
  "Pay now p inp db =
     (let paidOn = (case pq_PaidOn inp of None \<Rightarrow> now | Some d \<Rightarrow> d); amount = pq_AmountMinor inp in
      ensure (\<not> amount \<le> 0) (Validation ''A payment must be for a positive amount.'')
      (bindE (opt_or (GetSettlementByPublicID db (OrganizationID p) (pq_SettlementID inp)) (NotFound ''Settlement''))
      (\<lambda>header. bindE (opt_or (LockSettlement db (OrganizationID p) (st_ID header)) Internal)
      (\<lambda>locked. ensure (payable (st_Status locked)) (Conflict ''SETTLEMENT_NOT_APPROVED'')
      (let outstanding = sub64 (abs64 (st_NetAmountMinor locked)) (st_PaidMinor locked) in
      ensure (\<not> outstanding < amount) (Conflict ''SETTLEMENT_OVERPAYMENT'')
      (bindE (AllocateSettlementNumber (OrganizationID p) ''SPM'' paidOn db)
      (\<lambda>(number, db1). bindE (post_settlement p now (payment_posting locked amount number paidOn) db1)
      (\<lambda>(journal, db2). let y = \<lparr>sy_OrganizationID = OrganizationID p, sy_SettlementID = st_ID locked, sy_PaymentNumber = number,
            sy_Direction = (if 0 < st_NetAmountMinor locked then ''OUTBOUND'' else ''INBOUND''), sy_AmountMinor = amount, sy_Currency = st_Currency locked,
            sy_PaymentMode = pq_PaymentMode inp, sy_Reference = Optional (pq_Reference inp), sy_PaidOn = paidOn, sy_Status = ''RECORDED'',
            sy_JournalTransactionID = Some journal, sy_RecordedBy = UserID p\<rparr> in
      bindE (CreateSettlementPayment y db2)
      (\<lambda>db3. bindE (opt_or (RecordSettlementPaid (OrganizationID p) (st_ID locked) amount db3) (Conflict ''SETTLEMENT_INVALID_STATE''))
      (\<lambda>(advanced, db4). commit_settlement (st_ID locked) ((y, advanced), db4)))))))))))"

definition Cancel :: "Principal \<Rightarrow> string \<Rightarrow> string \<Rightarrow> SettlementDB \<Rightarrow> (Settlement \<times> SettlementDB) result" where
  "Cancel p publicID reason db =
     ensure (\<not> rune_count reason < 10) (Validation ''Cancelling a settlement requires a substantive reason.'')
     (bindE (opt_or (GetSettlementByPublicID db (OrganizationID p) publicID) (NotFound ''Settlement''))
     (\<lambda>header. opt_or (CancelSettlement (OrganizationID p) (st_ID header) reason
        (db\<lparr>commission := DetachCalculationsFromSettlement (OrganizationID p) (st_ID header) (commission db),
            franchise_collections := ReleaseFranchiseCollectionsFromSettlement (OrganizationID p) (st_ID header) (franchise_collections db)\<rparr>))
        (Conflict ''SETTLEMENT_INVALID_STATE'')))"

subsection \<open>Adjustments\<close>

definition AdjustmentTypes :: "string list" where
  "AdjustmentTypes = [''CORRECTION'', ''PENALTY'', ''INCENTIVE'', ''WAIVER'', ''RECOVERY'', ''GOODWILL'', ''OTHER'']"

definition isFrozen :: "string \<Rightarrow> bool" where
  "isFrozen status \<longleftrightarrow> status \<in> set [''APPROVED'', ''PARTIALLY_PAID'', ''PAID'', ''CLOSED'']"

definition trimSpace :: "string \<Rightarrow> string" where
  "trimSpace s = (let ws = (\<lambda>c. c \<in> set [CHR '' '', CHR 9, CHR 10, CHR 13]) in rev (dropWhile ws (rev (dropWhile ws s))))"

record AdjustmentRequest =
  aj_SettlementID :: string
  aj_Type :: string
  aj_AmountMinor :: int
  aj_Reason :: string

definition CreateSettlementAdjustment :: "SettlementAdjustment \<Rightarrow> SettlementDB \<Rightarrow> (SettlementAdjustment \<times> SettlementDB) result" where
  "CreateSettlementAdjustment a db =
     (let a' = a\<lparr>sa_ID := next_settlement_adjustment db\<rparr>
      in ensure (sa_AdjustmentType a \<in> set AdjustmentTypes \<and> 10 \<le> rune_count (btrim (sa_Reason a))) Internal
         (Inr (a', db\<lparr>settlement_adjustments := settlement_adjustments db @ [a'], next_settlement_adjustment := next_settlement_adjustment db + 1\<rparr>)))"

definition RaiseAdjustment :: "string \<Rightarrow> Principal \<Rightarrow> AdjustmentRequest \<Rightarrow> SettlementDB \<Rightarrow> (SettlementAdjustment \<times> SettlementDB) result" where
  "RaiseAdjustment newID p inp db =
     ensure (aj_Type inp \<in> set AdjustmentTypes) (Validation ''Unknown adjustment type.'')
     (ensure (aj_AmountMinor inp \<noteq> 0) (Validation ''An adjustment must move a non-zero amount.'')
     (ensure (\<not> rune_count (trimSpace (aj_Reason inp)) < 10) (Validation ''An adjustment needs a reason of at least 10 characters.'')
     (bindE (opt_or (GetSettlementByPublicID db (OrganizationID p) (aj_SettlementID inp)) (NotFound ''Settlement''))
     (\<lambda>header. ensure (st_Status header \<noteq> ''CANCELLED'') (Conflict ''SETTLEMENT_INVALID_STATE'')
       (CreateSettlementAdjustment
         \<lparr>sa_ID = 0, sa_PublicID = newID, sa_OrganizationID = OrganizationID p, sa_SettlementID = st_ID header, sa_AdjustmentType = aj_Type inp,
          sa_AmountMinor = aj_AmountMinor inp, sa_Currency = st_Currency header, sa_Reason = aj_Reason inp, sa_Status = ''PENDING_APPROVAL'',
          sa_RequestedBy = UserID p, sa_ApprovedBy = None, sa_RejectionReason = None, sa_JournalTransactionID = None\<rparr> db)))))"

definition GetSettlementAdjustmentByPublicID :: "SettlementDB \<Rightarrow> int \<Rightarrow> string \<Rightarrow> SettlementAdjustment option" where
  "GetSettlementAdjustmentByPublicID db org publicID = find (\<lambda>a. sa_OrganizationID a = org \<and> sa_PublicID a = publicID) (settlement_adjustments db)"

definition update_adjustment :: "(SettlementAdjustment \<Rightarrow> bool) \<Rightarrow> (SettlementAdjustment \<Rightarrow> SettlementAdjustment) \<Rightarrow> SettlementDB \<Rightarrow>
    (SettlementAdjustment \<times> SettlementDB) option" where
  "update_adjustment guard f db =
     (case find guard (settlement_adjustments db) of None \<Rightarrow> None
      | Some a \<Rightarrow> Some (f a, db\<lparr>settlement_adjustments := map (\<lambda>u. if guard u then f u else u) (settlement_adjustments db)\<rparr>))"

definition ApproveSettlementAdjustment :: "int \<Rightarrow> int \<Rightarrow> int \<Rightarrow> SettlementDB \<Rightarrow> (SettlementAdjustment \<times> SettlementDB) option" where
  "ApproveSettlementAdjustment org aid user =
     update_adjustment (\<lambda>a. sa_OrganizationID a = org \<and> sa_ID a = aid \<and> sa_Status a = ''PENDING_APPROVAL'' \<and> sa_RequestedBy a \<noteq> user)
       (\<lambda>a. a\<lparr>sa_Status := ''APPROVED'', sa_ApprovedBy := Some user\<rparr>)"

definition RejectSettlementAdjustment :: "int \<Rightarrow> int \<Rightarrow> int \<Rightarrow> string \<Rightarrow> SettlementDB \<Rightarrow> (SettlementAdjustment \<times> SettlementDB) option" where
  "RejectSettlementAdjustment org aid user reason =
     update_adjustment (\<lambda>a. sa_OrganizationID a = org \<and> sa_ID a = aid \<and> sa_Status a = ''PENDING_APPROVAL'' \<and> sa_RequestedBy a \<noteq> user)
       (\<lambda>a. a\<lparr>sa_Status := ''REJECTED'', sa_ApprovedBy := Some user, sa_RejectionReason := Some reason\<rparr>)"

definition MarkSettlementAdjustmentApplied :: "int \<Rightarrow> int \<Rightarrow> int \<Rightarrow> SettlementDB \<Rightarrow> (SettlementAdjustment \<times> SettlementDB) option" where
  "MarkSettlementAdjustmentApplied org aid journal =
     update_adjustment (\<lambda>a. sa_OrganizationID a = org \<and> sa_ID a = aid \<and> sa_Status a = ''APPROVED'')
       (\<lambda>a. a\<lparr>sa_Status := ''APPLIED'', sa_JournalTransactionID := Some journal\<rparr>)"

definition settlement_adjustment_posting :: "Settlement \<Rightarrow> SettlementAdjustment \<Rightarrow> Posting" where
  "settlement_adjustment_posting s a =
     (let amount = sa_AmountMinor a; f = st_FranchiseID s; memo = sa_AdjustmentType a @ '' adjustment on '' @ st_SettlementNumber s in
      \<lparr>SourceType = ''ADJUSTMENT'', SourceID = Some (sa_ID a), Purpose = ''SETTLEMENT_ADJUSTMENT'', PDescription = memo, Reason = sa_Reason a,
       PCurrency = sa_Currency a, PostingDate = Some (st_PeriodEnd s),
       Legs = (if 0 < amount
         then [franchise_leg AcctCommissionPayable amount 0 False f memo, franchise_leg AcctFranchisePayable 0 amount True f memo]
         else [franchise_leg AcctFranchiseReceivable (neg64 amount) 0 True f memo, franchise_leg AcctCommissionPayable 0 (neg64 amount) False f memo])\<rparr>)"

definition ApproveAdjustment :: "int \<Rightarrow> Principal \<Rightarrow> string \<Rightarrow> SettlementDB \<Rightarrow> (SettlementAdjustment \<times> SettlementDB) result" where
  "ApproveAdjustment now p publicID db =
     bindE (opt_or (GetSettlementAdjustmentByPublicID db (OrganizationID p) publicID) (NotFound ''Settlement adjustment''))
     (\<lambda>existing. ensure (sa_Status existing = ''PENDING_APPROVAL'') (Conflict ''SETTLEMENT_ADJUSTMENT_NOT_PENDING'')
     (ensure (sa_RequestedBy existing \<noteq> UserID p) (Forbidden ''An adjustment must be approved by someone other than the person who raised it.'')
     (bindE (opt_or (LockSettlement db (OrganizationID p) (sa_SettlementID existing)) Internal)
     (\<lambda>settlement. bindE (opt_or (ApproveSettlementAdjustment (OrganizationID p) (sa_ID existing) (UserID p) db) (Conflict ''SETTLEMENT_ADJUSTMENT_NOT_PENDING''))
     (\<lambda>(approved, db1). if isFrozen (st_Status settlement)
        then bindE (post_settlement p now (settlement_adjustment_posting settlement approved) db1)
          (\<lambda>(journal, db2). opt_or (MarkSettlementAdjustmentApplied (OrganizationID p) (sa_ID approved) journal db2) Internal)
        else Inr (approved, db1))))))"

definition RejectAdjustment :: "Principal \<Rightarrow> string \<Rightarrow> string \<Rightarrow> SettlementDB \<Rightarrow> (SettlementAdjustment \<times> SettlementDB) result" where
  "RejectAdjustment p publicID reason db =
     ensure (\<not> rune_count (trimSpace reason) < 5) (Validation ''Rejecting an adjustment requires a reason.'')
     (bindE (opt_or (GetSettlementAdjustmentByPublicID db (OrganizationID p) publicID) (NotFound ''Settlement adjustment''))
     (\<lambda>existing. ensure (sa_Status existing = ''PENDING_APPROVAL'') (Conflict ''SETTLEMENT_ADJUSTMENT_NOT_PENDING'')
     (ensure (sa_RequestedBy existing \<noteq> UserID p) (Forbidden ''An adjustment must be decided by someone other than the person who raised it.'')
       (opt_or (RejectSettlementAdjustment (OrganizationID p) (sa_ID existing) (UserID p) reason db) (Conflict ''SETTLEMENT_ADJUSTMENT_NOT_PENDING'')))))"

subsection \<open>Counter collections\<close>

record BookedShipment =
  bs_ID :: int
  bs_PaymentMode :: string
  bs_BookingUnitID :: "int option"
  bs_CustomerID :: int
  bs_TotalAmountMinor :: int
  bs_Currency :: string

record RecordRequest =
  rq_ShipmentID :: string
  rq_AmountMinor :: int
  rq_PaymentMode :: string
  rq_Reference :: string
  rq_CollectedAt :: "int option"
  rq_Notes :: string

definition collection_modes :: "string list" where
  "collection_modes = [''CASH'', ''POS'', ''TRANSFER'', ''BANK_DEPOSIT'']"

text \<open>\<^verbatim>\<open>UNIQUE NULLS NOT DISTINCT\<close>: two collections without a reference clash as well.\<close>

definition CreateFranchiseCollection :: "FranchiseCollection \<Rightarrow> SettlementDB \<Rightarrow> (FranchiseCollection \<times> SettlementDB) result" where
  "CreateFranchiseCollection c db =
     (let c' = c\<lparr>fc_ID := next_franchise_collection db\<rparr>
      in ensure (0 < fc_AmountMinor c \<and> fc_PaymentMode c \<in> set collection_modes
           \<and> \<not> list_ex (\<lambda>u. fc_OrganizationID u = fc_OrganizationID c \<and> fc_ShipmentID u = fc_ShipmentID c) (franchise_collections db)
           \<and> \<not> list_ex (\<lambda>u. fc_OrganizationID u = fc_OrganizationID c \<and> fc_FranchiseID u = fc_FranchiseID c \<and> fc_Reference u = fc_Reference c) (franchise_collections db)) Internal
         (Inr (c', db\<lparr>franchise_collections := franchise_collections db @ [c'], next_franchise_collection := next_franchise_collection db + 1\<rparr>)))"

definition GetFranchiseCollectionByShipment :: "SettlementDB \<Rightarrow> int \<Rightarrow> int \<Rightarrow> FranchiseCollection option" where
  "GetFranchiseCollectionByShipment db org shipment = find (\<lambda>c. fc_OrganizationID c = org \<and> fc_ShipmentID c = shipment) (franchise_collections db)"

definition Record_collection :: "(int \<Rightarrow> string \<Rightarrow> BookedShipment option) \<Rightarrow> (int \<Rightarrow> int \<Rightarrow> int option) \<Rightarrow> string \<Rightarrow> int \<Rightarrow> Principal \<Rightarrow> RecordRequest \<Rightarrow> SettlementDB \<Rightarrow>
    ((FranchiseCollection \<times> bool) \<times> SettlementDB) result" where
  "Record_collection shipmentOf franchiseOfUnit newID now p inp db =
     ensure (\<not> rq_AmountMinor inp \<le> 0) (Validation ''The collected amount must be positive.'')
     (ensure (rq_PaymentMode inp \<in> set collection_modes) (Validation ''Payment mode must be CASH, POS, TRANSFER or BANK_DEPOSIT.'')
     (ensure (\<not> (rq_PaymentMode inp \<noteq> ''CASH'' \<and> length (rq_Reference inp) < 3)) (Validation ''Non-cash collection requires a transaction reference.'')
     (bindE (opt_or (shipmentOf (OrganizationID p) (rq_ShipmentID inp)) (NotFound ''Shipment''))
     (\<lambda>sh. case GetFranchiseCollectionByShipment db (OrganizationID p) (bs_ID sh) of
        Some existing \<Rightarrow> Inr ((existing, True), db)
      | None \<Rightarrow>
         ensure (bs_PaymentMode sh = ''PREPAID'') (Conflict ''COLLECTION_NOT_PREPAID'')
         (bindE (opt_or (bs_BookingUnitID sh) (Conflict ''COLLECTION_NO_UNIT''))
         (\<lambda>unit. bindE (RequireUnitInScope (Some p) unit)
         (\<lambda>_. bindE (opt_or (franchiseOfUnit (OrganizationID p) unit) (Conflict ''COLLECTION_NOT_FRANCHISE''))
         (\<lambda>franchise. ensure (rq_AmountMinor inp = bs_TotalAmountMinor sh) (Conflict ''COLLECTION_AMOUNT_MISMATCH'')
         (bindE (CreateFranchiseCollection
            \<lparr>fc_ID = 0, fc_PublicID = newID, fc_OrganizationID = OrganizationID p, fc_ShipmentID = bs_ID sh, fc_FranchiseID = franchise, fc_OperatingUnitID = unit,
             fc_CustomerID = bs_CustomerID sh, fc_AmountMinor = rq_AmountMinor inp, fc_Currency = bs_Currency sh, fc_PaymentMode = rq_PaymentMode inp,
             fc_Reference = Optional (rq_Reference inp), fc_Status = ''COLLECTED'', fc_CollectedAt = (case rq_CollectedAt inp of None \<Rightarrow> now | Some d \<Rightarrow> d),
             fc_CollectedBy = UserID p, fc_SettlementID = None, fc_Notes = Optional (rq_Notes inp)\<rparr> db)
         (\<lambda>(c, db1). Inr ((c, False), db1)))))))))))"

end
