(* ===== verification/Statements.thy ===== *)
theory Statements
  imports Settlement
begin

text \<open>
  What the settlement service guarantees: the invariant of the statements over every history of calls of the
  settlement, collection, adjustment and commission services and of postings by the others, and what follows of
  it. A row is looked up by its id; a call changes one row, and a frame lemma carries the others over.
\<close>

subsection \<open>Statements by id\<close>

definition stl :: "SettlementDB \<Rightarrow> int \<Rightarrow> Settlement option" where
  "stl db i = find (\<lambda>s. st_ID s = i) (settlements db)"

definition lines_of :: "SettlementDB \<Rightarrow> int \<Rightarrow> SettlementLine list" where
  "lines_of db i = filter (\<lambda>l. ln_SettlementID l = i) (settlement_lines db)"

definition ids_ok :: "SettlementDB \<Rightarrow> bool" where
  "ids_ok db \<longleftrightarrow> distinct (map st_ID (settlements db)) \<and> (\<forall>i\<in>set (map st_ID (settlements db)). i < next_settlement db)"

lemma find_key: "distinct (map k xs) \<Longrightarrow> x \<in> set xs \<Longrightarrow> find (\<lambda>y. k y = k x) xs = Some x"
  by (induction xs) (auto simp: image_iff)

lemma stl_Some: "ids_ok db \<Longrightarrow> stl db i = Some s \<longleftrightarrow> s \<in> set (settlements db) \<and> st_ID s = i"
  using find_key [of st_ID "settlements db" s] by (auto simp: stl_def ids_ok_def dest: find_SomeD)

lemma GetSettlement_stl: "ids_ok db \<Longrightarrow> GetSettlementByPublicID db org pid = Some h \<Longrightarrow> stl db (st_ID h) = Some h \<and> st_OrganizationID h = org"
  by (auto simp: GetSettlementByPublicID_def stl_Some dest!: find_SomeD)

lemma Lock_stl: "ids_ok db \<Longrightarrow> LockSettlement db org i = Some s \<Longrightarrow> stl db i = Some s \<and> st_OrganizationID s = org \<and> st_ID s = i"
  by (auto simp: LockSettlement_def stl_Some dest!: find_SomeD)

text \<open>The header that was read is the row that is locked.\<close>

lemma locked_header: "ids_ok db \<Longrightarrow> GetSettlementByPublicID db org pid = Some h \<Longrightarrow> LockSettlement db org (st_ID h) = Some s \<Longrightarrow> s = h"
  using GetSettlement_stl [of db org pid h] Lock_stl [of db org "st_ID h" s] by simp

lemma find_map_key:
  assumes "\<And>u. k (f u) = k u"
  shows "find (\<lambda>s. k s = i) (map f xs) = map_option f (find (\<lambda>s. k s = i) xs)"
  by (induction xs) (simp_all add: assms)

lemma update_settlement_Some:
  assumes "update_settlement g f db = Some (s', db')" "ids_ok db" "\<And>u. g u \<Longrightarrow> st_ID u = i" "\<And>u. st_ID (f u) = st_ID u"
  obtains s where "stl db i = Some s" "g s" "s' = f s" "stl db' = (stl db)(i \<mapsto> f s)" "db' = db\<lparr>settlements := settlements db'\<rparr>" "ids_ok db'"
    "settlements db' = map (\<lambda>u. if st_ID u = i then f s else u) (settlements db)"
proof -
  obtain s where s: "find g (settlements db) = Some s" "s' = f s" "db' = db\<lparr>settlements := map (\<lambda>u. if g u then f u else u) (settlements db)\<rparr>"
    using assms(1) by (auto simp: update_settlement_def split: option.splits)
  have gs: "g s" "s \<in> set (settlements db)" using find_SomeD [OF s(1)] by auto
  then have row: "stl db i = Some s" using assms(2,3) by (simp add: stl_Some)
  have "stl db' = (stl db)(i \<mapsto> f s)"
  proof
    fix j
    have "stl db' j = map_option (\<lambda>u. if g u then f u else u) (stl db j)"
      by (simp add: stl_def s(3) find_map_key assms(4))
    moreover have "\<not> g u" if "stl db j = Some u" "j \<noteq> i" for u using that assms(2,3) by (auto simp: stl_Some)
    ultimately show "stl db' j = ((stl db)(i \<mapsto> f s)) j" using row gs(1) by (cases "stl db j") auto
  qed
  moreover have "map st_ID (settlements db') = map st_ID (settlements db)" "next_settlement db' = next_settlement db" by (simp_all add: s(3) assms(4))
  then have "ids_ok db'" using assms(2) by (metis ids_ok_def)
  moreover have "db' = db\<lparr>settlements := settlements db'\<rparr>" by (simp add: s(3))
  moreover have "(if g u then f u else u) = (if st_ID u = i then f s else u)" if "u \<in> set (settlements db)" for u
  proof (cases "st_ID u = i")
    case True
    then have "stl db i = Some u" using that assms(2) by (simp add: stl_Some)
    then have "u = s" using row by simp
    then show ?thesis using True gs(1) by simp
  next
    case False
    then show ?thesis using assms(3) by auto
  qed
  then have "settlements db' = map (\<lambda>u. if st_ID u = i then f s else u) (settlements db)" by (simp add: s(3))
  ultimately show ?thesis using that [OF row gs(1) s(2)] by blast
qed

lemma CreateSettlement_Inr:
  assumes "CreateSettlement s db = Inr (s', db')" "ids_ok db"
  shows "s' = s\<lparr>st_ID := next_settlement db\<rparr> \<and> stl db (st_ID s') = None \<and> stl db' = (stl db)(st_ID s' \<mapsto> s') \<and> ids_ok db'
    \<and> db' = db\<lparr>settlements := settlements db @ [s'], next_settlement := next_settlement db + 1\<rparr>"
proof -
  have s': "s' = s\<lparr>st_ID := next_settlement db\<rparr>" "db' = db\<lparr>settlements := settlements db @ [s'], next_settlement := next_settlement db + 1\<rparr>"
    using assms(1) by (auto simp: CreateSettlement_def res_simps Let_def)
  have none: "stl db (next_settlement db) = None" using assms(2) by (auto simp: stl_def ids_ok_def find_None_iff)
  have "stl db' = (stl db)(st_ID s' \<mapsto> s')"
  proof
    fix j
    have app: "find P (xs @ [x]) = (case find P xs of None \<Rightarrow> if P x then Some x else None | Some y \<Rightarrow> Some y)" for P xs and x :: Settlement
      by (induction xs) simp_all
    show "stl db' j = ((stl db)(st_ID s' \<mapsto> s')) j" using none by (auto simp: stl_def s' app split: option.splits)
  qed
  moreover have "ids_ok db'" using assms(2) by (force simp: ids_ok_def s')
  ultimately show ?thesis using none by (auto simp: s')
qed

subsection \<open>Writing the lines\<close>

lemma draft_line_fields [simp]: "ln_SettlementID (draft_line org s i d) = st_ID s" "ln_AmountMinor (draft_line org s i d) = ld_AmountMinor d"
    "ln_SourceType (draft_line org s i d) = ld_SourceType d" "ln_SourceID (draft_line org s i d) = ld_SourceID d" "ln_Category (draft_line org s i d) = ld_Category d"
    "ln_LineNo (draft_line org s i d) = wrap32 (int i + 1)"
  by (simp_all add: draft_line_def)

abbreviation draft_lines :: "int \<Rightarrow> Settlement \<Rightarrow> nat \<Rightarrow> lineDraft list \<Rightarrow> SettlementLine list" where
  "draft_lines org s n ds \<equiv> map (\<lambda>(i, d). draft_line org s i d) (enumerate n ds)"

lemma write_lines:
  assumes "foldE (\<lambda>(i, d). CreateSettlementLine (draft_line org s i d)) (enumerate n ds) db = Inr db'"
  shows "db' = db\<lparr>settlement_lines := settlement_lines db @ draft_lines org s n ds\<rparr>"
  using assms
proof (induction ds arbitrary: n db)
  case Nil
  then show ?case by simp
next
  case (Cons d ds)
  then obtain db1 where c: "CreateSettlementLine (draft_line org s n d) db = Inr db1"
      and rest: "foldE (\<lambda>(i, d). CreateSettlementLine (draft_line org s i d)) (enumerate (Suc n) ds) db1 = Inr db'"
    by (auto simp: res_simps)
  have "db1 = db\<lparr>settlement_lines := settlement_lines db @ [draft_line org s n d]\<rparr>" using c by (auto simp: CreateSettlementLine_def res_simps)
  then show ?case using Cons.IH [OF rest] by simp
qed

lemma enumerate_map_snd: "map f (map snd (enumerate n xs)) = map f xs"
  by simp

lemma draft_lines_amounts: "sum_list (map ln_AmountMinor (draft_lines org s n ds)) = sum_list (map ld_AmountMinor ds)"
  by (induction ds arbitrary: n) simp_all

subsection \<open>The figures\<close>

lemma sum64_0: "sum64 0 xs = wrap64 (sum_list xs)"
  by (simp add: sum64_wrap)

lemma foldl_sub64: "in64 a \<Longrightarrow> foldl sub64 a xs = wrap64 (a - sum_list xs)"
proof (induction xs arbitrary: a)
  case Nil
  then show ?case by simp
next
  case (Cons x xs)
  have "foldl sub64 a (x # xs) = wrap64 (sub64 a x - sum_list xs)" using Cons.IH [of "sub64 a x"] by simp
  also have "\<dots> = wrap64 (a - x - sum_list xs)" unfolding sub64_def by (rule wrap64_push)
  finally show ?case by (simp add: diff_diff_eq)
qed

lemma sum_list_split: "sum_list (map f (filter P xs)) + sum_list (map f (filter (\<lambda>x. \<not> P x) xs)) = sum_list (map f xs)" for f :: "'a \<Rightarrow> int"
  by (induction xs) simp_all

lemma wrap64_sum_map: "wrap64 (sum_list (map (\<lambda>x. wrap64 (f x)) xs)) = wrap64 (sum_list (map f xs))"
proof (induction xs)
  case (Cons x xs)
  have "wrap64 (sum_list (map (\<lambda>x. wrap64 (f x)) (x # xs))) = wrap64 (f x + wrap64 (sum_list (map (\<lambda>x. wrap64 (f x)) xs)))" by simp
  also have "\<dots> = wrap64 (sum_list (map f (x # xs)))" unfolding Cons.IH by simp
  finally show ?case .
qed simp

lemma sum_list_neg: "sum_list (map (\<lambda>x. - f x) xs) = - sum_list (map f xs)" for f :: "'a \<Rightarrow> int"
  by (induction xs) simp_all

lemma sum_drafts [simp]:
  "sum_list (map (ld_AmountMinor \<circ> commission_draft) cs) = sum_list (map cc_AmountMinor cs)"
  "sum_list (map (ld_AmountMinor \<circ> adjustment_draft) as) = sum_list (map sa_AmountMinor as)"
  by (simp_all add: commission_draft_def adjustment_draft_def comp_def)

lemma wrap_drafts:
  "wrap64 (sum_list (map (ld_AmountMinor \<circ> cod_draft) obs)) = wrap64 (- sum_list (map held_cod obs))"
  "wrap64 (sum_list (map (ld_AmountMinor \<circ> collection_draft awbOf) fcs)) = wrap64 (- sum_list (map fc_AmountMinor fcs))"
  by (simp_all add: cod_draft_def collection_draft_def comp_def neg64_def wrap64_sum_map sum_list_neg)

lemma wrap64_add_cong: "wrap64 a = wrap64 a' \<Longrightarrow> wrap64 b = wrap64 b' \<Longrightarrow> wrap64 (a + b) = wrap64 (a' + b')"
  by (metis wrap64_push(1,2))

text \<open>The lines add up to the components of the header.\<close>

lemma figures_total:
  assumes "figures awbOf bp prev cs obs fcs adjs = Inr fg"
  shows "wrap64 (sum_list (map ld_AmountMinor (fg_Drafts fg)))
    = wrap64 (fg_Commission fg + fg_Incentive fg + fg_Cod fg + fg_Penalties fg + fg_Adjustments fg + neg64 (fg_Withholding fg) + fg_Collections fg + fg_Opening fg)"
proof -
  let ?vi = "\<lambda>c. categoryForCommission (cc_CommissionType c) = ''VOLUME_INCENTIVE''"
  define C I H F P J A where d: "C = sum_list (map cc_AmountMinor (filter (\<lambda>c. \<not> ?vi c) cs))" "I = sum_list (map cc_AmountMinor (filter ?vi cs))"
    "H = sum_list (map held_cod (filter (\<lambda>ob. held_cod ob \<noteq> 0) obs))" "F = sum_list (map fc_AmountMinor fcs)"
    "P = sum_list (map sa_AmountMinor (filter (\<lambda>a. sa_AdjustmentType a = ''PENALTY'') adjs))"
    "J = sum_list (map sa_AmountMinor (filter (\<lambda>a. sa_AdjustmentType a = ''INCENTIVE'') adjs))"
    "A = sum_list (map sa_AmountMinor (filter (\<lambda>a. sa_AdjustmentType a \<noteq> ''PENALTY'' \<and> sa_AdjustmentType a \<noteq> ''INCENTIVE'') adjs))"
  let ?e = "add64 (wrap64 C) (add64 (wrap64 I) (wrap64 J))"
  have e: "add64 (sum64 0 (map cc_AmountMinor (filter (\<lambda>c. \<not> ?vi c) cs))) (add64 (sum64 0 (map cc_AmountMinor (filter ?vi cs)))
      (sum64 0 (map sa_AmountMinor (filter (\<lambda>a. sa_AdjustmentType a = ''INCENTIVE'') adjs)))) = ?e" by (simp add: sum64_0 d)
  obtain w where w: "(if 0 < bp \<and> 0 < ?e then ApplyBP ?e bp else Inr 0) = Inr w"
    and rec: "fg = \<lparr>fg_Drafts = opening_drafts prev @ map commission_draft cs @ map cod_draft (filter (\<lambda>ob. held_cod ob \<noteq> 0) obs) @ map (collection_draft awbOf) fcs
          @ map adjustment_draft adjs @ withholding_drafts bp ?e w,
        fg_Commission = sum64 0 (map cc_AmountMinor (filter (\<lambda>c. \<not> ?vi c) cs)), fg_Incentive = add64 (sum64 0 (map cc_AmountMinor (filter ?vi cs)))
          (sum64 0 (map sa_AmountMinor (filter (\<lambda>a. sa_AdjustmentType a = ''INCENTIVE'') adjs))),
        fg_Cod = foldl sub64 0 (map held_cod (filter (\<lambda>ob. held_cod ob \<noteq> 0) obs)), fg_Collections = foldl sub64 0 (map fc_AmountMinor fcs),
        fg_Penalties = sum64 0 (map sa_AmountMinor (filter (\<lambda>a. sa_AdjustmentType a = ''PENALTY'') adjs)),
        fg_Adjustments = sum64 0 (map sa_AmountMinor (filter (\<lambda>a. sa_AdjustmentType a \<notin> {''PENALTY'', ''INCENTIVE''}) adjs)),
        fg_Withholding = w, fg_Opening = (case prev of None \<Rightarrow> 0 | Some (balance, _) \<Rightarrow> balance)\<rparr>"
    using assms unfolding figures_def Let_def bindE_Inr e by blast
  have fg: "fg_Drafts fg = opening_drafts prev @ map commission_draft cs @ map cod_draft (filter (\<lambda>ob. held_cod ob \<noteq> 0) obs) @ map (collection_draft awbOf) fcs
        @ map adjustment_draft adjs @ withholding_drafts bp ?e w"
      "fg_Commission fg = wrap64 C" "fg_Incentive fg = add64 (wrap64 I) (wrap64 J)" "fg_Cod fg = wrap64 (- H)" "fg_Collections fg = wrap64 (- F)"
      "fg_Penalties fg = wrap64 P" "fg_Adjustments fg = wrap64 A" "fg_Withholding fg = w" "fg_Opening fg = (case prev of None \<Rightarrow> 0 | Some (balance, _) \<Rightarrow> balance)"
    by (simp_all add: rec sum64_0 foldl_sub64 d)
  have adj: "sum_list (map sa_AmountMinor adjs) = P + J + A"
    unfolding d by (induction adjs) auto
  have opn: "sum_list (map ld_AmountMinor (opening_drafts prev)) = fg_Opening fg"
    unfolding fg by (auto simp: opening_drafts_def split: option.split)
  have withheld: "wrap64 (sum_list (map ld_AmountMinor (withholding_drafts bp ?e w))) = wrap64 (- w)"
    using w by (auto simp: withholding_drafts_def neg64_def split: if_splits)
  have "wrap64 (sum_list (map ld_AmountMinor (fg_Drafts fg))) = wrap64 (fg_Opening fg + ((I + C) + (- H + (- F + ((P + J + A) + - w)))))"
    unfolding fg(1) map_append sum_list.append map_map opn
    by (intro wrap64_add_cong refl withheld) (simp_all add: wrap_drafts adj withheld sum_list_split d)
  also have "\<dots> = wrap64 (wrap64 C + add64 (wrap64 I) (wrap64 J) + wrap64 (- H) + wrap64 P + wrap64 A + neg64 w + wrap64 (- F) + fg_Opening fg)"
  proof -
    have "fg_Opening fg + ((I + C) + (- H + (- F + ((P + J + A) + - w)))) = C + (I + J) + - H + P + A + - w + - F + fg_Opening fg" by simp
    then show ?thesis unfolding add64_def neg64_def by (simp only:) (intro wrap64_add_cong refl; simp)
  qed
  finally show ?thesis unfolding fg(2-8) by simp
qed


subsection \<open>A calculation\<close>

lemma with_totals_fields [simp]: "st_ID (with_totals u fg n h s) = st_ID s" "st_OrganizationID (with_totals u fg n h s) = st_OrganizationID s"
    "st_Status (with_totals u fg n h s) = ''CALCULATED''" "st_NetAmountMinor (with_totals u fg n h s) = n" "st_PaidMinor (with_totals u fg n h s) = st_PaidMinor s"
    "st_FranchiseID (with_totals u fg n h s) = st_FranchiseID s" "st_PeriodStart (with_totals u fg n h s) = st_PeriodStart s"
    "st_PeriodEnd (with_totals u fg n h s) = st_PeriodEnd s" "st_ApprovedBy (with_totals u fg n h s) = st_ApprovedBy s"
  by (simp_all add: with_totals_def)

abbreviation swept_commission :: "Principal \<Rightarrow> Settlement \<Rightarrow> int \<Rightarrow> SettlementDB \<Rightarrow> CommissionCalculation list" where
  "swept_commission p s f db \<equiv> SweepCommissionForSettlement (commission db) (OrganizationID p) f (st_ID s) (st_PeriodStart s) (next_day (st_PeriodEnd s))"

abbreviation swept_cod :: "Principal \<Rightarrow> Settlement \<Rightarrow> int \<Rightarrow> SettlementDB \<Rightarrow> CodObligation list" where
  "swept_cod p s f db \<equiv> SweepCODForSettlement (cod_obligations db) (OrganizationID p) f (st_PeriodStart s) (next_day (st_PeriodEnd s))"

abbreviation swept_collections :: "Principal \<Rightarrow> Settlement \<Rightarrow> int \<Rightarrow> SettlementDB \<Rightarrow> FranchiseCollection list" where
  "swept_collections p s f db \<equiv> SweepFranchiseCollectionsForSettlement (franchise_collections db) (OrganizationID p) f (st_PeriodStart s) (next_day (st_PeriodEnd s))"

abbreviation statement_lines :: "Principal \<Rightarrow> Settlement \<Rightarrow> Figures \<Rightarrow> SettlementLine list" where
  "statement_lines p s fg \<equiv> draft_lines (OrganizationID p) s 0 (sort_drafts (fg_Drafts fg))"

lemma calculate_Inr:
  assumes calc: "calculate_settlement sha awbOf bp p s f db = Inr (res, db')" and ok: "ids_ok db" and row: "stl db (st_ID s) = Some s"
  obtains prev fg where
    "st_Status s \<in> {''DRAFT'', ''CALCULATED''}" "st_OrganizationID s = OrganizationID p"
    "GetPreviousSettlementBalance db (OrganizationID p) f (st_PeriodStart s) = Inr prev"
    "figures awbOf bp prev (swept_commission p s f db) (swept_cod p s f db) (swept_collections p s f db) (ListPendingAdjustmentsForSettlement db (st_ID s)) = Inr fg"
    "res = \<lparr>sr_Settlement = with_totals (UserID p) fg (sum64 0 (map ld_AmountMinor (sort_drafts (fg_Drafts fg)))) (hashDrafts sha (sort_drafts (fg_Drafts fg))) s,
       sr_Lines = ListSettlementLines db' (st_ID s), sr_Replayed = False\<rparr>"
    "stl db' = (stl db)(st_ID s \<mapsto> sr_Settlement res)" "ids_ok db'"
    "settlements db' = map (\<lambda>u. if st_ID u = st_ID s then sr_Settlement res else u) (settlements db)"
    "db' = db\<lparr>settlements := settlements db', settlement_lines := filter (\<lambda>l. ln_SettlementID l \<noteq> st_ID s) (settlement_lines db) @ statement_lines p s fg,
       commission := AttachCalculationsToSettlement (OrganizationID p) (st_ID s) (map cc_ID (swept_commission p s f db)) (commission db),
       franchise_collections := AttachFranchiseCollectionsToSettlement (OrganizationID p) (st_ID s) (map fc_ID (swept_collections p s f db)) (franchise_collections db)\<rparr>"
proof -
  let ?db1 = "db\<lparr>settlement_lines := filter (\<lambda>l. ln_SettlementID l \<noteq> st_ID s) (settlement_lines db)\<rparr>"
  have same: "GetPreviousSettlementBalance ?db1 = GetPreviousSettlementBalance db" "ListPendingAdjustmentsForSettlement ?db1 = ListPendingAdjustmentsForSettlement db"
    by (simp_all add: GetPreviousSettlementBalance_def ListPendingAdjustmentsForSettlement_def fun_eq_iff)
  obtain prev fg db2 updated db3 where prev: "GetPreviousSettlementBalance db (OrganizationID p) f (st_PeriodStart s) = Inr prev"
    and fg: "figures awbOf bp prev (swept_commission p s f db) (swept_cod p s f db) (swept_collections p s f db) (ListPendingAdjustmentsForSettlement db (st_ID s)) = Inr fg"
    and w: "foldE (\<lambda>(i, d). CreateSettlementLine (draft_line (OrganizationID p) s i d)) (enumerate 0 (sort_drafts (fg_Drafts fg))) ?db1 = Inr db2"
    and u: "ApplySettlementTotals (OrganizationID p) (st_ID s) (UserID p) fg (sum64 0 (map ld_AmountMinor (sort_drafts (fg_Drafts fg))))
        (hashDrafts sha (sort_drafts (fg_Drafts fg))) db2 = Some (updated, db3)"
    and db4: "db' = db3\<lparr>commission := AttachCalculationsToSettlement (OrganizationID p) (st_ID updated) (map cc_ID (swept_commission p s f db)) (commission db3),
        franchise_collections := AttachFranchiseCollectionsToSettlement (OrganizationID p) (st_ID updated) (map fc_ID (swept_collections p s f db)) (franchise_collections db3)\<rparr>"
    and res: "res = \<lparr>sr_Settlement = updated, sr_Lines = ListSettlementLines db' (st_ID updated), sr_Replayed = False\<rparr>"
    using calc unfolding calculate_settlement_def DeleteSettlementLines_def Let_def by (auto simp: res_simps same)
  note db2 = write_lines [OF w]
  have s2: "stl db2 = stl db" "ids_ok db2" using ok by (simp_all add: db2 stl_def ids_ok_def fun_eq_iff)
  from u [unfolded ApplySettlementTotals_def] s2(2) obtain r where r: "stl db2 (st_ID s) = Some r" "st_OrganizationID r = OrganizationID p" "st_Status r \<in> {''DRAFT'', ''CALCULATED''}"
      "updated = with_totals (UserID p) fg (sum64 0 (map ld_AmountMinor (sort_drafts (fg_Drafts fg)))) (hashDrafts sha (sort_drafts (fg_Drafts fg))) r"
      "stl db3 = (stl db2)(st_ID s \<mapsto> updated)" "db3 = db2\<lparr>settlements := settlements db3\<rparr>" "ids_ok db3"
      "settlements db3 = map (\<lambda>u. if st_ID u = st_ID s then updated else u) (settlements db2)"
    by (elim update_settlement_Some [where i = "st_ID s"]) auto
  have rs: "r = s" using r(1) row s2(1) by simp
  have eq: "settlements db' = settlements db3" "next_settlement db' = next_settlement db3" by (simp_all add: db4)
  have db3: "db3 = db\<lparr>settlements := settlements db3, settlement_lines := filter (\<lambda>l. ln_SettlementID l \<noteq> st_ID s) (settlement_lines db) @ statement_lines p s fg\<rparr>"
    by (subst r(6)) (simp add: db2)
  let ?A = "AttachCalculationsToSettlement (OrganizationID p) (st_ID s) (map cc_ID (swept_commission p s f db)) (commission db)"
    and ?B = "AttachFranchiseCollectionsToSettlement (OrganizationID p) (st_ID s) (map fc_ID (swept_collections p s f db)) (franchise_collections db)"
  have "commission db3 = commission db" "franchise_collections db3 = franchise_collections db" by (subst db3, simp)+
  then have "db' = db3\<lparr>commission := ?A, franchise_collections := ?B\<rparr>" using db4 r(4) rs by simp
  then have "db' = db\<lparr>settlements := settlements db', settlement_lines := filter (\<lambda>l. ln_SettlementID l \<noteq> st_ID s) (settlement_lines db) @ statement_lines p s fg,
       commission := ?A, franchise_collections := ?B\<rparr>"
    using arg_cong [OF db3, of "\<lambda>d. d\<lparr>commission := ?A, franchise_collections := ?B\<rparr>"] eq(1) by simp
  moreover have "stl db' = (stl db)(st_ID s \<mapsto> sr_Settlement res)" "ids_ok db'"
    using r(5,7) s2(1) by (auto simp: stl_def ids_ok_def eq res fun_eq_iff)
  moreover have "settlements db' = map (\<lambda>u. if st_ID u = st_ID s then sr_Settlement res else u) (settlements db)"
    using r(8) by (simp add: eq(1) db2 res)
  ultimately show ?thesis using that [of prev fg] prev fg r(2-4) res rs by simp
qed

subsection \<open>The invariant\<close>

definition components :: "Settlement \<Rightarrow> int" where
  "components s = st_CommissionMinor s + st_IncentiveMinor s + st_CodLiabilityMinor s + st_ChargesMinor s + st_PenaltiesMinor s + st_AdjustmentsMinor s
     + st_TaxMinor s + st_WithholdingMinor s + st_CollectionsMinor s + st_OpeningBalanceMinor s"

definition paid_sum :: "SettlementDB \<Rightarrow> int \<Rightarrow> int" where
  "paid_sum db i = sum_list (map sy_AmountMinor (filter (\<lambda>y. sy_SettlementID y = i) (settlement_payments db)))"

text \<open>The statement agrees with its lines and with the components of its header.\<close>

definition reconciled :: "SettlementDB \<Rightarrow> Settlement \<Rightarrow> bool" where
  "reconciled db s \<longleftrightarrow> in64 (st_NetAmountMinor s) \<and> (st_Status s \<notin> {''DRAFT'', ''CANCELLED''} \<longrightarrow>
     sum_list (map ln_AmountMinor (lines_of db (st_ID s))) = st_NetAmountMinor s \<and> wrap64 (components s) = st_NetAmountMinor s)"

text \<open>How far a statement is paid, by its status.\<close>

definition progress :: "Settlement \<Rightarrow> bool" where
  "progress s \<longleftrightarrow>
     (if st_Status s \<in> {''DRAFT'', ''CALCULATED'', ''UNDER_REVIEW'', ''CANCELLED'', ''APPROVED''} then st_PaidMinor s = 0
      else if st_Status s = ''PARTIALLY_PAID'' then 0 < st_PaidMinor s \<and> st_PaidMinor s < \<bar>st_NetAmountMinor s\<bar>
      else st_Status s = ''PAID'' \<and> 0 < st_PaidMinor s \<and> st_PaidMinor s = \<bar>st_NetAmountMinor s\<bar>)"

definition checked :: "Settlement \<Rightarrow> bool" where
  "checked s \<longleftrightarrow> (isFrozen (st_Status s) \<longrightarrow> in64 \<bar>st_NetAmountMinor s\<bar> \<and> (\<exists>u. st_ApprovedBy s = Some u \<and> st_CalculatedBy s \<noteq> Some u))"

abbreviation approval_source :: "Settlement \<Rightarrow> source" where
  "approval_source s \<equiv> (st_OrganizationID s, ''SETTLEMENT'', st_ID s, ''APPROVAL'')"

abbreviation books :: "SettlementDB \<Rightarrow> source \<Rightarrow> (int \<times> int) option" where
  "books db \<equiv> book (comm_ledger (commission db))"

definition booked :: "SettlementDB \<Rightarrow> Settlement \<Rightarrow> bool" where
  "booked db s \<longleftrightarrow>
     (if isFrozen (st_Status s) \<and> st_NetAmountMinor s \<noteq> 0
      then \<exists>j. st_JournalTransactionID s = Some j \<and> books db (approval_source s) = Some (j, \<bar>st_NetAmountMinor s\<bar>)
      else books db (approval_source s) = None)"

definition claimed :: "SettlementDB \<Rightarrow> Settlement \<Rightarrow> int \<Rightarrow> bool" where
  "claimed db s i \<longleftrightarrow> (\<exists>c\<in>set (calculations (commission db)). cc_ID c = i \<and> cc_OrganizationID c = st_OrganizationID s \<and> cc_SettlementID c = Some (st_ID s))"

definition claims_ok :: "SettlementDB \<Rightarrow> Settlement \<Rightarrow> bool" where
  "claims_ok db s \<longleftrightarrow> (st_Status s \<noteq> ''CANCELLED'' \<longrightarrow>
     (\<forall>l\<in>set (lines_of db (st_ID s)). \<forall>i. ln_SourceType l = ''COMMISSION_CALCULATION'' \<and> ln_SourceID l = Some i \<longrightarrow> claimed db s i))"

definition stmt_ok :: "SettlementDB \<Rightarrow> Settlement \<Rightarrow> bool" where
  "stmt_ok db s \<longleftrightarrow> reconciled db s \<and> progress s \<and> st_PaidMinor s = paid_sum db (st_ID s) \<and> checked s \<and> booked db s \<and> claims_ok db s"

definition stl_inv :: "SettlementDB \<Rightarrow> bool" where
  "stl_inv db \<longleftrightarrow> ids_ok db \<and> comm_inv (commission db) \<and> (\<forall>i s. stl db i = Some s \<longrightarrow> stmt_ok db s)
     \<and> (\<forall>l\<in>set (settlement_lines db). ln_SettlementID l < next_settlement db) \<and> (\<forall>y\<in>set (settlement_payments db). sy_SettlementID y < next_settlement db)
     \<and> (\<forall>org i. books db (org, ''SETTLEMENT'', i, ''APPROVAL'') \<noteq> None \<longrightarrow> (\<exists>s. stl db i = Some s \<and> st_OrganizationID s = org))"

lemma stl_invD:
  assumes "stl_inv db"
  shows "ids_ok db" "comm_inv (commission db)" "stl db i = Some s \<Longrightarrow> stmt_ok db s" "stl db i = Some s \<Longrightarrow> st_ID s = i" "stl db i = Some s \<Longrightarrow> i < next_settlement db"
  using assms stl_Some [of db i s] by (auto simp: stl_inv_def ids_ok_def)

lemma stmt_ok_frame:
  assumes "stmt_ok db s" "lines_of db' (st_ID s) = lines_of db (st_ID s)" "paid_sum db' (st_ID s) = paid_sum db (st_ID s)"
    and "books db' (approval_source s) = books db (approval_source s)" "\<And>i. claimed db s i \<Longrightarrow> claimed db' s i"
  shows "stmt_ok db' s"
  using assms by (auto simp: stmt_ok_def reconciled_def booked_def claims_ok_def)

text \<open>One statement changes, the others see none of it.\<close>

lemma stl_inv_step:
  assumes inv: "stl_inv db" and ids: "ids_ok db'" and comm: "comm_inv (commission db')"
    and rows: "stl db' = (stl db)(i \<mapsto> s')" "stl db i = Some s" "st_ID s' = i" "st_OrganizationID s' = st_OrganizationID s" and ok: "stmt_ok db' s'"
    and lines: "\<And>j. j \<noteq> i \<Longrightarrow> lines_of db' j = lines_of db j" "\<forall>l\<in>set (settlement_lines db'). ln_SettlementID l < next_settlement db \<or> ln_SettlementID l = i"
    and paid: "\<And>j. j \<noteq> i \<Longrightarrow> paid_sum db' j = paid_sum db j" "\<forall>y\<in>set (settlement_payments db'). sy_SettlementID y < next_settlement db \<or> sy_SettlementID y = i"
    and book: "\<And>org j. (org, j) \<noteq> (st_OrganizationID s, i) \<Longrightarrow> books db' (org, ''SETTLEMENT'', j, ''APPROVAL'') = books db (org, ''SETTLEMENT'', j, ''APPROVAL'')"
    and claims: "\<And>j u k. stl db j = Some u \<Longrightarrow> j \<noteq> i \<Longrightarrow> claimed db u k \<Longrightarrow> claimed db' u k"
    and nxt: "next_settlement db' = next_settlement db"
  shows "stl_inv db'"
  unfolding stl_inv_def
proof (intro conjI allI impI)
  have i: "i < next_settlement db" using stl_invD(5) [OF inv rows(2)] .
  show "\<forall>l\<in>set (settlement_lines db'). ln_SettlementID l < next_settlement db'" using lines(2) i nxt by auto
  show "\<forall>y\<in>set (settlement_payments db'). sy_SettlementID y < next_settlement db'" using paid(2) i nxt by auto
  fix j u assume u: "stl db' j = Some u"
  show "stmt_ok db' u"
  proof (cases "j = i")
    case True
    then show ?thesis using u ok rows(1) by simp
  next
    case False
    then have o: "stl db j = Some u" using u rows(1) by simp
    then have j: "st_ID u = j" by (rule stl_invD(4) [OF inv])
    show ?thesis
      by (rule stmt_ok_frame [OF stl_invD(3) [OF inv o]]) (use False j lines(1) paid(1) book claims [OF o False] in auto)
  qed
next
  fix org j assume b: "books db' (org, ''SETTLEMENT'', j, ''APPROVAL'') \<noteq> None"
  show "\<exists>u. stl db' j = Some u \<and> st_OrganizationID u = org"
  proof (cases "(org, j) = (st_OrganizationID s, i)")
    case True
    then show ?thesis using rows by simp
  next
    case False
    then have "books db (org, ''SETTLEMENT'', j, ''APPROVAL'') \<noteq> None" using b book by simp
    then obtain u where "stl db j = Some u" "st_OrganizationID u = org" using inv unfolding stl_inv_def by blast
    then show ?thesis using False rows by (cases "j = i") auto
  qed
qed (fact ids comm)+

text \<open>No statement changes.\<close>

lemma stl_inv_other:
  assumes inv: "stl_inv db" and same: "settlements db' = settlements db" "settlement_lines db' = settlement_lines db" "settlement_payments db' = settlement_payments db"
      "next_settlement db' = next_settlement db" and comm: "comm_inv (commission db')"
    and book: "\<And>org j. books db' (org, ''SETTLEMENT'', j, ''APPROVAL'') = books db (org, ''SETTLEMENT'', j, ''APPROVAL'')"
    and claims: "claims_stay (commission db) (commission db')"
  shows "stl_inv db'"
proof -
  have rows: "stl db' = stl db" by (simp add: stl_def same(1) fun_eq_iff)
  have "claimed db' s i" if "claimed db s i" for s i using that claims unfolding claimed_def claims_stay_def by metis
  moreover have "lines_of db' = lines_of db" "paid_sum db' = paid_sum db" by (simp_all add: lines_of_def paid_sum_def same fun_eq_iff)
  ultimately have "stmt_ok db' s" if "stmt_ok db s" for s using that by (elim stmt_ok_frame) (simp_all add: book)
  then show ?thesis using inv comm by (simp add: stl_inv_def rows ids_ok_def same book)
qed


subsection \<open>What the calls keep\<close>

lemma sum_draft_amounts: "sum64 0 (map ld_AmountMinor (sort_drafts ds)) = wrap64 (sum_list (map ld_AmountMinor ds))"
proof -
  have "mset (sort_drafts ds) = mset ds" by (simp add: sort_drafts_def)
  then have "sum_list (map ld_AmountMinor (sort_drafts ds)) = sum_list (map ld_AmountMinor ds)" by (metis mset_map sum_mset_sum_list)
  then show ?thesis by (simp add: sum64_0)
qed

lemma attach_claims:
  assumes "stl_inv db" and commission: "commission db' = AttachCalculationsToSettlement org i (map cc_ID (SweepCommissionForSettlement (commission db) org f i a b)) (commission db)"
  shows "claimed db u k \<Longrightarrow> st_ID u \<noteq> i \<Longrightarrow> claimed db' u k"
    and "c \<in> set (SweepCommissionForSettlement (commission db) org f i a b) \<Longrightarrow> st_ID u = i \<Longrightarrow> st_OrganizationID u = org \<Longrightarrow> claimed db' u (cc_ID c)"
proof -
  let ?S = "SweepCommissionForSettlement (commission db) org f i a b"
  let ?g = "\<lambda>c. if cc_OrganizationID c = org \<and> cc_ID c \<in> set (map cc_ID ?S) then c\<lparr>cc_SettlementID := Some i\<rparr> else c"
  have calcs: "calculations (commission db') = map ?g (calculations (commission db))" by (simp add: commission AttachCalculationsToSettlement_def)
  have "calcs_ok (calculations (commission db)) (next_calculation (commission db))" using stl_invD(2) [OF assms(1)] by (simp add: comm_inv_def)
  note one = calc_same [OF this]
  have S: "d \<in> set (calculations (commission db)) \<and> cc_OrganizationID d = org \<and> (cc_SettlementID d = None \<or> cc_SettlementID d = Some i)" if "d \<in> set ?S" for d
    using that by (auto simp: SweepCommissionForSettlement_def)
  have mem: "?g c \<in> set (calculations (commission db'))" if "c \<in> set (calculations (commission db))" for c using that by (simp only: calcs set_map) (rule imageI)
  show "claimed db' u k" if cl: "claimed db u k" and ne: "st_ID u \<noteq> i"
  proof -
    obtain c where c: "c \<in> set (calculations (commission db))" "cc_ID c = k" "cc_OrganizationID c = st_OrganizationID u" "cc_SettlementID c = Some (st_ID u)"
      using cl by (auto simp: claimed_def)
    have "cc_ID c \<notin> set (map cc_ID ?S)"
    proof
      assume "cc_ID c \<in> set (map cc_ID ?S)"
      then obtain d where d: "d \<in> set ?S" "cc_ID d = cc_ID c" by auto
      then have "d = c" using one S c(1) by blast
      then show False using S [OF d(1)] c(4) ne by simp
    qed
    then have "?g c = c" by simp
    then show ?thesis using mem [OF c(1)] c unfolding claimed_def by metis
  qed
  show "claimed db' u (cc_ID c)" if "c \<in> set ?S" "st_ID u = i" "st_OrganizationID u = org"
  proof -
    have "?g c = c\<lparr>cc_SettlementID := Some i\<rparr>" using S [OF that(1)] that(1) by simp
    then show ?thesis using mem [of c] S [OF that(1)] that(2,3) by (auto simp: claimed_def intro!: bexI [of _ "c\<lparr>cc_SettlementID := Some i\<rparr>"])
  qed
qed

lemma enumerate_mem: "x \<in> set (draft_lines org s n ds) \<Longrightarrow> \<exists>i. \<exists>d\<in>set ds. x = draft_line org s i d"
  by (auto simp: in_set_enumerate_eq) (metis add_diff_cancel_left' in_set_conv_nth le_add_diff_inverse less_diff_conv2 nat_add_left_cancel_less)

text \<open>Only commissions that were swept become commission lines.\<close>

lemma commission_source:
  assumes "figures awbOf bp prev cs obs fcs adjs = Inr fg" "d \<in> set (fg_Drafts fg)" "ld_SourceType d = ''COMMISSION_CALCULATION''"
  shows "\<exists>c\<in>set cs. d = commission_draft c"
  using assms by (auto simp: figures_def Let_def res_simps opening_drafts_def withholding_drafts_def cod_draft_def collection_draft_def adjustment_draft_def
      split: option.splits if_splits)

lemma calculate_inv:
  assumes inv: "stl_inv db" and calc: "calculate_settlement sha awbOf bp p s f db = Inr (res, db')" and row: "stl db (st_ID s) = Some s"
    and commit: "assert_settlement_totals db' (st_ID s)"
  shows "stl_inv db'"
proof -
  let ?i = "st_ID s"
  obtain prev fg where st: "st_Status s \<in> {''DRAFT'', ''CALCULATED''}" and org: "st_OrganizationID s = OrganizationID p"
    and prev: "GetPreviousSettlementBalance db (OrganizationID p) f (st_PeriodStart s) = Inr prev"
    and fg: "figures awbOf bp prev (swept_commission p s f db) (swept_cod p s f db) (swept_collections p s f db) (ListPendingAdjustmentsForSettlement db ?i) = Inr fg"
    and res: "res = \<lparr>sr_Settlement = with_totals (UserID p) fg (sum64 0 (map ld_AmountMinor (sort_drafts (fg_Drafts fg)))) (hashDrafts sha (sort_drafts (fg_Drafts fg))) s,
       sr_Lines = ListSettlementLines db' ?i, sr_Replayed = False\<rparr>"
    and rows: "stl db' = (stl db)(?i \<mapsto> sr_Settlement res)" and ids: "ids_ok db'"
    and lst: "settlements db' = map (\<lambda>u. if st_ID u = ?i then sr_Settlement res else u) (settlements db)"
    and db': "db' = db\<lparr>settlements := settlements db', settlement_lines := filter (\<lambda>l. ln_SettlementID l \<noteq> ?i) (settlement_lines db) @ statement_lines p s fg,
       commission := AttachCalculationsToSettlement (OrganizationID p) ?i (map cc_ID (swept_commission p s f db)) (commission db),
       franchise_collections := AttachFranchiseCollectionsToSettlement (OrganizationID p) ?i (map fc_ID (swept_collections p s f db)) (franchise_collections db)\<rparr>"
    by (rule calculate_Inr [OF calc stl_invD(1) [OF inv] row])
  have f: "settlement_lines db' = filter (\<lambda>l. ln_SettlementID l \<noteq> ?i) (settlement_lines db) @ statement_lines p s fg"
    "commission db' = AttachCalculationsToSettlement (OrganizationID p) ?i (map cc_ID (swept_commission p s f db)) (commission db)"
    "settlement_payments db' = settlement_payments db" "next_settlement db' = next_settlement db" by (subst db', simp)+
  let ?s = "sr_Settlement res"
  have s: "st_ID ?s = ?i" "st_Status ?s = ''CALCULATED''" "st_OrganizationID ?s = OrganizationID p" "st_PaidMinor ?s = st_PaidMinor s"
    "st_NetAmountMinor ?s = wrap64 (sum_list (map ld_AmountMinor (fg_Drafts fg)))"
    using org by (simp_all add: res sum_draft_amounts)
  have ok: "stmt_ok db s" by (rule stl_invD(3) [OF inv row])
  have mine: "\<forall>x\<in>set (statement_lines p s fg). ln_SettlementID x = ?i" by (auto dest!: enumerate_mem)
  have lines: "lines_of db' ?i = statement_lines p s fg" using mine by (auto simp: lines_of_def f(1) filter_id_conv filter_empty_conv)
  have lines': "lines_of db' j = lines_of db j" if "j \<noteq> ?i" for j
    using mine that by (auto simp: lines_of_def f(1) filter_empty_conv intro: filter_cong)
  have books: "books db' = books db" by (simp add: f(2) AttachCalculationsToSettlement_def)
  note att = attach_claims [OF inv f(2)]
  have ok': "stmt_ok db' ?s"
    unfolding stmt_ok_def
  proof (intro conjI)
    have "sum_list (map ln_AmountMinor (lines_of db' ?i)) = st_NetAmountMinor ?s"
    proof -
      have "find (\<lambda>u. st_ID u = ?i) (settlements db') = Some ?s" using rows by (metis fun_upd_same stl_def)
      then show ?thesis using commit s(2) by (simp add: assert_settlement_totals_def lines_of_def)
    qed
    moreover have "wrap64 (components ?s) = st_NetAmountMinor ?s"
      unfolding s(5) figures_total [OF fg] by (simp add: components_def res with_totals_def add.assoc)
    ultimately show "reconciled db' ?s" unfolding reconciled_def s(1) by (simp add: s(5))
    have "st_PaidMinor s = 0" using ok st by (auto simp: stmt_ok_def progress_def)
    then show "progress ?s" by (simp add: progress_def s(2,4))
    show "st_PaidMinor ?s = paid_sum db' (st_ID ?s)" using ok by (simp add: stmt_ok_def s(1,4) paid_sum_def f(3))
    show "checked ?s" by (simp add: checked_def s(2) isFrozen_def)
    have "books db (approval_source s) = None" using ok st by (auto simp: stmt_ok_def booked_def isFrozen_def)
    then show "booked db' ?s" by (simp add: booked_def s(1-3) isFrozen_def books org)
    show "claims_ok db' ?s"
      unfolding claims_ok_def s(1)
    proof (intro impI ballI allI)
      fix l k assume "l \<in> set (lines_of db' ?i)" and k: "ln_SourceType l = ''COMMISSION_CALCULATION'' \<and> ln_SourceID l = Some k"
      then have "l \<in> set (statement_lines p s fg)" by (simp only: lines)
      then obtain n d where d: "d \<in> set (sort_drafts (fg_Drafts fg))" "l = draft_line (OrganizationID p) s n d"
        using enumerate_mem by blast
      then obtain c where "c \<in> set (swept_commission p s f db)" "d = commission_draft c"
        using commission_source [OF fg, of d] k by (auto simp: sort_drafts_def)
      then show "claimed db' ?s k" using att(2) [of c ?s] k d s(1,3) by (simp add: commission_draft_def)
    qed
  qed
  show ?thesis
  proof (rule stl_inv_step [OF inv ids _ rows row _ _ ok'])
    show "comm_inv (commission db')" unfolding f(2) by (rule comm_inv_claims [OF stl_invD(2) [OF inv] claims_kept(1)])
    show "\<forall>l\<in>set (settlement_lines db'). ln_SettlementID l < next_settlement db \<or> ln_SettlementID l = ?i"
      using inv mine by (auto simp: f(1) stl_inv_def)
    show "\<forall>y\<in>set (settlement_payments db'). sy_SettlementID y < next_settlement db \<or> sy_SettlementID y = ?i" using inv by (auto simp: f(3) stl_inv_def)
    show "claimed db' u k" if "stl db j = Some u" "j \<noteq> ?i" "claimed db u k" for j u k
      using att(1) [of u k] that stl_invD(4) [OF inv that(1)] by simp
  qed (simp_all add: s org lines' books paid_sum_def f(3,4))
qed


lemma book_sequences [simp]: "book (l\<lparr>op_sequences := t\<rparr>) = book l"
  by (simp add: book_def FindJournalBySource_def fun_eq_iff)

lemma comm_inv_sequences: "comm_inv (c\<lparr>comm_ledger := (comm_ledger c)\<lparr>op_sequences := t\<rparr>\<rparr>) = comm_inv c"
  by (simp add: comm_inv_def ledger_struct_def accounts_ok_def journals_ok_def entries_ok_def has_account_def accrued_def booked_for_def)

lemma number_inv:
  assumes "AllocateSettlementNumber org kind d db = Inr (n, db')" "stl_inv db"
  shows "stl_inv db' \<and> stl db' = stl db \<and> settlement_lines db' = settlement_lines db \<and> books db' = books db"
proof -
  obtain t where db': "db' = db\<lparr>commission := (commission db)\<lparr>comm_ledger := (comm_ledger (commission db))\<lparr>op_sequences := t\<rparr>\<rparr>\<rparr>"
    using assms(1) by (auto simp: AllocateSettlementNumber_def Let_def res_simps)
  have "stl_inv db'"
    by (rule stl_inv_other [OF assms(2)]) (use stl_invD(2) [OF assms(2)] in \<open>auto simp: db' comm_inv_sequences claims_stay_def\<close>)
  then show ?thesis by (simp add: db' stl_def fun_eq_iff)
qed

lemma create_inv:
  assumes inv: "stl_inv db" and new: "CreateSettlement s db = Inr (s', db')"
    and blank: "st_Status s = ''DRAFT''" "st_NetAmountMinor s = 0" "st_PaidMinor s = 0"
  shows "stl_inv db' \<and> stl db' (st_ID s') = Some s'"
proof -
  have c: "s' = s\<lparr>st_ID := next_settlement db\<rparr>" "stl db (st_ID s') = None" "stl db' = (stl db)(st_ID s' \<mapsto> s')" "ids_ok db'"
    "db' = db\<lparr>settlements := settlements db @ [s'], next_settlement := next_settlement db + 1\<rparr>"
    using CreateSettlement_Inr [OF new stl_invD(1) [OF inv]] by auto
  have id: "st_ID s' = next_settlement db" by (simp add: c(1))
  have none: "filter (\<lambda>l. ln_SettlementID l = next_settlement db) (settlement_lines db) = []" "filter (\<lambda>y. sy_SettlementID y = next_settlement db) (settlement_payments db) = []"
    using inv by (auto simp: stl_inv_def filter_empty_conv)
  have "books db (org, ''SETTLEMENT'', st_ID s', ''APPROVAL'') = None" for org
    using inv c(2) unfolding stl_inv_def by (metis option.distinct(1))
  then have "stmt_ok db' s'"
    using none blank unfolding stmt_ok_def
    by (simp add: reconciled_def progress_def checked_def booked_def claims_ok_def isFrozen_def c(1) c(5) lines_of_def paid_sum_def)
  moreover have "stmt_ok db' u" if "stl db j = Some u" for j u
    by (rule stmt_ok_frame [OF stl_invD(3) [OF inv that]]) (simp_all add: c(5) lines_of_def paid_sum_def claimed_def)
  ultimately have "\<forall>j u. stl db' j = Some u \<longrightarrow> stmt_ok db' u" using c(3) by auto
  moreover have "\<forall>l\<in>set (settlement_lines db). ln_SettlementID l < next_settlement db + 1" "\<forall>y\<in>set (settlement_payments db). sy_SettlementID y < next_settlement db + 1"
    using inv by (force simp: stl_inv_def)+
  moreover have "\<exists>u. stl db' j = Some u \<and> st_OrganizationID u = org" if "books db (org, ''SETTLEMENT'', j, ''APPROVAL'') \<noteq> None" for org j
  proof -
    have "\<exists>u. stl db j = Some u \<and> st_OrganizationID u = org" using inv that unfolding stl_inv_def by blast
    then show ?thesis using c(2,3) by auto
  qed
  ultimately show ?thesis using inv c(3,4) unfolding stl_inv_def by (simp add: c(5))
qed

lemma commit_Inr_iff: "commit_settlement i r = Inr r' \<longleftrightarrow> r' = r \<and> assert_settlement_totals (snd r) i"
  by (auto simp: commit_settlement_def res_simps)

lemma FindSettlement_stl: "ids_ok db \<Longrightarrow> FindSettlementForPeriod db org f a b = Some s \<Longrightarrow> stl db (st_ID s) = Some s"
  by (auto simp: FindSettlementForPeriod_def stl_Some dest!: find_SomeD)

lemma Generate_inv:
  assumes inv: "stl_inv db" and gen: "Generate sha awbOf bp franchiseOf newID p inp db = Inr (res, db')"
  shows "stl_inv db'"
proof -
  obtain f where f: "franchiseOf (OrganizationID p) (gq_FranchiseID inp) = Some f" using gen by (auto simp: Generate_def res_simps)
  show ?thesis
  proof (cases "FindSettlementForPeriod db (OrganizationID p) f (gq_PeriodStart inp) (gq_PeriodEnd inp)")
    case (Some s)
    note row = FindSettlement_stl [OF stl_invD(1) [OF inv] Some]
    have "db' = db \<or> (\<exists>r. calculate_settlement sha awbOf bp p s f db = Inr (r, db') \<and> assert_settlement_totals db' (st_ID s))"
      using gen f Some by (auto simp: Generate_def res_simps commit_Inr_iff split: if_splits)
    then show ?thesis using calculate_inv [OF inv _ row] inv by blast
  next
    case None
    obtain number db1 s s' db2 where n: "AllocateSettlementNumber (OrganizationID p) ''STL'' (gq_PeriodEnd inp) db = Inr (number, db1)"
      and s: "CreateSettlement s db1 = Inr (s', db2)" "st_Status s = ''DRAFT''" "st_NetAmountMinor s = 0" "st_PaidMinor s = 0"
      and c: "calculate_settlement sha awbOf bp p s' f db2 = Inr (res, db')" "assert_settlement_totals db' (st_ID s')"
      using gen f None by (auto simp: Generate_def res_simps commit_Inr_iff)
    have 1: "stl_inv db1" using number_inv [OF n inv] by blast
    have "stl_inv db2" "stl db2 (st_ID s') = Some s'" using create_inv [OF 1 s] by auto
    then show ?thesis using calculate_inv [OF _ c(1)] c(2) by blast
  qed
qed

lemma Recalculate_inv:
  assumes inv: "stl_inv db" and rec: "Recalculate sha awbOf bp p pid db = Inr (res, db')"
  shows "stl_inv db'"
proof -
  obtain h s where "GetSettlementByPublicID db (OrganizationID p) pid = Some h" and s: "LockSettlement db (OrganizationID p) (st_ID h) = Some s"
    and c: "calculate_settlement sha awbOf bp p s (st_FranchiseID s) db = Inr (res, db')" "assert_settlement_totals db' (st_ID s)"
    using rec by (auto simp: Recalculate_def res_simps commit_Inr_iff)
  have "stl db (st_ID s) = Some s" using Lock_stl [OF stl_invD(1) [OF inv] s] by simp
  then show ?thesis using calculate_inv [OF inv c(1)] c(2) by blast
qed


lemma update_settlement_same:
  "update_settlement g f db = Some (s', db') \<Longrightarrow> settlement_lines db' = settlement_lines db \<and> settlement_payments db' = settlement_payments db \<and> commission db' = commission db
     \<and> next_settlement db' = next_settlement db \<and> settlement_adjustments db' = settlement_adjustments db \<and> franchise_collections db' = franchise_collections db
     \<and> cod_obligations db' = cod_obligations db"
  by (auto simp: update_settlement_def split: option.splits)

lemma RecordSettlementApproval_same [simp]:
  "settlements (RecordSettlementApproval p s a c db) = settlements db" "settlement_lines (RecordSettlementApproval p s a c db) = settlement_lines db"
  "settlement_payments (RecordSettlementApproval p s a c db) = settlement_payments db" "commission (RecordSettlementApproval p s a c db) = commission db"
  "next_settlement (RecordSettlementApproval p s a c db) = next_settlement db" "settlement_adjustments (RecordSettlementApproval p s a c db) = settlement_adjustments db"
  by (simp_all add: RecordSettlementApproval_def)

lemma rows_same: "settlements db' = settlements db \<Longrightarrow> stl db' = stl db"
  "settlements db' = settlements db \<Longrightarrow> next_settlement db' = next_settlement db \<Longrightarrow> ids_ok db' = ids_ok db"
  by (simp_all add: stl_def ids_ok_def fun_eq_iff)

lemma totals_reconciled:
  assumes "assert_settlement_totals db' i" "stl db' i = Some s" "st_Status s \<notin> {''DRAFT'', ''CANCELLED''}"
  shows "sum_list (map ln_AmountMinor (lines_of db' i)) = st_NetAmountMinor s"
  using assms by (auto simp: assert_settlement_totals_def stl_def lines_of_def)

lemma Submit_inv:
  assumes inv: "stl_inv db" and sub: "Submit p pid comment db = Inr (r, db')"
  shows "stl_inv db'"
proof -
  obtain h :: Settlement and db1 where u: "SubmitSettlement (OrganizationID p) (st_ID h) (UserID p) db = Some (r, db1)" and db': "db' = RecordSettlementApproval p r ''SUBMITTED'' comment db1"
    using sub by (auto simp: Submit_def res_simps commit_Inr_iff)
  from u [unfolded SubmitSettlement_def] stl_invD(1) [OF inv] obtain s where s: "stl db (st_ID h) = Some s" "st_Status s = ''CALCULATED''"
      "r = s\<lparr>st_Status := ''UNDER_REVIEW'', st_SubmittedBy := Some (UserID p)\<rparr>" "stl db1 = (stl db)(st_ID h \<mapsto> r)" "ids_ok db1"
    by (elim update_settlement_Some [where i = "st_ID h"]) auto
  have f: "settlement_lines db' = settlement_lines db" "settlement_payments db' = settlement_payments db" "commission db' = commission db" "next_settlement db' = next_settlement db"
    "stl db' = stl db1" "ids_ok db'"
    using update_settlement_same [OF u [unfolded SubmitSettlement_def]] s(5) rows_same [of db' db1] by (simp_all add: db')
  have id: "st_ID s = st_ID h" using stl_invD(4) [OF inv s(1)] .
  have fr: "lines_of db' = lines_of db" "paid_sum db' = paid_sum db" "claimed db' = claimed db" by (simp_all add: lines_of_def paid_sum_def claimed_def f fun_eq_iff)
  have "stmt_ok db' r"
    using stl_invD(3) [OF inv s(1)] s(2) unfolding stmt_ok_def
    by (simp add: s(3) reconciled_def components_def progress_def checked_def booked_def claims_ok_def isFrozen_def fr f(3) claimed_def)
  then show ?thesis
    by (intro stl_inv_step [OF inv f(6) _ _ s(1)]) (use inv s id in \<open>auto simp: f fr stl_inv_def\<close>)
qed

lemma franchise_leg_fields [simp]: "Debit (franchise_leg a d c b f m) = d" "Credit (franchise_leg a d c b f m) = c"
  by (simp_all add: franchise_leg_def leg_def)

lemma approval_total:
  assumes "Post p now (approval_posting s) l = Inr (r, l')" "in64 (st_NetAmountMinor s)"
  shows "wrap64 (sum_list (map Debit (Legs (approval_posting s)))) = \<bar>st_NetAmountMinor s\<bar>"
proof (cases "0 < st_NetAmountMinor s")
  case True
  then show ?thesis using assms(2) by (simp add: approval_posting_def Let_def)
next
  case False
  have "0 \<le> neg64 (st_NetAmountMinor s)" using Post_legs_nonneg [OF assms(1)] False by (fastforce simp: approval_posting_def Let_def)
  moreover have "neg64 (st_NetAmountMinor s) = - st_NetAmountMinor s" if "st_NetAmountMinor s \<noteq> min64"
    using assms(2) that False by (simp add: neg64_def width_defs)
  moreover have "neg64 min64 = min64" by (simp add: neg64_def width_defs)
  ultimately have "neg64 (st_NetAmountMinor s) = - st_NetAmountMinor s" by (cases "st_NetAmountMinor s = min64") (auto simp: min64_def)
  then show ?thesis using False in64_neg64 [of "st_NetAmountMinor s"] by (simp add: approval_posting_def Let_def)
qed

lemma post_settlement_Inr:
  assumes "post_settlement p now inp db = Inr (j, db')" "comm_inv (commission db)" "SourceID inp = Some i" "SourceType inp \<noteq> ''COMMISSION''"
  obtains r l where "Post p now inp (comm_ledger (commission db)) = Inr (r, l)" "j = j_ID (rs_Transaction r)"
    "db' = db\<lparr>commission := (commission db)\<lparr>comm_ledger := l\<rparr>\<rparr>" "comm_inv (commission db')"
    "\<And>k. k \<noteq> (OrganizationID p, SourceType inp, i, Purpose inp) \<Longrightarrow> books db' k = books db k"
    "books db (OrganizationID p, SourceType inp, i, Purpose inp) = None \<Longrightarrow>
      books db' (OrganizationID p, SourceType inp, i, Purpose inp) = Some (j, wrap64 (sum_list (map Debit (Legs inp))))"
proof -
  obtain r l where l: "Post p now inp (comm_ledger (commission db)) = Inr (r, l)" "j = j_ID (rs_Transaction r)" "db' = db\<lparr>commission := (commission db)\<lparr>comm_ledger := l\<rparr>\<rparr>"
    using assms(1) by (auto simp: post_settlement_def res_simps)
  have struct: "ledger_struct (comm_ledger (commission db))" using assms(2) by (simp add: comm_inv_def)
  show ?thesis
    by (rule that [OF l]) (use comm_inv_other_post [OF assms(2) l(1) assms(3,4)] jb.post_other [OF l(1) struct assms(3)] jb.post_fresh [OF l(1) struct assms(3)] in \<open>simp_all add: l\<close>)
qed

lemma Approve_inv:
  assumes inv: "stl_inv db" and app: "Approve now p pid comment db = Inr (r, db')"
  shows "stl_inv db'"
proof -
  obtain h s journal db1 db2 where h: "GetSettlementByPublicID db (OrganizationID p) pid = Some h" and lk: "LockSettlement db (OrganizationID p) (st_ID h) = Some s"
    and maker: "st_CalculatedBy s \<noteq> Some (UserID p)" and st: "st_Status s \<in> {''CALCULATED'', ''UNDER_REVIEW''}"
    and j: "(if st_NetAmountMinor s = 0 then Inr (None, db) else bindE (post_settlement p now (approval_posting s) db) (\<lambda>(j, db1). Inr (Some j, db1))) = Inr (journal, db1)"
    and u: "ApproveSettlement (OrganizationID p) (st_ID s) (UserID p) journal db1 = Some (r, db2)"
    and db': "db' = RecordSettlementApproval p r ''APPROVED'' comment (db2\<lparr>franchise_collections := MarkFranchiseCollectionsRemitted (OrganizationID p) (st_ID s) (franchise_collections db2)\<rparr>)"
    using app by (auto simp: Approve_def res_simps commit_Inr_iff split del: if_split)
  note row = Lock_stl [OF stl_invD(1) [OF inv] lk]
  let ?i = "st_ID s"
  have s: "stl db ?i = Some s" "st_OrganizationID s = OrganizationID p" using row by auto
  have ok: "stmt_ok db s" by (rule stl_invD(3) [OF inv s(1)])
  have none: "books db (approval_source s) = None" using ok st by (auto simp: stmt_ok_def booked_def isFrozen_def)
  have 1: "stl db1 = stl db" "ids_ok db1" "settlement_lines db1 = settlement_lines db" "settlement_payments db1 = settlement_payments db" "next_settlement db1 = next_settlement db"
    "calculations (commission db1) = calculations (commission db)" "comm_inv (commission db1)"
    "\<And>k. k \<noteq> approval_source s \<Longrightarrow> books db1 k = books db k"
    "if st_NetAmountMinor s = 0 then books db1 (approval_source s) = None
     else \<exists>jj. journal = Some jj \<and> books db1 (approval_source s) = Some (jj, \<bar>st_NetAmountMinor s\<bar>)"
  proof -
    have "stl db1 = stl db \<and> ids_ok db1 \<and> settlement_lines db1 = settlement_lines db \<and> settlement_payments db1 = settlement_payments db \<and> next_settlement db1 = next_settlement db
      \<and> calculations (commission db1) = calculations (commission db) \<and> comm_inv (commission db1) \<and> (\<forall>k. k \<noteq> approval_source s \<longrightarrow> books db1 k = books db k)
      \<and> (if st_NetAmountMinor s = 0 then books db1 (approval_source s) = None
         else \<exists>jj. journal = Some jj \<and> books db1 (approval_source s) = Some (jj, \<bar>st_NetAmountMinor s\<bar>))"
    proof (cases "st_NetAmountMinor s = 0")
      case True
      then show ?thesis using j none stl_invD(1,2) [OF inv] by auto
    next
      case False
      then obtain jj where jj: "post_settlement p now (approval_posting s) db = Inr (jj, db1)" "journal = Some jj" using j by (auto simp: res_simps)
      have key: "SourceID (approval_posting s) = Some ?i" "SourceType (approval_posting s) = ''SETTLEMENT''" "Purpose (approval_posting s) = ''APPROVAL''"
        by (simp_all add: approval_posting_def Let_def)
      from jj(1) stl_invD(2) [OF inv] key(1) show ?thesis
      proof (rule post_settlement_Inr)
        show "SourceType (approval_posting s) \<noteq> ''COMMISSION''" by (simp add: key)
        fix rr l assume l: "Post p now (approval_posting s) (comm_ledger (commission db)) = Inr (rr, l)" "db1 = db\<lparr>commission := (commission db)\<lparr>comm_ledger := l\<rparr>\<rparr>"
          "comm_inv (commission db1)" "\<And>k. k \<noteq> (OrganizationID p, SourceType (approval_posting s), ?i, Purpose (approval_posting s)) \<Longrightarrow> books db1 k = books db k"
          "books db (OrganizationID p, SourceType (approval_posting s), ?i, Purpose (approval_posting s)) = None \<Longrightarrow>
            books db1 (OrganizationID p, SourceType (approval_posting s), ?i, Purpose (approval_posting s)) = Some (jj, wrap64 (sum_list (map Debit (Legs (approval_posting s)))))"
        have "in64 (st_NetAmountMinor s)" using ok by (simp add: stmt_ok_def reconciled_def)
        note tot = approval_total [OF l(1) this]
        show ?thesis using l(4,5) none False jj(2) l(3) stl_invD(1) [OF inv] s(2) unfolding key tot
          by (auto simp: l(2) stl_def ids_ok_def fun_eq_iff)
      qed
    qed
    then show "stl db1 = stl db" "ids_ok db1" "settlement_lines db1 = settlement_lines db" "settlement_payments db1 = settlement_payments db" "next_settlement db1 = next_settlement db"
      "calculations (commission db1) = calculations (commission db)" "comm_inv (commission db1)" "\<And>k. k \<noteq> approval_source s \<Longrightarrow> books db1 k = books db k"
      "if st_NetAmountMinor s = 0 then books db1 (approval_source s) = None
       else \<exists>jj. journal = Some jj \<and> books db1 (approval_source s) = Some (jj, \<bar>st_NetAmountMinor s\<bar>)" by blast+
  qed
  from u [unfolded ApproveSettlement_def] 1(2) have 2: "r = s\<lparr>st_Status := ''APPROVED'', st_ApprovedBy := Some (UserID p), st_JournalTransactionID := journal\<rparr> \<and>
      stl db2 = (stl db)(?i \<mapsto> r) \<and> ids_ok db2"
    by (elim update_settlement_Some [where i = ?i]) (use 1(1) s(1) in auto)
  note same = update_settlement_same [OF u [unfolded ApproveSettlement_def]]
  have f: "settlement_lines db' = settlement_lines db" "settlement_payments db' = settlement_payments db" "next_settlement db' = next_settlement db"
      "calculations (commission db') = calculations (commission db)" "comm_inv (commission db')" "books db' = books db1"
    using 1 same by (simp_all add: db')
  have r: "stl db' = (stl db)(?i \<mapsto> r)" "ids_ok db'" "r = s\<lparr>st_Status := ''APPROVED'', st_ApprovedBy := Some (UserID p), st_JournalTransactionID := journal\<rparr>"
    using 2 rows_same [of db' db2] same by (simp_all add: db')
  have fr: "lines_of db' = lines_of db" "paid_sum db' = paid_sum db" "claimed db' = claimed db" by (simp_all add: lines_of_def paid_sum_def claimed_def f fun_eq_iff)
  have "stmt_ok db' r"
    unfolding stmt_ok_def
  proof (intro conjI)
    show "reconciled db' r" using ok st by (auto simp: stmt_ok_def reconciled_def components_def r(3) fr)
    show "progress r" using ok st by (auto simp: stmt_ok_def progress_def r(3))
    show "st_PaidMinor r = paid_sum db' (st_ID r)" using ok by (simp add: stmt_ok_def r(3) fr)
    have "in64 \<bar>st_NetAmountMinor s\<bar>"
    proof (cases "st_NetAmountMinor s = 0")
      case False
      then obtain rr l where "Post p now (approval_posting s) (comm_ledger (commission db)) = Inr (rr, l)" using j by (auto simp: res_simps post_settlement_def)
      moreover have "in64 (st_NetAmountMinor s)" using ok by (simp add: stmt_ok_def reconciled_def)
      ultimately show ?thesis using approval_total by (metis in64_wrap64)
    qed simp
    then show "checked r" using maker by (simp add: checked_def r(3))
    show "booked db' r" using 1(9) by (auto simp: booked_def isFrozen_def f(6) r(3) split: if_splits)
    show "claims_ok db' r" using ok st by (auto simp: stmt_ok_def claims_ok_def r(3) fr claimed_def f(4))
  qed
  then show ?thesis
    by (intro stl_inv_step [OF inv r(2) f(5) r(1) s(1)]) (use inv 1(8) in \<open>auto simp: f fr r(3) stl_inv_def\<close>)
qed


lemma CreateSettlementPayment_Inr: "CreateSettlementPayment y db = Inr db' \<Longrightarrow> db' = db\<lparr>settlement_payments := settlement_payments db @ [y]\<rparr>"
  by (auto simp: CreateSettlementPayment_def res_simps)

lemma Pay_inv:
  assumes inv: "stl_inv db" and pay: "Pay now p inp db = Inr (r, db')"
  shows "stl_inv db'"
proof -
  let ?a = "pq_AmountMinor inp"
  obtain h s number db1 journal db2 db3 y s' where lk: "LockSettlement db (OrganizationID p) (st_ID (h :: Settlement)) = Some s" and pay': "payable (st_Status s)"
    and pos: "0 < ?a" and le: "?a \<le> sub64 (abs64 (st_NetAmountMinor s)) (st_PaidMinor s)"
    and n: "AllocateSettlementNumber (OrganizationID p) ''SPM'' (case pq_PaidOn inp of None \<Rightarrow> now | Some d \<Rightarrow> d) db = Inr (number, db1)"
    and po: "post_settlement p now (payment_posting s ?a number (case pq_PaidOn inp of None \<Rightarrow> now | Some d \<Rightarrow> d)) db1 = Inr (journal, db2)"
    and cr: "CreateSettlementPayment y db2 = Inr db3" and y': "sy_SettlementID y = st_ID s" "sy_AmountMinor y = ?a"
    and u: "RecordSettlementPaid (OrganizationID p) (st_ID s) ?a db3 = Some (s', db')"
    using pay by (auto simp: Pay_def Let_def res_simps commit_Inr_iff)
  have st: "st_Status s \<in> {''APPROVED'', ''PARTIALLY_PAID''}" using pay' by (auto simp: payable_def)
  note y = y' CreateSettlementPayment_Inr [OF cr]
  let ?i = "st_ID s" and ?po = "payment_posting s ?a number (case pq_PaidOn inp of None \<Rightarrow> now | Some d \<Rightarrow> d)"
  have s: "stl db ?i = Some s" "st_OrganizationID s = OrganizationID p" using Lock_stl [OF stl_invD(1) [OF inv] lk] by auto
  have ok: "stmt_ok db s" by (rule stl_invD(3) [OF inv s(1)])
  note num = number_inv [OF n inv]
  have key: "SourceID ?po = Some ?i" "SourceType ?po = ''PAYMENT''" by (simp_all add: payment_posting_def Let_def)
  have 2: "comm_inv (commission db2)" "books db2 (org, ''SETTLEMENT'', i, pu) = books db (org, ''SETTLEMENT'', i, pu)" "stl db2 = stl db" "ids_ok db2" "settlement_lines db2 = settlement_lines db"
      "settlement_payments db2 = settlement_payments db1" "next_settlement db2 = next_settlement db1" "calculations (commission db2) = calculations (commission db1)" for org i pu
    by (rule post_settlement_Inr [OF po stl_invD(2) [OF conjunct1 [OF num]] key(1)],
        use num stl_invD(1) [OF conjunct1 [OF num]] in \<open>simp_all add: key stl_def ids_ok_def fun_eq_iff\<close>)+
  have 1: "settlement_payments db1 = settlement_payments db" "next_settlement db1 = next_settlement db" "calculations (commission db1) = calculations (commission db)"
    using n by (auto simp: AllocateSettlementNumber_def Let_def res_simps)
  have 3: "stl db3 = stl db" "ids_ok db3" using 2(3,4) by (simp_all add: y(3) stl_def ids_ok_def fun_eq_iff)
  from u [unfolded RecordSettlementPaid_def] 3(2) have row: "s' = s\<lparr>st_PaidMinor := st_PaidMinor s + ?a,
       st_Status := (if \<bar>st_NetAmountMinor s\<bar> \<le> st_PaidMinor s + ?a then ''PAID'' else ''PARTIALLY_PAID'')\<rparr> \<and> stl db' = (stl db)(?i \<mapsto> s') \<and> ids_ok db'"
    by (elim update_settlement_Some [where i = ?i]) (use 3(1) s(1) in auto)
  note same = update_settlement_same [OF u [unfolded RecordSettlementPaid_def]]
  have f: "settlement_lines db' = settlement_lines db" "settlement_payments db' = settlement_payments db @ [y]" "next_settlement db' = next_settlement db"
      "calculations (commission db') = calculations (commission db)" "comm_inv (commission db')"
    using 1 2 same by (simp_all add: y(3))
  have books: "books db' (org, ''SETTLEMENT'', i, pu) = books db (org, ''SETTLEMENT'', i, pu)" for org i pu using 2(2) same by (simp add: y(3))
  have fr: "lines_of db' = lines_of db" "claimed db' = claimed db" by (simp_all add: lines_of_def claimed_def f fun_eq_iff)
  have paid: "paid_sum db' j = paid_sum db j + (if j = ?i then ?a else 0)" for j by (simp add: paid_sum_def f(2) y(1,2))
  have lim: "in64 \<bar>st_NetAmountMinor s\<bar>" "0 \<le> st_PaidMinor s" "st_PaidMinor s \<le> \<bar>st_NetAmountMinor s\<bar>"
    using ok st by (auto simp: stmt_ok_def checked_def progress_def isFrozen_def)
  have "sub64 (abs64 (st_NetAmountMinor s)) (st_PaidMinor s) = \<bar>st_NetAmountMinor s\<bar> - st_PaidMinor s"
    using lim by (auto simp: abs64_def neg64_def sub64_def width_defs)
  then have bound: "st_PaidMinor s + ?a \<le> \<bar>st_NetAmountMinor s\<bar>" using le by simp
  have "stmt_ok db' s'"
    unfolding stmt_ok_def
  proof (intro conjI)
    show "reconciled db' s'" using ok st row by (auto simp: stmt_ok_def reconciled_def components_def fr)
    show "progress s'" using row pos lim bound by (auto simp: progress_def)
    show "st_PaidMinor s' = paid_sum db' (st_ID s')" using ok row by (simp add: stmt_ok_def paid)
    show "checked s'" using ok st row by (auto simp: stmt_ok_def checked_def isFrozen_def)
    show "booked db' s'" using ok st row by (auto simp: stmt_ok_def booked_def isFrozen_def books)
    show "claims_ok db' s'" using ok st row by (auto simp: stmt_ok_def claims_ok_def fr claimed_def f(4))
  qed
  then show ?thesis
    by (intro stl_inv_step [OF inv _ f(5) _ s(1)]) (use inv row y(1) in \<open>auto simp: f fr paid books stl_inv_def\<close>)
qed

lemma Cancel_inv:
  assumes inv: "stl_inv db" and can: "Cancel p pid reason db = Inr (r, db')"
  shows "stl_inv db'"
proof -
  obtain h :: Settlement where h: "GetSettlementByPublicID db (OrganizationID p) pid = Some h"
    and u: "CancelSettlement (OrganizationID p) (st_ID h) reason (db\<lparr>commission := DetachCalculationsFromSettlement (OrganizationID p) (st_ID h) (commission db),
            franchise_collections := ReleaseFranchiseCollectionsFromSettlement (OrganizationID p) (st_ID h) (franchise_collections db)\<rparr>) = Some (r, db')"
    using can by (auto simp: Cancel_def res_simps)
  let ?i = "st_ID h" and ?c = "DetachCalculationsFromSettlement (OrganizationID p) (st_ID h) (commission db)"
  let ?db1 = "db\<lparr>commission := ?c, franchise_collections := ReleaseFranchiseCollectionsFromSettlement (OrganizationID p) (st_ID h) (franchise_collections db)\<rparr>"
  have s: "stl db ?i = Some h" "st_OrganizationID h = OrganizationID p" using GetSettlement_stl [OF stl_invD(1) [OF inv] h] by auto
  have 1: "stl ?db1 = stl db" "ids_ok ?db1" using stl_invD(1) [OF inv] by (simp_all add: stl_def ids_ok_def fun_eq_iff)
  from u [unfolded CancelSettlement_def] 1(2) have row: "st_Status h \<in> set working_states \<and> r = h\<lparr>st_Status := ''CANCELLED'', st_CancelReason := Some reason\<rparr>
      \<and> stl db' = (stl db)(?i \<mapsto> r) \<and> ids_ok db'"
    by (elim update_settlement_Some [where i = ?i]) (use 1(1) s(1) in auto)
  note same = update_settlement_same [OF u [unfolded CancelSettlement_def]]
  have f: "settlement_lines db' = settlement_lines db" "settlement_payments db' = settlement_payments db" "next_settlement db' = next_settlement db" "commission db' = ?c"
    using same by simp_all
  have fr: "lines_of db' = lines_of db" "paid_sum db' = paid_sum db" "books db' = books db" by (simp_all add: lines_of_def paid_sum_def f fun_eq_iff DetachCalculationsFromSettlement_def)
  have ok: "stmt_ok db h" by (rule stl_invD(3) [OF inv s(1)])
  have "stmt_ok db' r"
  proof -
    have w: "\<not> isFrozen (st_Status h)" "st_PaidMinor h = 0" using row ok by (auto simp: working_states_def isFrozen_def stmt_ok_def progress_def)
    have r: "r = h\<lparr>st_Status := ''CANCELLED'', st_CancelReason := Some reason\<rparr>" using row by blast
    show ?thesis using ok w by (simp add: stmt_ok_def r reconciled_def progress_def checked_def booked_def claims_ok_def isFrozen_def fr)
  qed
  moreover have "claimed db' v k" if "claimed db v k" "st_ID v \<noteq> ?i" for v k
  proof -
    obtain c where "c \<in> set (calculations (commission db))" "cc_ID c = k" "cc_OrganizationID c = st_OrganizationID v" "cc_SettlementID c = Some (st_ID v)"
      using \<open>claimed db v k\<close> by (auto simp: claimed_def)
    then show ?thesis using \<open>st_ID v \<noteq> ?i\<close> unfolding claimed_def f(4) DetachCalculationsFromSettlement_def by (intro bexI [of _ c]) (auto intro!: rev_image_eqI)
  qed
  moreover have "comm_inv (commission db')" unfolding f(4) by (rule comm_inv_claims [OF stl_invD(2) [OF inv] claims_kept(2)])
  ultimately show ?thesis
    by (intro stl_inv_step [OF inv _ _ _ s(1)]) (use inv row stl_invD(4) [OF inv] in \<open>auto simp: f(1-3) fr stl_inv_def\<close>)
qed


text \<open>Corrections and counter collections touch no statement.\<close>

lemma update_adjustment_same:
  "update_adjustment g f db = Some (a, db') \<Longrightarrow> settlements db' = settlements db \<and> settlement_lines db' = settlement_lines db \<and> settlement_payments db' = settlement_payments db
     \<and> commission db' = commission db \<and> next_settlement db' = next_settlement db"
  by (auto simp: update_adjustment_def split: option.splits)

lemma stl_inv_same:
  assumes "stl_inv db" "settlements db' = settlements db" "settlement_lines db' = settlement_lines db" "settlement_payments db' = settlement_payments db"
    "commission db' = commission db" "next_settlement db' = next_settlement db"
  shows "stl_inv db'"
  by (rule stl_inv_other [OF assms(1-4,6)]) (use stl_invD(2) [OF assms(1)] in \<open>simp_all add: assms stays_refl\<close>)

lemma RaiseAdjustment_inv: "RaiseAdjustment newID p inp db = Inr (a, db') \<Longrightarrow> stl_inv db \<Longrightarrow> stl_inv db'"
  by (rule stl_inv_same [of db]) (auto simp: RaiseAdjustment_def CreateSettlementAdjustment_def res_simps Let_def)

lemma RejectAdjustment_inv: "RejectAdjustment p pid reason db = Inr (a, db') \<Longrightarrow> stl_inv db \<Longrightarrow> stl_inv db'"
  by (rule stl_inv_same [of db]) (auto simp: RejectAdjustment_def RejectSettlementAdjustment_def res_simps dest!: update_adjustment_same)

lemma Record_collection_inv: "Record_collection shipmentOf franchiseOfUnit newID now p inp db = Inr (c, db') \<Longrightarrow> stl_inv db \<Longrightarrow> stl_inv db'"
  by (rule stl_inv_same [of db]) (auto simp: Record_collection_def CreateFranchiseCollection_def res_simps Let_def split: option.splits)

lemma ApproveAdjustment_inv:
  assumes inv: "stl_inv db" and app: "ApproveAdjustment now p pid db = Inr (a, db')"
  shows "stl_inv db'"
proof -
  obtain e s a1 db1 where u: "ApproveSettlementAdjustment (OrganizationID p) (sa_ID (e :: SettlementAdjustment)) (UserID p) db = Some (a1, db1)"
    and rest: "(if isFrozen (st_Status (s :: Settlement)) then bindE (post_settlement p now (settlement_adjustment_posting s a1) db1)
          (\<lambda>(journal, db2). opt_or (MarkSettlementAdjustmentApplied (OrganizationID p) (sa_ID a1) journal db2) Internal) else Inr (a1, db1)) = Inr (a, db')"
    using app by (auto simp: ApproveAdjustment_def res_simps split del: if_split)
  have 1: "stl_inv db1" using update_adjustment_same [OF u [unfolded ApproveSettlementAdjustment_def]] by (intro stl_inv_same [OF inv]) auto
  show ?thesis
  proof (cases "isFrozen (st_Status s)")
    case False
    then show ?thesis using rest 1 by simp
  next
    case True
    then obtain journal db2 where po: "post_settlement p now (settlement_adjustment_posting s a1) db1 = Inr (journal, db2)"
      and m: "MarkSettlementAdjustmentApplied (OrganizationID p) (sa_ID a1) journal db2 = Some (a, db')"
      using rest by (auto simp: res_simps)
    have key: "SourceID (settlement_adjustment_posting s a1) = Some (sa_ID a1)" "SourceType (settlement_adjustment_posting s a1) = ''ADJUSTMENT''" by (simp_all add: settlement_adjustment_posting_def Let_def)
    have "stl_inv db2"
    proof (rule post_settlement_Inr [OF po stl_invD(2) [OF 1] key(1)])
      show "SourceType (settlement_adjustment_posting s a1) \<noteq> ''COMMISSION''" by (simp add: key)
      fix r l assume l: "db2 = db1\<lparr>commission := (commission db1)\<lparr>comm_ledger := l\<rparr>\<rparr>" "comm_inv (commission db2)"
        "\<And>k. k \<noteq> (OrganizationID p, SourceType (settlement_adjustment_posting s a1), sa_ID a1, Purpose (settlement_adjustment_posting s a1)) \<Longrightarrow> books db2 k = books db1 k"
      show ?thesis by (rule stl_inv_other [OF 1]) (use l in \<open>auto simp: key claims_stay_def\<close>)
    qed
    then show ?thesis using update_adjustment_same [OF m [unfolded MarkSettlementAdjustmentApplied_def]] by (elim stl_inv_same) auto
  qed
qed

subsection \<open>Reachable states\<close>

text \<open>
  The calls of the two services, those of the commission service, the postings of the others, and any change
  of the COD obligations.
\<close>

inductive settlement_call :: "SettlementDB \<Rightarrow> SettlementDB \<Rightarrow> bool" where
  generate: "Generate sha awbOf bp franchiseOf newID p inp db = Inr (r, db') \<Longrightarrow> settlement_call db db'"
| recalculate: "Recalculate sha awbOf bp p pid db = Inr (r, db') \<Longrightarrow> settlement_call db db'"
| submit: "Submit p pid comment db = Inr (s, db') \<Longrightarrow> settlement_call db db'"
| approve: "Approve now p pid comment db = Inr (s, db') \<Longrightarrow> settlement_call db db'"
| pay: "Pay now p pinp db = Inr (y, db') \<Longrightarrow> settlement_call db db'"
| cancel: "Cancel p pid reason db = Inr (s, db') \<Longrightarrow> settlement_call db db'"
| raise_adjustment: "RaiseAdjustment newID p ainp db = Inr (a, db') \<Longrightarrow> settlement_call db db'"
| approve_adjustment: "ApproveAdjustment now p pid db = Inr (a, db') \<Longrightarrow> settlement_call db db'"
| reject_adjustment: "RejectAdjustment p pid reason db = Inr (a, db') \<Longrightarrow> settlement_call db db'"
| record_collection: "Record_collection shipmentOf franchiseOfUnit newID now p rinp db = Inr (c, db') \<Longrightarrow> settlement_call db db'"
| commission_service: "commission_service_call (commission db) cdb \<Longrightarrow> settlement_call db (db\<lparr>commission := cdb\<rparr>)"
| other_posting: "Post p now po (comm_ledger (commission db)) = Inr (r, l) \<Longrightarrow> SourceID po = Some sid \<Longrightarrow> SourceType po \<notin> {''COMMISSION'', ''SETTLEMENT''} \<Longrightarrow>
    settlement_call db (db\<lparr>commission := (commission db)\<lparr>comm_ledger := l\<rparr>\<rparr>)"
| cod: "settlement_call db (db\<lparr>cod_obligations := obs\<rparr>)"

definition settlement_start :: "SettlementDB \<Rightarrow> bool" where
  "settlement_start db \<longleftrightarrow> settlements db = [] \<and> settlement_lines db = [] \<and> settlement_payments db = [] \<and> commission_start (commission db)
     \<and> (\<forall>t\<in>set (journals (comm_ledger (commission db))). j_SourceType t \<noteq> ''SETTLEMENT'')"

lemma settlement_start_inv:
  assumes "settlement_start db"
  shows "stl_inv db"
proof -
  have "books db (org, ''SETTLEMENT'', i, pu) = None" for org i pu
    using assms unfolding settlement_start_def book_def FindJournalBySource_def by (auto simp: find_None_iff live_source_def)
  then show ?thesis using assms commission_start_inv by (auto simp: settlement_start_def stl_inv_def ids_ok_def stl_def)
qed

lemma settlement_call_inv:
  assumes "settlement_call db db'" "stl_inv db"
  shows "stl_inv db'"
  using assms
proof (induction rule: settlement_call.induct)
  case (commission_service db cdb)
  note c = commission_service_stays [OF commission_service.hyps stl_invD(2) [OF commission_service.prems]]
  then show ?case
    by (intro stl_inv_other [OF commission_service.prems])
      (use commission_service_inv [OF commission_service.hyps stl_invD(2) [OF commission_service.prems]] in \<open>simp_all add: others_stay_def\<close>)
next
  case (other_posting p now po db r l sid)
  have struct: "ledger_struct (comm_ledger (commission db))" using stl_invD(2) [OF other_posting.prems] by (simp add: comm_inv_def)
  show ?case
    by (rule stl_inv_other [OF other_posting.prems])
      (use comm_inv_other_post [OF stl_invD(2) [OF other_posting.prems] other_posting.hyps(1,2)] jb.post_other [OF other_posting.hyps(1) struct other_posting.hyps(2)] other_posting.hyps(3)
        in \<open>auto simp: claims_stay_def\<close>)
next
  case (cod db obs)
  then show ?case by (elim stl_inv_same) simp_all
next
  case (pay now p pinp db y db')
  then show ?case by (cases y) (blast intro: Pay_inv)
next
  case (record_collection shipmentOf franchiseOfUnit newID now p rinp db c db')
  then show ?case by (cases c) (blast intro: Record_collection_inv)
qed (blast intro: Generate_inv Recalculate_inv Submit_inv Approve_inv Cancel_inv RaiseAdjustment_inv ApproveAdjustment_inv RejectAdjustment_inv)+

lemma settlement_reach_inv: "settlement_call\<^sup>*\<^sup>* db0 db \<Longrightarrow> settlement_start db0 \<Longrightarrow> stl_inv db"
  by (erule rtranclp_induct) (auto intro: settlement_start_inv settlement_call_inv)

subsection \<open>The guarantees\<close>

text \<open>
  C12: \<^bold>\<open>A statement adds up.\<close> In every reachable state the lines of a calculated, reviewed, approved or paid statement sum to its net
  amount exactly, and so do the components of its header up to the width of the column.
\<close>

theorem settlement_reconciles:
  assumes "settlement_start db0" "settlement_call\<^sup>*\<^sup>* db0 db" "s \<in> set (settlements db)" "st_Status s \<noteq> ''DRAFT''" "st_Status s \<noteq> ''CANCELLED''"
  shows "sum_list (map ln_AmountMinor (ListSettlementLines db (st_ID s))) = st_NetAmountMinor s \<and> wrap64 (components s) = st_NetAmountMinor s"
proof -
  have inv: "stl_inv db" by (rule settlement_reach_inv [OF assms(2,1)])
  then have "stmt_ok db s" using assms(3) by (meson stl_Some stl_invD(1,3))
  moreover have "mset (ListSettlementLines db (st_ID s)) = mset (lines_of db (st_ID s))" by (simp add: ListSettlementLines_def lines_of_def)
  then have "sum_list (map ln_AmountMinor (ListSettlementLines db (st_ID s))) = sum_list (map ln_AmountMinor (lines_of db (st_ID s)))"
    by (metis mset_map sum_mset_sum_list)
  ultimately show ?thesis using assms(4,5) by (simp add: stmt_ok_def reconciled_def)
qed

text \<open>
  C15: \<^bold>\<open>No commission is settled twice.\<close> In every reachable state a commission is a line of at most one statement that is not cancelled,
  whatever periods were generated, recalculated, cancelled and generated again.
\<close>

theorem commission_on_one_statement:
  assumes "settlement_start db0" "settlement_call\<^sup>*\<^sup>* db0 db"
    and s: "s \<in> set (settlements db)" "st_Status s \<noteq> ''CANCELLED''" "l \<in> set (ListSettlementLines db (st_ID s))"
      "ln_SourceType l = ''COMMISSION_CALCULATION''" "ln_SourceID l = Some i"
    and t: "t \<in> set (settlements db)" "st_Status t \<noteq> ''CANCELLED''" "m \<in> set (ListSettlementLines db (st_ID t))"
      "ln_SourceType m = ''COMMISSION_CALCULATION''" "ln_SourceID m = Some i"
  shows "s = t"
proof -
  have inv: "stl_inv db" by (rule settlement_reach_inv [OF assms(2,1)])
  have claim: "claimed db u i" if "u \<in> set (settlements db)" "st_Status u \<noteq> ''CANCELLED''" "x \<in> set (ListSettlementLines db (st_ID u))"
      "ln_SourceType x = ''COMMISSION_CALCULATION''" "ln_SourceID x = Some i" for u x
  proof -
    have "stmt_ok db u" using inv that(1) by (meson stl_Some stl_invD(1,3))
    moreover have "x \<in> set (lines_of db (st_ID u))" using that(3) by (simp add: ListSettlementLines_def lines_of_def)
    ultimately show ?thesis using that unfolding stmt_ok_def claims_ok_def by blast
  qed
  obtain c d where "c \<in> set (calculations (commission db))" "cc_ID c = i" "cc_SettlementID c = Some (st_ID s)"
    and "d \<in> set (calculations (commission db))" "cc_ID d = i" "cc_SettlementID d = Some (st_ID t)"
    using claim [OF s] claim [OF t] unfolding claimed_def by blast
  moreover have "calcs_ok (calculations (commission db)) (next_calculation (commission db))" using stl_invD(2) [OF inv] by (simp add: comm_inv_def)
  ultimately have "st_ID s = st_ID t" using calc_same by (metis option.inject)
  then show ?thesis using s(1) t(1) stl_Some [OF stl_invD(1) [OF inv], of "st_ID t"] by (metis option.inject)
qed

text \<open>
  C17: \<^bold>\<open>A statement is paid at most in full.\<close> In every reachable state the paid amount of a statement is the sum of its payments and never above
  its net amount in either direction; only an approved statement has any, PAID is said exactly of one paid in full, and a payment above what is outstanding
  is refused as an overpayment.
\<close>

theorem settlement_paid:
  assumes "settlement_start db0" "settlement_call\<^sup>*\<^sup>* db0 db" "s \<in> set (settlements db)"
  shows "st_PaidMinor s = paid_sum db (st_ID s) \<and> 0 \<le> st_PaidMinor s \<and> st_PaidMinor s \<le> \<bar>st_NetAmountMinor s\<bar>
    \<and> (0 < st_PaidMinor s \<longrightarrow> isFrozen (st_Status s)) \<and> (st_Status s = ''PAID'' \<longleftrightarrow> 0 < st_PaidMinor s \<and> st_PaidMinor s = \<bar>st_NetAmountMinor s\<bar>)
    \<and> (\<forall>now p inp. GetSettlementByPublicID db (OrganizationID p) (pq_SettlementID inp) = Some s \<and> payable (st_Status s) \<and> 0 < pq_AmountMinor inp
        \<and> \<bar>st_NetAmountMinor s\<bar> - st_PaidMinor s < pq_AmountMinor inp \<longrightarrow> Pay now p inp db = Inl (Conflict ''SETTLEMENT_OVERPAYMENT''))"
proof -
  have inv: "stl_inv db" by (rule settlement_reach_inv [OF assms(2,1)])
  have row: "stl db (st_ID s) = Some s" using assms(3) stl_invD(1) [OF inv] by (simp add: stl_Some)
  have ok: "stmt_ok db s" by (rule stl_invD(3) [OF inv row])
  then have pr: "progress s" "st_PaidMinor s = paid_sum db (st_ID s)" by (auto simp: stmt_ok_def)
  have "Pay now p inp db = Inl (Conflict ''SETTLEMENT_OVERPAYMENT'')"
    if h: "GetSettlementByPublicID db (OrganizationID p) (pq_SettlementID inp) = Some s" and p: "payable (st_Status s)" "0 < pq_AmountMinor inp"
      "\<bar>st_NetAmountMinor s\<bar> - st_PaidMinor s < pq_AmountMinor inp" for now p inp
  proof -
    have "isFrozen (st_Status s)" using p(1) by (auto simp: payable_def isFrozen_def)
    then have "in64 \<bar>st_NetAmountMinor s\<bar>" using ok by (simp add: stmt_ok_def checked_def)
    moreover have "0 \<le> st_PaidMinor s" "st_PaidMinor s \<le> \<bar>st_NetAmountMinor s\<bar>" using pr(1) by (auto simp: progress_def split: if_splits)
    ultimately have "sub64 (abs64 (st_NetAmountMinor s)) (st_PaidMinor s) = \<bar>st_NetAmountMinor s\<bar> - st_PaidMinor s"
      by (auto simp: abs64_def neg64_def sub64_def width_defs)
    moreover have "LockSettlement db (OrganizationID p) (st_ID s) = Some s"
    proof -
      have "find (\<lambda>u. st_OrganizationID u = OrganizationID p \<and> st_ID u = st_ID s) (settlements db) \<noteq> None"
        using assms(3) GetSettlement_stl [OF stl_invD(1) [OF inv] h] by (auto simp: find_None_iff)
      then obtain u where u: "LockSettlement db (OrganizationID p) (st_ID s) = Some u" by (auto simp: LockSettlement_def)
      then show ?thesis using locked_header [OF stl_invD(1) [OF inv] h u] by simp
    qed
    ultimately show ?thesis using h p by (simp add: Pay_def Let_def)
  qed
  moreover have "0 \<le> st_PaidMinor s \<and> st_PaidMinor s \<le> \<bar>st_NetAmountMinor s\<bar> \<and> (0 < st_PaidMinor s \<longrightarrow> isFrozen (st_Status s))
    \<and> (st_Status s = ''PAID'' \<longleftrightarrow> 0 < st_PaidMinor s \<and> st_PaidMinor s = \<bar>st_NetAmountMinor s\<bar>)"
    using pr(1) by (auto simp: progress_def isFrozen_def split: if_splits)
  ultimately show ?thesis using pr(2) by blast
qed




subsection \<open>Frozen statements\<close>

text \<open>What a call may still do to a statement once it is approved: move its payment progress.\<close>

definition only_progress :: "Settlement \<Rightarrow> Settlement \<Rightarrow> bool" where
  "only_progress s s' \<longleftrightarrow> s' = s\<lparr>st_PaidMinor := st_PaidMinor s', st_Status := st_Status s'\<rparr> \<and> isFrozen (st_Status s') \<and> st_PaidMinor s \<le> st_PaidMinor s'"

definition keeps_frozen :: "SettlementDB \<Rightarrow> SettlementDB \<Rightarrow> bool" where
  "keeps_frozen db db' \<longleftrightarrow> (\<forall>i s. stl db i = Some s \<and> isFrozen (st_Status s) \<longrightarrow>
     (\<exists>s'. stl db' i = Some s' \<and> only_progress s s') \<and> lines_of db' i = lines_of db i)"

lemma only_progress_refl: "isFrozen (st_Status s) \<Longrightarrow> only_progress s s"
  by (simp add: only_progress_def)

lemma keeps_same: "stl db' = stl db \<Longrightarrow> settlement_lines db' = settlement_lines db \<Longrightarrow> keeps_frozen db db'"
  using only_progress_refl by (auto simp: keeps_frozen_def lines_of_def)

lemma keeps_step:
  assumes "stl db' = (stl db)(i \<mapsto> s')" "stl db i = Some s \<Longrightarrow> isFrozen (st_Status s) \<Longrightarrow> only_progress s s' \<and> lines_of db' i = lines_of db i"
    "\<And>j. j \<noteq> i \<Longrightarrow> lines_of db' j = lines_of db j" "stl db i = Some s \<or> stl db i = None"
  shows "keeps_frozen db db'"
  using assms only_progress_refl unfolding keeps_frozen_def by (metis fun_upd_other fun_upd_same option.distinct(1) option.inject)

lemma keeps_trans: "keeps_frozen db db1 \<Longrightarrow> stl db1 = stl db2 \<Longrightarrow> settlement_lines db1 = settlement_lines db2 \<Longrightarrow> keeps_frozen db db2"
  by (auto simp: keeps_frozen_def lines_of_def)

lemma calculate_keeps:
  assumes ok: "ids_ok db" and calc: "calculate_settlement sha awbOf bp p s f db = Inr (res, db')" and row: "stl db (st_ID s) = Some s"
  shows "keeps_frozen db db'"
proof -
  obtain prev fg where st: "st_Status s \<in> {''DRAFT'', ''CALCULATED''}" and "st_OrganizationID s = OrganizationID p"
    and "GetPreviousSettlementBalance db (OrganizationID p) f (st_PeriodStart s) = Inr prev"
    and "figures awbOf bp prev (swept_commission p s f db) (swept_cod p s f db) (swept_collections p s f db) (ListPendingAdjustmentsForSettlement db (st_ID s)) = Inr fg"
    and "res = \<lparr>sr_Settlement = with_totals (UserID p) fg (sum64 0 (map ld_AmountMinor (sort_drafts (fg_Drafts fg)))) (hashDrafts sha (sort_drafts (fg_Drafts fg))) s,
       sr_Lines = ListSettlementLines db' (st_ID s), sr_Replayed = False\<rparr>"
    and rows: "stl db' = (stl db)(st_ID s \<mapsto> sr_Settlement res)" and "ids_ok db'"
    and "settlements db' = map (\<lambda>u. if st_ID u = st_ID s then sr_Settlement res else u) (settlements db)"
    and db': "db' = db\<lparr>settlements := settlements db', settlement_lines := filter (\<lambda>l. ln_SettlementID l \<noteq> st_ID s) (settlement_lines db) @ statement_lines p s fg,
       commission := AttachCalculationsToSettlement (OrganizationID p) (st_ID s) (map cc_ID (swept_commission p s f db)) (commission db),
       franchise_collections := AttachFranchiseCollectionsToSettlement (OrganizationID p) (st_ID s) (map fc_ID (swept_collections p s f db)) (franchise_collections db)\<rparr>"
    by (rule calculate_Inr [OF calc ok row])
  have l: "settlement_lines db' = filter (\<lambda>l. ln_SettlementID l \<noteq> st_ID s) (settlement_lines db) @ statement_lines p s fg" by (subst db') simp
  have "\<forall>x\<in>set (statement_lines p s fg). ln_SettlementID x = st_ID s" by (auto dest!: enumerate_mem)
  then have "lines_of db' j = lines_of db j" if "j \<noteq> st_ID s" for j
    using that by (auto simp: lines_of_def l filter_empty_conv intro: filter_cong)
  then show ?thesis using st row by (intro keeps_step [OF rows]) (auto simp: isFrozen_def)
qed

lemma Generate_keeps:
  assumes inv: "stl_inv db" and gen: "Generate sha awbOf bp franchiseOf newID p inp db = Inr (res, db')"
  shows "keeps_frozen db db'"
proof -
  obtain f where f: "franchiseOf (OrganizationID p) (gq_FranchiseID inp) = Some f" using gen by (auto simp: Generate_def res_simps)
  show ?thesis
  proof (cases "FindSettlementForPeriod db (OrganizationID p) f (gq_PeriodStart inp) (gq_PeriodEnd inp)")
    case (Some s)
    note row = FindSettlement_stl [OF stl_invD(1) [OF inv] Some]
    have "db' = db \<or> (\<exists>r. calculate_settlement sha awbOf bp p s f db = Inr (r, db'))"
      using gen f Some by (auto simp: Generate_def res_simps commit_Inr_iff split: if_splits)
    then show ?thesis using calculate_keeps [OF stl_invD(1) [OF inv] _ row] keeps_same by blast
  next
    case None
    obtain number db1 s s' db2 where n: "AllocateSettlementNumber (OrganizationID p) ''STL'' (gq_PeriodEnd inp) db = Inr (number, db1)"
      and s: "CreateSettlement s db1 = Inr (s', db2)" "st_Status s = ''DRAFT''" "st_NetAmountMinor s = 0" "st_PaidMinor s = 0"
      and c: "calculate_settlement sha awbOf bp p s' f db2 = Inr (res, db')"
      using gen f None by (auto simp: Generate_def res_simps commit_Inr_iff)
    note 1 = number_inv [OF n inv]
    note 2 = create_inv [OF conjunct1 [OF 1] s] and new = CreateSettlement_Inr [OF s(1) stl_invD(1) [OF conjunct1 [OF 1]]]
    have "keeps_frozen db2 db'" using calculate_keeps [OF stl_invD(1) [OF conjunct1 [OF 2]] c] 2 by blast
    moreover have "stl db2 i = Some u" "lines_of db2 i = lines_of db i" if "stl db i = Some u" for i u
      using 1 new that by (auto simp: lines_of_def)
    ultimately show ?thesis unfolding keeps_frozen_def by metis
  qed
qed

lemma update_keeps:
  assumes "update_settlement g f db = Some (r, db')" "ids_ok db" "\<And>u. g u \<Longrightarrow> st_ID u = i" "\<And>u. st_ID (f u) = st_ID u"
    "\<And>u. g u \<Longrightarrow> isFrozen (st_Status u) \<Longrightarrow> only_progress u (f u)"
  shows "keeps_frozen db db'"
proof (rule update_settlement_Some [OF assms(1-4)])
  fix s assume s: "stl db i = Some s" "g s" "stl db' = (stl db)(i \<mapsto> f s)"
  have "settlement_lines db' = settlement_lines db" using update_settlement_same [OF assms(1)] by blast
  then show ?thesis using s assms(5) by (intro keeps_step [OF s(3)]) (auto simp: lines_of_def)
qed

lemma settlement_call_keeps:
  assumes "settlement_call db db'" "stl_inv db"
  shows "keeps_frozen db db'"
  using assms
proof (induction rule: settlement_call.induct)
  case (generate sha awbOf bp franchiseOf newID p inp db r db')
  then show ?case by (blast intro: Generate_keeps)
next
  case (recalculate sha awbOf bp p pid db r db')
  then obtain h s where lk: "LockSettlement db (OrganizationID p) (st_ID (h :: Settlement)) = Some s" and c: "calculate_settlement sha awbOf bp p s (st_FranchiseID s) db = Inr (r, db')"
    by (auto simp: Recalculate_def res_simps commit_Inr_iff)
  have "stl db (st_ID s) = Some s" using Lock_stl [OF stl_invD(1) [OF recalculate.prems] lk] by simp
  then show ?case by (rule calculate_keeps [OF stl_invD(1) [OF recalculate.prems] c])
next
  case (submit p pid comment db s db')
  then obtain h :: Settlement and db1 where u: "SubmitSettlement (OrganizationID p) (st_ID h) (UserID p) db = Some (s, db1)"
    and db': "db' = RecordSettlementApproval p s ''SUBMITTED'' comment db1" by (auto simp: Submit_def res_simps commit_Inr_iff)
  have "keeps_frozen db db1" by (rule update_keeps [OF u [unfolded SubmitSettlement_def] stl_invD(1) [OF submit.prems]]) (auto simp: isFrozen_def)
  then show ?case by (rule keeps_trans) (simp_all add: db' stl_def fun_eq_iff)
next
  case (approve now p pid comment db r db')
  then obtain s journal db1 db2 where
      j: "(if st_NetAmountMinor s = 0 then Inr (None, db) else bindE (post_settlement p now (approval_posting s) db) (\<lambda>(j, db1). Inr (Some j, db1))) = Inr (journal, db1)"
    and u: "ApproveSettlement (OrganizationID p) (st_ID s) (UserID p) journal db1 = Some (r, db2)"
    and db': "db' = RecordSettlementApproval p r ''APPROVED'' comment (db2\<lparr>franchise_collections := MarkFranchiseCollectionsRemitted (OrganizationID p) (st_ID s) (franchise_collections db2)\<rparr>)"
    by (auto simp: Approve_def res_simps commit_Inr_iff split del: if_split)
  have 1: "stl db1 = stl db" "settlement_lines db1 = settlement_lines db" "ids_ok db1"
    using j stl_invD(1) [OF approve.prems] by (auto simp: post_settlement_def res_simps stl_def ids_ok_def fun_eq_iff split: if_splits)
  have "keeps_frozen db1 db2" by (rule update_keeps [OF u [unfolded ApproveSettlement_def] 1(3)]) (auto simp: isFrozen_def)
  then have "keeps_frozen db1 db'" by (rule keeps_trans) (simp_all add: db' stl_def fun_eq_iff)
  then show ?case using 1 by (auto simp: keeps_frozen_def lines_of_def)
next
  case (pay now p pinp db y db')
  then obtain s number d db1 inp journal db2 z db3 r where n: "AllocateSettlementNumber (OrganizationID p) ''SPM'' d db = Inr (number, db1)"
    and po: "post_settlement p now inp db1 = Inr (journal, db2)" and cr: "CreateSettlementPayment z db2 = Inr db3"
    and u: "RecordSettlementPaid (OrganizationID p) (st_ID (s :: Settlement)) (pq_AmountMinor pinp) db3 = Some (r, db')" and pos: "0 < pq_AmountMinor pinp"
    by (auto simp: Pay_def Let_def res_simps commit_Inr_iff)
  note num = number_inv [OF n pay.prems]
  have 3: "stl db3 = stl db" "settlement_lines db3 = settlement_lines db" "ids_ok db3"
    using po num stl_invD(1) [OF conjunct1 [OF num]] by (auto simp: post_settlement_def res_simps CreateSettlementPayment_Inr [OF cr] stl_def ids_ok_def fun_eq_iff)
  have "keeps_frozen db3 db'"
    by (rule update_keeps [OF u [unfolded RecordSettlementPaid_def] 3(3)]) (use pos in \<open>auto simp: isFrozen_def only_progress_def\<close>)
  then show ?case using 3 by (auto simp: keeps_frozen_def lines_of_def)
next
  case (cancel p pid reason db s db')
  then obtain h :: Settlement and db1 where u: "CancelSettlement (OrganizationID p) (st_ID h) reason db1 = Some (s, db')"
    and db1: "db1 = db\<lparr>commission := commission db1, franchise_collections := franchise_collections db1\<rparr>" by (auto simp: Cancel_def res_simps)
  have 1: "settlements db1 = settlements db" "settlement_lines db1 = settlement_lines db" "next_settlement db1 = next_settlement db" by (subst db1, simp)+
  have "ids_ok db1" using rows_same(2) [OF 1(1,3)] stl_invD(1) [OF cancel.prems] by simp
  then have "keeps_frozen db1 db'" by (rule update_keeps [OF u [unfolded CancelSettlement_def]]) (auto simp: isFrozen_def working_states_def)
  then show ?case using rows_same(1) [OF 1(1)] 1(2) by (auto simp: keeps_frozen_def lines_of_def)
next
  case (raise_adjustment newID p ainp db a db')
  then show ?case by (intro keeps_same rows_same) (auto simp: RaiseAdjustment_def CreateSettlementAdjustment_def res_simps Let_def)
next
  case (approve_adjustment now p pid db a db')
  then have "settlements db' = settlements db \<and> settlement_lines db' = settlement_lines db"
    by (auto simp: ApproveAdjustment_def ApproveSettlementAdjustment_def MarkSettlementAdjustmentApplied_def post_settlement_def res_simps split: if_splits dest!: update_adjustment_same)
  then show ?case by (intro keeps_same rows_same) auto
next
  case (reject_adjustment p pid reason db a db')
  then show ?case by (intro keeps_same rows_same) (auto simp: RejectAdjustment_def RejectSettlementAdjustment_def res_simps dest!: update_adjustment_same)
next
  case (record_collection shipmentOf franchiseOfUnit newID now p rinp db c db')
  then show ?case by (intro keeps_same rows_same) (auto simp: Record_collection_def CreateFranchiseCollection_def res_simps Let_def split: option.splits)
qed (intro keeps_same rows_same; simp)+

text \<open>
  C16: \<^bold>\<open>An approved statement never changes.\<close> Once a statement is approved, by someone other than the person who calculated it, no call of any service
  changes its lines or any field of it but the payment progress, which only grows: no regeneration, recalculation, cancellation or adjustment.
\<close>

theorem settlement_frozen:
  assumes "settlement_start db0" "settlement_call\<^sup>*\<^sup>* db0 db" "settlement_call db db'" and s: "s \<in> set (settlements db)" "isFrozen (st_Status s)"
  shows "(\<exists>u. st_ApprovedBy s = Some u \<and> st_CalculatedBy s \<noteq> Some u)
    \<and> (\<exists>s' \<in> set (settlements db'). only_progress s s') \<and> ListSettlementLines db' (st_ID s) = ListSettlementLines db (st_ID s)"
proof -
  have inv: "stl_inv db" by (rule settlement_reach_inv [OF assms(2,1)])
  have row: "stl db (st_ID s) = Some s" using s(1) stl_invD(1) [OF inv] by (simp add: stl_Some)
  have "checked s" using stl_invD(3) [OF inv row] by (simp add: stmt_ok_def)
  moreover obtain s' where "stl db' (st_ID s) = Some s'" "only_progress s s'" "lines_of db' (st_ID s) = lines_of db (st_ID s)"
    using settlement_call_keeps [OF assms(3) inv] row s(2) unfolding keeps_frozen_def by blast
  moreover have "s' \<in> set (settlements db')" using \<open>stl db' (st_ID s) = Some s'\<close> by (auto simp: stl_def dest: find_SomeD)
  ultimately show ?thesis using s(2) by (auto simp: checked_def ListSettlementLines_def lines_of_def)
qed

subsection \<open>A statement from a commission to its payment\<close>

definition com_earned :: CommissionCalculation where
  "com_earned = \<lparr>cc_ID = 1, cc_PublicID = ''ccl_1'', cc_OrganizationID = 7, cc_CommissionType = ''DELIVERY'', cc_ShipmentID = Some 40, cc_QualifyingEvent = ''DELIVERED'',
     cc_QualifyingEventID = None, cc_QualifiedAt = 20260808, cc_RecipientType = ''FRANCHISE'', cc_RecipientID = 4, cc_FranchiseID = Some 4, cc_OperatingUnitID = None,
     cc_RuleID = 2, cc_RuleVersionID = 1, cc_RuleCode = ''KOL'', cc_RuleVersionNo = 1, cc_CalculationMethod = ''FIXED'', cc_Basis = None, cc_BaseAmountMinor = 0,
     cc_RateBp = None, cc_GrossAmountMinor = 5500, cc_AmountMinor = 5500, cc_Currency = ''INR'',
     cc_CalculationTrace = [mkStep ''Fixed amount per qualifying event'' 5500 []], cc_Status = ''POSTED'', cc_JournalTransactionID = Some 1, cc_SettlementID = None,
     cc_ReversedByID = None\<rparr>"

definition stm_journal :: "int \<Rightarrow> string \<Rightarrow> int \<Rightarrow> string \<Rightarrow> int \<Rightarrow> string \<Rightarrow> string \<Rightarrow> int \<Rightarrow> JournalTransaction" where
  "stm_journal i number d ty sid pu de amt = \<lparr>j_ID = i, j_OrganizationID = 7, j_TransactionNumber = number, j_PeriodID = 5, j_PostingDate = d, j_Status = ''POSTED'',
     j_Currency = ''INR'', j_SourceType = ty, j_SourceID = Some sid, j_Purpose = pu, j_Description = de, j_Reason = None, j_ReversesID = None, j_ReversedByID = None,
     j_TotalMinor = amt, j_EntryCount = 2\<rparr>"

definition stm_entry :: "int \<Rightarrow> int \<Rightarrow> int \<Rightarrow> int \<Rightarrow> int \<Rightarrow> int option \<Rightarrow> int option \<Rightarrow> string \<Rightarrow> JournalEntry" where
  "stm_entry j a n d c f sh memo = \<lparr>e_OrganizationID = 7, e_TransactionID = j, e_AccountID = a, e_LineNo = n, e_DebitMinor = d, e_CreditMinor = c, e_Currency = ''INR'',
     e_FranchiseID = f, e_OperatingUnitID = None, e_CustomerID = None, e_ShipmentID = sh, e_Memo = Some memo\<rparr>"

definition com_books :: LedgerDB where
  "com_books = com_chart\<lparr>journals := [stm_journal 1 ''JV-202608-000001'' 20260808 ''COMMISSION'' 1 ''DELIVERY'' ''DELIVERY commission, rule KOL v1'' 5500],
     entries := [stm_entry 1 1 1 5500 0 (Some 4) (Some 40) ''Commission earned by the network'', stm_entry 1 2 2 0 5500 (Some 4) (Some 40) ''Accrued DELIVERY commission''],
     op_sequences := [(7, ''JRN'', ''202608'') \<mapsto> (1, 999999)], next_journal := 2\<rparr>"

definition com_1 :: CommissionDB where
  "com_1 = com_0\<lparr>calculations := [com_earned], next_calculation := 2, comm_ledger := com_books,
     commission_entries := [commission_entry demo_principal (com_earned\<lparr>cc_Status := ''CALCULATED'', cc_JournalTransactionID := None\<rparr>) ''EARNED'' 5500 20260808 ''Rule KOL v1'']\<rparr>"

lemma com_accrued: "Calculate_commission ''ccl_1'' 20260808 demo_principal com_request com_0 = Inr ((com_earned, False), com_1)"
proof -
  have r: "ResolveRule (OrganizationID demo_principal) (crq_Facts com_request) 20260808 com_0 =
      Inr \<lparr>re_Rule = com_rule 2 ''KOL'' (Some 4), re_Version = com_version, re_Candidates = [com_rule 2 ''KOL'' (Some 4), com_rule 1 ''BASE'' None]\<rparr>"
    using com_resolve by (simp add: demo_principal_def com_request_def)
  have c: "Calculate (ruleFromVersion com_version) (crq_Basis com_request) = Inr com_outcome" using com_calculated by (simp add: com_request_def)
  have s: "calculations com_0 = []" "next_calculation com_0 = 1" "comm_ledger com_0 = com_chart" "commission_entries com_0 = []" by (simp_all add: com_0_def)
  have q: "crq_ShipmentID com_request = Some 40" "crq_RecipientType com_request = ''FRANCHISE''" "crq_RecipientID com_request = 4" "crq_QualifiedAt com_request = None"
    "crq_PostImmediately com_request = True" by (simp_all add: com_request_def)
  show ?thesis
    by (simp add: Calculate_commission_def calculate_new_def r c q Let_def FindCalculationForShipment_def s CreateCommissionCalculation_def calculation_clash_def)
      (simp add: post_eval com_numbers post_commission_def commission_posting_def new_calculation_def com_outcome_def com_request_def com_facts_def com_rule_def com_version_def
        commission_types_def method_defs MarkCalculationPosted_def update_calculation_def CreateCommissionEntry_def com_chart_def demo_defs s
        com_1_def com_earned_def com_books_def stm_journal_def stm_entry_def)
qed

definition stm_0 :: SettlementDB where
  "stm_0 = \<lparr>settlements = [], settlement_lines = [], settlement_adjustments = [], settlement_approvals = [], settlement_payments = [], franchise_collections = [],
     cod_obligations = [], next_settlement = 1, next_settlement_adjustment = 1, next_franchise_collection = 1, commission = com_0\<rparr>"

definition stm_request :: GenerateRequest where
  "stm_request = \<lparr>gq_FranchiseID = ''fra_4'', gq_PeriodType = [], gq_PeriodStart = 20260801, gq_PeriodEnd = 20260831, gq_Notes = []\<rparr>"

abbreviation stm_generate :: "SettlementDB \<Rightarrow> (SettlementResult \<times> SettlementDB) result" where
  "stm_generate \<equiv> Generate (\<lambda>_. ''0f'') (\<lambda>_. ''AWB'') 0 (\<lambda>_ _. Some 4) ''stl_1'' demo_principal stm_request"

lemma stm_next_day: "next_day 20260831 = 20260901" by (simp add: next_day_def days_in_month_def ymd_def)

lemma stm_numbers: "format_0d 5 1 = ''00001''" "format_200601 20260831 = ''202608''" 
  by (simp_all add: FormatInt_def format_200601_def format_0d_def pad_dec_def dec.simps replicate_num)
definition com_2 :: CommissionDB where
  "com_2 = com_1\<lparr>comm_ledger := com_books\<lparr>op_sequences := (op_sequences com_books)((7, ''STL'', ''202608'') \<mapsto> (1, 999999))\<rparr>\<rparr>"

lemma stm_number: "AllocateSettlementNumber 7 ''STL'' 20260831 (stm_0\<lparr>commission := com_1\<rparr>) = Inr (''STL-202608-00001'', stm_0\<lparr>commission := com_2\<rparr>)"
  by (simp add: AllocateSettlementNumber_def stm_numbers AllocateOperationalSequence_def com_1_def com_books_def Let_def stm_0_def com_chart_def demo_ledger_def com_2_def width_defs)

definition stm_draft :: Settlement where
 "stm_draft = \<lparr>st_ID = 1, st_PublicID = ''stl_1'', st_OrganizationID = 7, st_SettlementNumber = ''STL-202608-00001'', st_FranchiseID = 4,
                st_PeriodType = ''MONTHLY'', st_PeriodStart = 20260801,
                st_PeriodEnd = 20260831, st_Status = ''DRAFT'', st_Currency = ''INR'', st_CommissionMinor = 0, st_IncentiveMinor = 0,
                st_CodLiabilityMinor = 0, st_ChargesMinor = 0, st_PenaltiesMinor = 0, st_AdjustmentsMinor = 0, st_TaxMinor = 0, st_WithholdingMinor = 0,
                st_CollectionsMinor = 0, st_OpeningBalanceMinor = 0, st_NetAmountMinor = 0, st_PaidMinor = 0, st_CalculationHash = None, st_CalculatedBy = None,
                st_SubmittedBy = None, st_ApprovedBy = None, st_CancelReason = None, st_JournalTransactionID = None, st_Notes = None,
                st_CreatedBy = Some 11\<rparr>"

definition stm_created :: SettlementDB where
  "stm_created = stm_0\<lparr>commission := com_2, settlements := [stm_draft], next_settlement := 2\<rparr>"

lemma stm_swept: "SweepCommissionForSettlement com_2 7 4 1 20260801 20260901 = [com_earned]"
  by (simp add: SweepCommissionForSettlement_def com_2_def com_1_def com_earned_def)

lemma stm_figures: "figures (\<lambda>_. ''AWB'') 0 None [com_earned] [] [] [] = Inr \<lparr>fg_Drafts = [commission_draft com_earned], fg_Commission = 5500, fg_Incentive = 0, fg_Cod = 0,
   fg_Collections = 0, fg_Penalties = 0, fg_Adjustments = 0, fg_Withholding = 0, fg_Opening = 0\<rparr>"
  by (simp add: figures_def com_earned_def categoryForCommission_def opening_drafts_def withholding_drafts_def add64_def width_defs)

definition stm_line :: SettlementLine where
  "stm_line = draft_line 7 stm_draft 0 (commission_draft com_earned)"

definition stm_calculated :: Settlement where
  "stm_calculated = stm_draft\<lparr>st_Status := ''CALCULATED'', st_CommissionMinor := 5500, st_NetAmountMinor := 5500, st_CalculationHash := Some ''0f'', st_CalculatedBy := Some 11\<rparr>"

definition stm_2 :: SettlementDB where
  "stm_2 = stm_created\<lparr>settlements := [stm_calculated], settlement_lines := [stm_line], commission := com_2\<lparr>calculations := [com_earned\<lparr>cc_SettlementID := Some 1\<rparr>]\<rparr>\<rparr>"

lemma stm_line_fields [simp]: "ln_SettlementID stm_line = 1" "ln_AmountMinor stm_line = 5500" "ln_LineNo stm_line = 1" "ln_SourceType stm_line = ''COMMISSION_CALCULATION''"
  "ln_SourceID stm_line = Some 1"
  by (simp_all add: stm_line_def draft_line_def stm_draft_def commission_draft_def com_earned_def width_defs)

lemma stm_calculation: "calculate_settlement (\<lambda>_. ''0f'') (\<lambda>_. ''AWB'') 0 demo_principal stm_draft 4 stm_created =
    Inr (\<lparr>sr_Settlement = stm_calculated, sr_Lines = [stm_line], sr_Replayed = False\<rparr>, stm_2)"
  apply (simp add: calculate_settlement_def demo_principal_def)
  apply (simp add: stm_created_def stm_0_def DeleteSettlementLines_def stm_draft_def Let_def GetPreviousSettlementBalance_def SweepCODForSettlement_def stm_next_day stm_swept stm_figures
    SweepFranchiseCollectionsForSettlement_def ListPendingAdjustmentsForSettlement_def sort_drafts_def)
  apply (simp add: com_earned_def CreateSettlementLine_def parent_working_def working_states_def line_categories_def line_sources_def draft_line_def commission_draft_def
    categoryForCommission_def add64_def neg64_def width_defs ApplySettlementTotals_def update_settlement_def with_totals_def hashDrafts_def Optional_def
    AttachCalculationsToSettlement_def AttachFranchiseCollectionsToSettlement_def ListSettlementLines_def stm_2_def stm_created_def stm_0_def stm_calculated_def
    stm_line_def com_2_def com_1_def stm_draft_def)
  done

lemma stm_generated: "stm_generate (stm_0\<lparr>commission := com_1\<rparr>) = Inr (\<lparr>sr_Settlement = stm_calculated, sr_Lines = [stm_line], sr_Replayed = False\<rparr>, stm_2)"
proof -
  have c: "CreateSettlement (stm_draft\<lparr>st_ID := 0\<rparr>) (stm_0\<lparr>commission := com_2\<rparr>) = Inr (stm_draft, stm_created)"
    by (simp add: CreateSettlement_def stm_0_def stm_draft_def stm_created_def FindSettlementForPeriod_def Let_def)
  have "commit_settlement 1 (r, stm_2) = Inr (r, stm_2)" for r :: SettlementResult
    by (simp add: commit_settlement_def assert_settlement_totals_def stm_2_def stm_calculated_def stm_draft_def)
  moreover have "st_ID stm_draft = 1" by (simp add: stm_draft_def)
  ultimately show ?thesis using c stm_number stm_calculation unfolding stm_draft_def by (simp add: Generate_def stm_request_def FindSettlementForPeriod_def stm_0_def demo_principal_def Optional_def)
qed

definition stm_checker :: Principal where
  "stm_checker = demo_principal\<lparr>UserID := 12\<rparr>"

definition stm_books :: LedgerDB where
  "stm_books = com_books\<lparr>op_sequences := (op_sequences com_books)((7, ''STL'', ''202608'') \<mapsto> (1, 999999))\<rparr>"

lemma stm_journal_numbers: "format_0d 6 2 = ''000002''" "format_0d 6 3 = ''000003''" "FormatInt 4 = ''4''"
  by (simp_all add: FormatInt_def format_200601_def format_0d_def pad_dec_def dec.simps replicate_num)

definition stm_payable :: LedgerAccount where
  "stm_payable = \<lparr>ac_ID = 5, ac_OrganizationID = 7, ac_Code = ''2200.FRN.4'', ac_Name = ''2200 '' @ em_dash @ '' franchise 4'', ac_AccountType = ''LIABILITY'',
     ac_NormalBalance = ''CREDIT'', ac_Currency = ''INR'', ac_PartyType = Some ''FRANCHISE'', ac_PartyID = Some 4, ac_ParentID = Some 3\<rparr>"

definition stm_books_2 :: LedgerDB where
  "stm_books_2 = stm_books\<lparr>accounts := accounts stm_books @ [stm_payable], next_account := 6, next_journal := 3,
     journals := journals stm_books @ [stm_journal 2 ''JV-202608-000002'' 20260831 ''SETTLEMENT'' 1 ''APPROVAL'' ''Settlement STL-202608-00001'' 5500],
     entries := entries stm_books @ [stm_entry 2 2 1 5500 0 (Some 4) None ''Accrued commission settled'',
        stm_entry 2 5 2 0 5500 (Some 4) None ''Net payable for STL-202608-00001''],
     op_sequences := (op_sequences stm_books)((7, ''JRN'', ''202608'') \<mapsto> (2, 999999))\<rparr>"

lemmas books_eval = stm_books_2_def stm_payable_def stm_books_def com_books_def stm_journal_def stm_entry_def com_chart_def demo_defs stm_checker_def franchise_leg_def
  stm_calculated_def stm_draft_def com_numbers stm_numbers stm_journal_numbers

lemma stm_approval_posting: "\<exists>r. Post stm_checker 20260831 (approval_posting stm_calculated) stm_books = Inr (r, stm_books_2) \<and> j_ID (rs_Transaction r) = 2"
  by (simp add: approval_posting_def Let_def books_eval) (simp add: post_eval com_numbers stm_numbers stm_journal_numbers)

definition stm_approved :: Settlement where
  "stm_approved = stm_calculated\<lparr>st_Status := ''APPROVED'', st_ApprovedBy := Some 12, st_JournalTransactionID := Some 2\<rparr>"

definition stm_3 :: SettlementDB where
  "stm_3 = stm_2\<lparr>settlements := [stm_approved], commission := (commission stm_2)\<lparr>comm_ledger := stm_books_2\<rparr>,
     settlement_approvals := [\<lparr>sv_OrganizationID = 7, sv_SettlementID = 1, sv_Action = ''APPROVED'', sv_NetAmountMinor = 5500, sv_Currency = ''INR'', sv_Comment = None, sv_ActorID = 12\<rparr>]\<rparr>"

lemma stm_approval: "Approve 20260831 stm_checker ''stl_1'' [] stm_2 = Inr (stm_approved, stm_3)"
proof -
  have l: "comm_ledger (commission stm_2) = stm_books" by (simp add: stm_2_def com_2_def stm_books_def)
  obtain r where r: "Post stm_checker 20260831 (approval_posting stm_calculated) (comm_ledger (commission stm_2)) = Inr (r, stm_books_2)" "j_ID (rs_Transaction r) = 2" using stm_approval_posting l by auto
  have p: "OrganizationID stm_checker = 7" "UserID stm_checker = 12" by (simp_all add: stm_checker_def demo_principal_def)
  have c: "st_PublicID stm_calculated = ''stl_1''" "st_OrganizationID stm_calculated = 7" "st_ID stm_calculated = 1" "st_CalculatedBy stm_calculated = Some 11"
    "st_Status stm_calculated = ''CALCULATED''" "st_NetAmountMinor stm_calculated = 5500" "st_Currency stm_calculated = ''INR''"
    by (simp_all add: stm_calculated_def stm_draft_def)
  have s: "settlements stm_2 = [stm_calculated]" "franchise_collections stm_2 = []" "settlement_lines stm_2 = [stm_line]" "settlement_approvals stm_2 = []"
    by (simp_all add: stm_2_def stm_created_def stm_0_def)
  show ?thesis
    by (simp add: Approve_def GetSettlementByPublicID_def LockSettlement_def s c p post_settlement_def r ApproveSettlement_def update_settlement_def commit_settlement_def
       assert_settlement_totals_def RecordSettlementApproval_def MarkFranchiseCollectionsRemitted_def Optional_def stm_approved_def stm_3_def)
qed

definition stm_payment :: PayRequest where
  "stm_payment = \<lparr>pq_SettlementID = ''stl_1'', pq_AmountMinor = 2000, pq_PaymentMode = ''UPI'', pq_Reference = [], pq_PaidOn = None\<rparr>"

lemma stm_paid: "\<exists>y db. Pay 20260831 demo_principal stm_payment stm_3 = Inr ((y, stm_approved\<lparr>st_Status := ''PARTIALLY_PAID'', st_PaidMinor := 2000\<rparr>), db)
    \<and> settlements db = [stm_approved\<lparr>st_Status := ''PARTIALLY_PAID'', st_PaidMinor := 2000\<rparr>]"
proof -
  have s: "settlements stm_3 = [stm_approved]" "settlement_lines stm_3 = [stm_line]" "settlement_payments stm_3 = []" "comm_ledger (commission stm_3) = stm_books_2"
    by (simp_all add: stm_3_def stm_2_def stm_created_def stm_0_def)
  have c: "st_PublicID stm_approved = ''stl_1''" "st_OrganizationID stm_approved = 7" "st_ID stm_approved = 1" "st_Status stm_approved = ''APPROVED''"
    "st_NetAmountMinor stm_approved = 5500" "st_PaidMinor stm_approved = 0" "st_Currency stm_approved = ''INR''" "st_SettlementNumber stm_approved = ''STL-202608-00001''"
    "st_FranchiseID stm_approved = 4"
    by (simp_all add: stm_approved_def stm_calculated_def stm_draft_def)
  have p: "OrganizationID demo_principal = 7" "UserID demo_principal = 11" by (simp_all add: demo_principal_def)
  let ?l = "stm_books_2\<lparr>op_sequences := (op_sequences stm_books_2)((7, ''SPM'', ''202608'') \<mapsto> (1, 999999))\<rparr>"
  have al: "AllocateSettlementNumber 7 ''SPM'' 20260831 stm_3 = Inr (''SPM-202608-00001'', stm_3\<lparr>commission := (commission stm_3)\<lparr>comm_ledger := ?l\<rparr>\<rparr>)"
    by (simp add: AllocateSettlementNumber_def stm_numbers AllocateOperationalSequence_def s Let_def width_defs) (simp add: stm_books_2_def stm_books_def com_books_def stm_numbers)
  have po: "\<exists>r l. Post demo_principal 20260831 (payment_posting stm_approved 2000 ''SPM-202608-00001'' 20260831) ?l = Inr (r, l)"
    by (simp add: payment_posting_def Let_def c franchise_leg_def) (simp add: books_eval, simp add: post_eval com_numbers stm_numbers stm_journal_numbers)
  then obtain r l where r: "Post demo_principal 20260831 (payment_posting stm_approved 2000 ''SPM-202608-00001'' 20260831) ?l = Inr (r, l)" by blast
  show ?thesis
    by (simp add: Pay_def stm_payment_def GetSettlementByPublicID_def LockSettlement_def s c p payable_def al post_settlement_def r CreateSettlementPayment_def
        RecordSettlementPaid_def update_settlement_def commit_settlement_def assert_settlement_totals_def Let_def abs64_def sub64_def add64_def width_defs)
qed

lemma stm_start: "settlement_start stm_0"
  using com_start by (simp add: settlement_start_def stm_0_def com_0_def com_chart_def demo_ledger_def)

lemma stm_reach: "settlement_call\<^sup>*\<^sup>* stm_0 stm_2" "settlement_call\<^sup>*\<^sup>* stm_0 stm_3"
proof -
  have "commission_service_call com_0 com_1" using com_accrued by (rule commission_service_call.calculate)
  then have "settlement_call stm_0 (stm_0\<lparr>commission := com_1\<rparr>)" using settlement_call.commission_service [of stm_0 com_1] by (simp add: stm_0_def)
  moreover have "settlement_call (stm_0\<lparr>commission := com_1\<rparr>) stm_2" using stm_generated by (rule settlement_call.generate)
  ultimately show r: "settlement_call\<^sup>*\<^sup>* stm_0 stm_2" by simp
  show "settlement_call\<^sup>*\<^sup>* stm_0 stm_3" using r settlement_call.approve [OF stm_approval] by simp
qed

lemma stm_rows: "settlements stm_2 = [stm_calculated]" "settlements stm_3 = [stm_approved]" "settlement_lines stm_2 = [stm_line]" "settlement_lines stm_3 = [stm_line]"
  by (simp_all add: stm_3_def stm_2_def)

lemma stm_fields: "st_ID stm_calculated = 1" "st_Status stm_calculated = ''CALCULATED''" "st_NetAmountMinor stm_calculated = 5500" "st_ID stm_approved = 1"
  "st_Status stm_approved = ''APPROVED''" "st_NetAmountMinor stm_approved = 5500" "st_OrganizationID stm_approved = 7" "st_JournalTransactionID stm_approved = Some 2"
  by (simp_all add: stm_approved_def stm_calculated_def stm_draft_def)

theorem settlement_reconciles_witness:
  "sum_list (map ln_AmountMinor (ListSettlementLines stm_2 1)) = 5500 \<and> wrap64 (components stm_calculated) = 5500"
  using settlement_reconciles [OF stm_start stm_reach(1), of stm_calculated] by (simp add: stm_rows stm_fields)

theorem commission_on_one_statement_witness: "\<exists>s \<in> set (settlements stm_2). stm_line \<in> set (ListSettlementLines stm_2 (st_ID s)) \<and> s = stm_calculated"
proof -
  have l: "stm_line \<in> set (ListSettlementLines stm_2 (st_ID stm_calculated))" by (simp add: ListSettlementLines_def stm_rows stm_fields)
  have "stm_calculated = stm_calculated"
    by (rule commission_on_one_statement [OF stm_start stm_reach(1) _ _ l _ _ _ _ l]) (simp_all add: stm_rows stm_fields)
  then show ?thesis using l by (simp add: stm_rows)
qed

theorem settlement_paid_witness:
  "\<exists>y db. Pay 20260831 demo_principal stm_payment stm_3 = Inr ((y, stm_approved\<lparr>st_Status := ''PARTIALLY_PAID'', st_PaidMinor := 2000\<rparr>), db) \<and> paid_sum db 1 = 2000
     \<and> Pay 20260831 demo_principal (stm_payment\<lparr>pq_AmountMinor := 3501\<rparr>) db = Inl (Conflict ''SETTLEMENT_OVERPAYMENT'')"
proof -
  let ?s = "stm_approved\<lparr>st_Status := ''PARTIALLY_PAID'', st_PaidMinor := 2000\<rparr>"
  obtain y db where y: "Pay 20260831 demo_principal stm_payment stm_3 = Inr ((y, ?s), db)" "settlements db = [?s]" using stm_paid by blast
  have "settlement_call\<^sup>*\<^sup>* stm_0 db" using stm_reach(2) settlement_call.pay [OF y(1)] by simp
  note paid = settlement_paid [OF stm_start this, of ?s]
  have "GetSettlementByPublicID db (OrganizationID demo_principal) ''stl_1'' = Some ?s"
    by (simp add: GetSettlementByPublicID_def y(2) demo_principal_def stm_approved_def stm_calculated_def stm_draft_def)
  then have "Pay 20260831 demo_principal (stm_payment\<lparr>pq_AmountMinor := 3501\<rparr>) db = Inl (Conflict ''SETTLEMENT_OVERPAYMENT'')"
    using paid y(2) by (simp add: stm_fields payable_def stm_payment_def)
  moreover have "paid_sum db 1 = 2000" using paid y(2) by (simp add: stm_fields)
  ultimately show ?thesis using y(1) by blast
qed


theorem settlement_frozen_witness:
  "\<exists>y db. Pay 20260831 demo_principal stm_payment stm_3 = Inr (y, db) \<and> ListSettlementLines db 1 = [stm_line] \<and> (\<exists>u. st_ApprovedBy stm_approved = Some u \<and> st_CalculatedBy stm_approved \<noteq> Some u)"
proof -
  obtain y db where y: "Pay 20260831 demo_principal stm_payment stm_3 = Inr (y, db)" using stm_paid by blast
  have "isFrozen (st_Status stm_approved)" "stm_approved \<in> set (settlements stm_3)" by (simp_all add: isFrozen_def stm_fields stm_rows)
  with settlement_frozen [OF stm_start stm_reach(2) settlement_call.pay [OF y], of stm_approved] show ?thesis
    using y by (auto simp: stm_fields ListSettlementLines_def stm_rows)
qed

end
