(* ===== verification/Corrections.thy ===== *)
theory Corrections
  imports Statements
begin

text \<open>
  What becomes of a statement after it was calculated: recalculation over the sources it has already claimed, and
  corrections that arrive between calculation and approval (\<^verbatim>\<open>Recalculate\<close> and \<^verbatim>\<open>Approve\<close> of
  \<^verbatim>\<open>internal/settlement/settlement.go\<close>, \<^verbatim>\<open>ApproveAdjustment\<close> of \<^verbatim>\<open>adjustment.go\<close>).
\<close>

subsection \<open>Recalculation\<close>

lemma sort_key_map: "(\<And>x. k (g x) = k x) \<Longrightarrow> sort_key k (map g xs) = map g (sort_key k xs)"
proof (induction xs)
  case (Cons x xs)
  have "insort_key k (g x) (map g ys) = map g (insort_key k x ys)" for ys by (induction ys) (simp_all add: Cons.prems)
  then show ?case using Cons by simp
qed simp

lemma filter_sort_drafts: "filter P (sort_drafts ds) = sort_drafts (filter P ds)"
  by (simp add: sort_drafts_def filter_sort)

definition attached :: "int \<Rightarrow> int list \<Rightarrow> int \<Rightarrow> CommissionCalculation \<Rightarrow> CommissionCalculation" where
  "attached org ids i c = (if cc_OrganizationID c = org \<and> cc_ID c \<in> set ids then c\<lparr>cc_SettlementID := Some i\<rparr> else c)"

lemma attached_fields [simp]: "cc_OrganizationID (attached org ids i c) = cc_OrganizationID c" "cc_FranchiseID (attached org ids i c) = cc_FranchiseID c"
    "cc_Status (attached org ids i c) = cc_Status c" "cc_QualifiedAt (attached org ids i c) = cc_QualifiedAt c" "cc_ID (attached org ids i c) = cc_ID c"
    "cc_CommissionType (attached org ids i c) = cc_CommissionType c" "cc_AmountMinor (attached org ids i c) = cc_AmountMinor c"
    "commission_draft (attached org ids i c) = commission_draft c"
  by (simp_all add: attached_def commission_draft_def)

text \<open>A statement sweeps its own commissions again, and no others.\<close>

lemma sweep_again:
  fixes org f i a b :: int
  assumes "calcs_ok (calculations cdb) n"
  defines "S \<equiv> SweepCommissionForSettlement cdb org f i a b"
  shows "SweepCommissionForSettlement (AttachCalculationsToSettlement org i (map cc_ID S) cdb) org f i a b = map (attached org (map cc_ID S) i) S"
proof -
  let ?g = "attached org (map cc_ID S) i"
  let ?P = "\<lambda>c. cc_OrganizationID c = org \<and> cc_FranchiseID c = Some f \<and> cc_Status c = ''POSTED'' \<and> (cc_SettlementID c = None \<or> cc_SettlementID c = Some i)
      \<and> a \<le> cc_QualifiedAt c \<and> cc_QualifiedAt c < b"
  have S: "set S = {c \<in> set (calculations cdb). ?P c}" by (auto simp: S_def SweepCommissionForSettlement_def)
  have "?P (?g c) = ?P c" if c: "c \<in> set (calculations cdb)" for c
  proof (cases "cc_OrganizationID c = org \<and> cc_ID c \<in> set (map cc_ID S)")
    case True
    then obtain d where d: "d \<in> set S" "cc_ID d = cc_ID c" by auto
    then have "d = c" using calc_same [OF assms(1)] c S by blast
    then have "?P c" using d(1) S by blast
    then show ?thesis by (simp add: attached_def)
  next
    case False
    then have "?g c = c" by (auto simp: attached_def)
    then show ?thesis by simp
  qed
  then have "filter (?P \<circ> ?g) (calculations cdb) = filter ?P (calculations cdb)" by (intro filter_cong) auto
  then have "filter ?P (map ?g (calculations cdb)) = map ?g (filter ?P (calculations cdb))" by (simp add: filter_map)
  moreover have "calculations (AttachCalculationsToSettlement org i (map cc_ID S) cdb) = map ?g (calculations cdb)"
    by (simp add: AttachCalculationsToSettlement_def attached_def)
  ultimately show ?thesis by (simp add: SweepCommissionForSettlement_def sort_key_map S_def)
qed

text \<open>Its own counter collections are claimed, and the sweep looks for unclaimed ones.\<close>

lemma filter_map_none: "(\<And>x. x \<in> set xs \<Longrightarrow> \<not> P (g x)) \<Longrightarrow> filter P (map g xs) = []"
  by (induction xs) auto

lemma sweep_collections_again:
  "SweepFranchiseCollectionsForSettlement (AttachFranchiseCollectionsToSettlement org i (map fc_ID (SweepFranchiseCollectionsForSettlement fcs org f a b)) fcs) org f a b = []"
proof -
  let ?S = "SweepFranchiseCollectionsForSettlement fcs org f a b"
  let ?P = "\<lambda>c. fc_OrganizationID c = org \<and> fc_FranchiseID c = f \<and> fc_Status c = ''COLLECTED'' \<and> fc_SettlementID c = None \<and> a \<le> fc_CollectedAt c \<and> fc_CollectedAt c < next_day b"
  let ?g = "\<lambda>c. if fc_OrganizationID c = org \<and> fc_ID c \<in> set (map fc_ID ?S) \<and> fc_SettlementID c = None \<and> fc_Status c = ''COLLECTED''
      then c\<lparr>fc_SettlementID := Some i, fc_Status := ''IN_SETTLEMENT''\<rparr> else c"
  have S: "set ?S = {c \<in> set fcs. ?P c}" by (auto simp: SweepFranchiseCollectionsForSettlement_def)
  have no: "\<not> ?P (?g c)" if "c \<in> set fcs" for c
  proof (cases "?P c")
    case True
    then have "c \<in> set ?S" using S that by blast
    then have "fc_ID c \<in> set (map fc_ID ?S)" by simp
    then show ?thesis using True by simp
  next
    case False
    then show ?thesis by auto
  qed
  have "filter ?P (map ?g fcs) = []" by (rule filter_map_none) (rule no)
  then have "sort_key fc_CollectedAt (sort_key fc_ID (filter ?P (map ?g fcs))) = []" by (simp only: sort_key_simps foldr.simps id_apply)
  moreover have "AttachFranchiseCollectionsToSettlement org i (map fc_ID ?S) fcs = map ?g fcs" by (simp only: AttachFranchiseCollectionsToSettlement_def)
  ultimately show ?thesis by (simp only: SweepFranchiseCollectionsForSettlement_def [of "map ?g fcs"])
qed

abbreviation not_collection :: "lineDraft \<Rightarrow> bool" where
  "not_collection d \<equiv> ld_SourceType d \<noteq> ''FRANCHISE_COLLECTION''"

lemma figures_attached: "figures awbOf bp prev (map (attached org ids i) cs) obs fcs adjs = figures awbOf bp prev cs obs fcs adjs"
  by (simp add: figures_def filter_map comp_def)

lemma figures_uncollected:
  assumes "figures awbOf bp prev cs obs fcs adjs = Inr fg"
  shows "figures awbOf bp prev cs obs [] adjs = Inr (fg\<lparr>fg_Drafts := filter not_collection (fg_Drafts fg), fg_Collections := 0\<rparr>)"
proof -
  have f: "filter not_collection (opening_drafts prev) = opening_drafts prev" "filter not_collection (map commission_draft cs) = map commission_draft cs"
    "filter not_collection (map cod_draft os) = map cod_draft os" "filter not_collection (map (collection_draft awbOf) fcs) = []"
    "filter not_collection (map adjustment_draft adjs) = map adjustment_draft adjs" "filter not_collection (withholding_drafts bp e w) = withholding_drafts bp e w" for os e w
    by (auto simp: filter_id_conv filter_empty_conv opening_drafts_def commission_draft_def cod_draft_def collection_draft_def adjustment_draft_def withholding_drafts_def
        split: option.splits if_splits)
  show ?thesis using assms by (auto simp: figures_def Let_def bindE_Inr f split del: if_split)
qed

text \<open>The content of a line, without its number.\<close>

definition line_content :: "SettlementLine \<Rightarrow> SettlementLine" where
  "line_content l = l\<lparr>ln_LineNo := 0\<rparr>"

lemma draft_in_lines: "d \<in> set ds \<Longrightarrow> \<exists>k. draft_line org s k d \<in> set (draft_lines org s n ds)"
proof (induction ds arbitrary: n)
  case (Cons x xs)
  show ?case
  proof (cases "d = x")
    case True
    then show ?thesis by (intro exI [of _ n]) simp
  next
    case False
    then obtain k where "draft_line org s k d \<in> set (draft_lines org s (Suc n) xs)" using Cons by force
    then show ?thesis by (intro exI [of _ k]) simp
  qed
qed simp

lemma draft_lines_content: "map line_content (draft_lines org s n ds) = map (\<lambda>d. line_content (draft_line org s 0 d)) ds"
  by (induction ds arbitrary: n) (simp_all add: line_content_def draft_line_def)

lemma filter_draft_lines_content:
  "map line_content (filter (\<lambda>l. ln_SourceType l \<noteq> t) (draft_lines org s n ds)) = map (\<lambda>d. line_content (draft_line org s 0 d)) (filter (\<lambda>d. ld_SourceType d \<noteq> t) ds)"
  by (induction ds arbitrary: n) (simp_all add: line_content_def draft_line_def)

lemma filter_map_unchanged:
  assumes "\<And>x. x \<in> set xs \<Longrightarrow> c x \<Longrightarrow> \<not> Q x" "\<And>x. x \<in> set xs \<Longrightarrow> c x \<Longrightarrow> \<not> Q y"
  shows "filter Q (map (\<lambda>x. if c x then y else x) xs) = filter Q xs"
  using assms by (induction xs) auto

lemma calculate_again:
  assumes inv: "stl_inv db" and row: "stl db (st_ID s) = Some s" and org: "OrganizationID q = OrganizationID p"
    and c1: "calculate_settlement sha awbOf bp p s f db = Inr (r1, db1)" and c2: "calculate_settlement sha awbOf bp q (sr_Settlement r1) f db1 = Inr (r2, db2)"
  defines "s1 \<equiv> sr_Settlement r1" and "s2 \<equiv> sr_Settlement r2"
  shows "map line_content (lines_of db2 (st_ID s)) = map line_content (filter (\<lambda>l. ln_SourceType l \<noteq> ''FRANCHISE_COLLECTION'') (lines_of db1 (st_ID s)))
    \<and> st_CollectionsMinor s2 = 0 \<and> ((\<forall>l\<in>set (lines_of db1 (st_ID s)). ln_SourceType l \<noteq> ''FRANCHISE_COLLECTION'') \<longrightarrow>
        lines_of db2 (st_ID s) = lines_of db1 (st_ID s) \<and> st_NetAmountMinor s2 = st_NetAmountMinor s1 \<and> st_CalculationHash s2 = st_CalculationHash s1)"
proof -
  let ?i = "st_ID s" and ?org = "OrganizationID p"
  obtain prev fg where st: "st_Status s \<in> {''DRAFT'', ''CALCULATED''}" and so: "st_OrganizationID s = ?org"
    and prev: "GetPreviousSettlementBalance db ?org f (st_PeriodStart s) = Inr prev"
    and fg: "figures awbOf bp prev (swept_commission p s f db) (swept_cod p s f db) (swept_collections p s f db) (ListPendingAdjustmentsForSettlement db ?i) = Inr fg"
    and res: "r1 = \<lparr>sr_Settlement = with_totals (UserID p) fg (sum64 0 (map ld_AmountMinor (sort_drafts (fg_Drafts fg)))) (hashDrafts sha (sort_drafts (fg_Drafts fg))) s,
       sr_Lines = ListSettlementLines db1 ?i, sr_Replayed = False\<rparr>"
    and rows: "stl db1 = (stl db)(?i \<mapsto> sr_Settlement r1)" and ids: "ids_ok db1"
    and lst: "settlements db1 = map (\<lambda>u. if st_ID u = ?i then sr_Settlement r1 else u) (settlements db)"
    and db1: "db1 = db\<lparr>settlements := settlements db1, settlement_lines := filter (\<lambda>l. ln_SettlementID l \<noteq> ?i) (settlement_lines db) @ statement_lines p s fg,
       commission := AttachCalculationsToSettlement ?org ?i (map cc_ID (swept_commission p s f db)) (commission db),
       franchise_collections := AttachFranchiseCollectionsToSettlement ?org ?i (map fc_ID (swept_collections p s f db)) (franchise_collections db)\<rparr>"
    by (rule calculate_Inr [OF c1 stl_invD(1) [OF inv] row])
  have s1: "st_ID s1 = ?i" "st_PeriodStart s1 = st_PeriodStart s" "st_PeriodEnd s1 = st_PeriodEnd s" "st_Status s1 = ''CALCULATED''" "st_Currency s1 = st_Currency s"
    by (simp_all add: s1_def res) (simp add: with_totals_def)
  have row1: "stl db1 (st_ID s1) = Some s1" using rows s1(1) by (simp add: s1_def)
  obtain prev2 fg2 where "st_Status s1 \<in> {''DRAFT'', ''CALCULATED''}" and "st_OrganizationID s1 = OrganizationID q"
    and prev2: "GetPreviousSettlementBalance db1 (OrganizationID q) f (st_PeriodStart s1) = Inr prev2"
    and fg2: "figures awbOf bp prev2 (swept_commission q s1 f db1) (swept_cod q s1 f db1) (swept_collections q s1 f db1) (ListPendingAdjustmentsForSettlement db1 (st_ID s1)) = Inr fg2"
    and res2: "r2 = \<lparr>sr_Settlement = with_totals (UserID q) fg2 (sum64 0 (map ld_AmountMinor (sort_drafts (fg_Drafts fg2)))) (hashDrafts sha (sort_drafts (fg_Drafts fg2))) s1,
       sr_Lines = ListSettlementLines db2 (st_ID s1), sr_Replayed = False\<rparr>"
    and "stl db2 = (stl db1)(st_ID s1 \<mapsto> sr_Settlement r2)" and "ids_ok db2"
    and "settlements db2 = map (\<lambda>u. if st_ID u = st_ID s1 then sr_Settlement r2 else u) (settlements db1)"
    and db2: "db2 = db1\<lparr>settlements := settlements db2, settlement_lines := filter (\<lambda>l. ln_SettlementID l \<noteq> st_ID s1) (settlement_lines db1) @ statement_lines q s1 fg2,
       commission := AttachCalculationsToSettlement (OrganizationID q) (st_ID s1) (map cc_ID (swept_commission q s1 f db1)) (commission db1),
       franchise_collections := AttachFranchiseCollectionsToSettlement (OrganizationID q) (st_ID s1) (map fc_ID (swept_collections q s1 f db1)) (franchise_collections db1)\<rparr>"
    by (rule calculate_Inr [OF c2 [folded s1_def] ids row1])
  have l2: "settlement_lines db2 = filter (\<lambda>l. ln_SettlementID l \<noteq> st_ID s1) (settlement_lines db1) @ statement_lines q s1 fg2" by (subst db2) simp
  have f1: "cod_obligations db1 = cod_obligations db" "settlement_adjustments db1 = settlement_adjustments db"
      "commission db1 = AttachCalculationsToSettlement ?org ?i (map cc_ID (swept_commission p s f db)) (commission db)"
      "franchise_collections db1 = AttachFranchiseCollectionsToSettlement ?org ?i (map fc_ID (swept_collections p s f db)) (franchise_collections db)"
      "settlement_lines db1 = filter (\<lambda>l. ln_SettlementID l \<noteq> ?i) (settlement_lines db) @ statement_lines p s fg"
    by (subst db1, simp)+
  have "calcs_ok (calculations (commission db)) (next_calculation (commission db))" using stl_invD(2) [OF inv] by (simp add: comm_inv_def)
  note again = sweep_again [OF this]
  have "GetPreviousSettlementBalance db1 ?org f (st_PeriodStart s) = GetPreviousSettlementBalance db ?org f (st_PeriodStart s)"
  proof -
    let ?Q = "\<lambda>u. st_OrganizationID u = ?org \<and> st_FranchiseID u = f \<and> st_PeriodEnd u < st_PeriodStart s \<and> st_Status u \<in> set [''APPROVED'', ''PARTIALLY_PAID'', ''PAID'', ''CLOSED'']"
    have only: "u = s" if "u \<in> set (settlements db)" "st_ID u = ?i" for u using that row stl_Some [OF stl_invD(1) [OF inv], of ?i] by (metis option.inject)
    have "filter ?Q (settlements db1) = filter ?Q (settlements db)"
      unfolding lst
    proof (rule filter_map_unchanged)
      fix u assume "u \<in> set (settlements db)" "st_ID u = ?i"
      then have "u = s" by (rule only)
      then show "\<not> ?Q u" "\<not> ?Q (sr_Settlement r1)" using st s1(4) by (auto simp: s1_def)
    qed
    then show ?thesis by (simp add: GetPreviousSettlementBalance_def)
  qed
  then have "prev2 = prev" using prev prev2 org s1(2) by simp
  moreover have "ListPendingAdjustmentsForSettlement db1 ?i = ListPendingAdjustmentsForSettlement db ?i" by (simp add: ListPendingAdjustmentsForSettlement_def f1(2))
  ultimately have "figures awbOf bp prev (swept_commission p s f db) (swept_cod p s f db) [] (ListPendingAdjustmentsForSettlement db ?i) = Inr fg2"
    using fg2 unfolding org s1(1-3) f1(1,3,4) again sweep_collections_again figures_attached by simp
  then have fg2': "fg2 = fg\<lparr>fg_Drafts := filter not_collection (fg_Drafts fg), fg_Collections := 0\<rparr>" using figures_uncollected [OF fg] by simp
  then have sorted: "sort_drafts (fg_Drafts fg2) = filter not_collection (sort_drafts (fg_Drafts fg))" by (simp add: filter_sort_drafts)
  have mine: "\<forall>x\<in>set (statement_lines p s fg). ln_SettlementID x = ?i" "\<forall>x\<in>set (statement_lines q s1 fg2). ln_SettlementID x = ?i"
    using s1(1) by (auto dest!: enumerate_mem)
  have lines1: "lines_of db1 ?i = statement_lines p s fg" using mine(1) by (auto simp: lines_of_def f1(5) filter_id_conv filter_empty_conv)
  have lines2: "lines_of db2 ?i = statement_lines q s1 fg2" using mine(2) s1(1) by (auto simp: lines_of_def l2 filter_id_conv filter_empty_conv)
  have same: "draft_line (OrganizationID q) s1 k d = draft_line ?org s k d" for k d by (simp add: draft_line_def org s1)
  have "map line_content (lines_of db2 ?i) = map line_content (filter (\<lambda>l. ln_SourceType l \<noteq> ''FRANCHISE_COLLECTION'') (lines_of db1 ?i))"
    unfolding lines1 lines2 filter_draft_lines_content draft_lines_content same sorted ..
  moreover have "st_CollectionsMinor s2 = 0" by (simp add: s2_def res2 fg2' with_totals_def)
  moreover have "lines_of db2 ?i = lines_of db1 ?i \<and> st_NetAmountMinor s2 = st_NetAmountMinor s1 \<and> st_CalculationHash s2 = st_CalculationHash s1"
    if none: "\<forall>l\<in>set (lines_of db1 ?i). ln_SourceType l \<noteq> ''FRANCHISE_COLLECTION''"
  proof -
    have "not_collection d" if d: "d \<in> set (sort_drafts (fg_Drafts fg))" for d
    proof -
      obtain k where "draft_line ?org s k d \<in> set (statement_lines p s fg)" using draft_in_lines [OF d] by blast
      then show ?thesis using none unfolding lines1 by fastforce
    qed
    then have "sort_drafts (fg_Drafts fg2) = sort_drafts (fg_Drafts fg)" unfolding sorted by (simp add: filter_id_conv)
    then have eq: "sort_drafts (fg_Drafts fg2) = sort_drafts (fg_Drafts fg)" .
    have "lines_of db2 ?i = lines_of db1 ?i" unfolding lines1 lines2 eq same ..
    moreover have "st_NetAmountMinor s2 = st_NetAmountMinor s1 \<and> st_CalculationHash s2 = st_CalculationHash s1"
      by (simp add: s1_def s2_def res res2 eq with_totals_def)
    ultimately show ?thesis ..
  qed
  ultimately show ?thesis by blast
qed

lemma GetSettlement_update:
  assumes ids: "ids_ok db" and row: "stl db i = Some s" and lst: "settlements db' = map (\<lambda>u. if st_ID u = i then s' else u) (settlements db)"
    and same: "st_OrganizationID s' = st_OrganizationID s" "st_PublicID s' = st_PublicID s" and h: "GetSettlementByPublicID db org pid = Some s"
  shows "GetSettlementByPublicID db' org pid = Some s'"
proof -
  let ?f = "\<lambda>u. if st_ID u = i then s' else u" and ?P = "\<lambda>u. st_OrganizationID u = org \<and> st_PublicID u = pid"
  have i: "st_ID s = i" using row stl_Some [OF ids] by blast
  have P: "?P (?f u) = ?P u" if "u \<in> set (settlements db)" for u
  proof (cases "st_ID u = i")
    case True
    then have "u = s" using that row stl_Some [OF ids, of i] by (metis option.inject)
    then show ?thesis using True same by simp
  qed simp
  have "find ?P (map ?f xs) = map_option ?f (find ?P xs)" if "set xs \<subseteq> set (settlements db)" for xs
    using that by (induction xs) (use P in auto)
  then show ?thesis using h i unfolding GetSettlementByPublicID_def lst by simp
qed

text \<open>
  C38: \<^bold>\<open>Recalculation reproduces a statement, except that it loses the counter collections.\<close> Recalculating a statement twice over unchanged sources
  gives the same lines in the same order, the same net amount and the same fingerprint, as long as the franchise took no prepaid money in the period; the lines of
  counter collections, however, are gone after the second calculation, because the first one claimed them and the sweep looks for unclaimed ones only.
\<close>

theorem recalculation:
  assumes "settlement_start db0" "settlement_call\<^sup>*\<^sup>* db0 db" and r1: "Recalculate sha awbOf bp p pid db = Inr (r1, db1)"
    and r2: "Recalculate sha awbOf bp q pid db1 = Inr (r2, db2)" and org: "OrganizationID q = OrganizationID p"
  shows "map line_content (lines_of db2 (st_ID (sr_Settlement r1)))
      = map line_content (filter (\<lambda>l. ln_SourceType l \<noteq> ''FRANCHISE_COLLECTION'') (lines_of db1 (st_ID (sr_Settlement r1))))
    \<and> st_CollectionsMinor (sr_Settlement r2) = 0
    \<and> ((\<forall>l\<in>set (lines_of db1 (st_ID (sr_Settlement r1))). ln_SourceType l \<noteq> ''FRANCHISE_COLLECTION'') \<longrightarrow>
        lines_of db2 (st_ID (sr_Settlement r1)) = lines_of db1 (st_ID (sr_Settlement r1))
        \<and> st_NetAmountMinor (sr_Settlement r2) = st_NetAmountMinor (sr_Settlement r1) \<and> st_CalculationHash (sr_Settlement r2) = st_CalculationHash (sr_Settlement r1))"
proof -
  have inv: "stl_inv db" by (rule settlement_reach_inv [OF assms(2,1)])
  obtain h s where h: "GetSettlementByPublicID db (OrganizationID p) pid = Some h" and lk: "LockSettlement db (OrganizationID p) (st_ID h) = Some s"
    and c1: "calculate_settlement sha awbOf bp p s (st_FranchiseID s) db = Inr (r1, db1)"
    using r1 by (auto simp: Recalculate_def res_simps commit_Inr_iff)
  have sh: "s = h" by (rule locked_header [OF stl_invD(1) [OF inv] h lk])
  have row: "stl db (st_ID s) = Some s" using Lock_stl [OF stl_invD(1) [OF inv] lk] by simp
  have inv1: "stl_inv db1" by (rule Recalculate_inv [OF inv r1])
  obtain prev fg where "st_Status s \<in> {''DRAFT'', ''CALCULATED''}" and so: "st_OrganizationID s = OrganizationID p"
    and "GetPreviousSettlementBalance db (OrganizationID p) (st_FranchiseID s) (st_PeriodStart s) = Inr prev"
    and "figures awbOf bp prev (swept_commission p s (st_FranchiseID s) db) (swept_cod p s (st_FranchiseID s) db) (swept_collections p s (st_FranchiseID s) db) (ListPendingAdjustmentsForSettlement db (st_ID s)) = Inr fg"
    and res: "r1 = \<lparr>sr_Settlement = with_totals (UserID p) fg (sum64 0 (map ld_AmountMinor (sort_drafts (fg_Drafts fg)))) (hashDrafts sha (sort_drafts (fg_Drafts fg))) s,
       sr_Lines = ListSettlementLines db1 (st_ID s), sr_Replayed = False\<rparr>"
    and rows: "stl db1 = (stl db)(st_ID s \<mapsto> sr_Settlement r1)" and "ids_ok db1"
    and lst: "settlements db1 = map (\<lambda>u. if st_ID u = st_ID s then sr_Settlement r1 else u) (settlements db)"
    and "db1 = db\<lparr>settlements := settlements db1, settlement_lines := filter (\<lambda>l. ln_SettlementID l \<noteq> st_ID s) (settlement_lines db) @ statement_lines p s fg,
       commission := AttachCalculationsToSettlement (OrganizationID p) (st_ID s) (map cc_ID (swept_commission p s (st_FranchiseID s) db)) (commission db),
       franchise_collections := AttachFranchiseCollectionsToSettlement (OrganizationID p) (st_ID s) (map fc_ID (swept_collections p s (st_FranchiseID s) db)) (franchise_collections db)\<rparr>"
    by (rule calculate_Inr [OF c1 stl_invD(1) [OF inv] row])
  let ?s1 = "sr_Settlement r1"
  have s1: "st_ID ?s1 = st_ID s" "st_OrganizationID ?s1 = st_OrganizationID s" "st_PublicID ?s1 = st_PublicID s" "st_FranchiseID ?s1 = st_FranchiseID s"
    by (simp_all add: res) (simp add: with_totals_def)
  have h1: "GetSettlementByPublicID db1 (OrganizationID q) pid = Some ?s1"
    using GetSettlement_update [OF stl_invD(1) [OF inv] row lst s1(2,3)] h sh org by simp
  then obtain t where lk1: "LockSettlement db1 (OrganizationID q) (st_ID ?s1) = Some t" and c2: "calculate_settlement sha awbOf bp q t (st_FranchiseID t) db1 = Inr (r2, db2)"
    using r2 by (auto simp: Recalculate_def res_simps commit_Inr_iff)
  have "t = ?s1" by (rule locked_header [OF stl_invD(1) [OF inv1] h1 lk1])
  then show ?thesis using calculate_again [OF inv row org c1] c2 s1(1,4) by simp
qed



subsection \<open>A counter collection that recalculation loses\<close>

definition rec_money :: FranchiseCollection where
  "rec_money = \<lparr>fc_ID = 1, fc_PublicID = ''fcl_1'', fc_OrganizationID = 7, fc_ShipmentID = 41, fc_FranchiseID = 4, fc_OperatingUnitID = 3, fc_CustomerID = 9,
     fc_AmountMinor = 1200, fc_Currency = ''INR'', fc_PaymentMode = ''CASH'', fc_Reference = None, fc_Status = ''COLLECTED'', fc_CollectedAt = 20260810, fc_CollectedBy = 11,
     fc_SettlementID = None, fc_Notes = None\<rparr>"

definition rec_counter :: RecordRequest where
  "rec_counter = \<lparr>rq_ShipmentID = ''shp_41'', rq_AmountMinor = 1200, rq_PaymentMode = ''CASH'', rq_Reference = [], rq_CollectedAt = None, rq_Notes = []\<rparr>"

definition rec_shipment :: BookedShipment where
  "rec_shipment = \<lparr>bs_ID = 41, bs_PaymentMode = ''PREPAID'', bs_BookingUnitID = Some 3, bs_CustomerID = 9, bs_TotalAmountMinor = 1200, bs_Currency = ''INR''\<rparr>"

definition rec_0 :: SettlementDB where
  "rec_0 = stm_2\<lparr>franchise_collections := [rec_money], next_franchise_collection := 2\<rparr>"

lemma rec_recorded: "Record_collection (\<lambda>_ _. Some rec_shipment) (\<lambda>_ _. Some 4) ''fcl_1'' 20260810 demo_principal rec_counter stm_2 = Inr ((rec_money, False), rec_0)"
  by (simp add: Record_collection_def rec_counter_def rec_shipment_def collection_modes_def GetFranchiseCollectionByShipment_def CreateFranchiseCollection_def Optional_def
      RequireUnitInScope_def IsUnitInScope_def demo_principal_def stm_2_def stm_created_def stm_0_def rec_0_def rec_money_def Let_def)

definition rec_header :: Settlement where
  "rec_header = stm_calculated\<lparr>st_CollectionsMinor := -1200, st_NetAmountMinor := 4300\<rparr>"

definition rec_1 :: SettlementDB where
  "rec_1 = rec_0\<lparr>settlements := [rec_header], franchise_collections := [rec_money\<lparr>fc_Status := ''IN_SETTLEMENT'', fc_SettlementID := Some 1\<rparr>],
     settlement_lines := [draft_line 7 stm_draft 0 (collection_draft (\<lambda>_. ''AWB'') rec_money), draft_line 7 stm_draft 1 (commission_draft com_earned)]\<rparr>"

lemma rec_swept: "SweepCommissionForSettlement (commission stm_2) 7 4 1 20260801 20260901 = [com_earned\<lparr>cc_SettlementID := Some 1\<rparr>]"
  "SweepFranchiseCollectionsForSettlement [rec_money] 7 4 20260801 20260901 = [rec_money]"
  by (simp_all add: SweepCommissionForSettlement_def SweepFranchiseCollectionsForSettlement_def stm_2_def com_2_def com_1_def com_earned_def rec_money_def next_day_def
     days_in_month_def ymd_def)

lemma rec_figures: "figures (\<lambda>_. ''AWB'') 0 None [com_earned\<lparr>cc_SettlementID := Some 1\<rparr>] [] [rec_money] [] =
   Inr \<lparr>fg_Drafts = [commission_draft com_earned, collection_draft (\<lambda>_. ''AWB'') rec_money], fg_Commission = 5500, fg_Incentive = 0, fg_Cod = 0,
   fg_Collections = -1200, fg_Penalties = 0, fg_Adjustments = 0, fg_Withholding = 0, fg_Opening = 0\<rparr>"
  by (simp add: figures_def com_earned_def commission_draft_def rec_money_def categoryForCommission_def opening_drafts_def withholding_drafts_def add64_def sub64_def width_defs)

lemma rec_sorted: "sort_drafts [commission_draft com_earned, collection_draft (\<lambda>_. ''AWB'') rec_money] = [collection_draft (\<lambda>_. ''AWB'') rec_money, commission_draft com_earned]"
  by (simp add: sort_drafts_def commission_draft_def collection_draft_def com_earned_def rec_money_def categoryForCommission_def neg64_def width_defs)

lemma rec_calculated: "calculate_settlement (\<lambda>_. ''0f'') (\<lambda>_. ''AWB'') 0 demo_principal stm_calculated 4 rec_0 = Inr (\<lparr>sr_Settlement = rec_header,
     sr_Lines = settlement_lines rec_1, sr_Replayed = False\<rparr>, rec_1)"
proof -
  have s: "settlements rec_0 = [stm_calculated]" "franchise_collections rec_0 = [rec_money]" "settlement_lines rec_0 = [stm_line]" "settlement_adjustments rec_0 = []"
    "cod_obligations rec_0 = []" "commission rec_0 = commission stm_2"
    by (simp_all add: rec_0_def stm_2_def stm_created_def stm_0_def)
  have c: "st_PublicID stm_calculated = ''stl_1''" "st_OrganizationID stm_calculated = 7" "st_ID stm_calculated = 1" "st_PeriodStart stm_calculated = 20260801"
    "st_PeriodEnd stm_calculated = 20260831" "st_Status stm_calculated = ''CALCULATED''" "st_Currency stm_calculated = ''INR''"
    by (simp_all add: stm_calculated_def stm_draft_def)
  show ?thesis
    apply (simp add: calculate_settlement_def demo_principal_def DeleteSettlementLines_def s c parent_working_def working_states_def GetPreviousSettlementBalance_def Let_def
        SweepCODForSettlement_def ListPendingAdjustmentsForSettlement_def stm_next_day rec_swept rec_figures rec_sorted)
    apply (simp add: CreateSettlementLine_def parent_working_def working_states_def line_categories_def line_sources_def draft_line_def commission_draft_def collection_draft_def
      com_earned_def rec_money_def s c categoryForCommission_def width_defs neg64_def add64_def ApplySettlementTotals_def update_settlement_def with_totals_def hashDrafts_def Optional_def)
    apply (simp add: AttachCalculationsToSettlement_def AttachFranchiseCollectionsToSettlement_def ListSettlementLines_def s rec_header_def rec_1_def rec_0_def rec_money_def
      stm_2_def stm_calculated_def stm_draft_def com_2_def com_1_def com_earned_def draft_line_def commission_draft_def collection_draft_def width_defs neg64_def categoryForCommission_def Optional_def
      stm_created_def)
    done
qed

lemma rec_recalculated: "Recalculate (\<lambda>_. ''0f'') (\<lambda>_. ''AWB'') 0 demo_principal ''stl_1'' rec_0 = Inr (\<lparr>sr_Settlement = rec_header, sr_Lines = settlement_lines rec_1, sr_Replayed = False\<rparr>, rec_1)"
proof -
  have s: "settlements rec_0 = [stm_calculated]" "settlements rec_1 = [rec_header]" by (simp_all add: rec_0_def rec_1_def stm_2_def)
  have c: "st_PublicID stm_calculated = ''stl_1''" "st_OrganizationID stm_calculated = 7" "st_ID stm_calculated = 1" "st_FranchiseID stm_calculated = 4"
    "st_Status stm_calculated = ''CALCULATED''" by (simp_all add: stm_calculated_def stm_draft_def)
  have "assert_settlement_totals rec_1 1"
    by (simp add: assert_settlement_totals_def s rec_1_def rec_header_def stm_calculated_def stm_draft_def draft_line_def commission_draft_def collection_draft_def com_earned_def
        rec_money_def neg64_def width_defs)
  then show ?thesis using rec_calculated
    by (simp add: Recalculate_def GetSettlementByPublicID_def LockSettlement_def s c demo_principal_def commit_settlement_def)
qed

lemma rec_lost: "\<exists>r db. Recalculate (\<lambda>_. ''0f'') (\<lambda>_. ''AWB'') 0 demo_principal ''stl_1'' rec_1 = Inr (r, db)"
proof -
  have s: "settlements rec_1 = [rec_header]" "settlement_adjustments rec_1 = []" "cod_obligations rec_1 = []" "commission rec_1 = commission stm_2"
     "franchise_collections rec_1 = [rec_money\<lparr>fc_Status := ''IN_SETTLEMENT'', fc_SettlementID := Some 1\<rparr>]" 
    by (simp_all add: rec_1_def rec_0_def stm_2_def stm_created_def stm_0_def)
  have l: "\<forall>l\<in>set (settlement_lines rec_1). ln_SettlementID l = 1" by (simp add: rec_1_def draft_line_def stm_draft_def)
  have c: "st_PublicID rec_header = ''stl_1''" "st_OrganizationID rec_header = 7" "st_ID rec_header = 1" "st_PeriodStart rec_header = 20260801" "st_FranchiseID rec_header = 4"
    "st_PeriodEnd rec_header = 20260831" "st_Status rec_header = ''CALCULATED''" "st_Currency rec_header = ''INR''"
    by (simp_all add: rec_header_def stm_calculated_def stm_draft_def)
  have sw: "SweepFranchiseCollectionsForSettlement [rec_money\<lparr>fc_Status := ''IN_SETTLEMENT'', fc_SettlementID := Some 1\<rparr>] 7 4 20260801 20260901 = []"
    by (simp add: SweepFranchiseCollectionsForSettlement_def)
  have fg: "figures (\<lambda>_. ''AWB'') 0 None [com_earned\<lparr>cc_SettlementID := Some 1\<rparr>] [] [] [] = figures (\<lambda>_. ''AWB'') 0 None [com_earned] [] [] []"
    by (simp add: figures_def commission_draft_def)
  have none: "filter (\<lambda>l. ln_SettlementID l \<noteq> 1) (settlement_lines rec_1) = []" using l by (simp add: filter_empty_conv)
  show ?thesis
    apply (simp add: Recalculate_def GetSettlementByPublicID_def LockSettlement_def demo_principal_def s c calculate_settlement_def DeleteSettlementLines_def parent_working_def
        working_states_def GetPreviousSettlementBalance_def Let_def none
        SweepCODForSettlement_def ListPendingAdjustmentsForSettlement_def stm_next_day rec_swept sw fg stm_figures sort_drafts_def)
    apply (simp add: CreateSettlementLine_def parent_working_def working_states_def line_categories_def line_sources_def draft_line_def commission_draft_def
      com_earned_def s c categoryForCommission_def width_defs neg64_def add64_def ApplySettlementTotals_def update_settlement_def with_totals_def hashDrafts_def Optional_def
      commit_settlement_def assert_settlement_totals_def)
    done
qed

theorem recalculation_witness:
  "\<exists>r db. Recalculate (\<lambda>_. ''0f'') (\<lambda>_. ''AWB'') 0 demo_principal ''stl_1'' rec_1 = Inr (r, db) \<and> st_CollectionsMinor rec_header = -1200 \<and> st_CollectionsMinor (sr_Settlement r) = 0
     \<and> map line_content (lines_of db 1) = [line_content (draft_line 7 stm_draft 1 (commission_draft com_earned))]"
proof -
  obtain r db where r: "Recalculate (\<lambda>_. ''0f'') (\<lambda>_. ''AWB'') 0 demo_principal ''stl_1'' rec_1 = Inr (r, db)" using rec_lost by blast
  have "settlement_call\<^sup>*\<^sup>* stm_0 rec_0" using stm_reach(1) settlement_call.record_collection [OF rec_recorded] by simp
  note w = recalculation [OF stm_start this rec_recalculated r refl]
  have "st_ID rec_header = 1" "st_CollectionsMinor rec_header = -1200" by (simp_all add: rec_header_def stm_calculated_def stm_draft_def)
  then show ?thesis using w r by (simp add: lines_of_def rec_1_def draft_line_def stm_draft_def collection_draft_def commission_draft_def)
qed








end
