(* ===== verification/Billing.thy ===== *)
theory Billing
  imports Journal_Book Party_Balance Calendar
begin

text \<open>
  \<^verbatim>\<open>internal/billing/billing.go\<close>: invoices drafted from the charge snapshots of unbilled shipments, issued under a
  number of a financial-year series, settled by payments and by credit notes, over the tables of
  \<^verbatim>\<open>db/migrations/0024_billing.up.sql\<close> with their constraints and triggers. Times are dates. A row of
  \<open>billable\<close> is a shipment joined with its charge snapshot and its commercial snapshot. Customers and
  business accounts are parameters. JSON columns, request ids, audit rows, public ids of lines, taxes and payments,
  the one line of a note, which repeats its header, and the grouped tax view of a result are left out.
\<close>

subsection \<open>Tables\<close>

record Invoice =
  iv_ID :: int
  iv_PublicID :: string
  iv_OrganizationID :: int
  iv_InvoiceNumber :: string
  iv_SeriesCode :: string
  iv_DocumentType :: string
  iv_CustomerID :: int
  iv_BusinessAccountID :: "int option"
  iv_BillingRunID :: "int option"
  iv_BillingMode :: string
  iv_PeriodStart :: "int option"
  iv_PeriodEnd :: "int option"
  iv_IssueDate :: int
  iv_DueDate :: int
  iv_Status :: string
  iv_Currency :: string
  iv_SubtotalMinor :: int
  iv_DiscountMinor :: int
  iv_TaxableMinor :: int
  iv_TaxMinor :: int
  iv_RoundingMinor :: int
  iv_TotalMinor :: int
  iv_PaidMinor :: int
  iv_CreditedMinor :: int
  iv_ShipmentCount :: int
  iv_JournalTransactionID :: "int option"
  iv_Notes :: "string option"
  iv_IssuedBy :: "int option"
  iv_CreatedBy :: "int option"

record InvoiceLine =
  il_OrganizationID :: int
  il_InvoiceID :: int
  il_LineNo :: int
  il_LineType :: string
  il_Description :: string
  il_Quantity :: int
  il_UnitPriceMinor :: int
  il_AmountMinor :: int
  il_DiscountMinor :: int
  il_TaxableMinor :: int
  il_TaxMinor :: int
  il_TotalMinor :: int
  il_Currency :: string
  il_ShipmentID :: "int option"
  il_ChargeSnapshotID :: "int option"

record InvoiceShipment =
  ih_OrganizationID :: int
  ih_InvoiceID :: int
  ih_ShipmentID :: int
  ih_Awb :: string
  ih_AmountMinor :: int
  ih_TaxMinor :: int

record TaxComponent =
  tc_OrganizationID :: int
  tc_InvoiceID :: int
  tc_ComponentCode :: string
  tc_ComponentName :: string
  tc_RateBp :: int
  tc_TaxableMinor :: int
  tc_TaxMinor :: int
  tc_Currency :: string

record CreditNote =
  cn_ID :: int
  cn_PublicID :: string
  cn_OrganizationID :: int
  cn_NoteNumber :: string
  cn_NoteType :: string
  cn_InvoiceID :: "int option"
  cn_CustomerID :: int
  cn_ReasonCode :: string
  cn_Reason :: string
  cn_IssueDate :: int
  cn_Currency :: string
  cn_SubtotalMinor :: int
  cn_TaxMinor :: int
  cn_TotalMinor :: int
  cn_Status :: string
  cn_JournalTransactionID :: "int option"
  cn_IssuedBy :: "int option"
  cn_ApprovedBy :: "int option"
  cn_CreatedBy :: "int option"

record InvoicePayment =
  ip_OrganizationID :: int
  ip_InvoiceID :: int
  ip_CustomerID :: int
  ip_PaymentNumber :: string
  ip_AmountMinor :: int
  ip_Currency :: string
  ip_PaymentMode :: string
  ip_Reference :: "string option"
  ip_ReceivedOn :: int
  ip_Status :: string
  ip_JournalTransactionID :: "int option"
  ip_RecordedBy :: int

record InvoiceSequence =
  iq_Prefix :: string
  iq_CurrentValue :: int
  iq_MaxValue :: int
  iq_Padding :: int

text \<open>A shipment with its charge snapshot and the transport customer of its commercial snapshot.\<close>

record BillableShipment =
  bl_ID :: int
  bl_OrganizationID :: int
  bl_CustomerID :: int
  bl_TransportCustomerID :: "int option"
  bl_PaymentMode :: string
  bl_CurrentStatus :: string
  bl_BookedAt :: int
  bl_Awb :: string
  bl_OriginPincode :: string
  bl_DestinationPincode :: string
  bl_ChargeableWeightGrams :: int
  bl_ChargeSnapshotID :: int
  bl_FreightMinor :: int
  bl_SurchargeTotalMinor :: int
  bl_DiscountTotalMinor :: int

type_synonym series = "int \<times> string \<times> string \<times> string"

record BillingDB =
  invoices :: "Invoice list"
  invoice_lines :: "InvoiceLine list"
  invoice_shipments :: "InvoiceShipment list"
  tax_components :: "TaxComponent list"
  credit_notes :: "CreditNote list"
  invoice_payments :: "InvoicePayment list"
  invoice_sequences :: "series \<rightharpoonup> InvoiceSequence"
  billable :: "BillableShipment list"
  next_invoice :: int
  next_credit_note :: int
  bil_ledger :: LedgerDB

subsection \<open>Numbers\<close>

text \<open>\<^verbatim>\<open>INSERT ... ON CONFLICT DO UPDATE\<close>: a new counter starts at one with the defaults of the table.\<close>

definition AllocateInvoiceNumber :: "series \<Rightarrow> string \<Rightarrow> (series \<rightharpoonup> InvoiceSequence) \<Rightarrow> (InvoiceSequence \<times> (series \<rightharpoonup> InvoiceSequence)) option" where
  "AllocateInvoiceNumber k pre t =
     (case t k of
        None \<Rightarrow> (let r = \<lparr>iq_Prefix = pre, iq_CurrentValue = 1, iq_MaxValue = 999999999, iq_Padding = 6\<rparr> in Some (r, t(k \<mapsto> r)))
      | Some r \<Rightarrow> if iq_CurrentValue r < iq_MaxValue r
          then (let r' = r\<lparr>iq_CurrentValue := iq_CurrentValue r + 1\<rparr> in Some (r', t(k \<mapsto> r'))) else None)"

definition financialYear :: "int \<Rightarrow> string" where
  "financialYear t = (let year = (if t div 100 mod 100 < 4 then t div 10000 - 1 else t div 10000) in FormatInt year @ ''-'' @ format_0d 2 ((year + 1) smod 100))"

definition document_prefix :: "string \<Rightarrow> string \<Rightarrow> string" where
  "document_prefix seriesCode docType =
     (if seriesCode = ''PAY'' then ''PAY''
      else if docType = ''INVOICE'' then ''INV'' else if docType = ''CREDIT_NOTE'' then ''CRN'' else if docType = ''DEBIT_NOTE'' then ''DBN'' else [])"

definition allocateInvoiceNumber :: "int \<Rightarrow> string \<Rightarrow> string \<Rightarrow> int \<Rightarrow> BillingDB \<Rightarrow> (string \<times> BillingDB) result" where
  "allocateInvoiceNumber org seriesCode docType on db =
     (let scope = financialYear on;
          template = invoice_sequences db (org, seriesCode, docType, []);
          pre = (case template of None \<Rightarrow> document_prefix seriesCode docType
                    | Some r \<Rightarrow> if iq_Prefix r \<noteq> [] then iq_Prefix r else document_prefix seriesCode docType);
          padding = (case template of None \<Rightarrow> 6 | Some r \<Rightarrow> iq_Padding r)
      in bindE (opt_or (AllocateInvoiceNumber (org, seriesCode, docType, scope) pre (invoice_sequences db)) (Conflict ''INVOICE_SEQUENCE_EXHAUSTED''))
         (\<lambda>(row, t). Inr ((if iq_Prefix row \<noteq> [] then iq_Prefix row else pre) @ ''/'' @ scope @ ''/'' @ format_0d (nat padding) (iq_CurrentValue row),
            db\<lparr>invoice_sequences := t\<rparr>)))"

subsection \<open>Queries\<close>

definition GetInvoiceByPublicID :: "BillingDB \<Rightarrow> int \<Rightarrow> string \<Rightarrow> Invoice option" where
  "GetInvoiceByPublicID db org publicID = find (\<lambda>i. iv_OrganizationID i = org \<and> iv_PublicID i = publicID) (invoices db)"

definition LockInvoice :: "BillingDB \<Rightarrow> int \<Rightarrow> int \<Rightarrow> Invoice option" where
  "LockInvoice db org iid = find (\<lambda>i. iv_OrganizationID i = org \<and> iv_ID i = iid) (invoices db)"

definition CreateInvoice :: "Invoice \<Rightarrow> BillingDB \<Rightarrow> (Invoice \<times> BillingDB) result" where
  "CreateInvoice i db =
     (let i' = i\<lparr>iv_ID := next_invoice db\<rparr>
      in ensure (iv_BillingMode i \<in> set [''IMMEDIATE'', ''PERIODIC''] \<and> iv_IssueDate i \<le> iv_DueDate i
           \<and> \<not> list_ex (\<lambda>u. iv_PublicID u = iv_PublicID i) (invoices db)
           \<and> \<not> list_ex (\<lambda>u. iv_OrganizationID u = iv_OrganizationID i \<and> iv_InvoiceNumber u = iv_InvoiceNumber i) (invoices db)) Internal
         (Inr (i', db\<lparr>invoices := invoices db @ [i'], next_invoice := next_invoice db + 1\<rparr>)))"

definition update_invoice :: "(Invoice \<Rightarrow> bool) \<Rightarrow> (Invoice \<Rightarrow> Invoice) \<Rightarrow> BillingDB \<Rightarrow> (Invoice \<times> BillingDB) option" where
  "update_invoice guard f db =
     (case find guard (invoices db) of None \<Rightarrow> None
      | Some i \<Rightarrow> Some (f i, db\<lparr>invoices := map (\<lambda>u. if guard u then f u else u) (invoices db)\<rparr>))"

text \<open>The trigger \<^verbatim>\<open>invoice_lines_guard\<close> and the keys of the line table.\<close>

definition CreateInvoiceLine :: "InvoiceLine \<Rightarrow> BillingDB \<Rightarrow> BillingDB result" where
  "CreateInvoiceLine l db =
     ensure ((case find (\<lambda>i. iv_ID i = il_InvoiceID l) (invoices db) of None \<Rightarrow> True | Some i \<Rightarrow> iv_Status i = ''DRAFT'')
       \<and> 0 < il_LineNo l \<and> 0 < il_Quantity l \<and> \<not> list_ex (\<lambda>m. il_InvoiceID m = il_InvoiceID l \<and> il_LineNo m = il_LineNo l) (invoice_lines db)) Internal
       (Inr (db\<lparr>invoice_lines := invoice_lines db @ [l]\<rparr>))"

definition CreateTaxComponent :: "TaxComponent \<Rightarrow> BillingDB \<Rightarrow> BillingDB result" where
  "CreateTaxComponent c db =
     ensure (0 \<le> tc_RateBp c \<and> tc_RateBp c \<le> 1000000) Internal (Inr (db\<lparr>tax_components := tax_components db @ [c]\<rparr>))"

definition AddInvoiceShipment :: "InvoiceShipment \<Rightarrow> BillingDB \<Rightarrow> BillingDB result" where
  "AddInvoiceShipment h db =
     ensure (\<not> list_ex (\<lambda>u. ih_InvoiceID u = ih_InvoiceID h \<and> ih_ShipmentID u = ih_ShipmentID h) (invoice_shipments db)) Internal
     (ensure (\<not> list_ex (\<lambda>u. ih_OrganizationID u = ih_OrganizationID h \<and> ih_ShipmentID u = ih_ShipmentID h) (invoice_shipments db)) (Conflict ''INVOICE_INVALID_STATE'')
       (Inr (db\<lparr>invoice_shipments := invoice_shipments db @ [h]\<rparr>)))"

definition ListBillableShipments :: "BillingDB \<Rightarrow> int \<Rightarrow> int \<Rightarrow> int \<Rightarrow> int \<Rightarrow> nat \<Rightarrow> BillableShipment list" where
  "ListBillableShipments db org customer periodStart periodEnd limit =
     take limit (sort_key bl_BookedAt (sort_key bl_ID (filter (\<lambda>s. bl_OrganizationID s = org
       \<and> (case bl_TransportCustomerID s of None \<Rightarrow> bl_CustomerID s | Some c \<Rightarrow> c) = customer
       \<and> bl_PaymentMode s \<in> set [''CREDIT'', ''PREPAID''] \<and> bl_CurrentStatus s \<notin> set [''CANCELLED'']
       \<and> periodStart \<le> bl_BookedAt s \<and> bl_BookedAt s < periodEnd
       \<and> \<not> list_ex (\<lambda>h. ih_ShipmentID h = bl_ID s) (invoice_shipments db)) (billable db))))"

definition assert_invoice_totals :: "BillingDB \<Rightarrow> int \<Rightarrow> bool" where
  "assert_invoice_totals db iid \<longleftrightarrow>
     (case find (\<lambda>i. iv_ID i = iid) (invoices db) of None \<Rightarrow> True
      | Some i \<Rightarrow> iv_Status i \<in> set [''DRAFT'', ''CANCELLED''] \<or>
          sum_list (map il_TotalMinor (filter (\<lambda>l. il_InvoiceID l = iid) (invoice_lines db))) + iv_RoundingMinor i = iv_TotalMinor i)"

definition commit_invoice :: "int \<Rightarrow> 'a \<times> BillingDB \<Rightarrow> ('a \<times> BillingDB) result" where
  "commit_invoice iid r = ensure (assert_invoice_totals (snd r) iid) Internal (Inr r)"

definition ListInvoiceLines :: "BillingDB \<Rightarrow> int \<Rightarrow> InvoiceLine list" where
  "ListInvoiceLines db iid = sort_key il_LineNo (filter (\<lambda>l. il_InvoiceID l = iid) (invoice_lines db))"

subsection \<open>Drafting\<close>

record TaxComponentSpec =
  ts_Code :: string
  ts_Name :: string
  ts_RateBp :: int

record DraftRequest =
  dr_CustomerID :: string
  dr_BillingMode :: string
  dr_PeriodStart :: int
  dr_PeriodEnd :: int
  dr_IssueDate :: "int option"
  dr_Summary :: bool
  dr_Taxes :: "TaxComponentSpec list"
  dr_Notes :: string
  dr_BillingRunID :: "int option"

definition month_name :: "int \<Rightarrow> string" where
  "month_name m = [''Jan'', ''Feb'', ''Mar'', ''Apr'', ''May'', ''Jun'', ''Jul'', ''Aug'', ''Sep'', ''Oct'', ''Nov'', ''Dec''] ! nat ((m - 1) mod 12)"

text \<open>\<^verbatim>\<open>Format("2 Jan 2006")\<close>.\<close>

definition format_date :: "int \<Rightarrow> string" where
  "format_date t = FormatInt (t mod 100) @ '' '' @ month_name (t div 100 mod 100) @ '' '' @ format_0d 4 (t div 10000)"

definition gross :: "BillableShipment \<Rightarrow> int" where
  "gross s = add64 (bl_FreightMinor s) (bl_SurchargeTotalMinor s)"

definition net_charge :: "BillableShipment \<Rightarrow> int" where
  "net_charge s = sub64 (gross s) (bl_DiscountTotalMinor s)"

definition shipment_line :: "Invoice \<Rightarrow> nat \<Rightarrow> BillableShipment \<Rightarrow> InvoiceLine" where
  "shipment_line i n s =
     \<lparr>il_OrganizationID = iv_OrganizationID i, il_InvoiceID = iv_ID i, il_LineNo = wrap32 (int n + 1), il_LineType = ''FREIGHT'',
      il_Description = ''AWB '' @ bl_Awb s @ '', '' @ bl_OriginPincode s @ '' to '' @ bl_DestinationPincode s @ '', '' @ FormatInt (bl_ChargeableWeightGrams s) @ ''g'',
      il_Quantity = 1, il_UnitPriceMinor = bl_FreightMinor s, il_AmountMinor = gross s, il_DiscountMinor = bl_DiscountTotalMinor s,
      il_TaxableMinor = net_charge s, il_TaxMinor = 0, il_TotalMinor = net_charge s, il_Currency = iv_Currency i,
      il_ShipmentID = Some (bl_ID s), il_ChargeSnapshotID = Some (bl_ChargeSnapshotID s)\<rparr>"

definition summary_line :: "Invoice \<Rightarrow> DraftRequest \<Rightarrow> BillableShipment list \<Rightarrow> InvoiceLine" where
  "summary_line i inp ss =
     (let freight = sum64 0 (map bl_FreightMinor ss); surcharge = sum64 0 (map bl_SurchargeTotalMinor ss); disc = sum64 0 (map bl_DiscountTotalMinor ss);
          net = sub64 (add64 freight surcharge) disc
      in \<lparr>il_OrganizationID = iv_OrganizationID i, il_InvoiceID = iv_ID i, il_LineNo = 1, il_LineType = ''SUMMARY'',
          il_Description = ''Courier services, '' @ FormatInt (int (length ss)) @ '' shipment(s), '' @ format_date (dr_PeriodStart inp) @ '' to '' @ format_date (dr_PeriodEnd inp),
          il_Quantity = wrap32 (int (length ss)), il_UnitPriceMinor = 0, il_AmountMinor = add64 freight surcharge, il_DiscountMinor = disc,
          il_TaxableMinor = net, il_TaxMinor = 0, il_TotalMinor = net, il_Currency = iv_Currency i, il_ShipmentID = None, il_ChargeSnapshotID = None\<rparr>)"

definition draft_invoice_lines :: "Invoice \<Rightarrow> DraftRequest \<Rightarrow> BillableShipment list \<Rightarrow> InvoiceLine list" where
  "draft_invoice_lines i inp ss = (if dr_Summary inp then [summary_line i inp ss] else map (\<lambda>(n, s). shipment_line i n s) (enumerate 0 ss))"

definition tax_step :: "Invoice \<Rightarrow> int \<Rightarrow> TaxComponentSpec \<Rightarrow> int \<times> BillingDB \<Rightarrow> (int \<times> BillingDB) result" where
  "tax_step i taxable spec = (\<lambda>(taxTotal, db).
     bindE (ApplyBP taxable (ts_RateBp spec))
     (\<lambda>amount. if amount = 0 then Inr (taxTotal, db)
        else bindE (CreateTaxComponent \<lparr>tc_OrganizationID = iv_OrganizationID i, tc_InvoiceID = iv_ID i, tc_ComponentCode = ts_Code spec, tc_ComponentName = ts_Name spec,
               tc_RateBp = ts_RateBp spec, tc_TaxableMinor = taxable, tc_TaxMinor = amount, tc_Currency = iv_Currency i\<rparr> db)
          (\<lambda>db1. Inr (add64 taxTotal amount, db1))))"

definition tax_line :: "Invoice \<Rightarrow> nat \<Rightarrow> int \<Rightarrow> InvoiceLine" where
  "tax_line i n tax =
     \<lparr>il_OrganizationID = iv_OrganizationID i, il_InvoiceID = iv_ID i, il_LineNo = wrap32 (int n + 1), il_LineType = ''OTHER'', il_Description = ''Tax'',
      il_Quantity = 1, il_UnitPriceMinor = 0, il_AmountMinor = tax, il_DiscountMinor = 0, il_TaxableMinor = 0, il_TaxMinor = tax, il_TotalMinor = tax,
      il_Currency = iv_Currency i, il_ShipmentID = None, il_ChargeSnapshotID = None\<rparr>"

definition invoice_shipment :: "Invoice \<Rightarrow> BillableShipment \<Rightarrow> InvoiceShipment" where
  "invoice_shipment i s =
     \<lparr>ih_OrganizationID = iv_OrganizationID i, ih_InvoiceID = iv_ID i, ih_ShipmentID = bl_ID s, ih_Awb = bl_Awb s, ih_AmountMinor = net_charge s, ih_TaxMinor = 0\<rparr>"

definition ApplyInvoiceTotals :: "int \<Rightarrow> int \<Rightarrow> int \<Rightarrow> int \<Rightarrow> int \<Rightarrow> int \<Rightarrow> int \<Rightarrow> int \<Rightarrow> BillingDB \<Rightarrow> (Invoice \<times> BillingDB) option" where
  "ApplyInvoiceTotals org iid subtotal disc taxable tax amount n =
     update_invoice (\<lambda>i. iv_OrganizationID i = org \<and> iv_ID i = iid \<and> iv_Status i = ''DRAFT'')
       (\<lambda>i. i\<lparr>iv_SubtotalMinor := subtotal, iv_DiscountMinor := disc, iv_TaxableMinor := taxable, iv_TaxMinor := tax, iv_RoundingMinor := 0,
           iv_TotalMinor := amount, iv_ShipmentCount := n\<rparr>)"

record InvoiceResult =
  ir_Invoice :: Invoice
  ir_Lines :: "InvoiceLine list"

definition buildLines :: "Invoice \<Rightarrow> BillableShipment list \<Rightarrow> DraftRequest \<Rightarrow> BillingDB \<Rightarrow> (InvoiceResult \<times> BillingDB) result" where
  "buildLines i ss inp db =
     (let ls = draft_invoice_lines i inp ss;
          subtotal = (if dr_Summary inp then add64 (sum64 0 (map bl_FreightMinor ss)) (sum64 0 (map bl_SurchargeTotalMinor ss)) else sum64 0 (map gross ss));
          disc = sum64 0 (map bl_DiscountTotalMinor ss);
          taxable = (if dr_Summary inp then sub64 subtotal disc else sum64 0 (map net_charge ss))
      in bindE (foldE CreateInvoiceLine ls db)
         (\<lambda>db1. bindE (foldE (tax_step i taxable) (dr_Taxes inp) (0, db1))
         (\<lambda>(taxTotal, db2). bindE (if 0 < taxTotal then CreateInvoiceLine (tax_line i (length ls) taxTotal) db2 else Inr db2)
         (\<lambda>db3. bindE (foldE (\<lambda>s. AddInvoiceShipment (invoice_shipment i s)) ss db3)
         (\<lambda>db4. bindE (opt_or (ApplyInvoiceTotals (iv_OrganizationID i) (iv_ID i) subtotal disc taxable taxTotal (add64 taxable taxTotal) (wrap32 (int (length ss))) db4) Internal)
         (\<lambda>(updated, db5). Inr (\<lparr>ir_Invoice = updated, ir_Lines = ListInvoiceLines db5 (iv_ID i)\<rparr>, db5)))))))"

record BusinessAccount =
  ba_ID :: int
  ba_OrganizationID :: int
  ba_PaymentTermsDays :: int

definition Draft_invoice :: "(int \<Rightarrow> string \<Rightarrow> int option) \<Rightarrow> (int \<Rightarrow> BusinessAccount option) \<Rightarrow> string \<Rightarrow> string \<Rightarrow> int \<Rightarrow> Principal \<Rightarrow> DraftRequest \<Rightarrow> BillingDB \<Rightarrow>
    (InvoiceResult \<times> BillingDB) result" where
  "Draft_invoice customerOf accountOf newID placeholder now p inp db =
     ensure (\<not> dr_PeriodEnd inp < dr_PeriodStart inp) (Validation ''The period ends before it starts.'')
     (bindE (opt_or (customerOf (OrganizationID p) (dr_CustomerID inp)) (NotFound ''Customer''))
     (\<lambda>customer. let issueDate = (case dr_IssueDate inp of None \<Rightarrow> now | Some d \<Rightarrow> d);
                     ss = ListBillableShipments db (OrganizationID p) customer (dr_PeriodStart inp) (next_day (dr_PeriodEnd inp)) 10000;
                     acct = (case accountOf customer of None \<Rightarrow> None | Some a \<Rightarrow> if ba_OrganizationID a = OrganizationID p then Some a else None);
                     termsDays = (case acct of None \<Rightarrow> 30 | Some a \<Rightarrow> if 0 < ba_PaymentTermsDays a then ba_PaymentTermsDays a else 30) in
     ensure (ss \<noteq> []) (Conflict ''BILLING_NOTHING_TO_BILL'')
     (bindE (CreateInvoice
        \<lparr>iv_ID = 0, iv_PublicID = newID, iv_OrganizationID = OrganizationID p, iv_InvoiceNumber = ''DRAFT-'' @ placeholder, iv_SeriesCode = ''DEFAULT'',
         iv_DocumentType = ''INVOICE'', iv_CustomerID = customer, iv_BusinessAccountID = map_option ba_ID acct, iv_BillingRunID = dr_BillingRunID inp,
         iv_BillingMode = (if dr_BillingMode inp = [] then ''PERIODIC'' else dr_BillingMode inp), iv_PeriodStart = Some (dr_PeriodStart inp),
         iv_PeriodEnd = Some (dr_PeriodEnd inp), iv_IssueDate = issueDate, iv_DueDate = (next_day ^^ nat termsDays) issueDate, iv_Status = ''DRAFT'',
         iv_Currency = OrganizationCurrency p, iv_SubtotalMinor = 0, iv_DiscountMinor = 0, iv_TaxableMinor = 0, iv_TaxMinor = 0, iv_RoundingMinor = 0,
         iv_TotalMinor = 0, iv_PaidMinor = 0, iv_CreditedMinor = 0, iv_ShipmentCount = 0, iv_JournalTransactionID = None, iv_Notes = Optional (dr_Notes inp),
         iv_IssuedBy = None, iv_CreatedBy = Some (UserID p)\<rparr> db)
     (\<lambda>(i, db1). bindE (buildLines i ss inp db1) (commit_invoice (iv_ID i))))))"

subsection \<open>Issuing\<close>

definition IssueInvoice :: "int \<Rightarrow> int \<Rightarrow> string \<Rightarrow> int \<Rightarrow> int \<Rightarrow> BillingDB \<Rightarrow> (Invoice \<times> BillingDB) option" where
  "IssueInvoice org iid number user journal =
     update_invoice (\<lambda>i. iv_OrganizationID i = org \<and> iv_ID i = iid \<and> iv_Status i = ''DRAFT'')
       (\<lambda>i. i\<lparr>iv_Status := ''ISSUED'', iv_InvoiceNumber := number, iv_IssuedBy := Some user, iv_JournalTransactionID := Some journal\<rparr>)"

definition customer_leg :: "string \<Rightarrow> int \<Rightarrow> int \<Rightarrow> bool \<Rightarrow> int \<Rightarrow> string \<Rightarrow> Leg" where
  "customer_leg account debit credit party customer memo =
     (leg account debit credit (if party then ''CUSTOMER'' else []) (if party then customer else 0) memo)\<lparr>LegCustomerID := Some customer\<rparr>"

definition issue_posting :: "Invoice \<Rightarrow> string \<Rightarrow> Posting" where
  "issue_posting i number =
     (let c = iv_CustomerID i in
      \<lparr>SourceType = ''INVOICE'', SourceID = Some (iv_ID i), Purpose = ''ISSUE'', PDescription = ''Invoice '' @ number, Reason = [], PCurrency = iv_Currency i,
       PostingDate = Some (iv_IssueDate i),
       Legs = [customer_leg AcctTradeReceivable (iv_TotalMinor i) 0 True c (''Invoice '' @ number),
               customer_leg AcctFreightRevenue 0 (iv_TaxableMinor i) False c ''Courier services billed'']
         @ (if 0 < iv_TaxMinor i then [customer_leg AcctTaxPayable 0 (iv_TaxMinor i) False c (''Output tax on '' @ number)] else [])\<rparr>)"

definition post_billing :: "Principal \<Rightarrow> int \<Rightarrow> Posting \<Rightarrow> BillingDB \<Rightarrow> (int \<times> BillingDB) result" where
  "post_billing p now posting db =
     bindE (Post p now posting (bil_ledger db)) (\<lambda>(r, l). Inr (j_ID (rs_Transaction r), db\<lparr>bil_ledger := l\<rparr>))"

text \<open>The unique index on invoice numbers is a conflict of its own.\<close>

definition number_taken :: "BillingDB \<Rightarrow> int \<Rightarrow> int \<Rightarrow> string \<Rightarrow> bool" where
  "number_taken db org iid number \<longleftrightarrow> list_ex (\<lambda>u. iv_OrganizationID u = org \<and> iv_InvoiceNumber u = number \<and> iv_ID u \<noteq> iid) (invoices db)"

definition Issue :: "int \<Rightarrow> Principal \<Rightarrow> string \<Rightarrow> BillingDB \<Rightarrow> (Invoice \<times> BillingDB) result" where
  "Issue now p publicID db =
     bindE (opt_or (GetInvoiceByPublicID db (OrganizationID p) publicID) (NotFound ''Invoice''))
     (\<lambda>header. bindE (opt_or (LockInvoice db (OrganizationID p) (iv_ID header)) Internal)
     (\<lambda>locked. ensure (iv_Status locked = ''DRAFT'') (Conflict ''INVOICE_ALREADY_ISSUED'')
     (ensure (\<not> iv_TotalMinor locked \<le> 0) (Conflict ''BILLING_NOTHING_TO_BILL'')
     (bindE (allocateInvoiceNumber (OrganizationID p) (iv_SeriesCode locked) ''INVOICE'' (iv_IssueDate locked) db)
     (\<lambda>(number, db1). bindE (post_billing p now (issue_posting locked number) db1)
     (\<lambda>(journal, db2). ensure (\<not> number_taken db2 (OrganizationID p) (iv_ID locked) number) (Conflict ''CONFLICT'')
     (bindE (opt_or (IssueInvoice (OrganizationID p) (iv_ID locked) number (UserID p) journal db2) (Conflict ''INVOICE_ALREADY_ISSUED''))
     (commit_invoice (iv_ID locked)))))))))"

subsection \<open>Payments\<close>

record InvoicePayRequest =
  vp_InvoiceID :: string
  vp_AmountMinor :: int
  vp_PaymentMode :: string
  vp_Reference :: string
  vp_ReceivedOn :: "int option"

definition FindPaymentByReference :: "BillingDB \<Rightarrow> int \<Rightarrow> int \<Rightarrow> string \<Rightarrow> InvoicePayment option" where
  "FindPaymentByReference db org iid reference =
     find (\<lambda>y. ip_OrganizationID y = org \<and> ip_InvoiceID y = iid \<and> ip_Reference y = Some reference) (invoice_payments db)"

definition open_states :: "string list" where
  "open_states = [''ISSUED'', ''PARTIALLY_PAID'', ''OVERDUE'']"

text \<open>A bigint sum out of range and the CHECK on the settled amount fail the statement.\<close>

definition settled_ok :: "Invoice \<Rightarrow> bool" where
  "settled_ok i \<longleftrightarrow> in64 (iv_PaidMinor i) \<and> in64 (iv_CreditedMinor i) \<and> in64 (iv_PaidMinor i + iv_CreditedMinor i) \<and> in64 (iv_TotalMinor i + 100)
     \<and> 0 \<le> iv_PaidMinor i \<and> 0 \<le> iv_CreditedMinor i \<and> iv_PaidMinor i + iv_CreditedMinor i \<le> iv_TotalMinor i + 100"

definition paid_by :: "int \<Rightarrow> Invoice \<Rightarrow> Invoice" where
  "paid_by amount i = i\<lparr>iv_PaidMinor := iv_PaidMinor i + amount,
     iv_Status := (if iv_TotalMinor i \<le> iv_PaidMinor i + iv_CreditedMinor i + amount then ''PAID'' else ''PARTIALLY_PAID'')\<rparr>"

definition credited_by :: "int \<Rightarrow> Invoice \<Rightarrow> Invoice" where
  "credited_by amount i = i\<lparr>iv_CreditedMinor := iv_CreditedMinor i + amount,
     iv_Status := (if iv_TotalMinor i \<le> iv_PaidMinor i + iv_CreditedMinor i + amount then ''PAID'' else iv_Status i)\<rparr>"

definition settle_invoice :: "(Invoice \<Rightarrow> Invoice) \<Rightarrow> int \<Rightarrow> int \<Rightarrow> BillingDB \<Rightarrow> (Invoice \<times> BillingDB) option result" where
  "settle_invoice f org iid db =
     (case update_invoice (\<lambda>i. iv_OrganizationID i = org \<and> iv_ID i = iid \<and> iv_Status i \<in> set open_states) f db of
        None \<Rightarrow> Inr None | Some (i, db1) \<Rightarrow> ensure (settled_ok i) Internal (Inr (Some (i, db1))))"

definition RecordInvoicePayment :: "int \<Rightarrow> int \<Rightarrow> int \<Rightarrow> BillingDB \<Rightarrow> (Invoice \<times> BillingDB) option result" where
  "RecordInvoicePayment org iid amount = settle_invoice (paid_by amount) org iid"

definition RecordInvoiceCredit :: "int \<Rightarrow> int \<Rightarrow> int \<Rightarrow> BillingDB \<Rightarrow> (Invoice \<times> BillingDB) option result" where
  "RecordInvoiceCredit org iid amount = settle_invoice (credited_by amount) org iid"

definition invoice_payment_posting :: "Invoice \<Rightarrow> int \<Rightarrow> string \<Rightarrow> int \<Rightarrow> Posting" where
  "invoice_payment_posting i amount number on =
     (let c = iv_CustomerID i in
      \<lparr>SourceType = ''PAYMENT'', SourceID = Some (iv_ID i), Purpose = ''INVOICE_PAYMENT:'' @ number,
       PDescription = ''Payment '' @ number @ '' for '' @ iv_InvoiceNumber i, Reason = [], PCurrency = iv_Currency i, PostingDate = Some on,
       Legs = [customer_leg AcctCash amount 0 False c ''Received from customer'',
               customer_leg AcctTradeReceivable 0 amount True c (''Settled against '' @ iv_InvoiceNumber i)]\<rparr>)"

definition CreateInvoicePayment :: "InvoicePayment \<Rightarrow> BillingDB \<Rightarrow> BillingDB result" where
  "CreateInvoicePayment y db =
     ensure (0 < ip_AmountMinor y
       \<and> ip_PaymentMode y \<in> set [''BANK_TRANSFER'', ''UPI'', ''CARD'', ''CHEQUE'', ''CASH'', ''WALLET'', ''ADJUSTMENT'', ''OTHER'']
       \<and> \<not> list_ex (\<lambda>u. ip_OrganizationID u = ip_OrganizationID y \<and> ip_PaymentNumber u = ip_PaymentNumber y) (invoice_payments db)) Internal
       (Inr (db\<lparr>invoice_payments := invoice_payments db @ [y]\<rparr>))"

definition invoice_outstanding :: "Invoice \<Rightarrow> int" where
  "invoice_outstanding i = sub64 (sub64 (iv_TotalMinor i) (iv_PaidMinor i)) (iv_CreditedMinor i)"

definition RecordPayment :: "int \<Rightarrow> Principal \<Rightarrow> InvoicePayRequest \<Rightarrow> BillingDB \<Rightarrow> ((InvoicePayment \<times> Invoice) \<times> BillingDB) result" where
  "RecordPayment now p inp db =
     (let on = (case vp_ReceivedOn inp of None \<Rightarrow> now | Some d \<Rightarrow> d); amount = vp_AmountMinor inp in
      ensure (\<not> amount \<le> 0) (Validation ''A payment must be for a positive amount.'')
      (bindE (opt_or (GetInvoiceByPublicID db (OrganizationID p) (vp_InvoiceID inp)) (NotFound ''Invoice''))
      (\<lambda>header. case (if vp_Reference inp \<noteq> [] then FindPaymentByReference db (OrganizationID p) (iv_ID header) (vp_Reference inp) else None) of
         Some existing \<Rightarrow> Inr ((existing, header), db)
       | None \<Rightarrow>
         bindE (opt_or (LockInvoice db (OrganizationID p) (iv_ID header)) Internal)
         (\<lambda>locked. ensure (iv_Status locked \<noteq> ''DRAFT'') (Conflict ''INVOICE_NOT_ISSUED'')
         (ensure (iv_Status locked \<noteq> ''CANCELLED'') (Conflict ''INVOICE_INVALID_STATE'')
         (ensure (\<not> invoice_outstanding locked \<le> 0) (Conflict ''INVOICE_ALREADY_PAID'')
         (ensure (\<not> invoice_outstanding locked < amount) (Conflict ''INVOICE_OVERPAYMENT'')
         (bindE (allocateInvoiceNumber (OrganizationID p) ''PAY'' ''INVOICE'' on db)
         (\<lambda>(number, db1). bindE (post_billing p now (invoice_payment_posting locked amount number on) db1)
         (\<lambda>(journal, db2). let y = \<lparr>ip_OrganizationID = OrganizationID p, ip_InvoiceID = iv_ID locked, ip_CustomerID = iv_CustomerID locked, ip_PaymentNumber = number,
               ip_AmountMinor = amount, ip_Currency = iv_Currency locked, ip_PaymentMode = vp_PaymentMode inp, ip_Reference = Optional (vp_Reference inp),
               ip_ReceivedOn = on, ip_Status = ''RECORDED'', ip_JournalTransactionID = Some journal, ip_RecordedBy = UserID p\<rparr> in
          bindE (CreateInvoicePayment y db2)
          (\<lambda>db3. bindE (RecordInvoicePayment (OrganizationID p) (iv_ID locked) amount db3)
          (\<lambda>u. bindE (opt_or u Internal)
          (\<lambda>(advanced, db4). commit_invoice (iv_ID locked) ((y, advanced), db4))))))))))))))"

subsection \<open>Credit and debit notes\<close>

record CreditNoteRequest =
  nq_InvoiceID :: string
  nq_NoteType :: string
  nq_ReasonCode :: string
  nq_Reason :: string
  nq_AmountMinor :: int
  nq_TaxMinor :: int
  nq_IssueDate :: "int option"

definition reason_codes :: "string list" where
  "reason_codes = [''BILLING_ERROR'', ''SERVICE_FAILURE'', ''RATE_CORRECTION'', ''GOODWILL'', ''RETURN'', ''TAX_CORRECTION'', ''SHORT_SHIPMENT'', ''OTHER'']"

definition CreateCreditNote :: "CreditNote \<Rightarrow> BillingDB \<Rightarrow> (CreditNote \<times> BillingDB) result" where
  "CreateCreditNote n db =
     (let n' = n\<lparr>cn_ID := next_credit_note db\<rparr>
      in ensure (cn_NoteType n \<in> set [''CREDIT'', ''DEBIT''] \<and> cn_ReasonCode n \<in> set reason_codes \<and> 5 \<le> rune_count (btrim (cn_Reason n)) \<and> 0 < cn_TotalMinor n
           \<and> \<not> list_ex (\<lambda>u. cn_PublicID u = cn_PublicID n) (credit_notes db)
           \<and> \<not> list_ex (\<lambda>u. cn_OrganizationID u = cn_OrganizationID n \<and> cn_NoteNumber u = cn_NoteNumber n) (credit_notes db)) Internal
         (Inr (n', db\<lparr>credit_notes := credit_notes db @ [n'], next_credit_note := next_credit_note db + 1\<rparr>)))"

definition RaiseCreditNote :: "string \<Rightarrow> string \<Rightarrow> int \<Rightarrow> Principal \<Rightarrow> CreditNoteRequest \<Rightarrow> BillingDB \<Rightarrow> (CreditNote \<times> BillingDB) result" where
  "RaiseCreditNote newID placeholder now p inp db =
     ensure (\<not> nq_AmountMinor inp \<le> 0) (Validation ''A note must be for a positive amount.'')
     (ensure (\<not> rune_count (nq_Reason inp) < 5) (Validation ''A credit or debit note requires a reason.'')
     (bindE (opt_or (GetInvoiceByPublicID db (OrganizationID p) (nq_InvoiceID inp)) (NotFound ''Invoice''))
     (\<lambda>i. let noteType = (if nq_NoteType inp = [] then ''CREDIT'' else nq_NoteType inp); amount = add64 (nq_AmountMinor inp) (nq_TaxMinor inp) in
      ensure (iv_Status i \<noteq> ''DRAFT'') (Conflict ''INVOICE_NOT_ISSUED'')
      (ensure (\<not> (noteType = ''CREDIT'' \<and> invoice_outstanding i < amount)) (Conflict ''CREDIT_NOTE_EXCEEDS_INVOICE'')
      (CreateCreditNote
        \<lparr>cn_ID = 0, cn_PublicID = newID, cn_OrganizationID = OrganizationID p, cn_NoteNumber = ''DRAFT-'' @ placeholder, cn_NoteType = noteType,
         cn_InvoiceID = Some (iv_ID i), cn_CustomerID = iv_CustomerID i, cn_ReasonCode = nq_ReasonCode inp, cn_Reason = nq_Reason inp,
         cn_IssueDate = (case nq_IssueDate inp of None \<Rightarrow> now | Some d \<Rightarrow> d), cn_Currency = iv_Currency i, cn_SubtotalMinor = nq_AmountMinor inp,
         cn_TaxMinor = nq_TaxMinor inp, cn_TotalMinor = amount, cn_Status = ''DRAFT'', cn_JournalTransactionID = None, cn_IssuedBy = None, cn_ApprovedBy = None,
         cn_CreatedBy = Some (UserID p)\<rparr> db)))))"

definition GetCreditNoteByPublicID :: "BillingDB \<Rightarrow> int \<Rightarrow> string \<Rightarrow> CreditNote option" where
  "GetCreditNoteByPublicID db org publicID = find (\<lambda>n. cn_OrganizationID n = org \<and> cn_PublicID n = publicID) (credit_notes db)"

definition note_posting :: "CreditNote \<Rightarrow> string \<Rightarrow> Posting" where
  "note_posting n number =
     (let c = cn_CustomerID n in
      \<lparr>SourceType = ''CREDIT_NOTE'', SourceID = Some (cn_ID n), Purpose = cn_NoteType n, PDescription = cn_NoteType n @ '' note '' @ number, Reason = [],
       PCurrency = cn_Currency n, PostingDate = Some (cn_IssueDate n),
       Legs = (if cn_NoteType n = ''CREDIT''
         then [customer_leg AcctDiscountAllowed (cn_SubtotalMinor n) 0 False c (''Credit note '' @ number),
               customer_leg AcctTradeReceivable 0 (cn_TotalMinor n) True c (''Receivable reduced by '' @ number)]
           @ (if 0 < cn_TaxMinor n then [customer_leg AcctTaxPayable (cn_TaxMinor n) 0 False c ''Output tax reversed''] else [])
         else [customer_leg AcctTradeReceivable (cn_TotalMinor n) 0 True c (''Debit note '' @ number),
               customer_leg AcctOtherRevenue 0 (cn_SubtotalMinor n) False c (''Additional charge '' @ number)]
           @ (if 0 < cn_TaxMinor n then [customer_leg AcctTaxPayable 0 (cn_TaxMinor n) False c (''Output tax on '' @ number)] else []))\<rparr>)"

definition update_note :: "(CreditNote \<Rightarrow> bool) \<Rightarrow> (CreditNote \<Rightarrow> CreditNote) \<Rightarrow> BillingDB \<Rightarrow> (CreditNote \<times> BillingDB) option" where
  "update_note guard f db =
     (case find guard (credit_notes db) of None \<Rightarrow> None
      | Some n \<Rightarrow> Some (f n, db\<lparr>credit_notes := map (\<lambda>u. if guard u then f u else u) (credit_notes db)\<rparr>))"

definition IssueCreditNote_row :: "int \<Rightarrow> int \<Rightarrow> string \<Rightarrow> int \<Rightarrow> int \<Rightarrow> BillingDB \<Rightarrow> (CreditNote \<times> BillingDB) option" where
  "IssueCreditNote_row org nid number user journal =
     update_note (\<lambda>n. cn_OrganizationID n = org \<and> cn_ID n = nid \<and> cn_Status n = ''DRAFT'' \<and> cn_CreatedBy n \<noteq> Some user)
       (\<lambda>n. n\<lparr>cn_Status := ''ISSUED'', cn_NoteNumber := number, cn_IssuedBy := Some user, cn_ApprovedBy := Some user, cn_JournalTransactionID := Some journal\<rparr>)"

definition note_number_taken :: "BillingDB \<Rightarrow> int \<Rightarrow> int \<Rightarrow> string \<Rightarrow> bool" where
  "note_number_taken db org nid number \<longleftrightarrow> list_ex (\<lambda>u. cn_OrganizationID u = org \<and> cn_NoteNumber u = number \<and> cn_ID u \<noteq> nid) (credit_notes db)"

definition IssueCreditNote :: "int \<Rightarrow> Principal \<Rightarrow> string \<Rightarrow> BillingDB \<Rightarrow> (CreditNote \<times> BillingDB) result" where
  "IssueCreditNote now p publicID db =
     bindE (opt_or (GetCreditNoteByPublicID db (OrganizationID p) publicID) (NotFound ''Credit note''))
     (\<lambda>n. ensure (cn_Status n = ''DRAFT'') (Conflict ''INVOICE_INVALID_STATE'')
     (ensure (cn_CreatedBy n \<noteq> Some (UserID p)) (Forbidden ''A credit or debit note must be issued by someone other than the person who raised it.'')
     (bindE (allocateInvoiceNumber (OrganizationID p) ''DEFAULT'' (if cn_NoteType n = ''DEBIT'' then ''DEBIT_NOTE'' else ''CREDIT_NOTE'') (cn_IssueDate n) db)
     (\<lambda>(number, db1). bindE (post_billing p now (note_posting n number) db1)
     (\<lambda>(journal, db2). ensure (\<not> note_number_taken db2 (OrganizationID p) (cn_ID n) number) Internal
     (bindE (opt_or (IssueCreditNote_row (OrganizationID p) (cn_ID n) number (UserID p) journal db2) (Conflict ''CREDIT_NOTE_SELF_APPROVAL''))
     (\<lambda>(issued, db3). case cn_InvoiceID n of
         None \<Rightarrow> Inr (issued, db3)
       | Some iid \<Rightarrow>
         if cn_NoteType n = ''CREDIT''
         then bindE (RecordInvoiceCredit (OrganizationID p) iid (cn_TotalMinor n) db3)
           (\<lambda>u. case u of None \<Rightarrow> Inr (issued, db3) | Some (_, db4) \<Rightarrow> commit_invoice iid (issued, db4))
         else Inr (issued, db3))))))))"

subsection \<open>What a customer owes\<close>

record Outstanding =
  ou_OutstandingMinor :: int
  ou_OverdueMinor :: int
  ou_InvoiceCount :: int

definition GetCustomerOutstanding :: "BillingDB \<Rightarrow> int \<Rightarrow> int \<Rightarrow> int \<Rightarrow> Outstanding result" where
  "GetCustomerOutstanding db today org customer =
     (let rows = filter (\<lambda>i. iv_OrganizationID i = org \<and> iv_CustomerID i = customer \<and> iv_Status i \<in> set open_states) (invoices db);
          due = (\<lambda>i. iv_TotalMinor i - iv_PaidMinor i - iv_CreditedMinor i);
          owed = sum_list (map due rows); overdue = sum_list (map due (filter (\<lambda>i. iv_DueDate i < today) rows))
      in ensure ((\<forall>i\<in>set rows. in64 (iv_TotalMinor i - iv_PaidMinor i) \<and> in64 (due i)) \<and> in64 owed \<and> in64 overdue) Internal
         (Inr \<lparr>ou_OutstandingMinor = owed, ou_OverdueMinor = overdue, ou_InvoiceCount = int (length rows)\<rparr>))"

definition CustomerOutstanding :: "(int \<Rightarrow> string \<Rightarrow> int option) \<Rightarrow> int \<Rightarrow> Principal \<Rightarrow> string \<Rightarrow> BillingDB \<Rightarrow> Outstanding result" where
  "CustomerOutstanding customerOf today p customerPublicID db =
     bindE (opt_or (customerOf (OrganizationID p) customerPublicID) (NotFound ''Customer'')) (GetCustomerOutstanding db today (OrganizationID p))"

end
