(* ===== verification/Receivables.thy ===== *)
theory Receivables
  imports Billing
begin

text \<open>
  What the billing service promises. Any sequence of its calls, with other postings in between, keeps the ledger balance of a customer
  equal to what the documents say; numbers of a financial year are consecutive; the shipments, tax components and lines of an issued
  invoice add up to its total and no shipment is billed twice.
\<close>

subsection \<open>What a successful call did\<close>

definition invoice_ids :: "BillingDB \<Rightarrow> bool" where
  "invoice_ids db \<longleftrightarrow> distinct (map iv_ID (invoices db)) \<and> (\<forall>i\<in>set (invoices db). iv_ID i < next_invoice db)
     \<and> distinct (map cn_ID (credit_notes db)) \<and> (\<forall>n\<in>set (credit_notes db). cn_ID n < next_credit_note db)"

lemma invoice_ids_keep:
  assumes "invoice_ids db" "map iv_ID (invoices db') = map iv_ID (invoices db)" "map cn_ID (credit_notes db') = map cn_ID (credit_notes db)"
    and "next_invoice db' = next_invoice db" "next_credit_note db' = next_credit_note db"
  shows "invoice_ids db'"
proof -
  have "iv_ID ` set (invoices db') = iv_ID ` set (invoices db)" "cn_ID ` set (credit_notes db') = cn_ID ` set (credit_notes db)"
    using assms(2,3) by (metis set_map)+
  then have "\<forall>i\<in>set (invoices db'). \<exists>j\<in>set (invoices db). iv_ID i = iv_ID j" "\<forall>i\<in>set (credit_notes db'). \<exists>j\<in>set (credit_notes db). cn_ID i = cn_ID j"
    by (metis imageE image_eqI)+
  then show ?thesis using assms unfolding invoice_ids_def by metis
qed

lemma invoice_same: "invoice_ids db \<Longrightarrow> i \<in> set (invoices db) \<Longrightarrow> j \<in> set (invoices db) \<Longrightarrow> iv_ID i = iv_ID j \<Longrightarrow> i = j"
  by (metis invoice_ids_def distinct_map inj_onD)

lemma header_locked:
  assumes "invoice_ids db" "GetInvoiceByPublicID db org pid = Some h" "LockInvoice db org (iv_ID h) = Some i"
  shows "i = h \<and> h \<in> set (invoices db) \<and> iv_OrganizationID h = org"
  using assms invoice_same [OF assms(1), of i h] by (auto simp: GetInvoiceByPublicID_def LockInvoice_def dest!: find_SomeD)

lemma CreateInvoiceLine_Inr:
  "CreateInvoiceLine l db = Inr db' \<longleftrightarrow> db' = db\<lparr>invoice_lines := invoice_lines db @ [l]\<rparr>
    \<and> (case find (\<lambda>i. iv_ID i = il_InvoiceID l) (invoices db) of None \<Rightarrow> True | Some i \<Rightarrow> iv_Status i = ''DRAFT'')
    \<and> 0 < il_LineNo l \<and> 0 < il_Quantity l \<and> \<not> list_ex (\<lambda>m. il_InvoiceID m = il_InvoiceID l \<and> il_LineNo m = il_LineNo l) (invoice_lines db)"
  unfolding CreateInvoiceLine_def by (auto simp: res_simps)

lemma foldE_lines: "foldE CreateInvoiceLine ls db = Inr db' \<Longrightarrow> db' = db\<lparr>invoice_lines := invoice_lines db @ ls\<rparr>"
proof (induction ls arbitrary: db)
  case (Cons l ls)
  obtain db1 where a: "CreateInvoiceLine l db = Inr db1" and r: "foldE CreateInvoiceLine ls db1 = Inr db'"
    using Cons.prems by (auto simp: res_simps)
  from a have "db1 = db\<lparr>invoice_lines := invoice_lines db @ [l]\<rparr>" by (simp add: CreateInvoiceLine_Inr)
  with Cons.IH [OF r] show ?case by simp
qed simp

lemma foldE_taxes:
  assumes "foldE (tax_step i taxable) specs (t, db) = Inr (t', db')"
  shows "\<exists>tcs. db' = db\<lparr>tax_components := tax_components db @ tcs\<rparr> \<and> (\<forall>c\<in>set tcs. tc_InvoiceID c = iv_ID i) \<and> wrap64 t' = wrap64 (t + sum_list (map tc_TaxMinor tcs))
    \<and> (in64 t \<longrightarrow> in64 t')"
  using assms
proof (induction specs arbitrary: t db)
  case Nil
  then show ?case by (intro exI [of _ "[]"]) simp
next
  case (Cons s specs)
  obtain t1 db1 where s: "tax_step i taxable s (t, db) = Inr (t1, db1)" and r: "foldE (tax_step i taxable) specs (t1, db1) = Inr (t', db')"
    using Cons.prems by (auto simp: res_simps)
  obtain tcs where tcs: "db' = db1\<lparr>tax_components := tax_components db1 @ tcs\<rparr>" "\<forall>c\<in>set tcs. tc_InvoiceID c = iv_ID i"
    "wrap64 t' = wrap64 (t1 + sum_list (map tc_TaxMinor tcs))" "in64 t1 \<longrightarrow> in64 t'" using Cons.IH [OF r] by blast
  obtain amount where amount: "ApplyBP taxable (ts_RateBp s) = Inr amount" using s by (auto simp: tax_step_def res_simps)
  show ?case
  proof (cases "amount = 0")
    case True
    then have "t1 = t" "db1 = db" using s amount by (auto simp: tax_step_def)
    then show ?thesis using tcs by blast
  next
    case False
    define c where "c = \<lparr>tc_OrganizationID = iv_OrganizationID i, tc_InvoiceID = iv_ID i, tc_ComponentCode = ts_Code s, tc_ComponentName = ts_Name s,
               tc_RateBp = ts_RateBp s, tc_TaxableMinor = taxable, tc_TaxMinor = amount, tc_Currency = iv_Currency i\<rparr>"
    have c: "t1 = add64 t amount" "db1 = db\<lparr>tax_components := tax_components db @ [c]\<rparr>"
      using s amount False by (auto simp: tax_step_def CreateTaxComponent_def res_simps c_def)
    have "wrap64 t' = wrap64 (t + sum_list (map tc_TaxMinor (c # tcs)))" using tcs(3) c(1) by (simp add: add64_def c_def algebra_simps)
    moreover have "in64 t'" using tcs(4) c(1) by (simp add: add64_def)
    ultimately show ?thesis using tcs c(2) by (intro exI [of _ "c # tcs"]) (auto simp: c_def)
  qed
qed

text \<open>A shipment of an organisation appears on one invoice row.\<close>

definition shipment_key :: "InvoiceShipment \<Rightarrow> int \<times> int" where
  "shipment_key h = (ih_OrganizationID h, ih_ShipmentID h)"

lemma AddInvoiceShipment_Inr:
  "AddInvoiceShipment h db = Inr db' \<longleftrightarrow> db' = db\<lparr>invoice_shipments := invoice_shipments db @ [h]\<rparr> \<and> shipment_key h \<notin> shipment_key ` set (invoice_shipments db)
     \<and> \<not> list_ex (\<lambda>u. ih_InvoiceID u = ih_InvoiceID h \<and> ih_ShipmentID u = ih_ShipmentID h) (invoice_shipments db)"
  unfolding AddInvoiceShipment_def shipment_key_def by (auto simp: res_simps list_ex_iff image_iff)

lemma foldE_shipments:
  "foldE (\<lambda>s. AddInvoiceShipment (invoice_shipment i s)) ss db = Inr db' \<Longrightarrow> distinct (map shipment_key (invoice_shipments db)) \<Longrightarrow>
   db' = db\<lparr>invoice_shipments := invoice_shipments db @ map (invoice_shipment i) ss\<rparr> \<and> distinct (map shipment_key (invoice_shipments db'))"
proof (induction ss arbitrary: db)
  case (Cons s ss)
  obtain db1 where a: "AddInvoiceShipment (invoice_shipment i s) db = Inr db1" and r: "foldE (\<lambda>s. AddInvoiceShipment (invoice_shipment i s)) ss db1 = Inr db'"
    using Cons.prems(1) by (auto simp: res_simps)
  have db1: "db1 = db\<lparr>invoice_shipments := invoice_shipments db @ [invoice_shipment i s]\<rparr>"
    and new: "shipment_key (invoice_shipment i s) \<notin> shipment_key ` set (invoice_shipments db)" using a unfolding AddInvoiceShipment_Inr by auto
  have "distinct (map shipment_key (invoice_shipments db1))" using Cons.prems(2) new by (simp add: db1)
  note this = Cons.IH [OF r this]
  moreover from this have "db' = db\<lparr>invoice_shipments := invoice_shipments db @ map (invoice_shipment i) (s # ss)\<rparr>" by (simp add: db1)
  ultimately show ?case by blast
qed simp

lemma taxable_sum:
  "sub64 (add64 (sum64 0 (map bl_FreightMinor ss)) (sum64 0 (map bl_SurchargeTotalMinor ss))) (sum64 0 (map bl_DiscountTotalMinor ss)) = wrap64 (sum_list (map net_charge ss))"
  "sum64 0 (map net_charge ss) = wrap64 (sum_list (map net_charge ss))"
proof -
  have n: "net_charge = (\<lambda>s. wrap64 (bl_FreightMinor s + bl_SurchargeTotalMinor s - bl_DiscountTotalMinor s))"
    by (simp add: fun_eq_iff net_charge_def gross_def add64_def sub64_def)
  have "wrap64 (sum_list (map net_charge ss)) = wrap64 (sum_list (map (\<lambda>s. bl_FreightMinor s + bl_SurchargeTotalMinor s - bl_DiscountTotalMinor s) ss))"
    unfolding n by (rule wrap64_sum_list)
  then show "sub64 (add64 (sum64 0 (map bl_FreightMinor ss)) (sum64 0 (map bl_SurchargeTotalMinor ss))) (sum64 0 (map bl_DiscountTotalMinor ss)) = wrap64 (sum_list (map net_charge ss))"
    by (simp add: sum64_wrap add64_def sub64_def sum_list_addf sum_list_subtractf)
  show "sum64 0 (map net_charge ss) = wrap64 (sum_list (map net_charge ss))" by (simp add: sum64_wrap)
qed

lemma draft_lines_of: "l \<in> set (draft_invoice_lines i inp ss) \<Longrightarrow> il_InvoiceID l = iv_ID i"
  by (auto simp: draft_invoice_lines_def summary_line_def shipment_line_def Let_def split: if_splits)

lemma update_invoice_new:
  assumes "\<forall>u\<in>set us. iv_ID u < iv_ID i" "\<And>u. g u \<Longrightarrow> iv_ID u = iv_ID i"
    and "update_invoice g f db = Some (r, db')" "invoices db = us @ [i]"
  shows "r = f i \<and> db' = db\<lparr>invoices := us @ [f i]\<rparr>"
proof -
  have none: "\<not> g u" if "u \<in> set us" for u using assms(1,2) that by fastforce
  then have "find g us = None" by (auto simp: find_None_iff)
  then have "find g (us @ [i]) = (if g i then Some i else None)" using none by (induction us) auto
  moreover have "map (\<lambda>u. if g u then f u else u) us = us" using none by (intro map_idI) auto
  ultimately show ?thesis using assms(3,4) by (auto simp: update_invoice_def split: if_splits)
qed

lemma buildLines_Inr:
  assumes "buildLines i ss inp db = Inr (r, db')" "invoices db = us @ [i]" "\<forall>u\<in>set us. iv_ID u < iv_ID i" "distinct (map shipment_key (invoice_shipments db))"
  obtains ls tcs j where
    "db' = db\<lparr>invoices := us @ [j], invoice_lines := invoice_lines db @ ls, tax_components := tax_components db @ tcs,
       invoice_shipments := invoice_shipments db @ map (invoice_shipment i) ss\<rparr>"
    "\<forall>l\<in>set ls. il_InvoiceID l = iv_ID i" "\<forall>c\<in>set tcs. tc_InvoiceID c = iv_ID i" "distinct (map shipment_key (invoice_shipments db'))"
    "j = i\<lparr>iv_SubtotalMinor := iv_SubtotalMinor j, iv_DiscountMinor := iv_DiscountMinor j, iv_TaxableMinor := iv_TaxableMinor j, iv_TaxMinor := iv_TaxMinor j,
       iv_RoundingMinor := 0, iv_TotalMinor := wrap64 (sum_list (map net_charge ss) + sum_list (map tc_TaxMinor tcs)), iv_ShipmentCount := iv_ShipmentCount j\<rparr>"
    "iv_TaxableMinor j = wrap64 (sum_list (map net_charge ss))"
proof -
  define taxable where "taxable = wrap64 (sum_list (map net_charge ss))"
  let ?subtotal = "if dr_Summary inp then add64 (sum64 0 (map bl_FreightMinor ss)) (sum64 0 (map bl_SurchargeTotalMinor ss)) else sum64 0 (map gross ss)"
  have tx: "(if dr_Summary inp then sub64 ?subtotal (sum64 0 (map bl_DiscountTotalMinor ss)) else sum64 0 (map net_charge ss)) = taxable"
    using taxable_sum [of ss] by (simp add: taxable_def)
  obtain db1 t db2 db3 db4 u where
    l: "foldE CreateInvoiceLine (draft_invoice_lines i inp ss) db = Inr db1"
    and t: "foldE (tax_step i taxable) (dr_Taxes inp) (0, db1) = Inr (t, db2)"
    and x: "(if 0 < t then CreateInvoiceLine (tax_line i (length (draft_invoice_lines i inp ss)) t) db2 else Inr db2) = Inr db3"
    and h: "foldE (\<lambda>s. AddInvoiceShipment (invoice_shipment i s)) ss db3 = Inr db4"
    and a: "ApplyInvoiceTotals (iv_OrganizationID i) (iv_ID i) ?subtotal (sum64 0 (map bl_DiscountTotalMinor ss)) taxable t (add64 taxable t) (wrap32 (int (length ss))) db4 = Some (u, db')"
    using assms(1) unfolding buildLines_def Let_def tx by (auto simp: res_simps simp del: foldE.simps)
  obtain tcs where tcs: "db2 = db1\<lparr>tax_components := tax_components db1 @ tcs\<rparr>" "\<forall>c\<in>set tcs. tc_InvoiceID c = iv_ID i" "wrap64 t = wrap64 (sum_list (map tc_TaxMinor tcs))"
    using foldE_taxes [OF t] by auto
  obtain xs where xs: "db3 = db2\<lparr>invoice_lines := invoice_lines db2 @ xs\<rparr>" "\<forall>l\<in>set xs. il_InvoiceID l = iv_ID i"
  proof (cases "0 < t")
    case True
    then show ?thesis using x that [of "[tax_line i (length (draft_invoice_lines i inp ss)) t]"] by (simp add: CreateInvoiceLine_Inr tax_line_def)
  next
    case False
    then show ?thesis using x that [of "[]"] by simp
  qed
  note db1 = foldE_lines [OF l]
  have "distinct (map shipment_key (invoice_shipments db3))" using assms(4) by (simp add: xs(1) tcs(1) db1)
  from foldE_shipments [OF h this] have db4: "db4 = db3\<lparr>invoice_shipments := invoice_shipments db3 @ map (invoice_shipment i) ss\<rparr>"
    and d: "distinct (map shipment_key (invoice_shipments db4))" by blast+
  have inv: "invoices db4 = us @ [i]" by (simp add: db4 xs(1) tcs(1) db1 assms(2))
  define j where "j = i\<lparr>iv_SubtotalMinor := ?subtotal, iv_DiscountMinor := sum64 0 (map bl_DiscountTotalMinor ss), iv_TaxableMinor := taxable, iv_TaxMinor := t,
       iv_RoundingMinor := 0, iv_TotalMinor := add64 taxable t, iv_ShipmentCount := wrap32 (int (length ss))\<rparr>"
  have "u = j \<and> db' = db4\<lparr>invoices := us @ [j]\<rparr>"
    unfolding j_def by (rule update_invoice_new [OF assms(3) _ a [unfolded ApplyInvoiceTotals_def] inv]) simp
  then have db': "db' = db4\<lparr>invoices := us @ [j]\<rparr>" by simp
  have "add64 taxable t = wrap64 (sum_list (map net_charge ss) + sum_list (map tc_TaxMinor tcs))"
  proof -
    have "add64 taxable t = wrap64 (sum_list (map net_charge ss) + wrap64 t)" by (simp add: add64_def taxable_def)
    then show ?thesis unfolding tcs(3) by simp
  qed
  moreover have "\<forall>l\<in>set (draft_invoice_lines i inp ss @ xs). il_InvoiceID l = iv_ID i" using draft_lines_of xs(2) by auto
  ultimately show ?thesis
    using that [where ls = "draft_invoice_lines i inp ss @ xs" and tcs = tcs and j = j] tcs(2) d
    by (simp add: db' db4 xs(1) tcs(1) db1 j_def taxable_def)
qed

lemma Draft_Inr:
  assumes "Draft_invoice customerOf accountOf newID placeholder now p inp db = Inr (r, db')" "\<forall>u\<in>set (invoices db). iv_ID u < next_invoice db"
    and "distinct (map shipment_key (invoice_shipments db))"
  obtains i ls tcs hs where
    "db' = db\<lparr>invoices := invoices db @ [i], next_invoice := next_invoice db + 1, invoice_lines := invoice_lines db @ ls, tax_components := tax_components db @ tcs,
       invoice_shipments := invoice_shipments db @ hs\<rparr>"
    "iv_ID i = next_invoice db" "iv_OrganizationID i = OrganizationID p" "iv_Status i = ''DRAFT''" "iv_SeriesCode i = ''DEFAULT''"
    "iv_PaidMinor i = 0" "iv_CreditedMinor i = 0" "iv_RoundingMinor i = 0"
    "iv_TotalMinor i = wrap64 (sum_list (map ih_AmountMinor hs) + sum_list (map tc_TaxMinor tcs))"
    "\<forall>l\<in>set ls. il_InvoiceID l = iv_ID i" "\<forall>c\<in>set tcs. tc_InvoiceID c = iv_ID i" "\<forall>h\<in>set hs. ih_InvoiceID h = iv_ID i \<and> ih_OrganizationID h = OrganizationID p"
    "distinct (map shipment_key (invoice_shipments db'))"
proof -
  obtain customer i0 i1 db1 ss where
    c: "CreateInvoice i0 db = Inr (i1, db1)"
    and i0: "iv_OrganizationID i0 = OrganizationID p" "iv_Status i0 = ''DRAFT''" "iv_SeriesCode i0 = ''DEFAULT''" "iv_PaidMinor i0 = 0" "iv_CreditedMinor i0 = 0"
      "iv_CustomerID i0 = customer"
    and b: "buildLines i1 ss inp db1 = Inr (r, db')"
    using assms(1) unfolding Draft_invoice_def Let_def commit_invoice_def by (auto simp: res_simps)
  have i1: "i1 = i0\<lparr>iv_ID := next_invoice db\<rparr>" and db1: "db1 = db\<lparr>invoices := invoices db @ [i1], next_invoice := next_invoice db + 1\<rparr>"
    using c by (auto simp: CreateInvoice_def Let_def res_simps)
  have pre: "invoices db1 = invoices db @ [i1]" "\<forall>u\<in>set (invoices db). iv_ID u < iv_ID i1" "distinct (map shipment_key (invoice_shipments db1))"
    using assms(2,3) by (simp_all add: db1 i1)
  obtain ls tcs j where
    db': "db' = db1\<lparr>invoices := invoices db @ [j], invoice_lines := invoice_lines db1 @ ls, tax_components := tax_components db1 @ tcs,
       invoice_shipments := invoice_shipments db1 @ map (invoice_shipment i1) ss\<rparr>"
    and of: "\<forall>l\<in>set ls. il_InvoiceID l = iv_ID i1" "\<forall>c\<in>set tcs. tc_InvoiceID c = iv_ID i1" "distinct (map shipment_key (invoice_shipments db'))"
    and j: "j = i1\<lparr>iv_SubtotalMinor := iv_SubtotalMinor j, iv_DiscountMinor := iv_DiscountMinor j, iv_TaxableMinor := iv_TaxableMinor j, iv_TaxMinor := iv_TaxMinor j,
       iv_RoundingMinor := 0, iv_TotalMinor := wrap64 (sum_list (map net_charge ss) + sum_list (map tc_TaxMinor tcs)), iv_ShipmentCount := iv_ShipmentCount j\<rparr>"
    using buildLines_Inr [OF b pre] by metis
  have f: "iv_ID j = next_invoice db" "iv_OrganizationID j = OrganizationID p" "iv_Status j = ''DRAFT''" "iv_SeriesCode j = ''DEFAULT''"
    "iv_PaidMinor j = 0" "iv_CreditedMinor j = 0" "iv_RoundingMinor j = 0" "iv_TotalMinor j = wrap64 (sum_list (map net_charge ss) + sum_list (map tc_TaxMinor tcs))"
    by (subst j, simp add: i1 i0)+
  have g: "iv_ID i1 = next_invoice db" "iv_OrganizationID i1 = OrganizationID p" by (simp_all add: i1 i0)
  have s: "ih_AmountMinor \<circ> invoice_shipment i1 = net_charge" by (simp add: fun_eq_iff invoice_shipment_def)
  have h: "\<forall>h\<in>set (map (invoice_shipment i1) ss). ih_InvoiceID h = iv_ID j \<and> ih_OrganizationID h = OrganizationID p" by (simp add: invoice_shipment_def f g)
  have d: "db' = db\<lparr>invoices := invoices db @ [j], next_invoice := next_invoice db + 1, invoice_lines := invoice_lines db @ ls, tax_components := tax_components db @ tcs,
       invoice_shipments := invoice_shipments db @ map (invoice_shipment i1) ss\<rparr>" by (simp add: db' db1)
  show ?thesis by (rule that [OF d f(1-7) _ _ _ h of(3)]) (use of(1,2) f g s in simp_all)
qed

lemma allocate_Inr:
  assumes "allocateInvoiceNumber org code dt on db = Inr (number, db')"
  shows "\<exists>t. db' = db\<lparr>invoice_sequences := t\<rparr>"
  using assms unfolding allocateInvoiceNumber_def Let_def by (auto simp: res_simps)

lemma post_billing_Inr:
  "post_billing p now q db = Inr (j, db') \<longleftrightarrow> (\<exists>r l. Post p now q (bil_ledger db) = Inr (r, l) \<and> j = j_ID (rs_Transaction r) \<and> db' = db\<lparr>bil_ledger := l\<rparr>)"
  unfolding post_billing_def by (auto simp: res_simps)

lemma Issue_Inr:
  assumes "Issue now p publicID db = Inr (r, db')" "invoice_ids db"
  obtains i number t res l where
    "i \<in> set (invoices db)" "iv_OrganizationID i = OrganizationID p" "iv_Status i = ''DRAFT''" "0 < iv_TotalMinor i"
    "allocateInvoiceNumber (OrganizationID p) (iv_SeriesCode i) ''INVOICE'' (iv_IssueDate i) db = Inr (number, db\<lparr>invoice_sequences := t\<rparr>)"
    "Post p now (issue_posting i number) (bil_ledger db) = Inr (res, l)"
    "r = i\<lparr>iv_Status := ''ISSUED'', iv_InvoiceNumber := number, iv_IssuedBy := Some (UserID p), iv_JournalTransactionID := Some (j_ID (rs_Transaction res))\<rparr>"
    "db' = db\<lparr>invoice_sequences := t, bil_ledger := l, invoices := map (\<lambda>u. if iv_ID u = iv_ID i then r else u) (invoices db)\<rparr>"
    "assert_invoice_totals db' (iv_ID i)"
proof -
  obtain h i number db1 j db2 where
    h: "GetInvoiceByPublicID db (OrganizationID p) publicID = Some h" "LockInvoice db (OrganizationID p) (iv_ID h) = Some i" "iv_Status i = ''DRAFT''" "0 < iv_TotalMinor i"
    and n: "allocateInvoiceNumber (OrganizationID p) (iv_SeriesCode i) ''INVOICE'' (iv_IssueDate i) db = Inr (number, db1)"
    and q: "post_billing p now (issue_posting i number) db1 = Inr (j, db2)"
    and u: "IssueInvoice (OrganizationID p) (iv_ID i) number (UserID p) j db2 = Some (r, db')" and a: "assert_invoice_totals db' (iv_ID i)"
    using assms(1) unfolding Issue_def commit_invoice_def by (auto simp: res_simps)
  have i: "i \<in> set (invoices db)" "iv_OrganizationID i = OrganizationID p" using header_locked [OF assms(2) h(1,2)] by auto
  obtain t where t: "db1 = db\<lparr>invoice_sequences := t\<rparr>" using allocate_Inr [OF n] by blast
  obtain res l where l: "Post p now (issue_posting i number) (bil_ledger db) = Inr (res, l)" "j = j_ID (rs_Transaction res)" "db2 = db1\<lparr>bil_ledger := l\<rparr>"
    using q by (auto simp: post_billing_Inr t)
  let ?g = "\<lambda>i'. iv_OrganizationID i' = OrganizationID p \<and> iv_ID i' = iv_ID i \<and> iv_Status i' = ''DRAFT''"
  let ?f = "\<lambda>i. i\<lparr>iv_Status := ''ISSUED'', iv_InvoiceNumber := number, iv_IssuedBy := Some (UserID p), iv_JournalTransactionID := Some j\<rparr>"
  obtain x where x: "find ?g (invoices db) = Some x" "r = ?f x" "db' = db2\<lparr>invoices := map (\<lambda>u. if ?g u then ?f u else u) (invoices db)\<rparr>"
    using u by (auto simp: IssueInvoice_def update_invoice_def l(3) t split: option.splits)
  have "distinct (map iv_ID (invoices db))" using assms(2) by (simp add: invoice_ids_def)
  note k = keyed_update [OF x(1) this, where i = "iv_ID i" and f = ?f]
  have xi: "x = i" using k(1,3) i(1) invoice_same [OF assms(2)] by simp
  have "db' = db\<lparr>invoice_sequences := t, bil_ledger := l, invoices := map (\<lambda>u. if iv_ID u = iv_ID i then r else u) (invoices db)\<rparr>"
    using k(4) x(2,3) by (simp add: xi l(3) t)
  then show ?thesis using that [OF i h(3,4) n [unfolded t] l(1)] a x(2) xi l(2) by simp
qed

lemma settle_invoice_Inr:
  assumes "settle_invoice f org iid db = Inr (Some (r, db'))" "invoice_ids db" "\<And>u. iv_ID (f u) = iv_ID u"
  shows "\<exists>x\<in>set (invoices db). iv_ID x = iid \<and> iv_OrganizationID x = org \<and> iv_Status x \<in> set open_states \<and> r = f x \<and> settled_ok r
    \<and> db' = db\<lparr>invoices := map (\<lambda>u. if iv_ID u = iid then r else u) (invoices db)\<rparr>"
proof -
  let ?g = "\<lambda>i. iv_OrganizationID i = org \<and> iv_ID i = iid \<and> iv_Status i \<in> set open_states"
  obtain x where x: "find ?g (invoices db) = Some x" "r = f x" "db' = db\<lparr>invoices := map (\<lambda>u. if ?g u then f u else u) (invoices db)\<rparr>" "settled_ok r"
    using assms(1) by (auto simp: settle_invoice_def update_invoice_def res_simps split: option.splits)
  have "distinct (map iv_ID (invoices db))" using assms(2) by (simp add: invoice_ids_def)
  note k = keyed_update [OF x(1) this, where i = iid and f = f]
  show ?thesis using k(1,2,4) x(2-4) assms(3) by (intro bexI [of _ x]) auto
qed

lemma RecordPayment_cases:
  assumes "RecordPayment now p inp db = Inr ((y, r), db')" "invoice_ids db"
  obtains (replayed) "db' = db"
  | (paid) i number t res l where
    "i \<in> set (invoices db)" "iv_OrganizationID i = OrganizationID p" "iv_Status i \<in> set open_states" "vp_AmountMinor inp \<le> invoice_outstanding i" "0 < vp_AmountMinor inp"
    "allocateInvoiceNumber (OrganizationID p) ''PAY'' ''INVOICE'' (case vp_ReceivedOn inp of None \<Rightarrow> now | Some d \<Rightarrow> d) db = Inr (number, db\<lparr>invoice_sequences := t\<rparr>)"
    "Post p now (invoice_payment_posting i (vp_AmountMinor inp) number (case vp_ReceivedOn inp of None \<Rightarrow> now | Some d \<Rightarrow> d)) (bil_ledger db) = Inr (res, l)"
    "ip_OrganizationID y = OrganizationID p" "ip_InvoiceID y = iv_ID i" "ip_CustomerID y = iv_CustomerID i" "ip_PaymentNumber y = number" "ip_AmountMinor y = vp_AmountMinor inp"
    "\<not> list_ex (\<lambda>u. ip_OrganizationID u = OrganizationID p \<and> ip_PaymentNumber u = number) (invoice_payments db)"
    "r = paid_by (vp_AmountMinor inp) i" "settled_ok r"
    "db' = db\<lparr>invoice_sequences := t, bil_ledger := l, invoice_payments := invoice_payments db @ [y], invoices := map (\<lambda>u. if iv_ID u = iv_ID i then r else u) (invoices db)\<rparr>"
proof -
  let ?amount = "vp_AmountMinor inp" and ?on = "case vp_ReceivedOn inp of None \<Rightarrow> now | Some d \<Rightarrow> d"
  obtain h where h: "GetInvoiceByPublicID db (OrganizationID p) (vp_InvoiceID inp) = Some h" "0 < ?amount"
    using assms(1) unfolding RecordPayment_def Let_def by (auto simp: res_simps)
  show ?thesis
  proof (cases "if vp_Reference inp \<noteq> [] then FindPaymentByReference db (OrganizationID p) (iv_ID h) (vp_Reference inp) else None")
    case (Some e)
    then show ?thesis using assms(1) h replayed unfolding RecordPayment_def Let_def by simp
  next
    case None
    obtain i number db1 j db2 db3 db4 where
      i: "LockInvoice db (OrganizationID p) (iv_ID h) = Some i" "?amount \<le> invoice_outstanding i"
      and n: "allocateInvoiceNumber (OrganizationID p) ''PAY'' ''INVOICE'' ?on db = Inr (number, db1)"
      and q: "post_billing p now (invoice_payment_posting i ?amount number ?on) db1 = Inr (j, db2)"
      and y: "y = \<lparr>ip_OrganizationID = OrganizationID p, ip_InvoiceID = iv_ID i, ip_CustomerID = iv_CustomerID i, ip_PaymentNumber = number,
               ip_AmountMinor = ?amount, ip_Currency = iv_Currency i, ip_PaymentMode = vp_PaymentMode inp, ip_Reference = Optional (vp_Reference inp),
               ip_ReceivedOn = ?on, ip_Status = ''RECORDED'', ip_JournalTransactionID = Some j, ip_RecordedBy = UserID p\<rparr>"
      and c: "CreateInvoicePayment y db2 = Inr db3"
      and u: "RecordInvoicePayment (OrganizationID p) (iv_ID i) ?amount db3 = Inr (Some (r, db'))"
      using assms(1) h None unfolding RecordPayment_def Let_def commit_invoice_def by (simp add: res_simps) (elim exE conjE, fastforce simp: res_simps)
    have hi: "i \<in> set (invoices db)" "iv_OrganizationID i = OrganizationID p" using header_locked [OF assms(2) h(1) i(1)] by auto
    obtain t where t: "db1 = db\<lparr>invoice_sequences := t\<rparr>" using allocate_Inr [OF n] by blast
    obtain res l where l: "Post p now (invoice_payment_posting i ?amount number ?on) (bil_ledger db) = Inr (res, l)" "db2 = db1\<lparr>bil_ledger := l\<rparr>"
      using q by (auto simp: post_billing_Inr t)
    have db3: "db3 = db2\<lparr>invoice_payments := invoice_payments db2 @ [y]\<rparr>"
      and new: "\<not> list_ex (\<lambda>u. ip_OrganizationID u = OrganizationID p \<and> ip_PaymentNumber u = number) (invoice_payments db2)"
      using c by (auto simp: CreateInvoicePayment_def res_simps y)
    have ids: "invoice_ids db3" using assms(2) by (simp add: invoice_ids_def db3 l(2) t)
    have keep: "iv_ID (paid_by ?amount u) = iv_ID u" for u by (simp add: paid_by_def)
    obtain x where x: "x \<in> set (invoices db3)" "iv_ID x = iv_ID i" "iv_Status x \<in> set open_states" "r = paid_by ?amount x" "settled_ok r"
      "db' = db3\<lparr>invoices := map (\<lambda>u. if iv_ID u = iv_ID i then r else u) (invoices db3)\<rparr>"
      using settle_invoice_Inr [OF u [unfolded RecordInvoicePayment_def] ids keep] by blast
    have "x = i" using invoice_same [OF assms(2), of x i] x(1,2) hi(1) by (simp add: db3 l(2) t)
    then show ?thesis
      by (intro paid [OF hi _ i(2) h(2) n [unfolded t] l(1)]) (use x new in \<open>simp_all add: y db3 l(2) t\<close>)
  qed
qed

definition note_issued :: "CreditNote \<Rightarrow> string \<Rightarrow> int \<Rightarrow> int \<Rightarrow> CreditNote" where
  "note_issued n number user journal = n\<lparr>cn_Status := ''ISSUED'', cn_NoteNumber := number, cn_IssuedBy := Some user, cn_ApprovedBy := Some user, cn_JournalTransactionID := Some journal\<rparr>"

lemma note_same: "invoice_ids db \<Longrightarrow> m \<in> set (credit_notes db) \<Longrightarrow> n \<in> set (credit_notes db) \<Longrightarrow> cn_ID m = cn_ID n \<Longrightarrow> m = n"
  by (metis invoice_ids_def distinct_map inj_onD)

lemma IssueCreditNote_row_Inr:
  assumes "IssueCreditNote_row org nid number user journal db = Some (r, db')" "invoice_ids db" "n \<in> set (credit_notes db)" "cn_ID n = nid"
  shows "r = note_issued n number user journal \<and> db' = db\<lparr>credit_notes := map (\<lambda>u. if cn_ID u = nid then r else u) (credit_notes db)\<rparr>"
proof -
  let ?g = "\<lambda>n. cn_OrganizationID n = org \<and> cn_ID n = nid \<and> cn_Status n = ''DRAFT'' \<and> cn_CreatedBy n \<noteq> Some user"
  let ?f = "\<lambda>n. note_issued n number user journal"
  obtain x where x: "find ?g (credit_notes db) = Some x" "r = ?f x" "db' = db\<lparr>credit_notes := map (\<lambda>u. if ?g u then ?f u else u) (credit_notes db)\<rparr>"
    using assms(1) by (auto simp: IssueCreditNote_row_def update_note_def note_issued_def split: option.splits)
  have "distinct (map cn_ID (credit_notes db))" using assms(2) by (simp add: invoice_ids_def)
  note k = keyed_update [OF x(1) this, where i = nid and f = ?f]
  have "x = n" using note_same [OF assms(2) _ assms(3), of x] k(1,3) assms(4) by (simp add: note_issued_def)
  then show ?thesis using k(4) x(2,3) by (simp add: note_issued_def)
qed

text \<open>What an issued note does to the invoices: a credit note lowers an open invoice, everything else leaves them as they are.\<close>

definition credit_taken :: "BillingDB \<Rightarrow> CreditNote \<Rightarrow> Invoice list \<Rightarrow> bool" where
  "credit_taken db n ivs \<longleftrightarrow> (\<exists>x\<in>set (invoices db). cn_NoteType n = ''CREDIT'' \<and> cn_InvoiceID n = Some (iv_ID x) \<and> iv_OrganizationID x = cn_OrganizationID n
     \<and> iv_Status x \<in> set open_states \<and> settled_ok (credited_by (cn_TotalMinor n) x)
     \<and> ivs = map (\<lambda>u. if iv_ID u = iv_ID x then credited_by (cn_TotalMinor n) x else u) (invoices db))"

lemma IssueCreditNote_Inr:
  assumes "IssueCreditNote now p publicID db = Inr (r, db')" "invoice_ids db"
  obtains n number t res l ivs where
    "n \<in> set (credit_notes db)" "cn_OrganizationID n = OrganizationID p" "cn_Status n = ''DRAFT''" "cn_CreatedBy n \<noteq> Some (UserID p)"
    "allocateInvoiceNumber (OrganizationID p) ''DEFAULT'' (if cn_NoteType n = ''DEBIT'' then ''DEBIT_NOTE'' else ''CREDIT_NOTE'') (cn_IssueDate n) db
       = Inr (number, db\<lparr>invoice_sequences := t\<rparr>)"
    "Post p now (note_posting n number) (bil_ledger db) = Inr (res, l)"
    "r = note_issued n number (UserID p) (j_ID (rs_Transaction res))"
    "db' = db\<lparr>invoice_sequences := t, bil_ledger := l, credit_notes := map (\<lambda>u. if cn_ID u = cn_ID n then r else u) (credit_notes db), invoices := ivs\<rparr>"
    "ivs = invoices db \<or> credit_taken db n ivs"
proof -
  obtain n number db1 j db2 db3 where
    n: "GetCreditNoteByPublicID db (OrganizationID p) publicID = Some n" "cn_Status n = ''DRAFT''" "cn_CreatedBy n \<noteq> Some (UserID p)"
    and a: "allocateInvoiceNumber (OrganizationID p) ''DEFAULT'' (if cn_NoteType n = ''DEBIT'' then ''DEBIT_NOTE'' else ''CREDIT_NOTE'') (cn_IssueDate n) db = Inr (number, db1)"
    and q: "post_billing p now (note_posting n number) db1 = Inr (j, db2)"
    and u: "IssueCreditNote_row (OrganizationID p) (cn_ID n) number (UserID p) j db2 = Some (r, db3)"
    and d: "db' = db3 \<or> (\<exists>iid x. cn_InvoiceID n = Some iid \<and> cn_NoteType n = ''CREDIT'' \<and> RecordInvoiceCredit (OrganizationID p) iid (cn_TotalMinor n) db3 = Inr (Some (x, db')))"
    using assms(1) unfolding IssueCreditNote_def commit_invoice_def by (auto simp: res_simps split: option.splits if_splits prod.splits)
  have m: "n \<in> set (credit_notes db)" "cn_OrganizationID n = OrganizationID p" using n(1) by (auto simp: GetCreditNoteByPublicID_def dest!: find_SomeD)
  obtain t where t: "db1 = db\<lparr>invoice_sequences := t\<rparr>" using allocate_Inr [OF a] by blast
  obtain res l where l: "Post p now (note_posting n number) (bil_ledger db) = Inr (res, l)" "j = j_ID (rs_Transaction res)" "db2 = db1\<lparr>bil_ledger := l\<rparr>"
    using q by (auto simp: post_billing_Inr t)
  have ids: "invoice_ids db2" using assms(2) by (simp add: invoice_ids_def l(3) t)
  have r: "r = note_issued n number (UserID p) j" and db3: "db3 = db2\<lparr>credit_notes := map (\<lambda>u. if cn_ID u = cn_ID n then r else u) (credit_notes db2)\<rparr>"
    using IssueCreditNote_row_Inr [OF u ids] m(1) by (auto simp: l(3) t)
  have "\<exists>ivs. db' = db3\<lparr>invoices := ivs\<rparr> \<and> (ivs = invoices db \<or> credit_taken db n ivs)"
  proof (cases "db' = db3")
    case True
    then show ?thesis by (intro exI [of _ "invoices db"]) (simp add: db3 l(3) t)
  next
    case False
    then obtain iid x where x: "cn_InvoiceID n = Some iid" "cn_NoteType n = ''CREDIT''" "settle_invoice (credited_by (cn_TotalMinor n)) (OrganizationID p) iid db3 = Inr (Some (x, db'))"
      using d by (auto simp: RecordInvoiceCredit_def)
    have "map cn_ID (credit_notes db3) = map cn_ID (credit_notes db)" using key_update_keys [of cn_ID r] by (simp add: db3 r l(3) t note_issued_def)
    from invoice_ids_keep [OF assms(2) _ this] have ids3: "invoice_ids db3" by (simp add: db3 l(3) t)
    have "iv_ID (credited_by (cn_TotalMinor n) v) = iv_ID v" for v by (simp add: credited_by_def)
    from settle_invoice_Inr [OF x(3) ids3 this] show ?thesis using x(1,2) m(2)
      by (auto simp: credit_taken_def db3 l(3) t)
  qed
  then obtain ivs where "db' = db3\<lparr>invoices := ivs\<rparr>" "ivs = invoices db \<or> credit_taken db n ivs" by blast
  then show ?thesis using that [OF m n(2,3) a [unfolded t] l(1)] r by (simp add: db3 l t)
qed

lemma RaiseCreditNote_Inr:
  assumes "RaiseCreditNote newID placeholder now p inp db = Inr (r, db')"
  shows "\<exists>i. GetInvoiceByPublicID db (OrganizationID p) (nq_InvoiceID inp) = Some i \<and> iv_Status i \<noteq> ''DRAFT'' \<and> cn_ID r = next_credit_note db \<and> cn_OrganizationID r = OrganizationID p
    \<and> cn_InvoiceID r = Some (iv_ID i) \<and> cn_CustomerID r = iv_CustomerID i \<and> cn_NoteType r \<in> {''CREDIT'', ''DEBIT''} \<and> cn_Status r = ''DRAFT'' \<and> 0 < cn_TotalMinor r
    \<and> cn_TotalMinor r = add64 (nq_AmountMinor inp) (nq_TaxMinor inp)
    \<and> db' = db\<lparr>credit_notes := credit_notes db @ [r], next_credit_note := next_credit_note db + 1\<rparr>"
  using assms unfolding RaiseCreditNote_def CreateCreditNote_def Let_def by (auto simp: res_simps)
subsection \<open>Any sequence of calls\<close>

text \<open>
  The calls of the service, bookings and price snapshots of shipments at any time, and postings of other parts of the program, which
  use sources of their own and no leg on a customer.
\<close>

definition foreign_posting :: "Posting \<Rightarrow> bool" where
  "foreign_posting q \<longleftrightarrow> SourceID q \<noteq> None \<and> SourceType q \<notin> set [''INVOICE'', ''CREDIT_NOTE''] \<and> \<not> (SourceType q = ''PAYMENT'' \<and> take 16 (Purpose q) = ''INVOICE_PAYMENT:'')
     \<and> party_legs (Legs q) \<and> list_all (\<lambda>x. PartyType x \<noteq> ''CUSTOMER'') (Legs q)"

inductive billing_call :: "BillingDB \<Rightarrow> BillingDB \<Rightarrow> bool" where
  drafted: "Draft_invoice customerOf accountOf newID placeholder now p din db = Inr (dres, db') \<Longrightarrow> billing_call db db'"
| issued: "Issue now p publicID db = Inr (ires, db') \<Longrightarrow> billing_call db db'"
| paid: "RecordPayment now p pin db = Inr (pres, db') \<Longrightarrow> billing_call db db'"
| raised: "RaiseCreditNote newID placeholder now p cin db = Inr (cres, db') \<Longrightarrow> billing_call db db'"
| noted: "IssueCreditNote now p publicID db = Inr (nres, db') \<Longrightarrow> billing_call db db'"
| booked: "billing_call db (db\<lparr>billable := b\<rparr>)"
| posted: "Post p now q (bil_ledger db) = Inr (r, l) \<Longrightarrow> foreign_posting q \<Longrightarrow> billing_call db (db\<lparr>bil_ledger := l\<rparr>)"

definition billing_start :: "BillingDB \<Rightarrow> bool" where
  "billing_start db \<longleftrightarrow> invoices db = [] \<and> invoice_lines db = [] \<and> invoice_shipments db = [] \<and> tax_components db = [] \<and> credit_notes db = [] \<and> invoice_payments db = []
     \<and> (\<forall>org code dt scope. scope \<noteq> [] \<longrightarrow> invoice_sequences db (org, code, dt, scope) = None)
     \<and> books_sound (bil_ledger db) \<and> journals (bil_ledger db) = [] \<and> entries (bil_ledger db) = []"

subsection \<open>The account of a customer\<close>

text \<open>What the documents say a customer owes: issued invoices, less payments, less credit notes, plus debit notes.\<close>

definition invoice_value :: "int \<Rightarrow> int \<Rightarrow> Invoice \<Rightarrow> int" where
  "invoice_value org c i = (if iv_OrganizationID i = org \<and> iv_CustomerID i = c \<and> iv_Status i \<noteq> ''DRAFT'' then iv_TotalMinor i else 0)"

definition invoiced :: "BillingDB \<Rightarrow> int \<Rightarrow> int \<Rightarrow> int" where
  "invoiced db org c = sum_list (map (invoice_value org c) (invoices db))"

definition received :: "BillingDB \<Rightarrow> int \<Rightarrow> int \<Rightarrow> int" where
  "received db org c = sum_list (map (\<lambda>y. if ip_OrganizationID y = org \<and> ip_CustomerID y = c then ip_AmountMinor y else 0) (invoice_payments db))"

definition note_value :: "CreditNote \<Rightarrow> int" where
  "note_value n = (if cn_NoteType n = ''CREDIT'' then - cn_TotalMinor n else cn_TotalMinor n)"

definition issued_value :: "int \<Rightarrow> int \<Rightarrow> CreditNote \<Rightarrow> int" where
  "issued_value org c n = (if cn_OrganizationID n = org \<and> cn_CustomerID n = c \<and> cn_Status n \<noteq> ''DRAFT'' then note_value n else 0)"

definition noted_sum :: "BillingDB \<Rightarrow> int \<Rightarrow> int \<Rightarrow> int" where
  "noted_sum db org c = sum_list (map (issued_value org c) (credit_notes db))"

definition account :: "BillingDB \<Rightarrow> int \<Rightarrow> int \<Rightarrow> int" where
  "account db org c = invoiced db org c - received db org c + noted_sum db org c"

text \<open>A live journal of billing belongs to a document that left the draft state.\<close>

definition journal_rows :: "BillingDB \<Rightarrow> bool" where
  "journal_rows db \<longleftrightarrow> (\<forall>org k. live_journal (bil_ledger db) org ''INVOICE'' k ''ISSUE'' \<longrightarrow> (\<exists>i\<in>set (invoices db). iv_ID i = k \<and> iv_Status i \<noteq> ''DRAFT''))
     \<and> (\<forall>org k pur. live_journal (bil_ledger db) org ''CREDIT_NOTE'' k pur \<longrightarrow> (\<exists>n\<in>set (credit_notes db). cn_ID n = k \<and> cn_Status n \<noteq> ''DRAFT''))
     \<and> (\<forall>org k number. live_journal (bil_ledger db) org ''PAYMENT'' k (''INVOICE_PAYMENT:'' @ number) \<longrightarrow>
          (\<exists>y\<in>set (invoice_payments db). ip_OrganizationID y = org \<and> ip_PaymentNumber y = number))"

definition account_inv :: "BillingDB \<Rightarrow> bool" where
  "account_inv db \<longleftrightarrow> invoice_ids db \<and> distinct (map shipment_key (invoice_shipments db)) \<and> books_sound (bil_ledger db) \<and> journal_rows db
     \<and> (\<forall>org c. party_total (bil_ledger db) org ''CUSTOMER'' c None = account db org c)"

lemma journal_rowsD:
  assumes "journal_rows db"
  shows "live_journal (bil_ledger db) org ''INVOICE'' k ''ISSUE'' \<Longrightarrow> \<exists>i\<in>set (invoices db). iv_ID i = k \<and> iv_Status i \<noteq> ''DRAFT''"
    and "live_journal (bil_ledger db) org ''CREDIT_NOTE'' k pur \<Longrightarrow> \<exists>n\<in>set (credit_notes db). cn_ID n = k \<and> cn_Status n \<noteq> ''DRAFT''"
    and "live_journal (bil_ledger db) org ''PAYMENT'' k (''INVOICE_PAYMENT:'' @ number) \<Longrightarrow> \<exists>y\<in>set (invoice_payments db). ip_OrganizationID y = org \<and> ip_PaymentNumber y = number"
  using assms unfolding journal_rows_def by blast+

lemma party_legs_billing:
  "party_legs (Legs (issue_posting i number))" "party_legs (Legs (invoice_payment_posting i a number on))" "party_legs (Legs (note_posting n number))"
  by (auto simp: party_legs_def issue_posting_def invoice_payment_posting_def note_posting_def Let_def customer_leg_def leg_def party_codes_def plain_codes_def
      AcctTradeReceivable_def AcctFreightRevenue_def AcctTaxPayable_def AcctCash_def AcctDiscountAllowed_def AcctOtherRevenue_def split: if_splits)

lemma leg_sum_billing:
  "leg_sum (Legs (issue_posting i number)) ''CUSTOMER'' c = (if iv_CustomerID i = c then iv_TotalMinor i else 0)"
  "leg_sum (Legs (invoice_payment_posting i a number on)) ''CUSTOMER'' c = (if iv_CustomerID i = c then - a else 0)"
  "leg_sum (Legs (note_posting n number)) ''CUSTOMER'' c = (if cn_CustomerID n = c then note_value n else 0)"
  by (auto simp: leg_sum_def issue_posting_def invoice_payment_posting_def note_posting_def note_value_def Let_def customer_leg_def leg_def)

lemma posting_source:
  "SourceType (issue_posting i number) = ''INVOICE''" "SourceID (issue_posting i number) = Some (iv_ID i)" "Purpose (issue_posting i number) = ''ISSUE''"
  "SourceType (invoice_payment_posting i a number on) = ''PAYMENT''" "SourceID (invoice_payment_posting i a number on) = Some (iv_ID i)"
  "Purpose (invoice_payment_posting i a number on) = ''INVOICE_PAYMENT:'' @ number"
  "SourceType (note_posting n number) = ''CREDIT_NOTE''" "SourceID (note_posting n number) = Some (cn_ID n)" "Purpose (note_posting n number) = cn_NoteType n"
  by (simp_all add: issue_posting_def invoice_payment_posting_def note_posting_def Let_def)

lemma invoiced_update:
  assumes "invoice_ids db" "i \<in> set (invoices db)" "invoices db' = map (\<lambda>u. if iv_ID u = iv_ID i then r else u) (invoices db)"
  shows "invoiced db' org c = invoiced db org c - invoice_value org c i + invoice_value org c r"
  using assms(1) unfolding invoiced_def assms(3) by (intro sum_list_update_one [OF _ assms(2)]) (simp add: invoice_ids_def)

lemma noted_update:
  assumes "invoice_ids db" "n \<in> set (credit_notes db)" "credit_notes db' = map (\<lambda>u. if cn_ID u = cn_ID n then r else u) (credit_notes db)"
  shows "noted_sum db' org c = noted_sum db org c - issued_value org c n + issued_value org c r"
  using assms(1) unfolding noted_sum_def assms(3) by (intro sum_list_update_one [OF _ assms(2)]) (simp add: invoice_ids_def)

lemma issued_account:
  assumes "account_inv db" "Issue now p publicID db = Inr (r, db')"
  shows "account_inv db'"
proof -
  have ids: "invoice_ids db" and b: "books_sound (bil_ledger db)" and jr: "journal_rows db" using assms(1) by (auto simp: account_inv_def)
  obtain i number t res l where
    i: "i \<in> set (invoices db)" "iv_OrganizationID i = OrganizationID p" "iv_Status i = ''DRAFT''"
    and l: "Post p now (issue_posting i number) (bil_ledger db) = Inr (res, l)"
    and r: "r = i\<lparr>iv_Status := ''ISSUED'', iv_InvoiceNumber := number, iv_IssuedBy := Some (UserID p), iv_JournalTransactionID := Some (j_ID (rs_Transaction res))\<rparr>"
    and db': "db' = db\<lparr>invoice_sequences := t, bil_ledger := l, invoices := map (\<lambda>u. if iv_ID u = iv_ID i then r else u) (invoices db)\<rparr>"
    by (rule Issue_Inr [OF assms(2) ids])
  have new: "\<not> live_journal (bil_ledger db) (OrganizationID p) ''INVOICE'' (iv_ID i) ''ISSUE''"
    using journal_rowsD(1) [OF jr] i(3) invoice_same [OF ids _ i(1)] by blast
  have inv: "invoiced db' org c = invoiced db org c + (if org = OrganizationID p \<and> iv_CustomerID i = c then iv_TotalMinor i else 0)" for org c
    using invoiced_update [OF ids i(1), of db' r org c] i by (simp add: db' r invoice_value_def)
  have "account db' org c = account db org c + (if org = OrganizationID p \<and> iv_CustomerID i = c then iv_TotalMinor i else 0)" for org c
    using inv [of org c] by (simp add: account_def received_def noted_sum_def db')
  moreover have "party_total l org ''CUSTOMER'' c None = party_total (bil_ledger db) org ''CUSTOMER'' c None
      + (if org = OrganizationID p \<and> iv_CustomerID i = c then iv_TotalMinor i else 0)" for org c
    using pl.post_moves [OF l b party_legs_billing(1) posting_source(2), of org "''CUSTOMER''" c] new by (simp add: posting_source leg_sum_billing)
  moreover have "books_sound l" by (rule pl.post_sound [OF l b party_legs_billing(1)])
  moreover have "journal_rows db'"
  proof -
    have "\<exists>j\<in>set (map (\<lambda>u. if iv_ID u = iv_ID i then r else u) (invoices db)). iv_ID j = k \<and> iv_Status j \<noteq> ''DRAFT''"
      if "live_journal l org ''INVOICE'' k ''ISSUE''" for org k
    proof -
      have "k = iv_ID i \<or> (\<exists>j\<in>set (invoices db). iv_ID j = k \<and> iv_Status j \<noteq> ''DRAFT'')"
        using that journal_rowsD(1) [OF jr] unfolding pl.post_journalled [OF l posting_source(2)] posting_source by blast
      then show ?thesis
      proof
        assume "k = iv_ID i"
        then show ?thesis using i(1) by (intro bexI [of _ r]) (auto simp: r image_iff)
      qed (rule update_row_ex, auto simp: r)
    qed
    then show ?thesis using jr unfolding journal_rows_def db' by (simp add: pl.post_journalled [OF l posting_source(2)] posting_source)
  qed
  moreover have "map iv_ID (invoices db') = map iv_ID (invoices db)" using key_update_keys [of iv_ID r] by (simp add: db' r)
  then have "invoice_ids db'" by (rule invoice_ids_keep [OF ids]) (simp_all add: db')
  ultimately show ?thesis using assms(1) by (simp add: account_inv_def db')
qed

lemma paid_account:
  assumes "account_inv db" "RecordPayment now p inp db = Inr (yr, db')"
  shows "account_inv db'"
proof -
  have ids: "invoice_ids db" and b: "books_sound (bil_ledger db)" and jr: "journal_rows db" using assms(1) by (auto simp: account_inv_def)
  obtain y r where yr: "yr = (y, r)" by (cases yr)
  show ?thesis
  proof (rule RecordPayment_cases [OF assms(2) [unfolded yr] ids])
    fix i number t res l
    let ?a = "vp_AmountMinor inp" and ?on = "case vp_ReceivedOn inp of None \<Rightarrow> now | Some d \<Rightarrow> d"
    assume i: "i \<in> set (invoices db)" "iv_OrganizationID i = OrganizationID p" "iv_Status i \<in> set open_states"
      and l: "Post p now (invoice_payment_posting i ?a number ?on) (bil_ledger db) = Inr (res, l)"
      and y: "ip_OrganizationID y = OrganizationID p" "ip_InvoiceID y = iv_ID i" "ip_CustomerID y = iv_CustomerID i" "ip_PaymentNumber y = number" "ip_AmountMinor y = ?a"
      and fresh: "\<not> list_ex (\<lambda>u. ip_OrganizationID u = OrganizationID p \<and> ip_PaymentNumber u = number) (invoice_payments db)"
      and r: "r = paid_by ?a i"
      and db': "db' = db\<lparr>invoice_sequences := t, bil_ledger := l, invoice_payments := invoice_payments db @ [y], invoices := map (\<lambda>u. if iv_ID u = iv_ID i then r else u) (invoices db)\<rparr>"
    have new: "\<not> live_journal (bil_ledger db) (OrganizationID p) ''PAYMENT'' (iv_ID i) (''INVOICE_PAYMENT:'' @ number)"
      using journal_rowsD(3) [OF jr, of "OrganizationID p" "iv_ID i" number] fresh by (auto simp: list_ex_iff simp del: append.simps)
    have st: "iv_Status i \<noteq> ''DRAFT''" "iv_Status r \<noteq> ''DRAFT''" "iv_ID r = iv_ID i" using i(3) by (auto simp: open_states_def r paid_by_def)
    have "invoiced db' org c = invoiced db org c" for org c
      using invoiced_update [OF ids i(1), of db' r org c] st by (simp add: db' r invoice_value_def paid_by_def)
    then have "account db' org c = account db org c - (if org = OrganizationID p \<and> iv_CustomerID i = c then ?a else 0)" for org c
      by (simp add: account_def received_def noted_sum_def db' y)
    moreover have "party_total l org ''CUSTOMER'' c None = party_total (bil_ledger db) org ''CUSTOMER'' c None
        - (if org = OrganizationID p \<and> iv_CustomerID i = c then ?a else 0)" for org c
      using pl.post_moves [OF l b party_legs_billing(2) posting_source(5), of org "''CUSTOMER''" c] new
      unfolding posting_source leg_sum_billing by (simp split: if_splits)
    moreover have "books_sound l" by (rule pl.post_sound [OF l b party_legs_billing(2)])
    moreover have "journal_rows db'"
      unfolding journal_rows_def
    proof (intro conjI allI impI)
      fix org k assume "live_journal (bil_ledger db') org ''INVOICE'' k ''ISSUE''"
      then have "\<exists>j\<in>set (invoices db). iv_ID j = k \<and> iv_Status j \<noteq> ''DRAFT''"
        using journal_rowsD(1) [OF jr] by (simp add: db' pl.post_journalled [OF l posting_source(5)] posting_source)
      from update_row_ex [OF this st(2,3)] show "\<exists>i\<in>set (invoices db'). iv_ID i = k \<and> iv_Status i \<noteq> ''DRAFT''" by (simp add: db')
    next
      fix org k pur assume "live_journal (bil_ledger db') org ''CREDIT_NOTE'' k pur"
      then show "\<exists>n\<in>set (credit_notes db'). cn_ID n = k \<and> cn_Status n \<noteq> ''DRAFT''"
        using journal_rowsD(2) [OF jr] by (simp add: db' pl.post_journalled [OF l posting_source(5)] posting_source)
    next
      fix org k number' assume "live_journal (bil_ledger db') org ''PAYMENT'' k (''INVOICE_PAYMENT:'' @ number')"
      then have "live_journal (bil_ledger db) org ''PAYMENT'' k (''INVOICE_PAYMENT:'' @ number') \<or> org = OrganizationID p \<and> number' = number"
        by (simp add: db' pl.post_journalled [OF l posting_source(5)] posting_source) blast
      then show "\<exists>y\<in>set (invoice_payments db'). ip_OrganizationID y = org \<and> ip_PaymentNumber y = number'"
        using journal_rowsD(3) [OF jr, of org k number'] y by (auto simp: db' simp del: append.simps)
    qed
    moreover have "map iv_ID (invoices db') = map iv_ID (invoices db)" using key_update_keys [of iv_ID r] st(3) by (simp add: db')
    then have "invoice_ids db'" by (rule invoice_ids_keep [OF ids]) (simp_all add: db')
    ultimately show ?thesis using assms(1) by (simp add: account_inv_def db')
  qed (use assms(1) in simp)
qed

lemma credit_taken_rows:
  assumes "invoice_ids db" "ivs = invoices db \<or> credit_taken db n ivs"
  shows "map iv_ID ivs = map iv_ID (invoices db)" "sum_list (map (invoice_value org c) ivs) = sum_list (map (invoice_value org c) (invoices db))"
    and "\<exists>i\<in>set (invoices db). iv_ID i = k \<and> iv_Status i \<noteq> ''DRAFT'' \<Longrightarrow> \<exists>i\<in>set ivs. iv_ID i = k \<and> iv_Status i \<noteq> ''DRAFT''"
proof -
  consider "ivs = invoices db" | x where "x \<in> set (invoices db)" "iv_Status x \<in> set open_states"
    "ivs = map (\<lambda>u. if iv_ID u = iv_ID x then credited_by (cn_TotalMinor n) x else u) (invoices db)"
    using assms(2) by (auto simp: credit_taken_def)
  then have "map iv_ID ivs = map iv_ID (invoices db) \<and> sum_list (map (invoice_value org c) ivs) = sum_list (map (invoice_value org c) (invoices db))
    \<and> ((\<exists>i\<in>set (invoices db). iv_ID i = k \<and> iv_Status i \<noteq> ''DRAFT'') \<longrightarrow> (\<exists>i\<in>set ivs. iv_ID i = k \<and> iv_Status i \<noteq> ''DRAFT''))"
  proof cases
    case 2
    let ?r = "credited_by (cn_TotalMinor n) x"
    have r: "iv_ID ?r = iv_ID x" "iv_Status ?r \<noteq> ''DRAFT''" "iv_Status x \<noteq> ''DRAFT''" using 2(2) by (auto simp: credited_by_def open_states_def)
    have "distinct (map iv_ID (invoices db))" using assms(1) by (simp add: invoice_ids_def)
    from sum_list_update_one [OF this 2(1), of "invoice_value org c" ?r] r
    have "sum_list (map (invoice_value org c) ivs) = sum_list (map (invoice_value org c) (invoices db))" unfolding 2(3) by (simp add: invoice_value_def credited_by_def)
    moreover have "(\<exists>i\<in>set (invoices db). iv_ID i = k \<and> iv_Status i \<noteq> ''DRAFT'') \<longrightarrow> (\<exists>i\<in>set ivs. iv_ID i = k \<and> iv_Status i \<noteq> ''DRAFT'')"
      unfolding 2(3) by (rule impI, rule update_row_ex [where k = iv_ID and P = "\<lambda>i. iv_Status i \<noteq> ''DRAFT''", OF _ r(2,1)])
    moreover have "map iv_ID ivs = map iv_ID (invoices db)" unfolding 2(3) by (rule key_update_keys) (rule r(1))
    ultimately show ?thesis by simp
  qed simp
  then show "map iv_ID ivs = map iv_ID (invoices db)" "sum_list (map (invoice_value org c) ivs) = sum_list (map (invoice_value org c) (invoices db))"
    and "\<exists>i\<in>set (invoices db). iv_ID i = k \<and> iv_Status i \<noteq> ''DRAFT'' \<Longrightarrow> \<exists>i\<in>set ivs. iv_ID i = k \<and> iv_Status i \<noteq> ''DRAFT''" by blast+
qed

lemma noted_account:
  assumes "account_inv db" "IssueCreditNote now p publicID db = Inr (r, db')"
  shows "account_inv db'"
proof -
  have ids: "invoice_ids db" and b: "books_sound (bil_ledger db)" and jr: "journal_rows db" using assms(1) by (auto simp: account_inv_def)
  obtain n number t res l ivs where
    n: "n \<in> set (credit_notes db)" "cn_OrganizationID n = OrganizationID p" "cn_Status n = ''DRAFT''"
    and l: "Post p now (note_posting n number) (bil_ledger db) = Inr (res, l)"
    and r: "r = note_issued n number (UserID p) (j_ID (rs_Transaction res))"
    and db': "db' = db\<lparr>invoice_sequences := t, bil_ledger := l, credit_notes := map (\<lambda>u. if cn_ID u = cn_ID n then r else u) (credit_notes db), invoices := ivs\<rparr>"
    and ivs: "ivs = invoices db \<or> credit_taken db n ivs"
    by (rule IssueCreditNote_Inr [OF assms(2) ids])
  note rows = credit_taken_rows [OF ids ivs]
  have new: "\<not> live_journal (bil_ledger db) (OrganizationID p) ''CREDIT_NOTE'' (cn_ID n) (cn_NoteType n)"
    using journal_rowsD(2) [OF jr] n(3) note_same [OF ids _ n(1)] by blast
  have rn: "cn_ID r = cn_ID n" "cn_Status r \<noteq> ''DRAFT''" by (simp_all add: r note_issued_def)
  have "noted_sum db' org c = noted_sum db org c + (if org = OrganizationID p \<and> cn_CustomerID n = c then note_value n else 0)" for org c
    using noted_update [OF ids n(1), of db' r org c] n by (simp add: db' r issued_value_def note_issued_def note_value_def)
  then have "account db' org c = account db org c + (if org = OrganizationID p \<and> cn_CustomerID n = c then note_value n else 0)" for org c
    using rows(2) by (simp add: account_def received_def invoiced_def db')
  moreover have "party_total l org ''CUSTOMER'' c None = party_total (bil_ledger db) org ''CUSTOMER'' c None
      + (if org = OrganizationID p \<and> cn_CustomerID n = c then note_value n else 0)" for org c
    using pl.post_moves [OF l b party_legs_billing(3) posting_source(8), of org "''CUSTOMER''" c] new by (simp add: posting_source leg_sum_billing)
  moreover have "books_sound l" by (rule pl.post_sound [OF l b party_legs_billing(3)])
  moreover have "journal_rows db'"
    unfolding journal_rows_def
  proof (intro conjI allI impI)
    fix org k assume "live_journal (bil_ledger db') org ''INVOICE'' k ''ISSUE''"
    then have "\<exists>j\<in>set (invoices db). iv_ID j = k \<and> iv_Status j \<noteq> ''DRAFT''"
      using journal_rowsD(1) [OF jr] by (simp add: db' pl.post_journalled [OF l posting_source(8)] posting_source)
    from rows(3) [OF this] show "\<exists>i\<in>set (invoices db'). iv_ID i = k \<and> iv_Status i \<noteq> ''DRAFT''" by (simp add: db')
  next
    fix org k pur assume "live_journal (bil_ledger db') org ''CREDIT_NOTE'' k pur"
    then consider "k = cn_ID n" | "\<exists>n\<in>set (credit_notes db). cn_ID n = k \<and> cn_Status n \<noteq> ''DRAFT''"
      using journal_rowsD(2) [OF jr] by (auto simp: db' pl.post_journalled [OF l posting_source(8)] posting_source)
    then show "\<exists>n\<in>set (credit_notes db'). cn_ID n = k \<and> cn_Status n \<noteq> ''DRAFT''"
    proof cases
      case 1
      then show ?thesis using n(1) rn by (intro bexI [of _ r]) (auto simp: db' image_iff)
    next
      case 2
      from update_row_ex [OF this rn(2,1)] show ?thesis by (simp add: db')
    qed
  next
    fix org k number' assume "live_journal (bil_ledger db') org ''PAYMENT'' k (''INVOICE_PAYMENT:'' @ number')"
    then have "live_journal (bil_ledger db) org ''PAYMENT'' k (''INVOICE_PAYMENT:'' @ number')" by (simp add: db' pl.post_journalled [OF l posting_source(8)] posting_source)
    from journal_rowsD(3) [OF jr this] show "\<exists>y\<in>set (invoice_payments db'). ip_OrganizationID y = org \<and> ip_PaymentNumber y = number'" by (simp add: db')
  qed
  moreover have "map cn_ID (credit_notes db') = map cn_ID (credit_notes db)" using key_update_keys [of cn_ID r] rn(1) by (simp add: db')
  then have "invoice_ids db'" by (intro invoice_ids_keep [OF ids]) (simp_all add: db' rows(1))
  ultimately show ?thesis using assms(1) by (simp add: account_inv_def db')
qed

lemma posted_account:
  assumes "account_inv db" "Post p now q (bil_ledger db) = Inr (r, l)" "foreign_posting q"
  shows "account_inv (db\<lparr>bil_ledger := l\<rparr>)"
proof -
  have b: "books_sound (bil_ledger db)" and jr: "journal_rows db" using assms(1) by (auto simp: account_inv_def)
  obtain sid where q: "SourceID q = Some sid" "SourceType q \<noteq> ''INVOICE''" "SourceType q \<noteq> ''CREDIT_NOTE''" "party_legs (Legs q)"
    "SourceType q = ''PAYMENT'' \<longrightarrow> take 16 (Purpose q) \<noteq> ''INVOICE_PAYMENT:''" and legs: "\<forall>x\<in>set (Legs q). PartyType x \<noteq> ''CUSTOMER''"
    using assms(3) by (auto simp: foreign_posting_def list_all_iff)
  have pay: "\<not> (SourceType q = ''PAYMENT'' \<and> Purpose q = ''INVOICE_PAYMENT:'' @ n)" for n using q(5) by auto
  show ?thesis
  proof (cases "live_journal (bil_ledger db) (OrganizationID p) (SourceType q) sid (Purpose q)")
    case True
    then obtain j tot where "book (bil_ledger db) (OrganizationID p, SourceType q, sid, Purpose q) = Some (j, tot)"
      by (auto simp: live_journal_find book_def)
    then have "l = bil_ledger db" using jb.post_again [OF assms(2) _ q(1)] b by (simp add: books_sound_def)
    then show ?thesis using assms(1) by simp
  next
    case False
    have "party_total l org ''CUSTOMER'' c None = party_total (bil_ledger db) org ''CUSTOMER'' c None" for org c
      using pl.post_bystander [OF assms(2) b q(4) q(1) False] legs by blast
    moreover have "books_sound l" by (rule pl.post_sound [OF assms(2) b q(4)])
    moreover have "journal_rows (db\<lparr>bil_ledger := l\<rparr>)"
      unfolding journal_rows_def
    proof (intro conjI allI impI)
      fix org k number assume "live_journal (bil_ledger (db\<lparr>bil_ledger := l\<rparr>)) org ''PAYMENT'' k (''INVOICE_PAYMENT:'' @ number)"
      then have "live_journal (bil_ledger db) org ''PAYMENT'' k (''INVOICE_PAYMENT:'' @ number)"
        using pay [of number] by (auto simp: pl.post_journalled [OF assms(2) q(1)] simp del: append.simps)
      from journal_rowsD(3) [OF jr this] show "\<exists>y\<in>set (invoice_payments (db\<lparr>bil_ledger := l\<rparr>)). ip_OrganizationID y = org \<and> ip_PaymentNumber y = number" by simp
    qed (use q(2,3) journal_rowsD(1,2) [OF jr] in \<open>simp_all add: pl.post_journalled [OF assms(2) q(1)]\<close>)
    ultimately show ?thesis using assms(1) by (simp add: account_inv_def account_def invoiced_def received_def noted_sum_def invoice_ids_def)
  qed
qed

lemma drafted_account:
  assumes "account_inv db" "Draft_invoice customerOf accountOf newID placeholder now p inp db = Inr (r, db')"
  shows "account_inv db'"
proof -
  have ids: "\<forall>u\<in>set (invoices db). iv_ID u < next_invoice db" and d: "distinct (map shipment_key (invoice_shipments db))"
    using assms(1) by (auto simp: account_inv_def invoice_ids_def)
  obtain i ls tcs hs where db': "db' = db\<lparr>invoices := invoices db @ [i], next_invoice := next_invoice db + 1, invoice_lines := invoice_lines db @ ls,
       tax_components := tax_components db @ tcs, invoice_shipments := invoice_shipments db @ hs\<rparr>"
    and i: "iv_ID i = next_invoice db" "iv_Status i = ''DRAFT''" and d': "distinct (map shipment_key (invoice_shipments db'))"
    by (rule Draft_Inr [OF assms(2) ids d]) blast
  have "invoice_ids db'" using assms(1) i(1) by (force simp: account_inv_def invoice_ids_def db')
  moreover have "account db' = account db" by (intro ext) (simp add: account_def invoiced_def received_def noted_sum_def db' invoice_value_def i(2))
  moreover have "journal_rows db'" using assms(1) by (auto simp: account_inv_def journal_rows_def db' simp del: append.simps)
  ultimately show ?thesis using assms(1) d' by (simp add: account_inv_def) (simp add: db')
qed

lemma raised_account:
  assumes "account_inv db" "RaiseCreditNote newID placeholder now p inp db = Inr (r, db')"
  shows "account_inv db'"
proof -
  have r: "cn_ID r = next_credit_note db" "cn_Status r = ''DRAFT''" and db': "db' = db\<lparr>credit_notes := credit_notes db @ [r], next_credit_note := next_credit_note db + 1\<rparr>"
    using RaiseCreditNote_Inr [OF assms(2)] by blast+
  have "invoice_ids db'" using assms(1) r(1) by (force simp: account_inv_def invoice_ids_def db')
  moreover have "account db' = account db" by (intro ext) (simp add: account_def invoiced_def received_def noted_sum_def db' issued_value_def r(2))
  moreover have "journal_rows db'" using assms(1) by (auto simp: account_inv_def journal_rows_def db' simp del: append.simps)
  ultimately show ?thesis using assms(1) by (simp add: account_inv_def) (simp add: db')
qed

lemma billing_call_account: "billing_call db db' \<Longrightarrow> account_inv db \<Longrightarrow> account_inv db'"
proof (induction rule: billing_call.induct)
  case (booked db b)
  then show ?case by (simp add: account_inv_def invoice_ids_def journal_rows_def account_def invoiced_def received_def noted_sum_def)
qed (auto intro: drafted_account issued_account paid_account raised_account noted_account posted_account)

lemma start_account: "billing_start db \<Longrightarrow> account_inv db"
  by (simp add: billing_start_def account_inv_def invoice_ids_def journal_rows_def live_journal_def party_total_sum account_def invoiced_def received_def noted_sum_def)

lemma billing_reach: "billing_call\<^sup>*\<^sup>* db0 db \<Longrightarrow> billing_start db0 \<Longrightarrow> account_inv db"
  by (induction rule: rtranclp_induct) (auto intro: start_account billing_call_account)
subsection \<open>The state of an invoice\<close>

definition settled_status :: "Invoice \<Rightarrow> bool" where
  "settled_status i \<longleftrightarrow> 0 \<le> iv_PaidMinor i \<and> 0 \<le> iv_CreditedMinor i \<and>
     (iv_Status i = ''DRAFT'' \<and> iv_PaidMinor i = 0 \<and> iv_CreditedMinor i = 0
      \<or> iv_Status i = (if iv_PaidMinor i = 0 then ''ISSUED'' else ''PARTIALLY_PAID'') \<and> iv_PaidMinor i + iv_CreditedMinor i < iv_TotalMinor i
      \<or> iv_Status i = ''PAID'' \<and> 0 < iv_TotalMinor i \<and> iv_TotalMinor i \<le> iv_PaidMinor i + iv_CreditedMinor i \<and> iv_PaidMinor i + iv_CreditedMinor i \<le> iv_TotalMinor i + 100)"

definition paid_sum :: "BillingDB \<Rightarrow> int \<Rightarrow> int" where
  "paid_sum db iid = sum_list (map (\<lambda>y. if ip_InvoiceID y = iid then ip_AmountMinor y else 0) (invoice_payments db))"

definition paid_value :: "int \<Rightarrow> int \<Rightarrow> Invoice \<Rightarrow> int" where
  "paid_value org c i = (if iv_OrganizationID i = org \<and> iv_CustomerID i = c then iv_PaidMinor i else 0)"

definition settle_inv :: "BillingDB \<Rightarrow> bool" where
  "settle_inv db \<longleftrightarrow> (\<forall>i\<in>set (invoices db). settled_status i \<and> iv_PaidMinor i = paid_sum db (iv_ID i)) \<and> (\<forall>y\<in>set (invoice_payments db). ip_InvoiceID y < next_invoice db)
     \<and> (\<forall>org c. received db org c = sum_list (map (paid_value org c) (invoices db)))"

lemma settled_open: "settled_status i \<Longrightarrow> iv_Status i \<in> set open_states \<longleftrightarrow> iv_Status i \<noteq> ''DRAFT'' \<and> iv_Status i \<noteq> ''PAID''"
  by (auto simp: settled_status_def open_states_def split: if_splits)

lemma paid_by_settled: "settled_status i \<Longrightarrow> iv_Status i \<in> set open_states \<Longrightarrow> 0 < a \<Longrightarrow> settled_ok (paid_by a i) \<Longrightarrow> settled_status (paid_by a i)"
  by (auto simp: settled_status_def open_states_def settled_ok_def paid_by_def split: if_splits)

lemma credited_by_settled: "settled_status i \<Longrightarrow> iv_Status i \<in> set open_states \<Longrightarrow> settled_ok (credited_by a i) \<Longrightarrow> settled_status (credited_by a i)"
  by (auto simp: settled_status_def open_states_def settled_ok_def credited_by_def split: if_splits)

lemma settle_update:
  assumes "invoice_ids db" "settle_inv db" "i \<in> set (invoices db)" "settled_status r" "iv_ID r = iv_ID i" "iv_PaidMinor r = iv_PaidMinor i"
    and "iv_OrganizationID r = iv_OrganizationID i" "iv_CustomerID r = iv_CustomerID i"
    and "invoices db' = map (\<lambda>u. if iv_ID u = iv_ID i then r else u) (invoices db)" "invoice_payments db' = invoice_payments db" "next_invoice db' = next_invoice db"
  shows "settle_inv db'"
proof -
  have d: "distinct (map iv_ID (invoices db))" using assms(1) by (simp add: invoice_ids_def)
  have ps: "paid_sum db' = paid_sum db" "received db' = received db" by (simp_all add: fun_eq_iff paid_sum_def received_def assms(10))
  have "sum_list (map (paid_value org c) (invoices db')) = sum_list (map (paid_value org c) (invoices db))" for org c
    unfolding assms(9) sum_list_update_one [OF d assms(3)] using assms(6-8) by (simp add: paid_value_def)
  then show ?thesis using assms(2,3,4,5,6) by (auto simp: settle_inv_def ps assms(9-11))
qed

lemma issued_settle:
  assumes "account_inv db" "settle_inv db" "Issue now p publicID db = Inr (r, db')"
  shows "settle_inv db'"
proof -
  have ids: "invoice_ids db" using assms(1) by (simp add: account_inv_def)
  obtain i number t l and res :: PostResult where
    i: "i \<in> set (invoices db)" "iv_Status i = ''DRAFT''" "0 < iv_TotalMinor i"
    and r: "r = i\<lparr>iv_Status := ''ISSUED'', iv_InvoiceNumber := number, iv_IssuedBy := Some (UserID p), iv_JournalTransactionID := Some (j_ID (rs_Transaction res))\<rparr>"
    and db': "db' = db\<lparr>invoice_sequences := t, bil_ledger := l, invoices := map (\<lambda>u. if iv_ID u = iv_ID i then r else u) (invoices db)\<rparr>"
    by (rule Issue_Inr [OF assms(3) ids]) blast
  have "settled_status i" using assms(2) i(1) by (simp add: settle_inv_def)
  then have "settled_status r" using i(2,3) by (auto simp: settled_status_def r split: if_splits)
  then show ?thesis by (rule settle_update [OF ids assms(2) i(1)]) (simp_all add: r db')
qed

lemma noted_settle:
  assumes "account_inv db" "settle_inv db" "IssueCreditNote now p publicID db = Inr (r, db')"
  shows "settle_inv db'"
proof -
  have ids: "invoice_ids db" using assms(1) by (simp add: account_inv_def)
  obtain n number t res l ivs where
    db': "db' = db\<lparr>invoice_sequences := t, bil_ledger := l, credit_notes := map (\<lambda>u. if cn_ID u = cn_ID n then r else u) (credit_notes db), invoices := ivs\<rparr>"
    and ivs: "ivs = invoices db \<or> credit_taken db n ivs"
    by (rule IssueCreditNote_Inr [OF assms(3) ids])
  from ivs show ?thesis
  proof
    assume "ivs = invoices db"
    then show ?thesis using assms(2) by (simp add: settle_inv_def paid_sum_def received_def db')
  next
    assume "credit_taken db n ivs"
    then obtain x where x: "x \<in> set (invoices db)" "iv_Status x \<in> set open_states" "settled_ok (credited_by (cn_TotalMinor n) x)"
      "ivs = map (\<lambda>u. if iv_ID u = iv_ID x then credited_by (cn_TotalMinor n) x else u) (invoices db)" by (auto simp: credit_taken_def)
    have "settled_status (credited_by (cn_TotalMinor n) x)" using assms(2) x(1-3) credited_by_settled by (auto simp: settle_inv_def)
    then show ?thesis by (rule settle_update [OF ids assms(2) x(1)]) (simp_all add: credited_by_def db' x(4))
  qed
qed

lemma paid_settle:
  assumes "account_inv db" "settle_inv db" "RecordPayment now p inp db = Inr (yr, db')"
  shows "settle_inv db'"
proof -
  have ids: "invoice_ids db" using assms(1) by (simp add: account_inv_def)
  then have d: "distinct (map iv_ID (invoices db))" by (simp add: invoice_ids_def)
  obtain y r where yr: "yr = (y, r)" by (cases yr)
  show ?thesis
  proof (rule RecordPayment_cases [OF assms(3) [unfolded yr] ids])
    fix i number t res l
    let ?a = "vp_AmountMinor inp"
    assume i: "i \<in> set (invoices db)" "iv_OrganizationID i = OrganizationID p" "iv_Status i \<in> set open_states" "0 < ?a"
      and y: "ip_OrganizationID y = OrganizationID p" "ip_InvoiceID y = iv_ID i" "ip_CustomerID y = iv_CustomerID i" "ip_AmountMinor y = ?a"
      and r: "r = paid_by ?a i" "settled_ok r"
      and db': "db' = db\<lparr>invoice_sequences := t, bil_ledger := l, invoice_payments := invoice_payments db @ [y], invoices := map (\<lambda>u. if iv_ID u = iv_ID i then r else u) (invoices db)\<rparr>"
    have inv: "invoices db' = map (\<lambda>u. if iv_ID u = iv_ID i then r else u) (invoices db)" by (simp add: db')
    have f: "iv_ID r = iv_ID i" "iv_PaidMinor r = iv_PaidMinor i + ?a" "iv_OrganizationID r = OrganizationID p" "iv_CustomerID r = iv_CustomerID i"
      by (simp_all add: r(1) paid_by_def i(2))
    have "settled_status r" unfolding r(1) using assms(2) i r by (intro paid_by_settled) (auto simp: settle_inv_def)
    moreover have ps: "paid_sum db' k = paid_sum db k + (if k = iv_ID i then ?a else 0)" for k by (simp add: paid_sum_def db' y)
    ultimately have "settled_status u \<and> iv_PaidMinor u = paid_sum db' (iv_ID u)" if "u \<in> set (invoices db')" for u
      using that assms(2) i(1) f by (auto simp: inv settle_inv_def split: if_splits)
    moreover have "received db' org c = sum_list (map (paid_value org c) (invoices db'))" for org c
    proof -
      have "received db org c = sum_list (map (paid_value org c) (invoices db))" using assms(2) by (simp add: settle_inv_def)
      moreover have "received db' org c = received db org c + (if OrganizationID p = org \<and> iv_CustomerID i = c then ?a else 0)" by (simp add: received_def db' y)
      ultimately show ?thesis unfolding inv sum_list_update_one [OF d i(1)] using f i(2) by (simp add: paid_value_def)
    qed
    moreover have "iv_ID i < next_invoice db" using ids i(1) by (simp add: invoice_ids_def)
    then have "\<forall>y\<in>set (invoice_payments db'). ip_InvoiceID y < next_invoice db'" using assms(2) y(2) by (auto simp: settle_inv_def db')
    ultimately show ?thesis unfolding settle_inv_def by blast
  qed (use assms(2) in simp)
qed

lemma drafted_settle:
  assumes "account_inv db" "settle_inv db" "Draft_invoice customerOf accountOf newID placeholder now p inp db = Inr (r, db')"
  shows "settle_inv db'"
proof -
  have ids: "\<forall>u\<in>set (invoices db). iv_ID u < next_invoice db" and d: "distinct (map shipment_key (invoice_shipments db))"
    using assms(1) by (auto simp: account_inv_def invoice_ids_def)
  obtain i ls tcs hs where db': "db' = db\<lparr>invoices := invoices db @ [i], next_invoice := next_invoice db + 1, invoice_lines := invoice_lines db @ ls,
       tax_components := tax_components db @ tcs, invoice_shipments := invoice_shipments db @ hs\<rparr>"
    and i: "iv_ID i = next_invoice db" "iv_Status i = ''DRAFT''" "iv_PaidMinor i = 0" "iv_CreditedMinor i = 0"
    by (rule Draft_Inr [OF assms(3) ids d]) blast
  have y: "\<forall>y\<in>set (invoice_payments db). ip_InvoiceID y < next_invoice db" using assms(2) by (simp add: settle_inv_def)
  then have "map (\<lambda>y. if ip_InvoiceID y = iv_ID i then ip_AmountMinor y else 0) (invoice_payments db) = map (\<lambda>_. 0) (invoice_payments db)"
    by (intro map_cong) (auto simp: i(1))
  then have "paid_sum db (iv_ID i) = 0" unfolding paid_sum_def by (simp only: sum_list_0)
  then show ?thesis using assms(2) y i by (force simp: settle_inv_def settled_status_def paid_sum_def received_def db' paid_value_def)
qed

lemma billing_call_settle: "billing_call db db' \<Longrightarrow> account_inv db \<Longrightarrow> settle_inv db \<Longrightarrow> settle_inv db'"
proof (induction rule: billing_call.induct)
  case (raised newID placeholder now p cin db cres db')
  then show ?case using RaiseCreditNote_Inr [OF raised(1)] by (auto simp: settle_inv_def paid_sum_def received_def)
next
  case (booked db b)
  then show ?case by (simp add: settle_inv_def paid_sum_def received_def)
next
  case (posted p now q db r l)
  then show ?case by (simp add: settle_inv_def paid_sum_def received_def)
qed (blast intro: drafted_settle issued_settle paid_settle noted_settle)+

lemma settle_reach: "billing_call\<^sup>*\<^sup>* db0 db \<Longrightarrow> billing_start db0 \<Longrightarrow> settle_inv db"
proof (induction rule: rtranclp_induct)
  case base
  then show ?case by (simp add: billing_start_def settle_inv_def received_def)
next
  case (step y z)
  then show ?case using billing_call_settle billing_reach by blast
qed


text \<open>What the invoices of a customer have taken of the credit notes, and by how much paid invoices are over-settled.\<close>

definition credits_taken :: "BillingDB \<Rightarrow> int \<Rightarrow> int \<Rightarrow> int" where
  "credits_taken db org c = sum_list (map (\<lambda>i. if iv_OrganizationID i = org \<and> iv_CustomerID i = c then iv_CreditedMinor i else 0) (invoices db))"

definition over_settled :: "BillingDB \<Rightarrow> int \<Rightarrow> int \<Rightarrow> int" where
  "over_settled db org c = sum_list (map (\<lambda>i. if iv_OrganizationID i = org \<and> iv_CustomerID i = c \<and> iv_Status i = ''PAID''
     then iv_PaidMinor i + iv_CreditedMinor i - iv_TotalMinor i else 0) (invoices db))"

lemma owed_split:
  assumes "\<forall>i\<in>set is. settled_status i"
  shows "sum_list (map (invoice_value org c) is) - sum_list (map (paid_value org c) is) =
     sum_list (map (\<lambda>i. iv_TotalMinor i - iv_PaidMinor i - iv_CreditedMinor i) (filter (\<lambda>i. iv_OrganizationID i = org \<and> iv_CustomerID i = c \<and> iv_Status i \<in> set open_states) is))
     + sum_list (map (\<lambda>i. if iv_OrganizationID i = org \<and> iv_CustomerID i = c then iv_CreditedMinor i else 0) is)
     - sum_list (map (\<lambda>i. if iv_OrganizationID i = org \<and> iv_CustomerID i = c \<and> iv_Status i = ''PAID'' then iv_PaidMinor i + iv_CreditedMinor i - iv_TotalMinor i else 0) is)"
  using assms
proof (induction "is")
  case (Cons i "is")
  have "iv_Status i = ''DRAFT'' \<Longrightarrow> iv_PaidMinor i = 0 \<and> iv_CreditedMinor i = 0" using Cons.prems by (auto simp: settled_status_def split: if_splits)
  then show ?case using Cons settled_open [of i] by (auto simp: invoice_value_def paid_value_def)
qed simp

lemma outstanding_split:
  assumes "settle_inv db" "GetCustomerOutstanding db today org c = Inr out"
  shows "account db org c = ou_OutstandingMinor out + credits_taken db org c + noted_sum db org c - over_settled db org c"
proof -
  have "\<forall>i\<in>set (invoices db). settled_status i" "received db org c = sum_list (map (paid_value org c) (invoices db))" using assms(1) by (auto simp: settle_inv_def)
  then show ?thesis using owed_split [of "invoices db" org c] assms(2)
    by (auto simp: account_def invoiced_def GetCustomerOutstanding_def Let_def res_simps credits_taken_def over_settled_def)
qed

text \<open>
  C7: In every history of drafts, issues, payments, credit and debit notes, with other postings in between, the balance the ledger reports for
  a customer is exactly what the documents say: the totals of the issued invoices, less the payments recorded, less the credit notes and plus
  the debit notes issued.
\<close>

theorem customer_account:
  assumes "billing_call\<^sup>*\<^sup>* db0 db" "billing_start db0" "PartyBalance (bil_ledger db) p ''CUSTOMER'' c None = Inr b"
  shows "b = invoiced db (OrganizationID p) c - received db (OrganizationID p) c + noted_sum db (OrganizationID p) c"
  using billing_reach [OF assms(1,2)] assms(3) by (auto simp: account_inv_def PartyBalance_def account_def res_simps)

text \<open>
  C11: What the customer screen calls outstanding and what the ledger calls the balance of the customer differ by an amount the documents
  explain: credit notes that no invoice took, debit notes, which no invoice takes, and the over-settlement of paid invoices. With none of
  these the two figures agree.
\<close>

theorem outstanding_drift:
  assumes "billing_call\<^sup>*\<^sup>* db0 db" "billing_start db0" "customerOf (OrganizationID p) customerID = Some c"
    and "CustomerOutstanding customerOf today p customerID db = Inr out" "PartyBalance (bil_ledger db) p ''CUSTOMER'' c None = Inr b"
  shows "b = ou_OutstandingMinor out + (noted_sum db (OrganizationID p) c + credits_taken db (OrganizationID p) c) - over_settled db (OrganizationID p) c"
proof -
  have "GetCustomerOutstanding db today (OrganizationID p) c = Inr out" using assms(3,4) by (auto simp: CustomerOutstanding_def res_simps)
  from outstanding_split [OF settle_reach [OF assms(1,2)] this]
  show ?thesis using billing_reach [OF assms(1,2)] assms(5) by (auto simp: account_inv_def PartyBalance_def res_simps)
qed


subsection \<open>A month of billing\<close>

definition bil_chart :: LedgerDB where
  "bil_chart = demo_ledger\<lparr>accounts := [demo_account 1 ''1200'' ''ASSET'' ''DEBIT'', demo_account 2 ''4000'' ''REVENUE'' ''CREDIT'', demo_account 3 ''2300'' ''LIABILITY'' ''CREDIT'',
     demo_account 4 ''1000'' ''ASSET'' ''DEBIT'', demo_account 5 ''4300'' ''REVENUE'' ''CREDIT''], next_account := 6\<rparr>"

definition bil_parcel :: BillableShipment where
  "bil_parcel = \<lparr>bl_ID = 40, bl_OrganizationID = 7, bl_CustomerID = 3, bl_TransportCustomerID = None, bl_PaymentMode = ''CREDIT'', bl_CurrentStatus = ''DELIVERED'',
     bl_BookedAt = 20260803, bl_Awb = ''QYN1'', bl_OriginPincode = ''700001'', bl_DestinationPincode = ''110001'', bl_ChargeableWeightGrams = 500, bl_ChargeSnapshotID = 90,
     bl_FreightMinor = 10000, bl_SurchargeTotalMinor = 500, bl_DiscountTotalMinor = 500\<rparr>"

definition bil_0 :: BillingDB where
  "bil_0 = \<lparr>invoices = [], invoice_lines = [], invoice_shipments = [], tax_components = [], credit_notes = [], invoice_payments = [], invoice_sequences = Map.empty,
     billable = [bil_parcel], next_invoice = 1, next_credit_note = 1, bil_ledger = bil_chart\<rparr>"

definition bil_request :: DraftRequest where
  "bil_request = \<lparr>dr_CustomerID = ''cus_1'', dr_BillingMode = [], dr_PeriodStart = 20260801, dr_PeriodEnd = 20260807, dr_IssueDate = None, dr_Summary = False,
     dr_Taxes = [\<lparr>ts_Code = ''IGST'', ts_Name = ''Integrated GST'', ts_RateBp = 1800\<rparr>], dr_Notes = [], dr_BillingRunID = None\<rparr>"

definition bil_customer :: "int \<Rightarrow> string \<Rightarrow> int option" where
  "bil_customer org c = (if c = ''cus_1'' then Some 3 else None)"


text \<open>The run: draft, issue, a part payment, a debit note raised by a colleague and issued.\<close>

definition bil_colleague :: Principal where
  "bil_colleague = demo_principal\<lparr>UserID := 12\<rparr>"

definition bil_payment :: InvoicePayRequest where
  "bil_payment = \<lparr>vp_InvoiceID = ''inv_1'', vp_AmountMinor = 5000, vp_PaymentMode = ''UPI'', vp_Reference = ''utr-1'', vp_ReceivedOn = None\<rparr>"

definition bil_note :: CreditNoteRequest where
  "bil_note = \<lparr>nq_InvoiceID = ''inv_1'', nq_NoteType = ''DEBIT'', nq_ReasonCode = ''RATE_CORRECTION'', nq_Reason = ''reweighed'', nq_AmountMinor = 1000, nq_TaxMinor = 0, nq_IssueDate = None\<rparr>"

definition bil_invoice :: "string \<Rightarrow> string \<Rightarrow> int \<Rightarrow> int option \<Rightarrow> Invoice" where
  "bil_invoice number st paid user = \<lparr>iv_ID = 1, iv_PublicID = ''inv_1'', iv_OrganizationID = 7, iv_InvoiceNumber = number, iv_SeriesCode = ''DEFAULT'', iv_DocumentType = ''INVOICE'',
     iv_CustomerID = 3, iv_BusinessAccountID = None, iv_BillingRunID = None, iv_BillingMode = ''PERIODIC'', iv_PeriodStart = Some 20260801, iv_PeriodEnd = Some 20260807,
     iv_IssueDate = 20260808, iv_DueDate = 20260907, iv_Status = st, iv_Currency = ''INR'', iv_SubtotalMinor = 10500, iv_DiscountMinor = 500, iv_TaxableMinor = 10000,
     iv_TaxMinor = 1800, iv_RoundingMinor = 0, iv_TotalMinor = 11800, iv_PaidMinor = paid, iv_CreditedMinor = 0, iv_ShipmentCount = 1,
     iv_JournalTransactionID = map_option (\<lambda>_. 1) user, iv_Notes = None, iv_IssuedBy = user, iv_CreatedBy = Some 11\<rparr>"

definition bil_lines :: "InvoiceLine list" where
  "bil_lines = [\<lparr>il_OrganizationID = 7, il_InvoiceID = 1, il_LineNo = 1, il_LineType = ''FREIGHT'', il_Description = ''AWB QYN1, 700001 to 110001, 500g'', il_Quantity = 1,
      il_UnitPriceMinor = 10000, il_AmountMinor = 10500, il_DiscountMinor = 500, il_TaxableMinor = 10000, il_TaxMinor = 0, il_TotalMinor = 10000, il_Currency = ''INR'',
      il_ShipmentID = Some 40, il_ChargeSnapshotID = Some 90\<rparr>,
     \<lparr>il_OrganizationID = 7, il_InvoiceID = 1, il_LineNo = 2, il_LineType = ''OTHER'', il_Description = ''Tax'', il_Quantity = 1, il_UnitPriceMinor = 0, il_AmountMinor = 1800,
      il_DiscountMinor = 0, il_TaxableMinor = 0, il_TaxMinor = 1800, il_TotalMinor = 1800, il_Currency = ''INR'', il_ShipmentID = None, il_ChargeSnapshotID = None\<rparr>]"

definition bil_1 :: BillingDB where
  "bil_1 = bil_0\<lparr>invoices := [bil_invoice ''DRAFT-abc'' ''DRAFT'' 0 None], next_invoice := 2, invoice_lines := bil_lines,
     tax_components := [\<lparr>tc_OrganizationID = 7, tc_InvoiceID = 1, tc_ComponentCode = ''IGST'', tc_ComponentName = ''Integrated GST'', tc_RateBp = 1800, tc_TaxableMinor = 10000,
       tc_TaxMinor = 1800, tc_Currency = ''INR''\<rparr>],
     invoice_shipments := [\<lparr>ih_OrganizationID = 7, ih_InvoiceID = 1, ih_ShipmentID = 40, ih_Awb = ''QYN1'', ih_AmountMinor = 10000, ih_TaxMinor = 0\<rparr>]\<rparr>"

definition bil_journal :: "int \<Rightarrow> string \<Rightarrow> int \<Rightarrow> string \<Rightarrow> string \<Rightarrow> string \<Rightarrow> int \<Rightarrow> int \<Rightarrow> JournalTransaction" where
  "bil_journal j number date st pur descr tot n = \<lparr>j_ID = j, j_OrganizationID = 7, j_TransactionNumber = number, j_PeriodID = 5, j_PostingDate = date, j_Status = ''POSTED'',
     j_Currency = ''INR'', j_SourceType = st, j_SourceID = Some 1, j_Purpose = pur, j_Description = descr, j_Reason = None, j_ReversesID = None, j_ReversedByID = None,
     j_TotalMinor = tot, j_EntryCount = n\<rparr>"

definition bil_entry :: "int \<Rightarrow> int \<Rightarrow> int \<Rightarrow> int \<Rightarrow> int \<Rightarrow> string \<Rightarrow> JournalEntry" where
  "bil_entry j a n d c memo = \<lparr>e_OrganizationID = 7, e_TransactionID = j, e_AccountID = a, e_LineNo = n, e_DebitMinor = d, e_CreditMinor = c, e_Currency = ''INR'',
     e_FranchiseID = None, e_OperatingUnitID = None, e_CustomerID = Some 3, e_ShipmentID = None, e_Memo = Some memo\<rparr>"

definition bil_books_2 :: LedgerDB where
  "bil_books_2 = bil_chart\<lparr>accounts := accounts bil_chart @ [\<lparr>ac_ID = 6, ac_OrganizationID = 7, ac_Code = ''1200.CUS.3'', ac_Name = ''1200 '' @ em_dash @ '' customer 3'',
       ac_AccountType = ''ASSET'', ac_NormalBalance = ''DEBIT'', ac_Currency = ''INR'', ac_PartyType = Some ''CUSTOMER'', ac_PartyID = Some 3, ac_ParentID = Some 1\<rparr>],
     next_account := 7, journals := [bil_journal 1 ''JV-202608-000001'' 20260808 ''INVOICE'' ''ISSUE'' ''Invoice INV/2026-27/000001'' 11800 3], next_journal := 2,
     entries := [bil_entry 1 6 1 11800 0 ''Invoice INV/2026-27/000001'', bil_entry 1 2 2 0 10000 ''Courier services billed'', bil_entry 1 3 3 0 1800 ''Output tax on INV/2026-27/000001''],
     op_sequences := [(7, ''JRN'', ''202608'') \<mapsto> (1, 999999)]\<rparr>"

definition bil_series :: "string \<Rightarrow> int \<Rightarrow> InvoiceSequence" where
  "bil_series pre n = \<lparr>iq_Prefix = pre, iq_CurrentValue = n, iq_MaxValue = 999999999, iq_Padding = 6\<rparr>"

definition bil_2 :: BillingDB where
  "bil_2 = bil_1\<lparr>invoices := [bil_invoice ''INV/2026-27/000001'' ''ISSUED'' 0 (Some 11)], bil_ledger := bil_books_2,
     invoice_sequences := [(7, ''DEFAULT'', ''INVOICE'', ''2026-27'') \<mapsto> bil_series ''INV'' 1]\<rparr>"

definition bil_books_3 :: LedgerDB where
  "bil_books_3 = bil_books_2\<lparr>journals := journals bil_books_2 @ [bil_journal 2 ''JV-202608-000002'' 20260810 ''PAYMENT'' ''INVOICE_PAYMENT:PAY/2026-27/000001''
       ''Payment PAY/2026-27/000001 for INV/2026-27/000001'' 5000 2], next_journal := 3,
     entries := entries bil_books_2 @ [bil_entry 2 4 1 5000 0 ''Received from customer'', bil_entry 2 6 2 0 5000 ''Settled against INV/2026-27/000001''],
     op_sequences := [(7, ''JRN'', ''202608'') \<mapsto> (2, 999999)]\<rparr>"

definition bil_receipt :: InvoicePayment where
  "bil_receipt = \<lparr>ip_OrganizationID = 7, ip_InvoiceID = 1, ip_CustomerID = 3, ip_PaymentNumber = ''PAY/2026-27/000001'', ip_AmountMinor = 5000, ip_Currency = ''INR'',
     ip_PaymentMode = ''UPI'', ip_Reference = Some ''utr-1'', ip_ReceivedOn = 20260810, ip_Status = ''RECORDED'', ip_JournalTransactionID = Some 2, ip_RecordedBy = 11\<rparr>"

definition bil_3 :: BillingDB where
  "bil_3 = bil_2\<lparr>invoices := [bil_invoice ''INV/2026-27/000001'' ''PARTIALLY_PAID'' 5000 (Some 11)], bil_ledger := bil_books_3, invoice_payments := [bil_receipt],
     invoice_sequences := [(7, ''DEFAULT'', ''INVOICE'', ''2026-27'') \<mapsto> bil_series ''INV'' 1, (7, ''PAY'', ''INVOICE'', ''2026-27'') \<mapsto> bil_series ''PAY'' 1]\<rparr>"

lemma bil_numbers: "financialYear 20260808 = ''2026-27''" "financialYear 20260810 = ''2026-27''" "financialYear 20260811 = ''2026-27''"
  "format_200601 20260808 = ''202608''" "format_200601 20260810 = ''202608''" "format_200601 20260811 = ''202608''"
  "format_0d 6 1 = ''000001''" "format_0d 6 2 = ''000002''" "format_0d 6 3 = ''000003''" "FormatInt 3 = ''3''" "FormatInt 500 = ''500''"
  by (simp_all add: financialYear_def Let_def FormatInt_def format_200601_def format_0d_def pad_dec_def dec.simps replicate_num signed_modulo_int_def signed_divide_int_def)

lemma bil_days: "next_day 20260807 = 20260808" "(next_day ^^ 30) 20260808 = 20260907"
  by (simp_all add: next_day_def days_in_month_def ymd_def eval_nat_numeral)

lemma bil_tax: "ApplyBP 10000 1800 = Inr 1800"
  by code_simp

lemma bil_principal: "UserID demo_principal = 11" "OrganizationID demo_principal = 7" "OrganizationCurrency demo_principal = ''INR''"
  by (simp_all add: demo_principal_def)

lemma bil_shipment: "gross bil_parcel = 10500" "net_charge bil_parcel = 10000" "bl_ID bil_parcel = 40" "bl_Awb bil_parcel = ''QYN1''" "bl_OriginPincode bil_parcel = ''700001''"
  "bl_DestinationPincode bil_parcel = ''110001''" "bl_ChargeableWeightGrams bil_parcel = 500" "bl_ChargeSnapshotID bil_parcel = 90" "bl_FreightMinor bil_parcel = 10000"
  "bl_DiscountTotalMinor bil_parcel = 500"
  by (simp_all add: net_charge_def gross_def bil_parcel_def add64_def sub64_def width_defs)

lemma bil_invoice_row: "iv_ID (bil_invoice n st a u) = 1" "iv_PublicID (bil_invoice n st a u) = ''inv_1''" "iv_OrganizationID (bil_invoice n st a u) = 7"
  "iv_InvoiceNumber (bil_invoice n st a u) = n" "iv_SeriesCode (bil_invoice n st a u) = ''DEFAULT''" "iv_CustomerID (bil_invoice n st a u) = 3" "iv_Status (bil_invoice n st a u) = st"
  "iv_IssueDate (bil_invoice n st a u) = 20260808" "iv_DueDate (bil_invoice n st a u) = 20260907" "iv_TotalMinor (bil_invoice n st a u) = 11800" "iv_PaidMinor (bil_invoice n st a u) = a"
  "iv_CreditedMinor (bil_invoice n st a u) = 0" "iv_RoundingMinor (bil_invoice n st a u) = 0" "iv_Currency (bil_invoice n st a u) = ''INR''"
  by (simp_all add: bil_invoice_def)

lemma bil_drafted: "\<exists>r. Draft_invoice bil_customer (\<lambda>_. None) ''inv_1'' ''abc'' 20260808 demo_principal bil_request bil_0 = Inr (r, bil_1)"
proof -
  have b: "ListBillableShipments bil_0 7 3 20260801 20260808 10000 = [bil_parcel]"
    by (simp add: ListBillableShipments_def bil_0_def bil_parcel_def)
  show ?thesis
    by (simp add: Draft_invoice_def bil_request_def bil_customer_def bil_principal b bil_numbers bil_days Let_def CreateInvoice_def Optional_def)
      (simp add: bil_0_def buildLines_def draft_invoice_lines_def shipment_line_def bil_shipment Let_def CreateInvoiceLine_def tax_step_def bil_tax CreateTaxComponent_def tax_line_def
        AddInvoiceShipment_def invoice_shipment_def ApplyInvoiceTotals_def update_invoice_def commit_invoice_def assert_invoice_totals_def bil_1_def bil_invoice_def bil_lines_def
        width_defs add64_def sub64_def bil_numbers)
qed

lemma bil_issued: "\<exists>r. Issue 20260808 demo_principal ''inv_1'' bil_1 = Inr (r, bil_2)"
proof -
  have s: "invoices bil_1 = [bil_invoice ''DRAFT-abc'' ''DRAFT'' 0 None]" "bil_ledger bil_1 = bil_chart" "invoice_sequences bil_1 = Map.empty" "invoice_lines bil_1 = bil_lines"
    by (simp_all add: bil_1_def bil_0_def)
  have a: "allocateInvoiceNumber 7 ''DEFAULT'' ''INVOICE'' 20260808 bil_1 = Inr (''INV/2026-27/000001'', bil_1\<lparr>invoice_sequences := [(7, ''DEFAULT'', ''INVOICE'', ''2026-27'') \<mapsto> bil_series ''INV'' 1]\<rparr>)"
    by (simp add: allocateInvoiceNumber_def s Let_def AllocateInvoiceNumber_def bil_numbers document_prefix_def bil_series_def)
  have q: "Post demo_principal 20260808 (issue_posting (bil_invoice ''DRAFT-abc'' ''DRAFT'' 0 None) ''INV/2026-27/000001'') bil_chart
      = Inr (\<lparr>rs_Transaction = bil_journal 1 ''JV-202608-000001'' 20260808 ''INVOICE'' ''ISSUE'' ''Invoice INV/2026-27/000001'' 11800 3, rs_Entries = entries bil_books_2, rs_Replayed = False\<rparr>, bil_books_2)"
    by (simp add: post_eval bil_numbers issue_posting_def customer_leg_def bil_invoice_def bil_chart_def bil_books_2_def bil_journal_def bil_entry_def demo_principal_def demo_ledger_def demo_account_def)
  have u: "(bil_invoice ''DRAFT-abc'' ''DRAFT'' 0 None)\<lparr>iv_Status := ''ISSUED'', iv_InvoiceNumber := ''INV/2026-27/000001'', iv_IssuedBy := Some 11, iv_JournalTransactionID := Some 1\<rparr>
      = bil_invoice ''INV/2026-27/000001'' ''ISSUED'' 0 (Some 11)" by (simp add: bil_invoice_def)
  show ?thesis
    by (simp add: Issue_def GetInvoiceByPublicID_def LockInvoice_def s bil_invoice_row bil_principal a post_billing_def q number_taken_def IssueInvoice_def
        update_invoice_def commit_invoice_def assert_invoice_totals_def bil_journal_def u bil_2_def bil_lines_def)
qed

lemma bil_paid: "\<exists>r. RecordPayment 20260810 demo_principal bil_payment bil_2 = Inr (r, bil_3)"
proof -
  let ?i = "bil_invoice ''INV/2026-27/000001'' ''ISSUED'' 0 (Some 11)"
  have s: "invoices bil_2 = [?i]" "bil_ledger bil_2 = bil_books_2" "invoice_sequences bil_2 = [(7, ''DEFAULT'', ''INVOICE'', ''2026-27'') \<mapsto> bil_series ''INV'' 1]"
    "invoice_payments bil_2 = []" "invoice_lines bil_2 = bil_lines"
    by (simp_all add: bil_2_def bil_1_def bil_0_def)
  have a: "allocateInvoiceNumber 7 ''PAY'' ''INVOICE'' 20260810 bil_2 = Inr (''PAY/2026-27/000001'', bil_2\<lparr>invoice_sequences := invoice_sequences bil_3\<rparr>)"
    by (simp add: allocateInvoiceNumber_def s Let_def AllocateInvoiceNumber_def bil_numbers document_prefix_def bil_series_def bil_3_def)
  have q: "Post demo_principal 20260810 (invoice_payment_posting ?i 5000 ''PAY/2026-27/000001'' 20260810) bil_books_2
      = Inr (\<lparr>rs_Transaction = bil_journal 2 ''JV-202608-000002'' 20260810 ''PAYMENT'' ''INVOICE_PAYMENT:PAY/2026-27/000001'' ''Payment PAY/2026-27/000001 for INV/2026-27/000001'' 5000 2,
          rs_Entries = drop 3 (entries bil_books_3), rs_Replayed = False\<rparr>, bil_books_3)"
    by (simp add: post_eval bil_numbers invoice_payment_posting_def customer_leg_def bil_invoice_def bil_chart_def bil_books_2_def bil_books_3_def bil_journal_def bil_entry_def
        demo_principal_def demo_ledger_def demo_account_def)
  have u: "paid_by 5000 ?i = bil_invoice ''INV/2026-27/000001'' ''PARTIALLY_PAID'' 5000 (Some 11)" by (simp add: bil_invoice_def paid_by_def)
  show ?thesis
    by (simp add: RecordPayment_def GetInvoiceByPublicID_def LockInvoice_def FindPaymentByReference_def s bil_invoice_row bil_principal bil_payment_def invoice_outstanding_def sub64_def Let_def width_defs
        a post_billing_def q CreateInvoicePayment_def RecordInvoicePayment_def settle_invoice_def open_states_def settled_ok_def update_invoice_def u
        commit_invoice_def assert_invoice_totals_def bil_journal_def bil_lines_def Optional_def)
      (simp add: bil_3_def bil_receipt_def)
qed

definition bil_debit :: "string \<Rightarrow> string \<Rightarrow> int option \<Rightarrow> int option \<Rightarrow> CreditNote" where
  "bil_debit number st user journal = \<lparr>cn_ID = 1, cn_PublicID = ''crn_1'', cn_OrganizationID = 7, cn_NoteNumber = number, cn_NoteType = ''DEBIT'', cn_InvoiceID = Some 1, cn_CustomerID = 3,
     cn_ReasonCode = ''RATE_CORRECTION'', cn_Reason = ''reweighed'', cn_IssueDate = 20260811, cn_Currency = ''INR'', cn_SubtotalMinor = 1000, cn_TaxMinor = 0, cn_TotalMinor = 1000,
     cn_Status = st, cn_JournalTransactionID = journal, cn_IssuedBy = user, cn_ApprovedBy = user, cn_CreatedBy = Some 12\<rparr>"

definition bil_4 :: BillingDB where
  "bil_4 = bil_3\<lparr>credit_notes := [bil_debit ''DRAFT-def'' ''DRAFT'' None None], next_credit_note := 2\<rparr>"

definition bil_books_5 :: LedgerDB where
  "bil_books_5 = bil_books_3\<lparr>journals := journals bil_books_3 @ [bil_journal 3 ''JV-202608-000003'' 20260811 ''CREDIT_NOTE'' ''DEBIT'' ''DEBIT note DBN/2026-27/000001'' 1000 2],
     next_journal := 4, entries := entries bil_books_3 @ [bil_entry 3 6 1 1000 0 ''Debit note DBN/2026-27/000001'', bil_entry 3 5 2 0 1000 ''Additional charge DBN/2026-27/000001''],
     op_sequences := [(7, ''JRN'', ''202608'') \<mapsto> (3, 999999)]\<rparr>"

definition bil_5 :: BillingDB where
  "bil_5 = bil_4\<lparr>credit_notes := [bil_debit ''DBN/2026-27/000001'' ''ISSUED'' (Some 11) (Some 3)], bil_ledger := bil_books_5,
     invoice_sequences := (invoice_sequences bil_3)((7, ''DEFAULT'', ''DEBIT_NOTE'', ''2026-27'') \<mapsto> bil_series ''DBN'' 1)\<rparr>"

lemma bil_raised: "\<exists>r. RaiseCreditNote ''crn_1'' ''def'' 20260811 bil_colleague bil_note bil_3 = Inr (r, bil_4)"
proof -
  have s: "invoices bil_3 = [bil_invoice ''INV/2026-27/000001'' ''PARTIALLY_PAID'' 5000 (Some 11)]" "credit_notes bil_3 = []" "next_credit_note bil_3 = 1"
    by (simp_all add: bil_3_def bil_2_def bil_1_def bil_0_def)
  have q: "UserID bil_colleague = 12" "OrganizationID bil_colleague = 7" by (simp_all add: bil_colleague_def demo_principal_def)
  have r: "rune_count ''reweighed'' = 9" "btrim ''reweighed'' = ''reweighed''" by code_simp+
  show ?thesis
    by (simp add: RaiseCreditNote_def GetInvoiceByPublicID_def s bil_invoice_row q bil_note_def r CreateCreditNote_def Let_def reason_codes_def add64_def width_defs bil_4_def bil_debit_def)
qed

lemma bil_noted: "\<exists>r. IssueCreditNote 20260811 demo_principal ''crn_1'' bil_4 = Inr (r, bil_5)"
proof -
  let ?n = "bil_debit ''DRAFT-def'' ''DRAFT'' None None"
  have s: "credit_notes bil_4 = [?n]" "bil_ledger bil_4 = bil_books_3" "invoice_sequences bil_4 = invoice_sequences bil_3"
    by (simp_all add: bil_4_def bil_3_def)
  have n: "cn_ID ?n = 1" "cn_PublicID ?n = ''crn_1''" "cn_OrganizationID ?n = 7" "cn_NoteType ?n = ''DEBIT''" "cn_InvoiceID ?n = Some 1" "cn_Status ?n = ''DRAFT''"
    "cn_IssueDate ?n = 20260811" "cn_CreatedBy ?n = Some 12" by (simp_all add: bil_debit_def)
  have a: "allocateInvoiceNumber 7 ''DEFAULT'' ''DEBIT_NOTE'' 20260811 bil_4 = Inr (''DBN/2026-27/000001'', bil_4\<lparr>invoice_sequences := invoice_sequences bil_5\<rparr>)"
    by (simp add: allocateInvoiceNumber_def s Let_def AllocateInvoiceNumber_def bil_numbers document_prefix_def bil_series_def bil_3_def bil_5_def)
  have q: "Post demo_principal 20260811 (note_posting ?n ''DBN/2026-27/000001'') bil_books_3
      = Inr (\<lparr>rs_Transaction = bil_journal 3 ''JV-202608-000003'' 20260811 ''CREDIT_NOTE'' ''DEBIT'' ''DEBIT note DBN/2026-27/000001'' 1000 2,
          rs_Entries = drop 5 (entries bil_books_5), rs_Replayed = False\<rparr>, bil_books_5)"
    by (simp add: post_eval bil_numbers note_posting_def customer_leg_def bil_debit_def bil_chart_def bil_books_2_def bil_books_3_def bil_books_5_def bil_journal_def bil_entry_def
        demo_principal_def demo_ledger_def demo_account_def)
  have u: "?n\<lparr>cn_Status := ''ISSUED'', cn_NoteNumber := ''DBN/2026-27/000001'', cn_IssuedBy := Some 11, cn_ApprovedBy := Some 11, cn_JournalTransactionID := Some 3\<rparr>
      = bil_debit ''DBN/2026-27/000001'' ''ISSUED'' (Some 11) (Some 3)" by (simp add: bil_debit_def)
  show ?thesis
    by (simp add: IssueCreditNote_def GetCreditNoteByPublicID_def s n bil_principal a post_billing_def q note_number_taken_def IssueCreditNote_row_def update_note_def bil_journal_def u bil_5_def)
qed

lemma bil_start: "billing_start bil_0"
proof -
  have "books_sound bil_chart"
    by (simp add: books_sound_def ledger_struct_def accounts_ok_def journals_ok_def entries_ok_def chart_ok_def bil_chart_def demo_ledger_def demo_account_def party_codes_def plain_codes_def)
  then show ?thesis by (simp add: billing_start_def bil_0_def) (simp add: bil_chart_def demo_ledger_def)
qed

lemma bil_run: "billing_call\<^sup>*\<^sup>* bil_0 bil_3" "billing_call\<^sup>*\<^sup>* bil_0 bil_5"
proof -
  have "billing_call bil_0 bil_1" "billing_call bil_1 bil_2" "billing_call bil_2 bil_3" "billing_call bil_3 bil_4" "billing_call bil_4 bil_5"
    using bil_drafted bil_issued bil_paid bil_raised bil_noted by (blast intro: billing_call.intros)+
  then show "billing_call\<^sup>*\<^sup>* bil_0 bil_3" "billing_call\<^sup>*\<^sup>* bil_0 bil_5" by (meson rtranclp.rtrancl_into_rtrancl rtranclp.rtrancl_refl)+
qed

lemma bil_balance: "PartyBalance (bil_ledger bil_5) demo_principal ''CUSTOMER'' 3 None = Inr 7800"
  by (simp add: PartyBalance_def party_total_def signed_balance_def account_entries_def counted_def party_account_def bil_5_def bil_books_5_def bil_books_3_def bil_books_2_def bil_chart_def
      bil_journal_def bil_entry_def demo_principal_def demo_ledger_def demo_account_def width_defs)

lemma bil_tables: "invoices bil_5 = [bil_invoice ''INV/2026-27/000001'' ''PARTIALLY_PAID'' 5000 (Some 11)]" "invoice_payments bil_5 = [bil_receipt]"
  "credit_notes bil_5 = [bil_debit ''DBN/2026-27/000001'' ''ISSUED'' (Some 11) (Some 3)]"
  by (simp_all add: bil_5_def bil_4_def bil_3_def)

theorem customer_account_witness:
  "7800 = invoiced bil_5 7 3 - received bil_5 7 3 + noted_sum bil_5 7 3 \<and> invoiced bil_5 7 3 = 11800 \<and> received bil_5 7 3 = 5000 \<and> noted_sum bil_5 7 3 = 1000"
  using customer_account [OF bil_run(2) bil_start bil_balance]
  by (simp add: bil_principal invoiced_def received_def noted_sum_def bil_tables invoice_value_def issued_value_def note_value_def bil_invoice_row bil_receipt_def bil_debit_def)

theorem outstanding_drift_witness:
  "\<exists>out. CustomerOutstanding bil_customer 20260811 demo_principal ''cus_1'' bil_5 = Inr out \<and> ou_OutstandingMinor out = 6800 \<and> noted_sum bil_5 7 3 = 1000
     \<and> credits_taken bil_5 7 3 = 0 \<and> over_settled bil_5 7 3 = 0"
proof -
  have c: "bil_customer (OrganizationID demo_principal) ''cus_1'' = Some 3" by (simp add: bil_customer_def)
  have "\<exists>out. CustomerOutstanding bil_customer 20260811 demo_principal ''cus_1'' bil_5 = Inr out"
    by (simp add: CustomerOutstanding_def bil_customer_def GetCustomerOutstanding_def Let_def bil_tables bil_invoice_row bil_principal open_states_def width_defs)
  then obtain out where o: "CustomerOutstanding bil_customer 20260811 demo_principal ''cus_1'' bil_5 = Inr out" by blast
  have n: "noted_sum bil_5 7 3 = 1000" "credits_taken bil_5 7 3 = 0" "over_settled bil_5 7 3 = 0"
    by (simp_all add: noted_sum_def credits_taken_def over_settled_def bil_tables issued_value_def note_value_def bil_debit_def bil_invoice_row)
  show ?thesis using outstanding_drift [OF bil_run(2) bil_start c o bil_balance] o n by (simp add: bil_principal)
qed


end
