(* ===== verification/Invoicing.thy ===== *)
theory Invoicing
  imports Receivables "HOL-Library.Multiset"
begin

text \<open>
  Two promises of \<^verbatim>\<open>internal/billing/billing.go\<close> about the documents themselves, over any sequence of its calls: an issued invoice
  reconciles with its lines, its shipments and its taxes, and the numbers of a financial year are consecutive.
\<close>

subsection \<open>What an issued invoice adds up to\<close>

definition key_sum :: "('a \<Rightarrow> int) \<Rightarrow> ('a \<Rightarrow> int) \<Rightarrow> int \<Rightarrow> 'a list \<Rightarrow> int" where
  "key_sum key val k xs = sum_list (map val (filter (\<lambda>x. key x = k) xs))"

lemma key_sum_append [simp]: "key_sum key val k (xs @ ys) = key_sum key val k xs + key_sum key val k ys"
  by (simp add: key_sum_def)

lemma key_sum_all: "\<forall>x\<in>set xs. key x = k \<Longrightarrow> key_sum key val k xs = sum_list (map val xs)"
  by (simp add: key_sum_def)

lemma key_sum_none: "\<forall>x\<in>set xs. key x \<noteq> k \<Longrightarrow> key_sum key val k xs = 0"
  by (simp add: key_sum_def)

definition lines_total :: "BillingDB \<Rightarrow> int \<Rightarrow> int" where
  "lines_total db iid = key_sum il_InvoiceID il_TotalMinor iid (invoice_lines db)"

definition charges_total :: "BillingDB \<Rightarrow> int \<Rightarrow> int" where
  "charges_total db iid = key_sum ih_InvoiceID ih_AmountMinor iid (invoice_shipments db) + key_sum tc_InvoiceID tc_TaxMinor iid (tax_components db)"

definition bill_ok :: "BillingDB \<Rightarrow> Invoice \<Rightarrow> bool" where
  "bill_ok db i \<longleftrightarrow> iv_RoundingMinor i = 0 \<and> iv_TotalMinor i = wrap64 (charges_total db (iv_ID i)) \<and> (iv_Status i = ''DRAFT'' \<or> lines_total db (iv_ID i) = iv_TotalMinor i)"

definition bill_inv :: "BillingDB \<Rightarrow> bool" where
  "bill_inv db \<longleftrightarrow> (\<forall>i\<in>set (invoices db). bill_ok db i) \<and> (\<forall>l\<in>set (invoice_lines db). il_InvoiceID l < next_invoice db)
     \<and> (\<forall>h\<in>set (invoice_shipments db). ih_InvoiceID h < next_invoice db) \<and> (\<forall>c\<in>set (tax_components db). tc_InvoiceID c < next_invoice db)"

lemma bill_frame:
  assumes "bill_inv db" "invoice_lines db' = invoice_lines db" "invoice_shipments db' = invoice_shipments db" "tax_components db' = tax_components db" "next_invoice db' = next_invoice db"
    and "\<forall>i\<in>set (invoices db'). i \<in> set (invoices db) \<or> bill_ok db i"
  shows "bill_inv db'"
proof -
  have "bill_ok db' = bill_ok db" by (simp add: fun_eq_iff bill_ok_def charges_total_def lines_total_def assms(2-4))
  then show ?thesis using assms by (auto simp: bill_inv_def)
qed

lemma drafted_bill:
  assumes "account_inv db" "bill_inv db" "Draft_invoice customerOf accountOf newID placeholder now p inp db = Inr (r, db')"
  shows "bill_inv db'"
proof -
  have ids: "\<forall>u\<in>set (invoices db). iv_ID u < next_invoice db" and d: "distinct (map shipment_key (invoice_shipments db))"
    using assms(1) by (auto simp: account_inv_def invoice_ids_def)
  obtain i ls tcs hs where db': "db' = db\<lparr>invoices := invoices db @ [i], next_invoice := next_invoice db + 1, invoice_lines := invoice_lines db @ ls,
       tax_components := tax_components db @ tcs, invoice_shipments := invoice_shipments db @ hs\<rparr>"
    and i: "iv_ID i = next_invoice db" "iv_Status i = ''DRAFT''" "iv_RoundingMinor i = 0"
      "iv_TotalMinor i = wrap64 (sum_list (map ih_AmountMinor hs) + sum_list (map tc_TaxMinor tcs))"
    and of: "\<forall>l\<in>set ls. il_InvoiceID l = iv_ID i" "\<forall>c\<in>set tcs. tc_InvoiceID c = iv_ID i" "\<forall>h\<in>set hs. ih_InvoiceID h = iv_ID i \<and> ih_OrganizationID h = OrganizationID p"
    by (rule Draft_Inr [OF assms(3) ids d]) blast
  have b: "\<forall>l\<in>set (invoice_lines db). il_InvoiceID l < next_invoice db" "\<forall>h\<in>set (invoice_shipments db). ih_InvoiceID h < next_invoice db"
    "\<forall>c\<in>set (tax_components db). tc_InvoiceID c < next_invoice db" using assms(2) by (simp_all add: bill_inv_def)
  have old: "charges_total db' k = charges_total db k \<and> lines_total db' k = lines_total db k" if "k \<noteq> iv_ID i" for k
    using of that by (simp add: charges_total_def lines_total_def db' key_sum_none)
  have "charges_total db' (iv_ID i) = sum_list (map ih_AmountMinor hs) + sum_list (map tc_TaxMinor tcs)"
    using of b by (simp add: charges_total_def db' key_sum_all key_sum_none i(1) less_imp_neq)
  then have "bill_ok db' i" by (simp add: bill_ok_def i)
  moreover have "bill_ok db' u" if "u \<in> set (invoices db)" for u
  proof -
    have "iv_ID u \<noteq> iv_ID i" using ids that i(1) by force
    moreover have "bill_ok db u" using assms(2) that by (simp add: bill_inv_def)
    ultimately show ?thesis using old [of "iv_ID u"] by (auto simp: bill_ok_def)
  qed
  ultimately show ?thesis using b of by (auto simp: bill_inv_def db' i(1) less_imp_le intro: order.strict_trans)
qed

lemma bill_ok_move:
  "bill_ok db i \<Longrightarrow> iv_ID r = iv_ID i \<Longrightarrow> iv_TotalMinor r = iv_TotalMinor i \<Longrightarrow> iv_RoundingMinor r = iv_RoundingMinor i \<Longrightarrow>
   iv_Status i \<noteq> ''DRAFT'' \<or> lines_total db (iv_ID i) = iv_TotalMinor i \<Longrightarrow> bill_ok db r"
  by (auto simp: bill_ok_def)

lemma issued_bill:
  assumes "account_inv db" "bill_inv db" "Issue now p publicID db = Inr (r, db')"
  shows "bill_inv db'"
proof -
  have ids: "invoice_ids db" using assms(1) by (simp add: account_inv_def)
  obtain i number t l and res :: PostResult where
    i: "i \<in> set (invoices db)"
    and r: "r = i\<lparr>iv_Status := ''ISSUED'', iv_InvoiceNumber := number, iv_IssuedBy := Some (UserID p), iv_JournalTransactionID := Some (j_ID (rs_Transaction res))\<rparr>"
    and db': "db' = db\<lparr>invoice_sequences := t, bil_ledger := l, invoices := map (\<lambda>u. if iv_ID u = iv_ID i then r else u) (invoices db)\<rparr>"
    and a: "assert_invoice_totals db' (iv_ID i)"
    by (rule Issue_Inr [OF assms(3) ids]) blast
  have ok: "bill_ok db i" using assms(2) i by (simp add: bill_inv_def)
  have "find (\<lambda>u. iv_ID u = iv_ID i) (invoices db') \<noteq> None" using i by (auto simp: db' find_None_iff r)
  then obtain x where x: "find (\<lambda>u. iv_ID u = iv_ID i) (invoices db') = Some x" by blast
  then have "x = r" by (auto simp: db' r dest!: find_SomeD split: if_splits)
  then have "lines_total db (iv_ID i) = iv_TotalMinor i" using a x ok by (simp add: assert_invoice_totals_def bill_ok_def lines_total_def key_sum_def r) (simp add: db')
  then have "bill_ok db r" using ok by (intro bill_ok_move [OF ok]) (simp_all add: r)
  then show ?thesis by (intro bill_frame [OF assms(2)]) (auto simp: db')
qed

lemma paid_bill:
  assumes "account_inv db" "bill_inv db" "RecordPayment now p inp db = Inr (yr, db')"
  shows "bill_inv db'"
proof -
  have ids: "invoice_ids db" using assms(1) by (simp add: account_inv_def)
  obtain y r where yr: "yr = (y, r)" by (cases yr)
  show ?thesis
  proof (rule RecordPayment_cases [OF assms(3) [unfolded yr] ids])
    fix i number t res l
    assume i: "i \<in> set (invoices db)" "iv_Status i \<in> set open_states" and r: "r = paid_by (vp_AmountMinor inp) i"
      and db': "db' = db\<lparr>invoice_sequences := t, bil_ledger := l, invoice_payments := invoice_payments db @ [y], invoices := map (\<lambda>u. if iv_ID u = iv_ID i then r else u) (invoices db)\<rparr>"
    have "bill_ok db i" using assms(2) i by (simp add: bill_inv_def)
    then have "bill_ok db r" by (rule bill_ok_move) (use i(2) in \<open>auto simp: r paid_by_def open_states_def\<close>)
    then show ?thesis by (intro bill_frame [OF assms(2)]) (auto simp: db')
  qed (use assms(2) in simp)
qed

lemma noted_bill:
  assumes "account_inv db" "bill_inv db" "IssueCreditNote now p publicID db = Inr (r, db')"
  shows "bill_inv db'"
proof -
  have ids: "invoice_ids db" using assms(1) by (simp add: account_inv_def)
  obtain n number t res l ivs where
    db': "db' = db\<lparr>invoice_sequences := t, bil_ledger := l, credit_notes := map (\<lambda>u. if cn_ID u = cn_ID n then r else u) (credit_notes db), invoices := ivs\<rparr>"
    and ivs: "ivs = invoices db \<or> credit_taken db n ivs"
    by (rule IssueCreditNote_Inr [OF assms(3) ids])
  have "i \<in> set (invoices db) \<or> bill_ok db i" if "i \<in> set ivs" for i
  proof (cases "ivs = invoices db")
    case False
    then obtain x where x: "x \<in> set (invoices db)" "iv_Status x \<in> set open_states"
      "ivs = map (\<lambda>u. if iv_ID u = iv_ID x then credited_by (cn_TotalMinor n) x else u) (invoices db)" using ivs by (auto simp: credit_taken_def)
    have "bill_ok db x" using assms(2) x by (simp add: bill_inv_def)
    then have "bill_ok db (credited_by (cn_TotalMinor n) x)" by (rule bill_ok_move) (use x(2) in \<open>auto simp: credited_by_def open_states_def\<close>)
    then show ?thesis using that by (auto simp: x(3))
  qed (use that in simp)
  then show ?thesis by (intro bill_frame [OF assms(2)]) (auto simp: db')
qed

lemma billing_call_bill: "billing_call db db' \<Longrightarrow> account_inv db \<Longrightarrow> bill_inv db \<Longrightarrow> bill_inv db'"
proof (induction rule: billing_call.induct)
  case (raised newID placeholder now p cin db cres db')
  then show ?case using RaiseCreditNote_Inr [OF raised(1)] by (intro bill_frame [OF raised(3)]) auto
next
  case (booked db b)
  then show ?case by (intro bill_frame [OF booked(2)]) auto
next
  case (posted p now q db r l)
  then show ?case by (intro bill_frame [OF posted(4)]) auto
qed (blast intro: drafted_bill issued_bill paid_bill noted_bill)+

lemma bill_reach: "billing_call\<^sup>*\<^sup>* db0 db \<Longrightarrow> billing_start db0 \<Longrightarrow> bill_inv db"
proof (induction rule: rtranclp_induct)
  case base
  then show ?case by (simp add: billing_start_def bill_inv_def)
next
  case (step y z)
  then show ?case using billing_call_bill billing_reach by blast
qed

text \<open>
  C8: An issued invoice reconciles three ways. Its lines add up to its total exactly, whether it was drafted line by line or as a summary; its total is the sum
  of the net charges of the shipments it bills and of its tax components, as 64-bit integers; and in every organisation a shipment is on one invoice only.
\<close>

theorem invoice_reconciles:
  assumes "billing_call\<^sup>*\<^sup>* db0 db" "billing_start db0" "i \<in> set (invoices db)" "iv_Status i \<noteq> ''DRAFT''"
  shows "sum_list (map il_TotalMinor (filter (\<lambda>l. il_InvoiceID l = iv_ID i) (invoice_lines db))) = iv_TotalMinor i
    \<and> iv_TotalMinor i = wrap64 (sum_list (map ih_AmountMinor (filter (\<lambda>h. ih_InvoiceID h = iv_ID i) (invoice_shipments db)))
        + sum_list (map tc_TaxMinor (filter (\<lambda>c. tc_InvoiceID c = iv_ID i) (tax_components db))))
    \<and> distinct (map (\<lambda>h. (ih_OrganizationID h, ih_ShipmentID h)) (invoice_shipments db))"
proof -
  have "bill_ok db i" using bill_reach [OF assms(1,2)] assms(3) by (simp add: bill_inv_def)
  moreover have "distinct (map shipment_key (invoice_shipments db))" using billing_reach [OF assms(1,2)] by (simp add: account_inv_def)
  moreover have "shipment_key = (\<lambda>h. (ih_OrganizationID h, ih_ShipmentID h))" by (simp add: fun_eq_iff shipment_key_def)
  ultimately show ?thesis using assms(4) by (simp add: bill_ok_def lines_total_def charges_total_def key_sum_def)
qed

subsection \<open>Invoice numbers\<close>

text \<open>The number with counter value \<open>k\<close> in a financial year, under the prefix and padding of the template row.\<close>

definition series_prefix :: "(series \<rightharpoonup> InvoiceSequence) \<Rightarrow> int \<Rightarrow> string" where
  "series_prefix t org = (case t (org, ''DEFAULT'', ''INVOICE'', []) of None \<Rightarrow> ''INV'' | Some r \<Rightarrow> if iq_Prefix r \<noteq> [] then iq_Prefix r else ''INV'')"

definition series_number :: "(series \<rightharpoonup> InvoiceSequence) \<Rightarrow> int \<Rightarrow> string \<Rightarrow> int \<Rightarrow> string" where
  "series_number t org scope k = series_prefix t org @ ''/'' @ scope @ ''/'' @
     format_0d (nat (case t (org, ''DEFAULT'', ''INVOICE'', []) of None \<Rightarrow> 6 | Some r \<Rightarrow> iq_Padding r)) k"

definition year_counter :: "BillingDB \<Rightarrow> int \<Rightarrow> string \<Rightarrow> int" where
  "year_counter db org scope = (case invoice_sequences db (org, ''DEFAULT'', ''INVOICE'', scope) of None \<Rightarrow> 0 | Some r \<Rightarrow> iq_CurrentValue r)"

definition issued_in :: "int \<Rightarrow> string \<Rightarrow> Invoice \<Rightarrow> bool" where
  "issued_in org scope i \<longleftrightarrow> iv_OrganizationID i = org \<and> financialYear (iv_IssueDate i) = scope \<and> iv_Status i \<noteq> ''DRAFT''"

definition numbers_inv :: "(series \<rightharpoonup> InvoiceSequence) \<Rightarrow> BillingDB \<Rightarrow> bool" where
  "numbers_inv t0 db \<longleftrightarrow> (\<forall>org code dt. invoice_sequences db (org, code, dt, []) = t0 (org, code, dt, [])) \<and> (\<forall>i\<in>set (invoices db). iv_SeriesCode i = ''DEFAULT'')
     \<and> (\<forall>org scope. scope \<noteq> [] \<longrightarrow> 0 \<le> year_counter db org scope
          \<and> (\<forall>r. invoice_sequences db (org, ''DEFAULT'', ''INVOICE'', scope) = Some r \<longrightarrow> iq_Prefix r = series_prefix t0 org)
          \<and> mset (map iv_InvoiceNumber (filter (issued_in org scope) (invoices db))) = mset (map (series_number t0 org scope) [1..year_counter db org scope]))"

lemma financialYear_nonempty [simp]: "financialYear d \<noteq> []"
  by (simp add: financialYear_def Let_def)

lemma series_prefix_nonempty: "series_prefix t org \<noteq> []"
  by (auto simp: series_prefix_def split: option.splits)

text \<open>An allocation on any other series leaves the counters of invoices alone.\<close>

lemma allocate_other:
  assumes "allocateInvoiceNumber org' code dt on db = Inr (number, db\<lparr>invoice_sequences := t\<rparr>)" "(code, dt) \<noteq> (''DEFAULT'', ''INVOICE'')"
  shows "t (org, ''DEFAULT'', ''INVOICE'', scope) = invoice_sequences db (org, ''DEFAULT'', ''INVOICE'', scope)" "t (org, c, d, []) = invoice_sequences db (org, c, d, [])"
proof -
  obtain row where "t = (invoice_sequences db)((org', code, dt, financialYear on) \<mapsto> row)"
    using assms(1) by (auto simp: allocateInvoiceNumber_def AllocateInvoiceNumber_def Let_def res_simps split: option.splits if_splits dest!: arg_cong [of _ _ invoice_sequences])
  then show "t (org, ''DEFAULT'', ''INVOICE'', scope) = invoice_sequences db (org, ''DEFAULT'', ''INVOICE'', scope)" "t (org, c, d, []) = invoice_sequences db (org, c, d, [])"
    using assms(2) financialYear_nonempty [of on, symmetric] by auto
qed

lemma allocate_invoice:
  assumes "allocateInvoiceNumber org ''DEFAULT'' ''INVOICE'' on db = Inr (number, db\<lparr>invoice_sequences := t\<rparr>)" "numbers_inv t0 db"
  shows "\<exists>row. t = (invoice_sequences db)((org, ''DEFAULT'', ''INVOICE'', financialYear on) \<mapsto> row) \<and> iq_Prefix row = series_prefix t0 org
    \<and> iq_CurrentValue row = year_counter db org (financialYear on) + 1 \<and> number = series_number t0 org (financialYear on) (iq_CurrentValue row)"
proof -
  let ?k = "(org, ''DEFAULT'', ''INVOICE'', financialYear on)" and ?tm = "(org, ''DEFAULT'', ''INVOICE'', [])"
  have tm: "invoice_sequences db ?tm = t0 ?tm" using assms(2) by (simp add: numbers_inv_def)
  have pr: "\<And>r. invoice_sequences db ?k = Some r \<Longrightarrow> iq_Prefix r = series_prefix t0 org"
    using assms(2) financialYear_nonempty [of on] unfolding numbers_inv_def by blast
  have sp: "(case t0 ?tm of None \<Rightarrow> document_prefix ''DEFAULT'' ''INVOICE'' | Some r \<Rightarrow> if iq_Prefix r \<noteq> [] then iq_Prefix r else document_prefix ''DEFAULT'' ''INVOICE'') = series_prefix t0 org"
    by (simp add: series_prefix_def document_prefix_def split: option.splits)
  obtain row where row: "AllocateInvoiceNumber ?k (series_prefix t0 org) (invoice_sequences db) = Some (row, t)"
    "number = (if iq_Prefix row \<noteq> [] then iq_Prefix row else series_prefix t0 org) @ ''/'' @ financialYear on @ ''/''
       @ format_0d (nat (case t0 ?tm of None \<Rightarrow> 6 | Some r \<Rightarrow> iq_Padding r)) (iq_CurrentValue row)"
    using assms(1) unfolding allocateInvoiceNumber_def Let_def tm sp by (auto simp: res_simps dest!: arg_cong [of _ _ invoice_sequences])
  have "t = (invoice_sequences db)(?k \<mapsto> row)" "iq_Prefix row = series_prefix t0 org" "iq_CurrentValue row = year_counter db org (financialYear on) + 1"
    using row(1) pr by (auto simp: AllocateInvoiceNumber_def Let_def year_counter_def split: option.splits if_splits)
  then show ?thesis using row(2) series_prefix_nonempty by (intro exI [of _ row]) (simp add: series_number_def)
qed

lemma map_filter_same: "(\<And>x. x \<in> set xs \<Longrightarrow> P (g x) = P x \<and> (P x \<longrightarrow> h (g x) = h x)) \<Longrightarrow> map h (filter P (map g xs)) = map h (filter P xs)"
  by (induction xs) auto

lemma mset_update_one:
  assumes "distinct (map k xs)" "x \<in> set xs" "\<not> P x" "P y"
  shows "mset (map h (filter P (map (\<lambda>u. if k u = k x then y else u) xs))) = add_mset (h y) (mset (map h (filter P xs)))"
  using assms(1,2)
proof (induction xs)
  case (Cons u xs)
  show ?case
  proof (cases "u = x")
    case True
    then have "map (\<lambda>u. if k u = k x then y else u) xs = xs" using Cons.prems(1) by (intro map_idI) (auto simp: image_iff)
    then show ?thesis using True assms(3,4) by simp
  next
    case False
    then have "x \<in> set xs" "k u \<noteq> k x" using Cons.prems by auto
    then show ?thesis using Cons by simp
  qed
qed simp

lemma numbers_frame:
  assumes "numbers_inv t0 db" "\<forall>i\<in>set (invoices db'). iv_SeriesCode i = ''DEFAULT''"
    and "\<And>org scope. map iv_InvoiceNumber (filter (issued_in org scope) (invoices db')) = map iv_InvoiceNumber (filter (issued_in org scope) (invoices db))"
    and "\<And>org scope. invoice_sequences db' (org, ''DEFAULT'', ''INVOICE'', scope) = invoice_sequences db (org, ''DEFAULT'', ''INVOICE'', scope)"
    and "\<And>org c d. invoice_sequences db' (org, c, d, []) = invoice_sequences db (org, c, d, [])"
  shows "numbers_inv t0 db'"
  using assms(1,2) unfolding numbers_inv_def year_counter_def assms(3-5) by blast

lemma update_numbers:
  assumes "invoice_ids db" "i \<in> set (invoices db)" "iv_InvoiceNumber r = iv_InvoiceNumber i" "\<And>org scope. issued_in org scope r = issued_in org scope i"
  shows "map iv_InvoiceNumber (filter (issued_in org scope) (map (\<lambda>u. if iv_ID u = iv_ID i then r else u) (invoices db))) = map iv_InvoiceNumber (filter (issued_in org scope) (invoices db))"
  by (rule map_filter_same) (use invoice_same [OF assms(1) _ assms(2)] assms(3,4) in auto)

lemma drafted_numbers:
  assumes "account_inv db" "numbers_inv t0 db" "Draft_invoice customerOf accountOf newID placeholder now p inp db = Inr (r, db')"
  shows "numbers_inv t0 db'"
proof -
  have ids: "\<forall>u\<in>set (invoices db). iv_ID u < next_invoice db" and d: "distinct (map shipment_key (invoice_shipments db))"
    using assms(1) by (auto simp: account_inv_def invoice_ids_def)
  obtain i ls tcs hs where db': "db' = db\<lparr>invoices := invoices db @ [i], next_invoice := next_invoice db + 1, invoice_lines := invoice_lines db @ ls,
       tax_components := tax_components db @ tcs, invoice_shipments := invoice_shipments db @ hs\<rparr>"
    and i: "iv_Status i = ''DRAFT''" "iv_SeriesCode i = ''DEFAULT''"
    by (rule Draft_Inr [OF assms(3) ids d]) blast
  have "\<forall>i\<in>set (invoices db). iv_SeriesCode i = ''DEFAULT''" using assms(2) by (simp add: numbers_inv_def)
  then show ?thesis by (intro numbers_frame [OF assms(2)]) (auto simp: db' i issued_in_def)
qed

lemma issued_numbers:
  assumes "account_inv db" "numbers_inv t0 db" "Issue now p publicID db = Inr (r, db')"
  shows "numbers_inv t0 db'"
proof -
  have ids: "invoice_ids db" using assms(1) by (simp add: account_inv_def)
  obtain i number t l and res :: PostResult where
    i: "i \<in> set (invoices db)" "iv_OrganizationID i = OrganizationID p" "iv_Status i = ''DRAFT''"
    and a: "allocateInvoiceNumber (OrganizationID p) (iv_SeriesCode i) ''INVOICE'' (iv_IssueDate i) db = Inr (number, db\<lparr>invoice_sequences := t\<rparr>)"
    and r: "r = i\<lparr>iv_Status := ''ISSUED'', iv_InvoiceNumber := number, iv_IssuedBy := Some (UserID p), iv_JournalTransactionID := Some (j_ID (rs_Transaction res))\<rparr>"
    and db': "db' = db\<lparr>invoice_sequences := t, bil_ledger := l, invoices := map (\<lambda>u. if iv_ID u = iv_ID i then r else u) (invoices db)\<rparr>"
    by (rule Issue_Inr [OF assms(3) ids]) blast
  let ?o = "OrganizationID p" and ?fy = "financialYear (iv_IssueDate i)"
  have ser: "\<forall>i\<in>set (invoices db). iv_SeriesCode i = ''DEFAULT''" using assms(2) by (simp add: numbers_inv_def)
  obtain row where row: "t = (invoice_sequences db)((?o, ''DEFAULT'', ''INVOICE'', ?fy) \<mapsto> row)" "iq_Prefix row = series_prefix t0 ?o"
    "iq_CurrentValue row = year_counter db ?o ?fy + 1" "number = series_number t0 ?o ?fy (iq_CurrentValue row)"
    using allocate_invoice [OF _ assms(2), of ?o "iv_IssueDate i" number t] a ser i(1) by auto
  have yc: "year_counter db' org scope = (if org = ?o \<and> scope = ?fy then year_counter db ?o ?fy + 1 else year_counter db org scope)" for org scope
    using row(3) by (simp add: year_counter_def db' row(1))
  have old: "0 \<le> year_counter db org scope" "mset (map iv_InvoiceNumber (filter (issued_in org scope) (invoices db))) = mset (map (series_number t0 org scope) [1..year_counter db org scope])"
    "\<And>r. invoice_sequences db (org, ''DEFAULT'', ''INVOICE'', scope) = Some r \<Longrightarrow> iq_Prefix r = series_prefix t0 org" if "scope \<noteq> []" for org scope
    using assms(2) that unfolding numbers_inv_def by blast+
  have inv: "invoices db' = map (\<lambda>u. if iv_ID u = iv_ID i then r else u) (invoices db)" by (simp add: db')
  have d: "distinct (map iv_ID (invoices db))" using ids by (simp add: invoice_ids_def)
  have nums: "mset (map iv_InvoiceNumber (filter (issued_in org scope) (invoices db'))) = mset (map (series_number t0 org scope) [1..year_counter db' org scope])"
    if s: "scope \<noteq> []" for org scope
  proof (cases "org = ?o \<and> scope = ?fy")
    case True
    have up: "[1..year_counter db ?o ?fy + 1] = [1..year_counter db ?o ?fy] @ [year_counter db ?o ?fy + 1]"
      using old(1) [of ?fy ?o] upto_rec2 [of 1 "year_counter db ?o ?fy + 1"] by simp
    have "\<not> issued_in org scope i" "issued_in org scope r" using i True by (simp_all add: issued_in_def r)
    from mset_update_one [where k = iv_ID and P = "issued_in org scope" and h = iv_InvoiceNumber, OF d i(1) this]
    have "mset (map iv_InvoiceNumber (filter (issued_in org scope) (invoices db'))) = add_mset (iv_InvoiceNumber r) (mset (map iv_InvoiceNumber (filter (issued_in org scope) (invoices db))))"
      unfolding inv .
    moreover have "year_counter db' org scope = year_counter db org scope + 1" using True yc by simp
    ultimately show ?thesis using old(2) [OF s, of org] row(3,4) True by (simp add: up r)
  next
    case False
    then have "\<not> issued_in org scope i" "\<not> issued_in org scope r" using i by (auto simp: issued_in_def r)
    then have "map iv_InvoiceNumber (filter (issued_in org scope) (invoices db')) = map iv_InvoiceNumber (filter (issued_in org scope) (invoices db))"
      unfolding inv by (intro map_filter_same) (use invoice_same [OF ids _ i(1)] in auto)
    moreover have "year_counter db' org scope = year_counter db org scope" using False yc [of org scope] by (simp only: if_False)
    ultimately show ?thesis using old(2) [OF s, of org] by (simp only:)
  qed
  show ?thesis unfolding numbers_inv_def
  proof (intro conjI allI impI)
    fix org code dt show "invoice_sequences db' (org, code, dt, []) = t0 (org, code, dt, [])"
      using assms(2) financialYear_nonempty [of "iv_IssueDate i", symmetric] by (auto simp: db' row(1) numbers_inv_def)
  next
    show "\<forall>i\<in>set (invoices db'). iv_SeriesCode i = ''DEFAULT''" using ser i(1) by (auto simp: inv r)
  next
    fix org :: int and scope :: string assume s: "scope \<noteq> []"
    show "0 \<le> year_counter db' org scope" using old(1) [OF s, of org] yc [of org scope] by auto
    fix u assume "invoice_sequences db' (org, ''DEFAULT'', ''INVOICE'', scope) = Some u"
    then show "iq_Prefix u = series_prefix t0 org" using old(3) [OF s, of org u] row(2) by (auto simp: db' row(1) split: if_splits)
  qed (rule nums)
qed

lemma paid_numbers:
  assumes "account_inv db" "numbers_inv t0 db" "RecordPayment now p inp db = Inr (yr, db')"
  shows "numbers_inv t0 db'"
proof -
  have ids: "invoice_ids db" using assms(1) by (simp add: account_inv_def)
  obtain y r where yr: "yr = (y, r)" by (cases yr)
  show ?thesis
  proof (rule RecordPayment_cases [OF assms(3) [unfolded yr] ids])
    fix i number t res l
    assume i: "i \<in> set (invoices db)" "iv_Status i \<in> set open_states" and r: "r = paid_by (vp_AmountMinor inp) i"
      and a: "allocateInvoiceNumber (OrganizationID p) ''PAY'' ''INVOICE'' (case vp_ReceivedOn inp of None \<Rightarrow> now | Some d \<Rightarrow> d) db = Inr (number, db\<lparr>invoice_sequences := t\<rparr>)"
      and db': "db' = db\<lparr>invoice_sequences := t, bil_ledger := l, invoice_payments := invoice_payments db @ [y], invoices := map (\<lambda>u. if iv_ID u = iv_ID i then r else u) (invoices db)\<rparr>"
    have r': "iv_InvoiceNumber r = iv_InvoiceNumber i" "\<And>org scope. issued_in org scope r = issued_in org scope i" "iv_SeriesCode r = iv_SeriesCode i"
      using i(2) by (auto simp: r paid_by_def issued_in_def open_states_def)
    have "\<forall>i\<in>set (invoices db). iv_SeriesCode i = ''DEFAULT''" using assms(2) by (simp add: numbers_inv_def)
    then show ?thesis using allocate_other [OF a] update_numbers [OF ids i(1) r'(1,2)] i(1) r'(3) by (intro numbers_frame [OF assms(2)]) (auto simp: db' simp del: map_map filter_map)
  qed (use assms(2) in simp)
qed

lemma noted_numbers:
  assumes "account_inv db" "numbers_inv t0 db" "IssueCreditNote now p publicID db = Inr (r, db')"
  shows "numbers_inv t0 db'"
proof -
  have ids: "invoice_ids db" using assms(1) by (simp add: account_inv_def)
  obtain n number t res l ivs where
    a: "allocateInvoiceNumber (OrganizationID p) ''DEFAULT'' (if cn_NoteType n = ''DEBIT'' then ''DEBIT_NOTE'' else ''CREDIT_NOTE'') (cn_IssueDate n) db
       = Inr (number, db\<lparr>invoice_sequences := t\<rparr>)"
    and db': "db' = db\<lparr>invoice_sequences := t, bil_ledger := l, credit_notes := map (\<lambda>u. if cn_ID u = cn_ID n then r else u) (credit_notes db), invoices := ivs\<rparr>"
    and ivs: "ivs = invoices db \<or> credit_taken db n ivs"
    by (rule IssueCreditNote_Inr [OF assms(3) ids])
  have ser: "\<forall>i\<in>set (invoices db). iv_SeriesCode i = ''DEFAULT''" using assms(2) by (simp add: numbers_inv_def)
  have "(\<forall>i\<in>set ivs. iv_SeriesCode i = ''DEFAULT'')
    \<and> (\<forall>org scope. map iv_InvoiceNumber (filter (issued_in org scope) ivs) = map iv_InvoiceNumber (filter (issued_in org scope) (invoices db)))"
  proof (cases "ivs = invoices db")
    case False
    then obtain x where x: "x \<in> set (invoices db)" "iv_Status x \<in> set open_states"
      "ivs = map (\<lambda>u. if iv_ID u = iv_ID x then credited_by (cn_TotalMinor n) x else u) (invoices db)" using ivs by (auto simp: credit_taken_def)
    let ?r = "credited_by (cn_TotalMinor n) x"
    have r': "iv_InvoiceNumber ?r = iv_InvoiceNumber x" "\<And>org scope. issued_in org scope ?r = issued_in org scope x" "iv_SeriesCode ?r = iv_SeriesCode x"
      using x(2) by (auto simp: credited_by_def issued_in_def open_states_def)
    show ?thesis using update_numbers [OF ids x(1) r'(1,2)] ser x(1) r'(3) by (auto simp: x(3) simp del: map_map filter_map)
  qed (use ser in simp)
  then show ?thesis using allocate_other [OF a] by (intro numbers_frame [OF assms(2)]) (auto simp: db')
qed

lemma billing_call_numbers: "billing_call db db' \<Longrightarrow> account_inv db \<Longrightarrow> numbers_inv t0 db \<Longrightarrow> numbers_inv t0 db'"
proof (induction rule: billing_call.induct)
  case (raised newID placeholder now p cin db cres db')
  then obtain r n where "db' = db\<lparr>credit_notes := r, next_credit_note := n\<rparr>" using RaiseCreditNote_Inr [OF raised(1)] by blast
  then show ?case using raised(3) by (simp add: numbers_inv_def year_counter_def)
next
  case (booked db b)
  then show ?case by (simp add: numbers_inv_def year_counter_def)
next
  case (posted p now q db r l)
  then show ?case by (simp add: numbers_inv_def year_counter_def)
qed (blast intro: drafted_numbers issued_numbers paid_numbers noted_numbers)+

lemma numbers_reach: "billing_call\<^sup>*\<^sup>* db0 db \<Longrightarrow> billing_start db0 \<Longrightarrow> numbers_inv (invoice_sequences db0) db"
proof (induction rule: rtranclp_induct)
  case base
  then show ?case by (simp add: billing_start_def numbers_inv_def year_counter_def)
next
  case (step y z)
  then show ?case using billing_call_numbers billing_reach by blast
qed

text \<open>
  C9: Invoice numbers have no gap and no repetition. In every organisation and financial year the issued invoices carry exactly the numbers
  1, 2, up to the value of the year's counter, rendered with the prefix and the padding of the series, each on one invoice.
\<close>

theorem invoice_numbers_gapless:
  assumes "billing_call\<^sup>*\<^sup>* db0 db" "billing_start db0" "scope \<noteq> []"
  shows "mset (map iv_InvoiceNumber (filter (\<lambda>i. iv_OrganizationID i = org \<and> financialYear (iv_IssueDate i) = scope \<and> iv_Status i \<noteq> ''DRAFT'') (invoices db)))
      = mset (map (series_number (invoice_sequences db0) org scope) [1..year_counter db org scope])
    \<and> distinct (map (series_number (invoice_sequences db0) org scope) [1..year_counter db org scope])"
proof
  have "issued_in org scope = (\<lambda>i. iv_OrganizationID i = org \<and> financialYear (iv_IssueDate i) = scope \<and> iv_Status i \<noteq> ''DRAFT'')"
    by (simp add: fun_eq_iff issued_in_def)
  then show "mset (map iv_InvoiceNumber (filter (\<lambda>i. iv_OrganizationID i = org \<and> financialYear (iv_IssueDate i) = scope \<and> iv_Status i \<noteq> ''DRAFT'') (invoices db)))
      = mset (map (series_number (invoice_sequences db0) org scope) [1..year_counter db org scope])"
    using numbers_reach [OF assms(1,2)] assms(3) unfolding numbers_inv_def by metis
  show "distinct (map (series_number (invoice_sequences db0) org scope) [1..year_counter db org scope])"
    by (auto simp: distinct_map inj_on_def series_number_def format_0d_def pad_dec_inject)
qed

theorem invoice_reconciles_witness:
  "sum_list (map il_TotalMinor (filter (\<lambda>l. il_InvoiceID l = 1) (invoice_lines bil_5))) = 11800
    \<and> sum_list (map ih_AmountMinor (filter (\<lambda>h. ih_InvoiceID h = 1) (invoice_shipments bil_5))) = 10000
    \<and> sum_list (map tc_TaxMinor (filter (\<lambda>c. tc_InvoiceID c = 1) (tax_components bil_5))) = 1800"
proof -
  have t: "invoice_shipments bil_5 = invoice_shipments bil_1" "tax_components bil_5 = tax_components bil_1" by (simp_all add: bil_5_def bil_4_def bil_3_def bil_2_def)
  show ?thesis
    using invoice_reconciles [OF bil_run(2) bil_start, of "bil_invoice ''INV/2026-27/000001'' ''PARTIALLY_PAID'' 5000 (Some 11)"]
    by (simp add: bil_tables bil_invoice_row t) (simp add: bil_1_def)
qed

theorem invoice_numbers_gapless_witness:
  "year_counter bil_5 7 ''2026-27'' = 1 \<and> [''INV/2026-27/000001''] = map (series_number (invoice_sequences bil_0) 7 ''2026-27'') [1]"
proof -
  have y: "year_counter bil_5 7 ''2026-27'' = 1" by (simp add: year_counter_def bil_5_def bil_3_def bil_series_def)
  show ?thesis
    using invoice_numbers_gapless [OF bil_run(2) bil_start, of "''2026-27''" 7] by (simp add: y bil_tables bil_invoice_row bil_numbers)
qed
end
