(* ===== verification/Spec2Isabelle.thy ===== *)
theory Spec2Isabelle
  imports Go_Prelude Lifecycle Money Shipment_State Commission_Calc Sequences Principal Ledger
    Shipment_Transition Pricing Transactions Idempotency Jobs Party_Balance COD Calendar Journal_Book Commission Settlement Statements Corrections
    Billing Receivables Invoicing
begin

text \<open>
  \<^bold>\<open>A verification library for the courier operations platform\<close> (\<^verbatim>\<open>internal/\<close> of the repository, Go over
  PostgreSQL). The platform books shipments, prices them, moves them through a lifecycle, takes cash
  at the door, pays commissions, settles with franchises and bills customers. A service of the program
  is a set of Go methods that open a database transaction, read rows, check, write rows and post
  journals to one double-entry ledger. The services meet in that ledger: cash on delivery, commission,
  settlement and billing post under sources of their own and read back balances of their parties.

  \<^bold>\<open>How code becomes definitions.\<close> A table is a list of records in insertion order with a counter for its
  identity column; a query is a filter, a find or a map over that list with the constraints and
  triggers of \<^verbatim>\<open>db/migrations\<close> written where the statement meets them; a service method is a function
  that returns \<^typ>\<open>apierr + 'a\<close>: the error the caller sees, which rolls the transaction back, or
  the result with the new database. Early returns are \<open>ensure\<close>, fallible calls are \<open>bindE\<close>, loops
  that stop at the first error are \<open>foldE\<close> or a structural recursion. An \<^verbatim>\<open>int64\<close> is an
  \<^typ>\<open>int\<close> with the wrap-around written out (\<open>add64\<close>, \<open>mul64\<close>, \<open>quot64\<close>). What the code takes
  from outside, a new public id, the clock, a hash, a hook, a handler, is an argument.

  \<^bold>\<open>The theories.\<close>
  \<^item> \<^verbatim>\<open>Go_Prelude\<close>: integers, errors, decimal text and list lemmas; \<^verbatim>\<open>Lifecycle\<close>: the contract of a
    status machine with final states (a locale).
  \<^item> \<^verbatim>\<open>Money\<close> (\<^verbatim>\<open>platform/money\<close>): parsing and printing of amounts, basis points, rounding. The rounding is
    the nearest integer, halves away from zero; overflow panics except for one product; printing
    then parsing is the identity.
  \<^item> \<^verbatim>\<open>Shipment_State\<close> (\<^verbatim>\<open>shipment/state.go\<close>): the 63 transitions and their index. The table is a
    lifecycle; deliveries pass both receipts; a return never comes back.
  \<^item> \<^verbatim>\<open>Commission_Calc\<close> (\<^verbatim>\<open>commission/calculator.go\<close>): fixed, percentage and slab commissions. An accepted
    slab table (locale \<open>band_table\<close>) pays exactly one band for every value.
  \<^item> \<^verbatim>\<open>Sequences\<close> (\<^verbatim>\<open>shipment/awb.go\<close>, \<^verbatim>\<open>ops/ops.go\<close>): counters behind numbers and codes (locale
    \<open>sequence_allocator\<close>, two interpretations); numbers are never issued twice.
  \<^item> \<^verbatim>\<open>Principal\<close> (\<^verbatim>\<open>tenant/principal.go\<close>): permissions and scopes.
  \<^item> \<^verbatim>\<open>Ledger\<close> (\<^verbatim>\<open>ledger/ledger.go\<close>, \<^verbatim>\<open>reports.go\<close>, migration 0020): posting, reversal, accounts,
    periods, the commit-time balance trigger and the trial balance. Every history of calls keeps the
    books balanced and the entries append-only; a source posts once; a reversal undoes exactly.
  \<^item> \<^verbatim>\<open>Party_Balance\<close> (\<^verbatim>\<open>ledger/reports.go\<close>): the balance of a counterparty and the contract
    \<open>party_ledger\<close> that clients of the ledger rely on, discharged for \<open>Post\<close>.
  \<^item> \<^verbatim>\<open>Shipment_Transition\<close> (\<^verbatim>\<open>shipment/transition.go\<close>): the one engine that changes a shipment's status, with
    its compare-and-swap and its event log. Every reachable history replays to the current status.
  \<^item> \<^verbatim>\<open>Pricing\<close> (\<^verbatim>\<open>pricing/engine.go\<close>, \<^verbatim>\<open>insurance.go\<close>): a quote from rate tables to total, with
    freight, surcharges, insurance, discounts and tax.
  \<^item> \<^verbatim>\<open>Transactions\<close> (\<^verbatim>\<open>platform/database\<close>), \<^verbatim>\<open>Idempotency\<close> (\<^verbatim>\<open>platform/idempotency\<close>), \<^verbatim>\<open>Jobs\<close>
    (\<^verbatim>\<open>platform/jobs\<close>): retries, at-most-once execution and the job queue, the last two also as
    systems of concurrent processes with one step per database call.
  \<^item> \<^verbatim>\<open>COD\<close> (\<^verbatim>\<open>cod/cod.go\<close>): cash on delivery from the door to head office over \<open>Party_Balance\<close>.
    What the ledger says a custodian owes is what its obligations say, and where the code loses
    this, by how much.
  \<^item> \<^verbatim>\<open>Calendar\<close>: dates as numbers and the day after and before.
  \<^item> \<^verbatim>\<open>Journal_Book\<close>: the second contract of the ledger, \<open>journal_book\<close>: an abstract ledger is a map from
    sources to the live journal and its total; posting adds a source once, reversing removes it. It
    is discharged for \<open>Post\<close> and \<open>Reverse\<close>.
  \<^item> \<^verbatim>\<open>Commission\<close> (\<^verbatim>\<open>commission/commission.go\<close>, \<^verbatim>\<open>config.go\<close>, migration 0021): rules, effective-dated
    versions, resolution, calculation, posting and reversal of commissions. The most specific rule
    governs; one live calculation per shipment, type and recipient; the journals of commission in
    the ledger are exactly the posted calculations.
  \<^item> \<^verbatim>\<open>Settlement\<close> (\<^verbatim>\<open>settlement/settlement.go\<close>, \<^verbatim>\<open>adjustment.go\<close>, \<^verbatim>\<open>collection/collection.go\<close>, migrations 0023,
    0035): the tables, queries, triggers and methods of franchise statements over \<open>Commission\<close>;
    \<^verbatim>\<open>Statements\<close>: what any sequence of their calls keeps (lines, header and ledger agree, an approved
    statement is frozen, a commission is on one statement, payments stay within the net amount);
    \<^verbatim>\<open>Corrections\<close>: what recalculation repeats and what it loses, and the fate of late adjustments.
  \<^item> \<^verbatim>\<open>Billing\<close> (\<^verbatim>\<open>billing/billing.go\<close>, migration 0024): drafting, issuing, payments, credit and debit notes,
    numbering; \<^verbatim>\<open>Receivables\<close>: over \<open>Party_Balance\<close>, the balance of a customer in the ledger is what the
    documents say, the status of an invoice is a function of its amounts, and the outstanding
    amount the service reports differs from the ledger by stated terms; \<^verbatim>\<open>Invoicing\<close>: an issued invoice
    reconciles with its lines, shipments and taxes, and numbers have no gap.

  \<^bold>\<open>Bounds and termination.\<close> Every definition is total: loops over rows are structural, the transaction
  loop has the source's bound of three attempts, the loop that forces a job dead its bound of fifty.
  There is no fuel. Histories are reflexive transitive closures of call relations, without bound; a
  call that fails changes nothing, as its transaction rolls back, and is no step.

  \<^bold>\<open>Not modelled.\<close> HTTP handlers and JSON views, audit rows, metrics and logs, hashing, object storage,
  external providers, master data screens and read-only reports. Of the field operations (pickup,
  scanning, bagging, manifests, linehaul, hub work, delivery, returns) only what they ask of the
  shipment engine is here, as calls of \<open>Apply\<close> with arbitrary requests; their own tables are not.
  Of cash on delivery the counted reconciliations and disputes are left out, of the ledger the
  administration of periods and the account statements. Queries that no code calls have no
  definition. Concurrency inside one service call is the isolation of its transaction; where the code
  relies on a unique index to decide a race the index is part of the model.
\<close>

end
